(* ===== verification/Apm_Prelude.thy ===== *)
theory Apm_Prelude
  imports Complex_Main "HOL-Library.AList" "HOL-Library.Char_ord" "HOL-Library.List_Lexorder"
    "HOL-Library.Product_Lexorder" "HOL-Library.Multiset"
begin

text \<open>
  Shared ground of the development: the application's exceptions as values, the Python values
  that travel in dictionaries, the string and dictionary operations the sources use, and the
  lemma collections the component theories extend.

  \<^item> A Python \<open>str\<close> is a \<^typ>\<open>string\<close>, one \<^typ>\<open>char\<close> per code point below 256.
  \<^item> A \<open>datetime\<close> is an \<^typ>\<open>int\<close>, the microseconds since the epoch in UTC.
  \<^item> A \<open>dict\<close> is an association list in insertion order: \<open>d[k] = v\<close> is
    \<^const>\<open>AList.update\<close>, which keeps the position of a present key and appends a new one;
    \<open>d.get(k)\<close> is \<^const>\<open>map_of\<close>.
  \<^item> A raised exception is \<open>Inl\<close>, a normal return \<open>Inr\<close>; \<open>NoReturn\<close> marks a loop that does not end
    (it is proved never to be reached), \<open>OutsideModel\<close> a value these types cannot represent (a float that is not
    finite, a dictionary key that is no string, an ISO week date).
\<close>

named_theorems apm_simps "unfolding rules of small model definitions"
named_theorems apm_frame "facts about what an operation leaves unchanged"

section \<open>Exceptions\<close>

datatype error_code = INTERNAL | NOT_FOUND | VALIDATION | PERMISSION | PLUGIN_NOT_FOUND
  | CONFIG_ERROR | UPSTREAM_TIMEOUT | CONFLICT | UPSTREAM

datatype error = ValueError string | KeyError string | TypeError string | AttributeError string | IndexError
  | AssertionError string | ValidationError string | ZeroDivisionError
  | OverflowError string | HttpxError string | OutsideModel string
  | NoReturn | UniqueViolation string | AppException error_code string

type_synonym 'a res = "error + 'a"

fun bind_res :: "'a res \<Rightarrow> ('a \<Rightarrow> 'b res) \<Rightarrow> 'b res" where
  "bind_res (Inl e) f = Inl e"
| "bind_res (Inr x) f = f x"

lemma bind_res_Inr_iff [simp]:
  "bind_res r f = Inr y \<longleftrightarrow> (\<exists>x. r = Inr x \<and> f x = Inr y)"
  by (cases r) auto

lemma bind_res_Inl_iff:
  "bind_res r f = Inl e \<longleftrightarrow> r = Inl e \<or> (\<exists>x. r = Inr x \<and> f x = Inl e)"
  by (cases r) auto

lemma bind_res_cong [fundef_cong]:
  "r = r' \<Longrightarrow> (\<And>x. r' = Inr x \<Longrightarrow> f x = g x) \<Longrightarrow> bind_res r f = bind_res r' g"
  by (cases r') auto

text \<open>A loop whose body may raise: the first exception ends it.\<close>

fun mapM :: "('a \<Rightarrow> 'b res) \<Rightarrow> 'a list \<Rightarrow> 'b list res" where
  "mapM f [] = Inr []"
| "mapM f (x # xs) = bind_res (f x) (\<lambda>y. bind_res (mapM f xs) (\<lambda>ys. Inr (y # ys)))"

lemma mapM_Inr_iff: "mapM f xs = Inr ys \<longleftrightarrow> list_all2 (\<lambda>x y. f x = Inr y) xs ys"
  by (induction xs arbitrary: ys) (auto simp: list_all2_Cons1)

text \<open>The guard every store method opens with: an empty tenant is refused.\<close>

definition require_tenant :: "string \<Rightarrow> 'a res \<Rightarrow> 'a res" where
  "require_tenant tenant_id r =
     (if tenant_id = [] then Inl (ValueError ''tenant_id is required'') else r)"

lemma require_tenant_simps [simp]:
  "require_tenant [] r = Inl (ValueError ''tenant_id is required'')"
  "t \<noteq> [] \<Longrightarrow> require_tenant t r = r"
  by (simp_all add: require_tenant_def)

lemma require_tenant_Inr [simp]: "require_tenant t r = Inr x \<longleftrightarrow> t \<noteq> [] \<and> r = Inr x"
  by (simp add: require_tenant_def)

section \<open>Python values\<close>

type_synonym time = int

datatype pyval = PNone | PBool bool | PInt int | PFloat rat | PStr string | PTime time
  | PList "pyval list" | PDict "(string \<times> pyval) list"

type_synonym pydict = "(string \<times> pyval) list"

definition py_get :: "pydict \<Rightarrow> string \<Rightarrow> pyval" where
  "py_get d k = (case map_of d k of None \<Rightarrow> PNone | Some v \<Rightarrow> v)"

definition py_get_or :: "pydict \<Rightarrow> string \<Rightarrow> pyval \<Rightarrow> pyval" where
  "py_get_or d k v = (case map_of d k of None \<Rightarrow> v | Some w \<Rightarrow> w)"

text \<open>Truth value of a Python value, as \<open>if v\<close>, \<open>not v\<close> and \<open>v or w\<close> see it.\<close>

fun truthy :: "pyval \<Rightarrow> bool" where
  "truthy PNone = False"
| "truthy (PBool b) = b"
| "truthy (PInt i) = (i \<noteq> 0)"
| "truthy (PFloat r) = (r \<noteq> 0)"
| "truthy (PStr s) = (s \<noteq> [])"
| "truthy (PTime t) = True"
| "truthy (PList xs) = (xs \<noteq> [])"
| "truthy (PDict d) = (d \<noteq> [])"

section \<open>Strings\<close>

definition py_space :: "char \<Rightarrow> bool" where
  "py_space c = (let n = (of_char c :: nat) in
     9 \<le> n \<and> n \<le> 13 \<or> 28 \<le> n \<and> n \<le> 32 \<or> n = 133 \<or> n = 160)"

definition strip :: "string \<Rightarrow> string" where
  "strip s = rev (dropWhile py_space (rev (dropWhile py_space s)))"

fun split_on :: "char \<Rightarrow> string \<Rightarrow> string list" where
  "split_on c [] = [[]]"
| "split_on c (x # xs) =
     (if x = c then [] # split_on c xs
      else (case split_on c xs of [] \<Rightarrow> [[x]] | y # ys \<Rightarrow> (x # y) # ys))"

fun join :: "string \<Rightarrow> string list \<Rightarrow> string" where
  "join sep [] = []"
| "join sep [x] = x"
| "join sep (x # y # zs) = x @ sep @ join sep (y # zs)"

lemma split_on_nonempty [simp]: "split_on c s \<noteq> []"
  by (induction s) (auto split: list.splits)

lemma join_Cons: "xs \<noteq> [] \<Longrightarrow> join sep (x # xs) = x @ sep @ join sep xs"
  by (cases xs) auto

lemma join_split_on: "join [c] (split_on c s) = s"
proof (induction s)
  case Nil
  then show ?case by simp
next
  case (Cons x xs)
  obtain y ys where "split_on c xs = y # ys" by (cases "split_on c xs") auto
  with Cons show ?case by (cases ys) auto
qed

lemma split_on_free: "c \<notin> set s \<Longrightarrow> split_on c s = [s]"
  by (induction s) auto

lemma split_on_append: "c \<notin> set s \<Longrightarrow> split_on c (s @ c # t) = s # split_on c t"
  by (induction s) auto

lemma split_on_join:
  "xs \<noteq> [] \<Longrightarrow> (\<And>x. x \<in> set xs \<Longrightarrow> c \<notin> set x) \<Longrightarrow> split_on c (join [c] xs) = xs"
proof (induction xs rule: induct_list012)
  case (3 x y zs)
  then show ?case by (simp add: split_on_append)
qed (auto simp: split_on_free)

lemma split_on_parts_free: "p \<in> set (split_on c s) \<Longrightarrow> c \<notin> set p"
  by (induction s arbitrary: p) (auto split: list.splits if_splits)

text \<open>\<open>s.split(sep, 1)[1]\<close> where the separator occurs: what follows its first occurrence.\<close>

definition after_first :: "char \<Rightarrow> string \<Rightarrow> string" where
  "after_first c s = drop 1 (dropWhile (\<lambda>x. x \<noteq> c) s)"

text \<open>Decimal rendering of integers, and the zero-padded \<open>{n:04d}\<close>.\<close>

fun show_nat :: "nat \<Rightarrow> string" where
  "show_nat n = (if n < 10 then [char_of (48 + n)] else show_nat (n div 10) @ [char_of (48 + n mod 10)])"

declare show_nat.simps [simp del]

definition show_int :: "int \<Rightarrow> string" where
  "show_int i = (if i < 0 then ''-'' @ show_nat (nat (- i)) else show_nat (nat i))"

definition zfill :: "nat \<Rightarrow> string \<Rightarrow> string" where
  "zfill w s = replicate (w - length s) (CHR ''0'') @ s"

text \<open>The value a digit string denotes, the inverse of \<^const>\<open>show_nat\<close> up to leading zeros.\<close>

definition dig :: "char \<Rightarrow> nat" where
  "dig c = of_char c - 48"

fun read_digits :: "nat \<Rightarrow> string \<Rightarrow> nat" where
  "read_digits a [] = a"
| "read_digits a (c # cs) = read_digits (a * 10 + dig c) cs"

lemma read_digits_append: "read_digits a (s @ t) = read_digits (read_digits a s) t"
  by (induction s arbitrary: a) auto

lemma dig_char [simp]: "d < 10 \<Longrightarrow> dig (char_of (48 + d)) = d"
  by (simp add: dig_def of_char_of)

lemma read_show_nat: "read_digits 0 (show_nat n) = n"
proof (induction n rule: show_nat.induct)
  case (1 n)
  show ?case
  proof (cases "n < 10")
    case True
    then show ?thesis by (simp add: show_nat.simps [of n])
  next
    case False
    with 1 have "read_digits 0 (show_nat (n div 10)) = n div 10" by simp
    with False show ?thesis by (simp add: show_nat.simps [of n] read_digits_append)
  qed
qed

lemma read_digits_zeros: "read_digits 0 (replicate k (CHR ''0'') @ s) = read_digits 0 s"
  by (induction k) (auto simp: dig_def)

lemma read_zfill: "read_digits 0 (zfill w (show_nat n)) = n"
  by (simp add: zfill_def read_digits_zeros read_show_nat)

lemma zfill_show_nat_inj: "zfill w (show_nat m) = zfill w (show_nat n) \<Longrightarrow> m = n"
  by (metis read_zfill)

lemma length_zfill: "length (zfill w s) = max w (length s)"
  by (simp add: zfill_def)

section \<open>Lists and dictionaries\<close>

text \<open>Order-preserving removal of later duplicates, the effect of a \<open>seen\<close> set in a loop.\<close>

fun dedup :: "'a list \<Rightarrow> 'a set \<Rightarrow> 'a list" where
  "dedup [] seen = []"
| "dedup (x # xs) seen = (if x \<in> seen then dedup xs seen else x # dedup xs (insert x seen))"

lemma set_dedup: "set (dedup xs seen) = set xs - seen"
  by (induction xs arbitrary: seen) auto

lemma distinct_dedup: "distinct (dedup xs seen)"
  by (induction xs arbitrary: seen) (auto simp: set_dedup)

text \<open>\<open>sorted({...})\<close>: the elements of a list once each, in order.\<close>

definition sorted_set :: "'a::linorder list \<Rightarrow> 'a list" where
  "sorted_set xs = sort (remdups xs)"

lemma sorted_set_props [simp]:
  "set (sorted_set xs) = set xs" "sorted (sorted_set xs)" "distinct (sorted_set xs)"
  by (simp_all add: sorted_set_def)

lemma sorted_set_Nil_iff [simp]: "sorted_set xs = [] \<longleftrightarrow> xs = []"
  by (metis set_empty sorted_set_props(1))

lemma sorted_set_cong: "set xs = set ys \<Longrightarrow> sorted_set xs = sorted_set ys"
  by (simp add: sorted_distinct_set_unique)

lemma sort_mset_cong: "mset xs = mset ys \<Longrightarrow> sort xs = sort (ys :: 'a::linorder list)"
  by (metis mset_sort properties_for_sort sorted_sort)

text \<open>\<open>rows.sort(key=f, reverse=True)\<close>: a stable sort, so equal keys keep their order.\<close>

definition sort_desc :: "('a \<Rightarrow> int) \<Rightarrow> 'a list \<Rightarrow> 'a list" where
  "sort_desc f xs = sort_key (\<lambda>x. - f x) xs"

lemma sort_desc_props [simp]:
  "set (sort_desc f xs) = set xs" "mset (sort_desc f xs) = mset xs"
  "length (sort_desc f xs) = length xs"
  by (simp_all add: sort_desc_def)

lemma sort_desc_sorted: "sorted_wrt (\<lambda>x y. f y \<le> f x) (sort_desc f xs)"
proof -
  have "sorted (map (\<lambda>x. - f x) (sort_desc f xs))" by (simp add: sort_desc_def)
  then show ?thesis by (simp add: sorted_map)
qed

lemma map_of_update: "map_of (AList.update k v d) = (map_of d)(k \<mapsto> v)"
  by (rule update_conv')

lemma dict_keys_update: "set (map fst (AList.update k v d)) = insert k (set (map fst d))"
  by (simp add: dom_update)

lemma distinct_keys_update: "distinct (map fst d) \<Longrightarrow> distinct (map fst (AList.update k v d))"
  by (rule distinct_update)

text \<open>A dictionary loop that rewrites some of the values in place.\<close>

definition map_vals :: "('k \<Rightarrow> 'v \<Rightarrow> 'v) \<Rightarrow> ('k \<times> 'v) list \<Rightarrow> ('k \<times> 'v) list" where
  "map_vals f d = map (\<lambda>(k, v). (k, f k v)) d"

lemma map_of_map_vals: "map_of (map_vals f d) k = map_option (f k) (map_of d k)"
  by (induction d) (auto simp: map_vals_def)

lemma keys_map_vals [simp]: "map fst (map_vals f d) = map fst d"
  by (auto simp: map_vals_def)

text \<open>Rows stored under their own key, no key twice: a table and its primary key. The values
  of such a dictionary are the rows of the table.\<close>

definition keyed :: "('v \<Rightarrow> 'k) \<Rightarrow> ('k \<times> 'v) list \<Rightarrow> bool" where
  "keyed key d \<longleftrightarrow> distinct (map fst d) \<and> (\<forall>x \<in> set d. fst x = key (snd x))"

lemma keyed_Nil [simp]: "keyed key []"
  by (simp add: keyed_def)

lemma keyed_Cons: "keyed key (x # d) \<longleftrightarrow> fst x = key (snd x) \<and> fst x \<notin> fst ` set d \<and> keyed key d"
  by (auto simp: keyed_def)

lemma keyed_get: "keyed key d \<Longrightarrow> map_of d k = Some v \<Longrightarrow> key v = k"
  by (induction d) (auto simp: keyed_Cons split: if_splits)

lemma keyed_update: "keyed key d \<Longrightarrow> key v = k \<Longrightarrow> keyed key (AList.update k v d)"
proof (induction d)
  case (Cons x d)
  have "fst ` set (AList.update k v d) = insert k (fst ` set d)" using dict_keys_update [of k v d] by simp
  with Cons show ?case by (cases x) (auto simp: keyed_Cons image_iff)
qed (simp add: keyed_def)

lemma keyed_find: "keyed key d \<Longrightarrow> map_of d k = List.find (\<lambda>r. key r = k) (map snd d)"
  by (induction d) (auto simp: keyed_Cons)

lemma keyed_keys: "keyed key d \<Longrightarrow> map fst d = map key (map snd d)"
  by (simp add: keyed_def)

lemma map_of_absent: "map_of d k = None \<longleftrightarrow> k \<notin> fst ` set d"
  by (simp add: map_of_eq_None_iff)

lemma update_absent: "k \<notin> fst ` set d \<Longrightarrow> AList.update k v d = d @ [(k, v)]"
  by (induction d) auto

text \<open>\<open>UPDATE ... SET ... WHERE key = k\<close> on the rows is an update of the entry.\<close>

definition update_where :: "('v \<Rightarrow> bool) \<Rightarrow> ('v \<Rightarrow> 'v) \<Rightarrow> 'v list \<Rightarrow> 'v list" where
  "update_where P f rows = map (\<lambda>r. if P r then f r else r) rows"

lemma update_where_none: "(\<And>r. r \<in> set rows \<Longrightarrow> \<not> P r) \<Longrightarrow> update_where P f rows = rows"
  by (auto simp: update_where_def intro: map_idI)

lemma keyed_update_values:
  "keyed key d \<Longrightarrow> map_of d k = Some v
     \<Longrightarrow> map snd (AList.update k (f v) d) = update_where (\<lambda>r. key r = k) f (map snd d)"
proof (induction d)
  case (Cons x d)
  show ?case
  proof (cases "fst x = k")
    case True
    have "update_where (\<lambda>r. key r = k) f (map snd d) = map snd d"
    proof (rule update_where_none)
      fix r assume "r \<in> set (map snd d)"
      then obtain y where "y \<in> set d" "snd y = r" by auto
      with Cons.prems(1) True show "key r \<noteq> k" by (auto simp: keyed_Cons) (auto simp: keyed_def image_iff)
    qed
    with True Cons.prems show ?thesis by (cases x) (simp add: update_where_def keyed_Cons)
  next
    case False
    with Cons show ?thesis by (cases x) (auto simp: update_where_def keyed_Cons)
  qed
qed simp

lemma keyed_absent_values:
  "keyed key d \<Longrightarrow> map_of d k = None \<Longrightarrow> update_where (\<lambda>r. key r = k) f (map snd d) = map snd d"
  by (rule update_where_none) (auto simp: keyed_def map_of_absent image_iff)

text \<open>\<open>counter[k] += n\<close> on a \<open>defaultdict(int)\<close>.\<close>

definition bump_count :: "'k \<Rightarrow> nat \<Rightarrow> ('k \<times> nat) list \<Rightarrow> ('k \<times> nat) list" where
  "bump_count k n d = AList.update k ((case map_of d k of None \<Rightarrow> 0 | Some c \<Rightarrow> c) + n) d"

definition count_of :: "('k \<times> nat) list \<Rightarrow> 'k \<Rightarrow> nat" where
  "count_of d k = (case map_of d k of None \<Rightarrow> 0 | Some c \<Rightarrow> c)"

lemma count_of_bump: "count_of (bump_count k n d) j = count_of d j + (if j = k then n else 0)"
  by (simp add: count_of_def bump_count_def map_of_update)

lemma count_of_fold_bump:
  "count_of (fold (\<lambda>x. bump_count (f x) 1) xs d) k = count_of d k + length (filter (\<lambda>x. f x = k) xs)"
  by (induction xs arbitrary: d) (auto simp: count_of_bump)

section \<open>Binary floating point\<close>

text \<open>A Python \<open>float\<close> is a \<^typ>\<open>rat\<close> with a 53 bit significand. Arithmetic rounds the exact result with
  \<open>fl\<close>, to nearest and ties to even; comparisons are exact, also between \<open>int\<close> and \<open>float\<close>. NaN,
  infinities and the subnormal range are outside the model.\<close>

fun bit_len :: "int \<Rightarrow> int" where
  "bit_len n = (if n \<le> 0 then 0 else bit_len (n div 2) + 1)"

declare bit_len.simps [simp del]

definition pow2 :: "int \<Rightarrow> rat" where
  "pow2 e = (if 0 \<le> e then 2 ^ nat e else 1 / 2 ^ nat (- e))"

text \<open>The exponent \<open>e\<close> with \<open>2\<^sup>e \<le> \<bar>x\<bar> < 2\<^sup>e\<^sup>+\<^sup>1\<close>.\<close>

definition exponent2 :: "rat \<Rightarrow> int" where
  "exponent2 x = (let (a, b) = quotient_of \<bar>x\<bar>; e = bit_len a - bit_len b
     in if pow2 e \<le> \<bar>x\<bar> then e else e - 1)"

definition round_even :: "rat \<Rightarrow> int" where
  "round_even x = (let n = \<lfloor>x\<rfloor>; d = x - of_int n in
     if d < 1 / 2 then n else if 1 / 2 < d then n + 1 else if even n then n else n + 1)"

definition fl :: "rat \<Rightarrow> rat" where
  "fl x = (if x = 0 then 0
     else let s = pow2 (exponent2 x - 52) in of_int (round_even (x / s)) * s)"

lemma pow2_pos [simp]: "0 < pow2 e"
  by (simp add: pow2_def)

lemma round_even_nonneg: "0 \<le> x \<Longrightarrow> 0 \<le> round_even x"
  by (auto simp: round_even_def Let_def)

lemma fl_0 [simp]: "fl 0 = 0"
  by (simp add: fl_def)

lemma fl_nonneg: "0 \<le> x \<Longrightarrow> 0 \<le> fl x"
  by (auto simp: fl_def Let_def intro!: mult_nonneg_nonneg round_even_nonneg divide_nonneg_pos
      less_imp_le [OF pow2_pos])

text \<open>\<open>repr\<close> of a float: the shortest decimal that rounds back to it, closest first; positional
  notation for exponents between -4 and 16.\<close>

definition pow10 :: "int \<Rightarrow> rat" where
  "pow10 e = (if 0 \<le> e then 10 ^ nat e else 1 / 10 ^ nat (- e))"

text \<open>The number of digits before the decimal point, from an estimate on the binary exponent.\<close>

definition decpt :: "rat \<Rightarrow> int" where
  "decpt x = (let e = exponent2 x * 30103 div 100000 in
     if x < pow10 e then e else if x < pow10 (e + 1) then e + 1 else e + 2)"

fun shortest :: "rat \<Rightarrow> int \<Rightarrow> nat \<Rightarrow> nat \<Rightarrow> int \<times> nat" where
  "shortest x d n 0 = (round_even (x / pow10 (d - int n)), n)"
| "shortest x d n (Suc k) =
     (let m = round_even (x / pow10 (d - int n)) in
      if fl (of_int m * pow10 (d - int n)) = x then (m, n) else shortest x d (Suc n) k)"

fun digits :: "int \<Rightarrow> string" where
  "digits i = (if i < 10 then [char_of (48 + i)] else digits (i div 10) @ [char_of (48 + i mod 10)])"

declare digits.simps [simp del]

definition strip_zeros :: "string \<Rightarrow> string" where
  "strip_zeros s = rev (dropWhile (\<lambda>c. c = CHR ''0'') (rev s))"

definition float_repr :: "rat \<Rightarrow> string" where
  "float_repr x =
     (if x = 0 then ''0.0''
      else let a = \<bar>x\<bar>; (m, n) = shortest a (decpt a) 1 16; ds = digits m;
               dp = decpt a + (int (length ds) - int n); digs = strip_zeros ds;
               body = (if - 4 < dp \<and> dp \<le> 16
                 then (if dp \<le> 0 then ''0.'' @ replicate (nat (- dp)) (CHR ''0'') @ digs
                       else if int (length digs) \<le> dp
                       then digs @ replicate (nat dp - length digs) (CHR ''0'') @ ''.0''
                       else take (nat dp) digs @ ''.'' @ drop (nat dp) digs)
                 else take 1 digs @ (if length digs = 1 then [] else ''.'' @ drop 1 digs)
                   @ ''e'' @ (if dp - 1 < 0 then ''-'' else ''+'') @ zfill 2 (show_nat (nat \<bar>dp - 1\<bar>)))
           in (if x < 0 then ''-'' else []) @ body)"

section \<open>Dates\<close>

text \<open>The proleptic Gregorian date of a day number (day 0 is 1970-01-01), by eras of 400 years that begin
  in March, and the renderings of a UTC time the sources use.\<close>

definition civil :: "int \<Rightarrow> int \<times> int \<times> int" where
  "civil z0 = (let z = z0 + 719468; era = z div 146097; doe = z mod 146097;
     yoe = (doe - doe div 1460 + doe div 36524 - doe div 146096) div 365;
     doy = doe - (365 * yoe + yoe div 4 - yoe div 100);
     mp = (5 * doy + 2) div 153; d = doy - (153 * mp + 2) div 5 + 1;
     m = (if mp < 10 then mp + 3 else mp - 9);
     y = yoe + era * 400 + (if m \<le> 2 then 1 else 0)
   in (y, m, d))"

definition usec_per_day :: int where "usec_per_day = 86400000000"

definition pad :: "nat \<Rightarrow> int \<Rightarrow> string" where
  "pad w i = zfill w (show_nat (nat i))"

text \<open>\<open>t.strftime("%Y%m%d")\<close>\<close>

definition date_key :: "time \<Rightarrow> string" where
  "date_key t = (let (y, m, d) = civil (t div usec_per_day) in pad 4 y @ pad 2 m @ pad 2 d)"

text \<open>\<open>t.isoformat(sep)\<close> of an aware UTC time; \<open>str(t)\<close> is the same with a blank.\<close>

definition iso_time :: "char \<Rightarrow> time \<Rightarrow> string" where
  "iso_time sep t = (let (y, m, d) = civil (t div usec_per_day); r = t mod usec_per_day; sec = r div 1000000;
     us = r mod 1000000
   in pad 4 y @ ''-'' @ pad 2 m @ ''-'' @ pad 2 d @ [sep] @ pad 2 (sec div 3600) @ '':''
      @ pad 2 (sec mod 3600 div 60) @ '':'' @ pad 2 (sec mod 60)
      @ (if us = 0 then [] else ''.'' @ pad 6 us) @ ''+00:00'')"

end
