(* ===== verification/Apm_Models.thy ===== *)
theory Apm_Models
  imports Apm_Prelude
begin

text \<open>
  The contract layer \<open>models/\<close>: signals, anomalies, problem records, detection rules, and the
  fingerprint functions of \<open>models/fingerprint.py\<close> on which deduplication and persistence rest.
  The pydantic models are records, their unions datatypes. \<open>hashlib.sha256(...).hexdigest()\<close> is
  the parameter \<open>sha\<close> of the functions that hash, so every fact holds for any hash function.
\<close>

section \<open>Signals (\<open>models/signal.py\<close>)\<close>

record metric_signal =
  ms_tenant_id :: string
  ms_service :: string
  ms_metric :: string
  ms_value :: rat
  ms_timestamp :: time
  ms_labels :: "(string \<times> string) list"

record log_signal =
  ls_tenant_id :: string
  ls_service :: string
  ls_level :: string
  ls_message :: string
  ls_stack_trace :: "string option"
  ls_timestamp :: time
  ls_trace_id :: "string option"
  ls_signature :: "string option"

record change_signal =
  cs_tenant_id :: string
  cs_service :: string
  cs_change_id :: string
  cs_type :: string
  cs_summary :: string
  cs_timestamp :: time

datatype signal = MetricSignal metric_signal | LogSignal log_signal | ChangeSignal change_signal

fun sig_service :: "signal \<Rightarrow> string" where
  "sig_service (MetricSignal m) = ms_service m"
| "sig_service (LogSignal l) = ls_service l"
| "sig_service (ChangeSignal c) = cs_service c"

fun sig_timestamp :: "signal \<Rightarrow> time" where
  "sig_timestamp (MetricSignal m) = ms_timestamp m"
| "sig_timestamp (LogSignal l) = ls_timestamp l"
| "sig_timestamp (ChangeSignal c) = cs_timestamp c"

fun sig_kind :: "signal \<Rightarrow> string" where
  "sig_kind (MetricSignal m) = ''metric''"
| "sig_kind (LogSignal l) = ''log''"
| "sig_kind (ChangeSignal c) = ''change''"

section \<open>Anomalies (\<open>models/anomaly.py\<close>)\<close>

record metric_anomaly =
  ma_tenant_id :: string
  ma_service :: string
  ma_metric :: string
  ma_value :: rat
  ma_baseline :: "rat option"
  ma_method :: string
  ma_severity :: string
  ma_detected_at :: time
  ma_labels :: "(string \<times> string) list"

record log_anomaly =
  la_tenant_id :: string
  la_service :: string
  la_level :: string
  la_signature :: string
  la_pattern :: string
  la_count :: nat
  la_first_seen :: time
  la_severity :: string
  la_detected_at :: "time option"
  la_trace_ids :: "string list"

datatype anomaly = MetricAnomaly metric_anomaly | LogAnomaly log_anomaly

fun an_service :: "anomaly \<Rightarrow> string" where
  "an_service (MetricAnomaly m) = ma_service m"
| "an_service (LogAnomaly l) = la_service l"

fun an_severity :: "anomaly \<Rightarrow> string" where
  "an_severity (MetricAnomaly m) = ma_severity m"
| "an_severity (LogAnomaly l) = la_severity l"

fun is_metric :: "anomaly \<Rightarrow> bool" where
  "is_metric (MetricAnomaly m) = True"
| "is_metric (LogAnomaly l) = False"

fun is_log :: "anomaly \<Rightarrow> bool" where
  "is_log (MetricAnomaly m) = False"
| "is_log (LogAnomaly l) = True"

lemma is_log_not_metric [simp]: "is_log a \<longleftrightarrow> \<not> is_metric a"
  by (cases a) auto

text \<open>\<open>[a for a in anomalies if a.kind == "metric"]\<close> and the same for logs.\<close>

definition metric_anoms :: "anomaly list \<Rightarrow> metric_anomaly list" where
  "metric_anoms as = concat (map (\<lambda>a. case a of MetricAnomaly m \<Rightarrow> [m] | LogAnomaly l \<Rightarrow> []) as)"

definition log_anoms :: "anomaly list \<Rightarrow> log_anomaly list" where
  "log_anoms as = concat (map (\<lambda>a. case a of MetricAnomaly m \<Rightarrow> [] | LogAnomaly l \<Rightarrow> [l]) as)"

lemma metric_anoms_simps [simp]:
  "metric_anoms [] = []"
  "metric_anoms (MetricAnomaly m # as) = m # metric_anoms as"
  "metric_anoms (LogAnomaly l # as) = metric_anoms as"
  by (simp_all add: metric_anoms_def)

lemma log_anoms_simps [simp]:
  "log_anoms [] = []"
  "log_anoms (MetricAnomaly m # as) = log_anoms as"
  "log_anoms (LogAnomaly l # as) = l # log_anoms as"
  by (simp_all add: log_anoms_def)

lemma set_metric_anoms: "m \<in> set (metric_anoms as) \<longleftrightarrow> MetricAnomaly m \<in> set as"
  by (auto simp: metric_anoms_def split: anomaly.splits)

lemma set_log_anoms: "l \<in> set (log_anoms as) \<longleftrightarrow> LogAnomaly l \<in> set as"
  by (auto simp: log_anoms_def split: anomaly.splits)

lemma mset_anoms_split:
  "mset (map MetricAnomaly (metric_anoms as) @ map LogAnomaly (log_anoms as)) = mset as"
proof (induction as)
  case (Cons a as)
  then show ?case by (cases a) auto
qed simp

section \<open>Python's \<open>repr\<close> of a list of string pairs\<close>

definition hexdig :: "nat \<Rightarrow> char" where
  "hexdig n = char_of (if n < 10 then 48 + n else 87 + n)"

definition unhex :: "char \<Rightarrow> nat" where
  "unhex c = (let n = (of_char c :: nat) in if n < 58 then n - 48 else n - 87)"

lemma unhex_hexdig [simp]: "n < 16 \<Longrightarrow> unhex (hexdig n) = n"
  by (auto simp: unhex_def hexdig_def of_char_of Let_def)

text \<open>\<open>str.isprintable\<close> on code points below 256.\<close>

definition printable :: "char \<Rightarrow> bool" where
  "printable c = (let n = (of_char c :: nat) in
     32 \<le> n \<and> n < 127 \<or> 161 \<le> n \<and> n \<noteq> 173)"

definition esc_char :: "char \<Rightarrow> char \<Rightarrow> string" where
  "esc_char q c =
     (if c = q \<or> c = CHR 0x5C then [CHR 0x5C, c]
      else if c = CHR 0x09 then [CHR 0x5C, CHR ''t'']
      else if c = CHR 0x0A then [CHR 0x5C, CHR ''n'']
      else if c = CHR 0x0D then [CHR 0x5C, CHR ''r'']
      else if printable c then [c]
      else (let n = (of_char c :: nat) in
            [CHR 0x5C, CHR ''x'', hexdig (n div 16), hexdig (n mod 16)]))"

definition repr_quote :: "string \<Rightarrow> char" where
  "repr_quote s = (if CHR 0x27 \<in> set s \<and> CHR 0x22 \<notin> set s then CHR 0x22 else CHR 0x27)"

definition repr_str :: "string \<Rightarrow> string" where
  "repr_str s = (let q = repr_quote s in q # concat (map (esc_char q) s) @ [q])"

definition repr_pair :: "string \<times> string \<Rightarrow> string" where
  "repr_pair p = ''('' @ repr_str (fst p) @ '', '' @ repr_str (snd p) @ '')''"

definition repr_items :: "(string \<times> string) list \<Rightarrow> string" where
  "repr_items xs = ''['' @ join '', '' (map repr_pair xs) @ '']''"

text \<open>The escapes form an unambiguous code: reading one back gives the character and the rest.\<close>

definition unesc :: "string \<Rightarrow> char \<times> string" where
  "unesc s = (if hd s \<noteq> CHR 0x5C then (hd s, tl s)
     else let c = hd (tl s); r = tl (tl s) in
       if c = CHR ''t'' then (CHR 0x09, r)
       else if c = CHR ''n'' then (CHR 0x0A, r)
       else if c = CHR ''r'' then (CHR 0x0D, r)
       else if c = CHR ''x'' then (char_of (16 * unhex (hd r) + unhex (hd (tl r))), tl (tl r))
       else (c, r))"

lemma unesc_esc_char: "q = CHR 0x27 \<or> q = CHR 0x22 \<Longrightarrow> unesc (esc_char q c @ u) = (c, u)"
proof -
  assume q: "q = CHR 0x27 \<or> q = CHR 0x22"
  have "(of_char c :: nat) < 256" by (rule nat_of_char_less_256)
  then have "(of_char c :: nat) div 16 < 16" by arith
  then have hex [simp]: "unhex (hexdig (of_char c div 16)) = of_char c div 16" by simp
  from q show ?thesis by (auto simp: unesc_def esc_char_def Let_def)
qed

lemma esc_char_head: "q = CHR 0x27 \<or> q = CHR 0x22 \<Longrightarrow> \<exists>h t. esc_char q c = h # t \<and> h \<noteq> q"
  by (auto simp: esc_char_def Let_def)

lemma esc_body_inj:
  assumes q: "q = CHR 0x27 \<or> q = CHR 0x22"
  shows "concat (map (esc_char q) s) @ q # u = concat (map (esc_char q) t) @ q # v \<Longrightarrow> s = t \<and> u = v"
proof (induction s arbitrary: t)
  case Nil
  then show ?case
    using esc_char_head [OF q] by (cases t) (auto, metis Cons_eq_append_conv list.inject)
next
  case (Cons c s)
  show ?case
  proof (cases t)
    case Nil
    with Cons.prems esc_char_head [OF q, of c] show ?thesis by auto
  next
    case (Cons d t')
    with Cons.prems have eq: "esc_char q c @ concat (map (esc_char q) s) @ q # u =
        esc_char q d @ concat (map (esc_char q) t') @ q # v"
      by simp
    then have "c = d" and "concat (map (esc_char q) s) @ q # u = concat (map (esc_char q) t') @ q # v"
      using unesc_esc_char [OF q] by (metis prod.inject)+
    with Cons.IH Cons show ?thesis by blast
  qed
qed

lemma repr_str_inj: "repr_str s @ u = repr_str t @ v \<Longrightarrow> s = t \<and> u = v"
proof -
  assume eq: "repr_str s @ u = repr_str t @ v"
  then have q: "repr_quote s = repr_quote t" by (simp add: repr_str_def Let_def)
  have "repr_quote t = CHR 0x27 \<or> repr_quote t = CHR 0x22" by (simp add: repr_quote_def)
  from esc_body_inj [OF this, of s u t v] eq q show ?thesis by (simp add: repr_str_def Let_def)
qed

lemma repr_pair_inj: "repr_pair p @ u = repr_pair r @ v \<Longrightarrow> p = r \<and> u = v"
  by (auto simp: repr_pair_def prod_eq_iff dest!: repr_str_inj)

lemma repr_pairs_inj:
  "join '', '' (map repr_pair xs) @ '']'' = join '', '' (map repr_pair ys) @ '']'' \<Longrightarrow> xs = ys"
proof (induction xs arbitrary: ys rule: induct_list012)
  case 1
  then show ?case by (cases ys; cases "tl ys") (auto simp: repr_pair_def)
next
  case (2 x)
  show ?case
  proof (cases ys rule: remdups_adj.cases)
    case 1
    with 2 show ?thesis by (simp add: repr_pair_def)
  next
    case ys: (2 y)
    with 2 repr_pair_inj [of x "'']''" y "'']''"] show ?thesis by simp
  next
    case (3 y z zs)
    with 2 have "repr_pair x @ '']'' = repr_pair y @ ('', '' @ join '', '' (map repr_pair (z # zs)) @ '']'')"
      by simp
    from repr_pair_inj [OF this] show ?thesis by simp
  qed
next
  case (3 x x' xs)
  show ?case
  proof (cases ys rule: remdups_adj.cases)
    case 1
    with 3 show ?thesis by (simp add: repr_pair_def)
  next
    case (2 y)
    with 3 have "repr_pair x @ ('', '' @ join '', '' (map repr_pair (x' # xs)) @ '']'') = repr_pair y @ '']''"
      by simp
    from repr_pair_inj [OF this] show ?thesis by simp
  next
    case ys: (3 y y' ys')
    with 3 have "repr_pair x @ ('', '' @ join '', '' (map repr_pair (x' # xs)) @ '']'') =
        repr_pair y @ ('', '' @ join '', '' (map repr_pair (y' # ys')) @ '']'')"
      by simp
    from repr_pair_inj [OF this] have "x = y"
      and "join '', '' (map repr_pair (x' # xs)) @ '']'' = join '', '' (map repr_pair (y' # ys')) @ '']''"
      by simp_all
    with 3(2) ys show ?thesis by blast
  qed
qed

lemma repr_items_inj: "repr_items xs = repr_items ys \<Longrightarrow> xs = ys"
  by (rule repr_pairs_inj) (simp add: repr_items_def)

section \<open>Fingerprints (\<open>models/fingerprint.py\<close>)\<close>

fun anomaly_raw :: "anomaly \<Rightarrow> string" where
  "anomaly_raw (MetricAnomaly a) = ''metric|'' @ ma_tenant_id a @ ''|'' @ ma_service a @ ''|''
     @ ma_metric a @ ''|'' @ repr_items (sort (ma_labels a))"
| "anomaly_raw (LogAnomaly a) = ''log|'' @ la_tenant_id a @ ''|'' @ la_service a @ ''|'' @ la_signature a"

definition anomaly_key :: "(string \<Rightarrow> string) \<Rightarrow> anomaly \<Rightarrow> string" where
  "anomaly_key sha a = take 16 (sha (anomaly_raw a))"

definition group_key :: "(string \<Rightarrow> string) \<Rightarrow> string \<Rightarrow> string \<Rightarrow> string \<Rightarrow> anomaly list \<Rightarrow> string" where
  "group_key sha tenant_id domain service anomalies =
     (let keys = sort (map (anomaly_key sha) anomalies);
          raw = tenant_id @ ''|'' @ domain @ ''|'' @ service @ ''|'' @ join ''|'' keys;
          h = take 12 (sha raw)
      in tenant_id @ '':'' @ domain @ '':'' @ service @ '':'' @ h)"

definition is_same_group :: "string \<Rightarrow> string \<Rightarrow> bool" where
  "is_same_group key_a key_b = (key_a = key_b)"

text \<open>What makes two anomalies the same problem: kind, tenant, service and metric with labels, or
  signature. Value, severity and times are not part of it.\<close>

datatype identity = MetricId string string string "(string \<times> string) list" | LogId string string string

fun anomaly_identity :: "anomaly \<Rightarrow> identity" where
  "anomaly_identity (MetricAnomaly a) =
     MetricId (ma_tenant_id a) (ma_service a) (ma_metric a) (sort (ma_labels a))"
| "anomaly_identity (LogAnomaly a) = LogId (la_tenant_id a) (la_service a) (la_signature a)"

fun pipe_free :: "anomaly \<Rightarrow> bool" where
  "pipe_free (MetricAnomaly a) = (CHR ''|'' \<notin> set (ma_tenant_id a) \<union> set (ma_service a) \<union> set (ma_metric a))"
| "pipe_free (LogAnomaly a) = (CHR ''|'' \<notin> set (la_tenant_id a) \<union> set (la_service a))"

lemma sep_inj:
  assumes "c \<notin> set a" and "c \<notin> set b" and "a @ c # u = b @ c # v"
  shows "a = b \<and> u = v"
proof -
  have "takeWhile (\<lambda>x. x \<noteq> c) (a @ c # u) = a" and "takeWhile (\<lambda>x. x \<noteq> c) (b @ c # v) = b"
    using assms(1,2) by (simp_all add: takeWhile_tail) (metis takeWhile_eq_all_conv append_Nil2)+
  with assms(3) show ?thesis by auto
qed

lemma anomaly_raw_identity: "anomaly_identity a = anomaly_identity b \<Longrightarrow> anomaly_raw a = anomaly_raw b"
  by (cases a; cases b) auto

section \<open>Problem records (\<open>models/record.py\<close>)\<close>

record correlation =
  co_related :: bool
  co_reason :: string

record verification =
  ve_passed :: bool
  ve_persistence_ok :: bool
  ve_resample_ok :: bool
  ve_false_positive_rate :: rat
  ve_final_severity :: string

record problem_record =
  pr_record_id :: string
  pr_source :: string
  pr_tenant_id :: string
  pr_domain :: string
  pr_state :: string
  pr_service :: string
  pr_instance :: "string option"
  pr_severity :: string
  pr_detected_at :: time
  pr_first_seen_at :: "time option"
  pr_last_seen_at :: "time option"
  pr_occurrence_count :: int
  pr_resolved_at :: "time option"
  pr_resolve_reason :: "string option"
  pr_symptom :: pydict
  pr_metric_anomalies :: "metric_anomaly list"
  pr_log_anomalies :: "log_anomaly list"
  pr_correlation :: correlation
  pr_change_related :: bool
  pr_recent_change :: "pydict option"
  pr_verification :: verification
  pr_evidence :: "pydict list"
  pr_trace_id :: "string option"
  pr_group_key_service :: "string option"

definition record_anoms :: "metric_anomaly list \<Rightarrow> log_anomaly list \<Rightarrow> anomaly list" where
  "record_anoms ms ls = map MetricAnomaly ms @ map LogAnomaly ls"

lemma mset_record_anoms_split: "mset (record_anoms (metric_anoms as) (log_anoms as)) = mset as"
  unfolding record_anoms_def by (rule mset_anoms_split)

text \<open>The property \<open>ProblemRecord.group_key\<close>; \<open>x or y\<close> takes \<open>y\<close> for \<open>None\<close> and for the empty string.\<close>

definition record_group_key :: "(string \<Rightarrow> string) \<Rightarrow> 'a problem_record_scheme \<Rightarrow> string" where
  "record_group_key sha r =
     group_key sha (pr_tenant_id r) (pr_domain r)
       (case pr_group_key_service r of None \<Rightarrow> pr_service r
        | Some s \<Rightarrow> if s = [] then pr_service r else s)
       (record_anoms (pr_metric_anomalies r) (pr_log_anomalies r))"

section \<open>Detection rules (\<open>models/config.py\<close>)\<close>

record detector_spec =
  ds_signal :: pyval
  ds_plugin :: string
  ds_params :: pydict
  ds_severity :: string

record suppressor_spec =
  ss_name :: string
  ss_params :: pydict

record correlation_spec =
  cp_metric_log_window_sec :: int
  cp_change_window_sec :: int

record verify_spec =
  vs_persistence_rounds :: int
  vs_false_positive_threshold :: rat
  vs_min_samples :: int

record domain_config =
  dc_detectors :: "detector_spec list"
  dc_suppressors :: "suppressor_spec list"
  dc_correlation :: correlation_spec
  dc_verify :: verify_spec

section \<open>Properties of the fingerprints\<close>

lemma group_key_mset:
  "mset as = mset bs \<Longrightarrow> group_key sha t d s as = group_key sha t d s bs"
proof -
  assume "mset as = mset bs"
  then have "sort (map (anomaly_key sha) as) = sort (map (anomaly_key sha) bs)"
    by (intro sort_mset_cong) simp
  then show ?thesis by (simp add: group_key_def Let_def)
qed

text \<open>Sample anomalies for the concrete instances of the properties.\<close>

definition sample_log :: "string \<Rightarrow> string \<Rightarrow> string list \<Rightarrow> log_anomaly" where
  "sample_log svc sig traces = \<lparr>la_tenant_id = ''t1'', la_service = svc, la_level = ''ERROR'', la_signature = sig,
     la_pattern = sig, la_count = 3, la_first_seen = 0, la_severity = ''warning'', la_detected_at = Some 0,
     la_trace_ids = traces\<rparr>"

definition sample_metric :: "string \<Rightarrow> string \<Rightarrow> (string \<times> string) list \<Rightarrow> metric_anomaly" where
  "sample_metric svc metric labels = \<lparr>ma_tenant_id = ''t1'', ma_service = svc, ma_metric = metric, ma_value = 95,
     ma_baseline = None, ma_method = ''static'', ma_severity = ''warning'', ma_detected_at = 0,
     ma_labels = labels\<rparr>"

text \<open>The raw key identifies an anomaly: provided no tenant, service or metric name contains the
  separator, two anomalies have the same raw key exactly when they agree on kind, tenant, service and
  signature (for a log) or metric and set of labels (for a metric). Value, count, severity and time
  never matter, and the rendering of the labels is injective.\<close>

theorem anomaly_raw_iff_identity:
  assumes "pipe_free a" and "pipe_free b"
  shows "anomaly_raw a = anomaly_raw b \<longleftrightarrow> anomaly_identity a = anomaly_identity b"
proof
  assume eq: "anomaly_raw a = anomaly_raw b"
  show "anomaly_identity a = anomaly_identity b"
  proof (cases a; cases b)
    fix m n assume [simp]: "a = MetricAnomaly m" "b = MetricAnomaly n"
    from eq have "ma_tenant_id m @ CHR ''|'' # (ma_service m @ CHR ''|'' # ma_metric m @ CHR ''|'' # repr_items (sort (ma_labels m)))
      = ma_tenant_id n @ CHR ''|'' # (ma_service n @ CHR ''|'' # ma_metric n @ CHR ''|'' # repr_items (sort (ma_labels n)))"
      by simp
    with assms show ?thesis by (auto dest!: sep_inj [rotated 2] repr_items_inj)
  next
    fix m n assume [simp]: "a = LogAnomaly m" "b = LogAnomaly n"
    from eq have "la_tenant_id m @ CHR ''|'' # (la_service m @ CHR ''|'' # la_signature m)
      = la_tenant_id n @ CHR ''|'' # (la_service n @ CHR ''|'' # la_signature n)"
      by simp
    with assms show ?thesis by (auto dest!: sep_inj [rotated 2])
  qed (use eq in auto)
qed (rule anomaly_raw_identity)

theorem anomaly_raw_iff_identity_witness:
  "anomaly_raw (MetricAnomaly (sample_metric ''api'' ''cpu'' [(''pod'', ''a'')]))
     \<noteq> anomaly_raw (MetricAnomaly (sample_metric ''api'' ''cpu'' [(''pod'', ''b'')]))"
  using anomaly_raw_iff_identity [of "MetricAnomaly (sample_metric ''api'' ''cpu'' [(''pod'', ''a'')])"
      "MetricAnomaly (sample_metric ''api'' ''cpu'' [(''pod'', ''b'')])"]
  by (simp add: sample_metric_def)

text \<open>The deduplication key of a group does not depend on the order in which its anomalies were
  detected, nor on their values, severities or times: groups with the same multiset of identities
  have the same key.\<close>

theorem group_key_identities:
  assumes "image_mset anomaly_identity (mset as) = image_mset anomaly_identity (mset bs)"
  shows "group_key sha tenant_id domain service as = group_key sha tenant_id domain service bs"
proof -
  define key where "key i = anomaly_key sha (inv anomaly_identity i)" for i
  have key: "anomaly_key sha a = key (anomaly_identity a)" for a
    using anomaly_raw_identity [of a "inv anomaly_identity (anomaly_identity a)"]
    by (simp add: key_def anomaly_key_def f_inv_into_f)
  then have fn: "anomaly_key sha = key \<circ> anomaly_identity" by (simp add: fun_eq_iff)
  have "mset (map (anomaly_key sha) as) = image_mset key (image_mset anomaly_identity (mset as))"
    by (simp add: fn multiset.map_comp)
  also have "\<dots> = mset (map (anomaly_key sha) bs)"
    unfolding assms by (simp add: fn multiset.map_comp)
  finally have "sort (map (anomaly_key sha) as) = sort (map (anomaly_key sha) bs)" by (rule sort_mset_cong)
  then show ?thesis by (simp add: group_key_def Let_def)
qed

theorem group_key_identities_witness:
  "group_key id ''t1'' ''apm'' ''api''
     [LogAnomaly (sample_log ''api'' ''boom'' []), MetricAnomaly (sample_metric ''api'' ''cpu'' [])]
   = group_key id ''t1'' ''apm'' ''api''
     [MetricAnomaly (sample_metric ''api'' ''cpu'' [] \<lparr>ma_value := 99\<rparr>), LogAnomaly (sample_log ''api'' ''boom'' [] \<lparr>la_count := 8\<rparr>)]"
  by (rule group_key_identities) (simp add: sample_log_def sample_metric_def add.commute)

end
