(* ===== verification/Apm_Grouping.thy ===== *)
theory Apm_Grouping
  imports Apm_Models
begin

text \<open>
  \<open>pipeline/grouping.py\<close>: the anomalies of a round are partitioned into incidents, the connected
  components of four linking rules, computed with a union-find forest with path compression.

  The forest is a \<^typ>\<open>nat list\<close> of parents. The two loops of \<open>find\<close> are
  \<^theory_text>\<open>partial_function (option)\<close>s: \<open>None\<close> is a loop that does not return or an index out of
  range, and the lemmas show that neither happens on the forests the program builds. The elements of
  a component carry their position in the input, which stands for the identity (\<open>id(a)\<close>) of the
  anomaly object.
\<close>

section \<open>\<open>_UnionFind\<close>\<close>

definition uf_init :: "nat \<Rightarrow> nat list" where
  "uf_init n = [0..<n]"

partial_function (option) uf_root :: "nat list \<Rightarrow> nat \<Rightarrow> nat option" where
  "uf_root p x =
     (if x < length p then (if p ! x \<noteq> x then uf_root p (p ! x) else Some x) else None)"

partial_function (option) uf_compress :: "nat list \<Rightarrow> nat \<Rightarrow> nat \<Rightarrow> nat list option" where
  "uf_compress p rt x =
     (if x < length p
      then (if p ! x \<noteq> rt then uf_compress (p[x := rt]) rt (p ! x) else Some p)
      else None)"

declare uf_root.simps [code] uf_compress.simps [code]

definition uf_find :: "nat list \<Rightarrow> nat \<Rightarrow> (nat \<times> nat list) option" where
  "uf_find p x = Option.bind (uf_root p x) (\<lambda>rt. map_option (Pair rt) (uf_compress p rt x))"

definition uf_union :: "nat list \<Rightarrow> nat \<Rightarrow> nat \<Rightarrow> nat list option" where
  "uf_union p a b =
     Option.bind (uf_find p a) (\<lambda>(ra, p1).
     Option.bind (uf_find p1 b) (\<lambda>(rb, p2).
       Some (if ra \<noteq> rb then p2[rb := ra] else p2)))"

section \<open>Edges and components\<close>

fun union_traces :: "nat list \<Rightarrow> nat \<Rightarrow> string list \<Rightarrow> (string \<rightharpoonup> nat)
    \<Rightarrow> (nat list \<times> (string \<rightharpoonup> nat)) option" where
  "union_traces p idx [] by_trace = Some (p, by_trace)"
| "union_traces p idx (tid # tids) by_trace =
     (case by_trace tid of
        Some j \<Rightarrow> Option.bind (uf_union p j idx) (\<lambda>p'. union_traces p' idx tids by_trace)
      | None \<Rightarrow> union_traces p idx tids (by_trace(tid \<mapsto> idx)))"

fun union_logs :: "nat list \<Rightarrow> (nat \<times> log_anomaly) list \<Rightarrow> (string \<rightharpoonup> nat) \<Rightarrow> (string \<rightharpoonup> nat)
    \<Rightarrow> nat list option" where
  "union_logs p [] by_signature by_trace = Some p"
| "union_logs p ((idx, a) # logs) by_signature by_trace =
     (case by_signature (la_signature a) of
        Some j \<Rightarrow> Option.bind (uf_union p j idx) (\<lambda>p'.
           Option.bind (union_traces p' idx (la_trace_ids a) by_trace) (\<lambda>(p2, bt).
             union_logs p2 logs by_signature bt))
      | None \<Rightarrow>
           Option.bind (union_traces p idx (la_trace_ids a) by_trace) (\<lambda>(p2, bt).
             union_logs p2 logs (by_signature(la_signature a \<mapsto> idx)) bt))"

fun union_metrics :: "nat list \<Rightarrow> (nat \<times> metric_anomaly) list \<Rightarrow> (string \<rightharpoonup> nat) \<Rightarrow> nat list option" where
  "union_metrics p [] anchors = Some p"
| "union_metrics p ((idx, m) # metrics) anchors =
     (case anchors (ma_service m) of
        Some anchor \<Rightarrow>
          (if anchor \<noteq> idx
           then Option.bind (uf_union p anchor idx) (\<lambda>p'. union_metrics p' metrics anchors)
           else union_metrics p metrics anchors)
      | None \<Rightarrow> union_metrics p metrics (anchors(ma_service m \<mapsto> idx)))"

fun log_roots :: "nat list \<Rightarrow> (nat \<times> log_anomaly) list \<Rightarrow> (string \<Rightarrow> nat list)
    \<Rightarrow> (nat list \<times> (string \<Rightarrow> nat list)) option" where
  "log_roots p [] roots = Some (p, roots)"
| "log_roots p ((idx, l) # logs) roots =
     Option.bind (uf_find p idx) (\<lambda>(r, p').
       log_roots p' logs (roots(la_service l := List.insert r (roots (la_service l)))))"

fun attach_metrics :: "nat list \<Rightarrow> (nat \<times> metric_anomaly) list \<Rightarrow> (string \<Rightarrow> nat list) \<Rightarrow> nat list option" where
  "attach_metrics p [] roots = Some p"
| "attach_metrics p ((idx, m) # metrics) roots =
     (case roots (ma_service m) of
        [r] \<Rightarrow> Option.bind (uf_union p r idx) (\<lambda>p'. attach_metrics p' metrics roots)
      | _ \<Rightarrow> attach_metrics p metrics roots)"

type_synonym component = "(nat \<times> anomaly) list"

fun components :: "nat list \<Rightarrow> (nat \<times> anomaly) list \<Rightarrow> (nat \<times> component) list \<Rightarrow> (nat \<times> nat) list
    \<Rightarrow> ((nat \<times> component) list \<times> (nat \<times> nat) list) option" where
  "components p [] comps first_index = Some (comps, first_index)"
| "components p ((idx, a) # as) comps first_index =
     Option.bind (uf_find p idx) (\<lambda>(rt, p').
       components p' as
         (AList.update rt ((case map_of comps rt of None \<Rightarrow> [] | Some g \<Rightarrow> g) @ [(idx, a)]) comps)
         (case map_of first_index rt of None \<Rightarrow> first_index @ [(rt, idx)] | Some _ \<Rightarrow> first_index))"

definition enum_logs :: "anomaly list \<Rightarrow> (nat \<times> log_anomaly) list" where
  "enum_logs as = concat (map (\<lambda>(i, a). case a of LogAnomaly l \<Rightarrow> [(i, l)] | MetricAnomaly m \<Rightarrow> [])
     (enumerate 0 as))"

definition enum_metrics :: "anomaly list \<Rightarrow> (nat \<times> metric_anomaly) list" where
  "enum_metrics as = concat (map (\<lambda>(i, a). case a of LogAnomaly l \<Rightarrow> [] | MetricAnomaly m \<Rightarrow> [(i, m)])
     (enumerate 0 as))"

definition group_forest :: "anomaly list \<Rightarrow> nat list option" where
  "group_forest as =
     Option.bind (union_logs (uf_init (length as)) (enum_logs as) Map.empty Map.empty) (\<lambda>p1.
     Option.bind (union_metrics p1 (enum_metrics as) Map.empty) (\<lambda>p2.
     Option.bind (log_roots p2 (enum_logs as) (\<lambda>_. [])) (\<lambda>(p3, roots).
       attach_metrics p3 (enum_metrics as) roots)))"

definition group_components :: "anomaly list \<Rightarrow> component list res" where
  "group_components as =
     (if as = [] then Inr []
      else case Option.bind (group_forest as) (\<lambda>p. components p (enumerate 0 as) [] []) of
        None \<Rightarrow> Inl NoReturn
      | Some (comps, first_index) \<Rightarrow>
          let groups = map (\<lambda>rt. the (map_of comps rt))
                (sort_key (\<lambda>r. the (map_of first_index r)) (map fst comps))
          in if sum_list (map length groups) \<noteq> length as
             then Inl (AssertionError ''not a partition: member count differs'')
             else if card (set (map fst (concat groups))) \<noteq> length as
             then Inl (AssertionError ''not a partition: duplicate member'')
             else Inr groups)"

definition group_anomalies :: "anomaly list \<Rightarrow> anomaly list list res" where
  "group_anomalies as = bind_res (group_components as) (\<lambda>gs. Inr (map (map snd) gs))"

definition group_services :: "anomaly list \<Rightarrow> string list" where
  "group_services grp = sorted_set (map an_service grp)"

definition representative_service :: "anomaly list \<Rightarrow> string" where
  "representative_service grp =
     (let services = group_services grp in if services = [] then ''unknown'' else hd services)"

section \<open>Correctness of the forest\<close>

text \<open>\<open>reach p n x r\<close>: following parents from \<open>x\<close> arrives at the root \<open>r\<close> in \<open>n\<close> steps.\<close>

inductive reach :: "nat list \<Rightarrow> nat \<Rightarrow> nat \<Rightarrow> nat \<Rightarrow> bool" for p where
  reach_root: "x < length p \<Longrightarrow> p ! x = x \<Longrightarrow> reach p 0 x x"
| reach_step: "x < length p \<Longrightarrow> p ! x \<noteq> x \<Longrightarrow> reach p n (p ! x) r \<Longrightarrow> reach p (Suc n) x r"

inductive_cases reach_0E: "reach p 0 x r"
inductive_cases reach_SucE: "reach p (Suc n) x r"

definition rooted :: "nat list \<Rightarrow> nat \<Rightarrow> nat \<Rightarrow> bool" where
  "rooted p x r = (\<exists>n. reach p n x r)"

definition uf_inv :: "nat list \<Rightarrow> bool" where
  "uf_inv p = (\<forall>x < length p. \<exists>r. rooted p x r)"

lemma reach_bounds: "reach p n x r \<Longrightarrow> x < length p \<and> r < length p \<and> p ! r = r"
  by (induction rule: reach.induct) auto

lemma reach_det: "reach p n x r \<Longrightarrow> reach p m x s \<Longrightarrow> r = s"
proof (induction arbitrary: m rule: reach.induct)
  case (reach_root x)
  from reach_root(3) show ?case by cases (use reach_root in auto)
next
  case (reach_step x n r)
  from reach_step(5) show ?case by cases (use reach_step in auto)
qed

lemma rooted_det: "rooted p x r \<Longrightarrow> rooted p x s \<Longrightarrow> r = s"
  by (auto simp: rooted_def dest: reach_det)

lemma rooted_bounds: "rooted p x r \<Longrightarrow> x < length p \<and> r < length p \<and> p ! r = r"
  by (auto simp: rooted_def dest: reach_bounds)

lemma rooted_self: "r < length p \<Longrightarrow> p ! r = r \<Longrightarrow> rooted p r r"
  by (auto simp: rooted_def intro: reach_root)

lemma rooted_root: "rooted p x r \<Longrightarrow> rooted p r r"
  by (auto dest: rooted_bounds intro: rooted_self)

lemma rooted_step: "x < length p \<Longrightarrow> p ! x \<noteq> x \<Longrightarrow> rooted p (p ! x) r \<Longrightarrow> rooted p x r"
  by (auto simp: rooted_def intro: reach_step)

lemma uf_root_eq: "rooted p x r \<Longrightarrow> uf_root p x = Some r"
proof -
  have "reach p n x r \<Longrightarrow> uf_root p x = Some r" for n
    by (induction rule: reach.induct) (simp_all add: uf_root.simps)
  then show "rooted p x r \<Longrightarrow> uf_root p x = Some r" by (auto simp: rooted_def)
qed

text \<open>Redirecting a node to its root keeps every root and lengthens no path.\<close>

lemma reach_compress:
  "reach p n y s \<Longrightarrow> rooted p x r \<Longrightarrow> \<exists>m \<le> n. reach (p[x := r]) m y s"
proof (induction rule: reach.induct)
  case (reach_root y)
  then have "p[x := r] ! y = y"
    by (metis nth_list_update_eq nth_list_update_neq rooted_det rooted_self)
  with reach_root show ?case by (metis length_list_update reach.reach_root order.refl)
next
  case (reach_step y n s)
  then obtain m where m: "m \<le> n" "reach (p[x := r]) m (p ! y) s" by blast
  show ?case
  proof (cases "y = x")
    case False
    with m reach_step have "reach (p[x := r]) (Suc m) y s"
      by (intro reach.reach_step) (auto simp: nth_list_update_neq)
    with m show ?thesis by (metis Suc_le_mono)
  next
    case True
    have "rooted p y s" unfolding rooted_def using reach_step(1-3) by (blast intro: reach.reach_step)
    with True reach_step have s: "s = r" by (auto dest: rooted_det)
    from reach_step have r: "r < length p" "p ! r = r" by (auto dest: rooted_bounds)
    with True reach_step have "r \<noteq> x" by auto
    with r True reach_step have "reach (p[x := r]) (Suc 0) y r"
      by (intro reach.reach_step reach.reach_root) (auto intro!: reach.reach_root)
    with s show ?thesis by (metis Suc_le_mono zero_le)
  qed
qed

lemma rooted_compress: "rooted p x r \<Longrightarrow> rooted p y s \<Longrightarrow> rooted (p[x := r]) y s"
  using reach_compress by (fastforce simp: rooted_def)

lemma uf_compress_ex:
  "reach p n x r \<Longrightarrow> \<exists>p'. uf_compress p r x = Some p' \<and> length p' = length p
     \<and> (\<forall>y s. rooted p y s \<longrightarrow> rooted p' y s)"
proof (induction n arbitrary: p x rule: less_induct)
  case (less n)
  from less.prems have x: "x < length p" by (auto dest: reach_bounds)
  show ?case
  proof (cases "p ! x = r")
    case True
    with x show ?thesis by (simp add: uf_compress.simps)
  next
    case False
    with less.prems obtain k where k: "n = Suc k" "reach p k (p ! x) r"
      by (cases rule: reach.cases) auto
    have px: "rooted p x r" using less.prems by (auto simp: rooted_def)
    from reach_compress [OF k(2) px] obtain m where "m \<le> k" "reach (p[x := r]) m (p ! x) r" by blast
    with less.IH k(1) obtain p' where p': "uf_compress (p[x := r]) r (p ! x) = Some p'"
      "length p' = length (p[x := r])" "\<forall>y s. rooted (p[x := r]) y s \<longrightarrow> rooted p' y s"
      by (meson le_imp_less_Suc)
    have "uf_compress p r x = Some p'"
      using False x p'(1) by (subst uf_compress.simps) simp
    with p' rooted_compress [OF px] show ?thesis by (metis length_list_update)
  qed
qed

lemma uf_find_ex:
  assumes "uf_inv p" and "x < length p"
  obtains r p' where "uf_find p x = Some (r, p')" and "rooted p x r" and "length p' = length p"
    and "uf_inv p'" and "\<forall>y s. rooted p' y s \<longleftrightarrow> rooted p y s"
proof -
  from assms obtain r where r: "rooted p x r" by (auto simp: uf_inv_def)
  then obtain n where "reach p n x r" by (auto simp: rooted_def)
  then obtain p' where p': "uf_compress p r x = Some p'" "length p' = length p"
    "\<forall>y s. rooted p y s \<longrightarrow> rooted p' y s"
    using uf_compress_ex by blast
  have eq: "\<forall>y s. rooted p' y s \<longleftrightarrow> rooted p y s"
    using p' assms(1) by (metis rooted_bounds rooted_det uf_inv_def)
  show ?thesis
  proof (rule that [OF _ r p'(2) _ eq])
    show "uf_find p x = Some (r, p')" by (simp add: uf_find_def uf_root_eq [OF r] p'(1))
    show "uf_inv p'" using assms(1) p'(2) eq by (simp add: uf_inv_def)
  qed
qed

text \<open>Linking root \<open>rb\<close> below root \<open>ra\<close> moves exactly the members of \<open>rb\<close>.\<close>

lemma rooted_link:
  assumes "ra < length p" "p ! ra = ra" "rb < length p" "p ! rb = rb" "ra \<noteq> rb"
  shows "rooted p y s \<Longrightarrow> rooted (p[rb := ra]) y (if s = rb then ra else s)"
proof -
  let ?q = "p[rb := ra]"
  have ra: "rooted ?q ra ra" using assms by (intro rooted_self) auto
  have "reach p n y s \<Longrightarrow> rooted ?q y (if s = rb then ra else s)" for n
  proof (induction rule: reach.induct)
    case (reach_root y)
    show ?case
    proof (cases "y = rb")
      case True
      with assms ra have "rooted ?q rb ra"
        using rooted_step [of rb ?q] by simp
      with True show ?thesis by simp
    next
      case False
      with reach_root show ?thesis by (simp add: rooted_self)
    qed
  next
    case (reach_step y n s)
    then have "y \<noteq> rb" using assms by auto
    with reach_step show ?case using rooted_step [of y ?q] by simp
  qed
  then show "rooted p y s \<Longrightarrow> rooted ?q y (if s = rb then ra else s)" by (auto simp: rooted_def)
qed

section \<open>Equivalence closures\<close>

definition eqcl :: "('a \<times> 'a) set \<Rightarrow> ('a \<times> 'a) set" where
  "eqcl E = (E \<union> E\<inverse>)\<^sup>*"

lemma eqcl_refl [simp]: "(x, x) \<in> eqcl E"
  by (simp add: eqcl_def)

lemma eqcl_sym: "(x, y) \<in> eqcl E \<Longrightarrow> (y, x) \<in> eqcl E"
  unfolding eqcl_def by (meson sym_Un_converse sym_rtrancl symD)

lemma eqcl_trans: "(x, y) \<in> eqcl E \<Longrightarrow> (y, z) \<in> eqcl E \<Longrightarrow> (x, z) \<in> eqcl E"
  unfolding eqcl_def by simp

lemma eqcl_base: "(x, y) \<in> E \<Longrightarrow> (x, y) \<in> eqcl E"
  unfolding eqcl_def by auto

lemma eqcl_least: "E \<subseteq> eqcl F \<Longrightarrow> eqcl E \<subseteq> eqcl F"
proof -
  assume "E \<subseteq> eqcl F"
  then have "E \<union> E\<inverse> \<subseteq> eqcl F" by (auto intro: eqcl_sym)
  then show ?thesis unfolding eqcl_def by (metis rtrancl_subset_rtrancl)
qed

lemma eqcl_eqI: "E \<subseteq> eqcl F \<Longrightarrow> F \<subseteq> eqcl E \<Longrightarrow> eqcl E = eqcl F"
  by (auto dest: eqcl_least)

lemma eqcl_mono: "E \<subseteq> F \<Longrightarrow> eqcl E \<subseteq> eqcl F"
  by (rule eqcl_least) (auto intro: eqcl_base)

lemma eqcl_Un_cong: "eqcl E = eqcl F \<Longrightarrow> eqcl (E \<union> G) = eqcl (F \<union> G)"
proof (rule eqcl_eqI)
  assume eq: "eqcl E = eqcl F"
  show "E \<union> G \<subseteq> eqcl (F \<union> G)"
    using eq eqcl_mono [of F "F \<union> G"] by (auto intro: eqcl_base)
  show "F \<union> G \<subseteq> eqcl (E \<union> G)"
    using eq eqcl_mono [of E "E \<union> G"] by (auto intro: eqcl_base)
qed

lemma eqcl_insert:
  "(x, y) \<in> eqcl (insert (a, b) E) \<longleftrightarrow> (x, y) \<in> eqcl E
     \<or> (x, a) \<in> eqcl E \<and> (b, y) \<in> eqcl E \<or> (x, b) \<in> eqcl E \<and> (a, y) \<in> eqcl E"
proof -
  have "insert (a, b) E \<union> (insert (a, b) E)\<inverse> = insert (a, b) (insert (b, a) (E \<union> E\<inverse>))" by auto
  then have "eqcl (insert (a, b) E) = (insert (a, b) (insert (b, a) (E \<union> E\<inverse>)))\<^sup>*" by (simp add: eqcl_def)
  then show ?thesis
    unfolding rtrancl_insert eqcl_def [symmetric]
    by (auto intro: eqcl_trans eqcl_sym)
qed

section \<open>What a forest represents\<close>

definition uf_repr :: "nat list \<Rightarrow> nat \<Rightarrow> (nat \<times> nat) set \<Rightarrow> bool" where
  "uf_repr p n E \<longleftrightarrow> length p = n \<and> uf_inv p
     \<and> (\<forall>x < n. \<forall>y < n. (\<exists>r. rooted p x r \<and> rooted p y r) \<longleftrightarrow> (x, y) \<in> eqcl E)"

lemma uf_repr_cong: "uf_repr p n E \<Longrightarrow> eqcl E = eqcl F \<Longrightarrow> uf_repr p n F"
  by (simp add: uf_repr_def)

lemma uf_repr_rooted_cong:
  "uf_repr p n E \<Longrightarrow> length p' = n \<Longrightarrow> uf_inv p' \<Longrightarrow> (\<And>y s. rooted p' y s \<longleftrightarrow> rooted p y s)
     \<Longrightarrow> uf_repr p' n E"
  by (simp add: uf_repr_def)

lemma uf_repr_init: "uf_repr (uf_init n) n {}"
proof -
  have *: "rooted (uf_init n) x r \<longleftrightarrow> x = r" if "x < n" for x r
    using that rooted_self [of x "uf_init n"] by (auto simp: uf_init_def dest: rooted_det)
  then show ?thesis by (auto simp: uf_repr_def uf_inv_def eqcl_def) (auto simp: uf_init_def)
qed

lemma uf_repr_find:
  assumes "uf_repr p n E" and "x < n"
  obtains r p' where "uf_find p x = Some (r, p')" and "rooted p x r" and "uf_repr p' n E"
    and "\<forall>y s. rooted p' y s \<longleftrightarrow> rooted p y s"
proof -
  from assms have n: "uf_inv p" "x < length p" "length p = n" by (auto simp: uf_repr_def)
  obtain r p' where f: "uf_find p x = Some (r, p')" "rooted p x r" "length p' = length p"
    "uf_inv p'" "\<forall>y s. rooted p' y s \<longleftrightarrow> rooted p y s"
    by (rule uf_find_ex [OF n(1,2)])
  from assms(1) have "uf_repr p' n E"
    by (rule uf_repr_rooted_cong) (use f n in auto)
  with f show ?thesis by (intro that)
qed

lemma uf_repr_link:
  assumes E: "uf_repr p n E" and a: "rooted p a ra" and b: "rooted p b rb" and ne: "ra \<noteq> rb"
  shows "uf_repr (p[rb := ra]) n (insert (a, b) E)"
proof -
  let ?q = "p[rb := ra]" and ?f = "\<lambda>s. if s = rb then ra else s"
  have link: "rooted p y s \<Longrightarrow> rooted ?q y (?f s)" for y s
    using a b ne by (intro rooted_link) (auto dest: rooted_bounds)
  have n: "length p = n" and inv: "uf_inv p" using E by (auto simp: uf_repr_def)
  have rt: "\<exists>s. rooted p x s" if "x < n" for x using that n inv by (auto simp: uf_inv_def)
  have cl: "(x, y) \<in> eqcl E \<longleftrightarrow> s = t" if st: "rooted p x s" "rooted p y t" for x y s t
  proof -
    have "x < n" "y < n" using st n by (auto dest: rooted_bounds)
    with E have "(x, y) \<in> eqcl E \<longleftrightarrow> (\<exists>r. rooted p x r \<and> rooted p y r)" by (simp add: uf_repr_def)
    with st show ?thesis by (auto dest: rooted_det)
  qed
  have "(\<exists>r. rooted ?q x r \<and> rooted ?q y r) \<longleftrightarrow> (x, y) \<in> eqcl (insert (a, b) E)"
    if "x < n" "y < n" for x y
  proof -
    from rt that obtain s t where st: "rooted p x s" "rooted p y t" by blast
    obtain u v where uv: "u = ?f s" "v = ?f t" by blast
    then have "rooted ?q x u" "rooted ?q y v" using link st by blast+
    then have "(\<exists>r. rooted ?q x r \<and> rooted ?q y r) \<longleftrightarrow> ?f s = ?f t"
      unfolding uv [symmetric] by (metis rooted_det)
    also have "\<dots> \<longleftrightarrow> s = t \<or> s = ra \<and> rb = t \<or> s = rb \<and> ra = t" using ne by auto
    also have "\<dots> \<longleftrightarrow> (x, y) \<in> eqcl (insert (a, b) E)"
      unfolding eqcl_insert cl [OF st] cl [OF st(1) a] cl [OF b st(2)] cl [OF st(1) b] cl [OF a st(2)]
      by auto
    finally show ?thesis .
  qed
  moreover have "uf_inv ?q" using link rt n unfolding uf_inv_def by (metis length_list_update)
  ultimately show ?thesis using n by (simp add: uf_repr_def)
qed

lemma uf_union_repr:
  assumes "uf_repr p n E" and "a < n" and "b < n"
  obtains p' where "uf_union p a b = Some p'" and "uf_repr p' n (insert (a, b) E)"
proof -
  obtain ra p1 where 1: "uf_find p a = Some (ra, p1)" "rooted p a ra" "uf_repr p1 n E"
    "\<forall>y s. rooted p1 y s \<longleftrightarrow> rooted p y s"
    by (rule uf_repr_find [OF assms(1,2)])
  obtain rb p2 where 2: "uf_find p1 b = Some (rb, p2)" "rooted p1 b rb" "uf_repr p2 n E"
    "\<forall>y s. rooted p2 y s \<longleftrightarrow> rooted p1 y s"
    by (rule uf_repr_find [OF 1(3) assms(3)])
  have roots: "rooted p2 a ra" "rooted p2 b rb" using 1 2 by simp_all
  show ?thesis
  proof (cases "ra = rb")
    case True
    with roots 2(3) assms(2,3) have "(a, b) \<in> eqcl E" by (auto simp: uf_repr_def)
    then have "eqcl E = eqcl (insert (a, b) E)" by (intro eqcl_eqI) (auto intro: eqcl_base)
    with 2(3) have "uf_repr p2 n (insert (a, b) E)" by (rule uf_repr_cong)
    with True 1 2 show ?thesis by (intro that) (simp_all add: uf_union_def)
  next
    case False
    with 1 2 uf_repr_link [OF 2(3) roots] show ?thesis by (intro that) (simp_all add: uf_union_def)
  qed
qed

fun uf_unions :: "nat list \<Rightarrow> (nat \<times> nat) list \<Rightarrow> nat list option" where
  "uf_unions p [] = Some p"
| "uf_unions p ((a, b) # es) = Option.bind (uf_union p a b) (\<lambda>p'. uf_unions p' es)"

lemma uf_unions_append:
  "uf_unions p (es @ fs) = Option.bind (uf_unions p es) (\<lambda>p'. uf_unions p' fs)"
  by (induction p es rule: uf_unions.induct) (auto split: option.splits bind_splits)

lemma uf_unions_repr:
  "uf_repr p n E \<Longrightarrow> (\<And>a b. (a, b) \<in> set es \<Longrightarrow> a < n \<and> b < n)
     \<Longrightarrow> \<exists>p'. uf_unions p es = Some p' \<and> uf_repr p' n (E \<union> set es)"
proof (induction es arbitrary: p E)
  case (Cons e es)
  obtain a b where e: "e = (a, b)" by (cases e)
  with Cons.prems have "a < n" "b < n" by auto
  with Cons.prems(1) obtain p' where p': "uf_union p a b = Some p'" "uf_repr p' n (insert (a, b) E)"
    by (rule uf_union_repr)
  from Cons.IH [OF p'(2)] Cons.prems(2) obtain p'' where
    "uf_unions p' es = Some p''" "uf_repr p'' n (insert (a, b) E \<union> set es)" by auto
  with p' e show ?case by auto
qed auto

section \<open>Joining the items that share a key\<close>

text \<open>All the joining loops have one shape: the first item with a key is remembered, each later one is
  joined to it. The edges of such a loop span the relation "shares a key".\<close>

fun key_edges :: "('k \<times> nat) list \<Rightarrow> ('k \<rightharpoonup> nat) \<Rightarrow> (nat \<times> nat) list" where
  "key_edges [] m = []"
| "key_edges ((k, i) # es) m =
     (case m k of Some j \<Rightarrow> (j, i) # key_edges es m | None \<Rightarrow> key_edges es (m(k \<mapsto> i)))"

fun key_map :: "('k \<times> nat) list \<Rightarrow> ('k \<rightharpoonup> nat) \<Rightarrow> ('k \<rightharpoonup> nat)" where
  "key_map [] m = m"
| "key_map ((k, i) # es) m = (case m k of Some j \<Rightarrow> key_map es m | None \<Rightarrow> key_map es (m(k \<mapsto> i)))"

definition key_link :: "('k \<times> nat) set \<Rightarrow> (nat \<times> nat) set" where
  "key_link es = {(i, j). \<exists>k. (k, i) \<in> es \<and> (k, j) \<in> es}"

lemma key_edges_append: "key_edges (xs @ ys) m = key_edges xs m @ key_edges ys (key_map xs m)"
  by (induction xs arbitrary: m) (auto split: option.splits)

lemma key_map_stable: "m k = Some j \<Longrightarrow> key_map es m k = Some j"
proof (induction es arbitrary: m)
  case (Cons e es)
  then show ?case by (cases e; cases "fst e = k") (auto split: option.splits)
qed simp

lemma key_edges_sound:
  "(j, i) \<in> set (key_edges es m) \<Longrightarrow> \<exists>k. (k, i) \<in> set es \<and> (m k = Some j \<or> (k, j) \<in> set es)"
proof (induction es arbitrary: m)
  case (Cons e es)
  obtain k i' where e: "e = (k, i')" by (cases e)
  show ?case
  proof (cases "m k")
    case None
    with e Cons.prems have "(j, i) \<in> set (key_edges es (m(k \<mapsto> i')))" by simp
    from Cons.IH [OF this] e show ?thesis by (auto split: if_splits)
  next
    case (Some j')
    with e Cons show ?thesis by fastforce
  qed
qed simp

lemma key_edges_complete:
  "(k, i) \<in> set es \<Longrightarrow> \<exists>j. key_map es m k = Some j \<and> (j, i) \<in> eqcl (set (key_edges es m))"
proof (induction es arbitrary: m)
  case (Cons e es)
  obtain k' i' where e: "e = (k', i')" by (cases e)
  show ?case
  proof (cases "m k'")
    case None
    show ?thesis
    proof (cases "(k, i) = (k', i')")
      case True
      with None e show ?thesis by (auto simp: key_map_stable)
    next
      case False
      with Cons.prems e have "(k, i) \<in> set es" by auto
      from Cons.IH [OF this, of "m(k' \<mapsto> i')"] None e show ?thesis by (simp del: fun_upd_apply)
    qed
  next
    case (Some j')
    have mono: "eqcl (set (key_edges es m)) \<subseteq> eqcl (set (key_edges ((k', i') # es) m))"
      using Some by (intro eqcl_mono) auto
    show ?thesis
    proof (cases "(k, i) = (k', i')")
      case True
      with Some e show ?thesis by (auto simp: key_map_stable intro: eqcl_base)
    next
      case False
      with Cons.prems e have "(k, i) \<in> set es" by auto
      from Cons.IH [OF this, of m] Some e mono show ?thesis by auto
    qed
  qed
qed simp

lemma key_edges_link: "eqcl (set (key_edges es Map.empty)) = eqcl (key_link (set es))"
proof (rule eqcl_eqI)
  show "set (key_edges es Map.empty) \<subseteq> eqcl (key_link (set es))"
    by (auto simp: key_link_def dest!: key_edges_sound intro!: eqcl_base)
  show "key_link (set es) \<subseteq> eqcl (set (key_edges es Map.empty))"
  proof clarify
    fix i j assume "(i, j) \<in> key_link (set es)"
    then obtain k where "(k, i) \<in> set es" "(k, j) \<in> set es" by (auto simp: key_link_def)
    with key_edges_complete [of k _ es Map.empty] show "(i, j) \<in> eqcl (set (key_edges es Map.empty))"
      by (metis eqcl_sym eqcl_trans option.inject)
  qed
qed

lemma key_edges_range:
  "(a, b) \<in> set (key_edges es Map.empty) \<Longrightarrow> a \<in> snd ` set es \<and> b \<in> snd ` set es"
  by (force dest: key_edges_sound)

end
