(* ===== verification/Apm_Incidents.thy ===== *)
theory Apm_Incidents
  imports Apm_Grouping
begin

text \<open>
  What \<open>group_anomalies\<close> computes, stated without the forest: the linking rules of the module's
  documentation as relations on positions of the input, \<open>incident\<close> their equivalence closure, and the
  proofs that the grouping loop returns exactly its classes, as a partition, in order of first member.
\<close>

section \<open>The linking rules\<close>

definition logs_at :: "anomaly list \<Rightarrow> (nat \<times> log_anomaly) set" where
  "logs_at as = {(i, l). i < length as \<and> as ! i = LogAnomaly l}"

definition metrics_at :: "anomaly list \<Rightarrow> (nat \<times> metric_anomaly) set" where
  "metrics_at as = {(i, m). i < length as \<and> as ! i = MetricAnomaly m}"

definition log_link :: "anomaly list \<Rightarrow> (nat \<times> nat) set" where
  "log_link as = {(i, j). \<exists>a b. (i, a) \<in> logs_at as \<and> (j, b) \<in> logs_at as
     \<and> (la_signature a = la_signature b \<or> set (la_trace_ids a) \<inter> set (la_trace_ids b) \<noteq> {})}"

definition metric_link :: "anomaly list \<Rightarrow> (nat \<times> nat) set" where
  "metric_link as = {(i, j). \<exists>a b. (i, a) \<in> metrics_at as \<and> (j, b) \<in> metrics_at as
     \<and> ma_service a = ma_service b}"

text \<open>A metric joins a log of its service when all the logs of that service are one class already.\<close>

definition attach_link :: "anomaly list \<Rightarrow> (nat \<times> nat) set" where
  "attach_link as = {(i, j). \<exists>a b. (i, a) \<in> logs_at as \<and> (j, b) \<in> metrics_at as
     \<and> la_service a = ma_service b
     \<and> (\<forall>k c. (k, c) \<in> logs_at as \<longrightarrow> la_service c = ma_service b \<longrightarrow> (i, k) \<in> eqcl (log_link as))}"

definition incident :: "anomaly list \<Rightarrow> (nat \<times> nat) set" where
  "incident as = eqcl (log_link as \<union> metric_link as \<union> attach_link as)"

section \<open>The loops as unions along edges\<close>

lemma set_enum_logs: "set (enum_logs as) = logs_at as"
  by (auto simp: enum_logs_def logs_at_def in_set_enumerate_eq split: anomaly.splits)

lemma set_enum_metrics: "set (enum_metrics as) = metrics_at as"
  by (auto simp: enum_metrics_def metrics_at_def in_set_enumerate_eq split: anomaly.splits)

definition log_events :: "(nat \<times> log_anomaly) list \<Rightarrow> ((string + string) \<times> nat) list" where
  "log_events logs = concat (map (\<lambda>(i, a).
     (Inl (la_signature a), i) # map (\<lambda>t. (Inr t, i)) (la_trace_ids a)) logs)"

lemma case_sum_upd:
  "(case_sum f g)(Inl k := v) = case_sum (f(k := v)) g"
  "(case_sum f g)(Inr l := v) = case_sum f (g(l := v))"
  by (auto simp: fun_eq_iff split: sum.splits)

lemma key_map_traces:
  "\<exists>bt'. key_map (map (\<lambda>t. (Inr t, i)) ts) (case_sum bs bt) = case_sum bs bt'"
  by (induction ts arbitrary: bt) (auto simp: case_sum_upd split: option.splits)

lemma union_traces_edges:
  "\<exists>bt'. key_map (map (\<lambda>t. (Inr t, i)) ts) (case_sum bs bt) = case_sum bs bt'
     \<and> union_traces p i ts bt =
         map_option (\<lambda>p'. (p', bt')) (uf_unions p (key_edges (map (\<lambda>t. (Inr t, i)) ts) (case_sum bs bt)))"
proof (induction ts arbitrary: p bt)
  case (Cons t ts)
  show ?case
  proof (cases "bt t")
    case None
    with Cons.IH [where p = p and bt = "bt(t \<mapsto> i)"] show ?thesis
      by (simp add: case_sum_upd del: fun_upd_apply)
  next
    case (Some j)
    obtain bt' where bt': "key_map (map (\<lambda>t. (Inr t, i)) ts) (case_sum bs bt) = case_sum bs bt'"
      using key_map_traces by blast
    have "case_sum bs bt' = case_sum bs bt'' \<Longrightarrow> bt' = bt''" for bt''
      by (metis case_sum_expand_Inr_pointfree old.sum.simps(6) ext)
    with Cons.IH [where bt = bt] bt' have "union_traces q i ts bt =
        map_option (\<lambda>p'. (p', bt')) (uf_unions q (key_edges (map (\<lambda>t. (Inr t, i)) ts) (case_sum bs bt)))" for q
      by metis
    with Some bt' show ?thesis
      by (intro exI [of _ bt']) (cases "uf_union p j i"; simp)
  qed
qed simp

lemma union_logs_edges:
  "union_logs p logs bs bt = uf_unions p (key_edges (log_events logs) (case_sum bs bt))"
proof (induction logs arbitrary: p bs bt)
  case (Cons e logs)
  obtain i a where e: "e = (i, a)" by (cases e)
  let ?ts = "map (\<lambda>t. (Inr t, i)) (la_trace_ids a)"
  have ev: "log_events (e # logs) = (Inl (la_signature a), i) # ?ts @ log_events logs"
    by (simp add: log_events_def e)
  have step: "Option.bind (union_traces q i (la_trace_ids a) bt) (\<lambda>(p2, bt2). union_logs p2 logs bs' bt2)
      = uf_unions q (key_edges (?ts @ log_events logs) (case_sum bs' bt))" for q bs'
  proof -
    obtain bt' where "key_map ?ts (case_sum bs' bt) = case_sum bs' bt'"
      "union_traces q i (la_trace_ids a) bt =
        map_option (\<lambda>p'. (p', bt')) (uf_unions q (key_edges ?ts (case_sum bs' bt)))"
      using union_traces_edges by blast
    then show ?thesis
      by (cases "uf_unions q (key_edges ?ts (case_sum bs' bt))")
        (simp_all add: key_edges_append uf_unions_append Cons.IH)
  qed
  show ?case
    unfolding ev unfolding e
    by (cases "bs (la_signature a)") (simp_all add: step case_sum_upd del: fun_upd_apply)
qed (simp add: log_events_def)

lemma key_link_log_events: "key_link (set (log_events (enum_logs as))) = log_link as"
proof -
  have "(Inl s, i) \<in> set (log_events (enum_logs as)) \<longleftrightarrow> (\<exists>a. (i, a) \<in> logs_at as \<and> la_signature a = s)"
    and "(Inr t, i) \<in> set (log_events (enum_logs as)) \<longleftrightarrow> (\<exists>a. (i, a) \<in> logs_at as \<and> t \<in> set (la_trace_ids a))"
    for s t i
    by (auto simp: log_events_def set_enum_logs [symmetric] intro!: rev_bexI)
  then show ?thesis
    by (fastforce simp: key_link_def log_link_def split_sum_ex)
qed

lemma log_events_range: "(k, i) \<in> set (log_events (enum_logs as)) \<Longrightarrow> i \<in> fst ` logs_at as"
  by (force simp: log_events_def set_enum_logs)

definition metric_events :: "(nat \<times> metric_anomaly) list \<Rightarrow> (string \<times> nat) list" where
  "metric_events ms = map (\<lambda>(i, m). (ma_service m, i)) ms"

lemma union_metrics_edges:
  "union_metrics p ms anchors = uf_unions p (filter (\<lambda>(a, b). a \<noteq> b) (key_edges (metric_events ms) anchors))"
proof (induction ms arbitrary: p anchors)
  case (Cons e ms)
  then show ?case
    by (cases e; cases "anchors (ma_service (snd e))")
      (auto simp: metric_events_def simp del: fun_upd_apply)
qed (simp add: metric_events_def)

lemma key_link_metric_events: "key_link (set (metric_events (enum_metrics as))) = metric_link as"
  by (force simp: key_link_def metric_link_def metric_events_def set_enum_metrics)

lemma eqcl_loops: "eqcl {e \<in> E. case e of (a, b) \<Rightarrow> a \<noteq> b} = eqcl E"
  by (rule eqcl_eqI) (auto intro: eqcl_base, metis (mono_tags, lifting) case_prod_conv eqcl_base eqcl_refl mem_Collect_eq)

definition attach_edges :: "(nat \<times> metric_anomaly) list \<Rightarrow> (string \<Rightarrow> nat list) \<Rightarrow> (nat \<times> nat) list" where
  "attach_edges ms R = concat (map (\<lambda>(i, m). case R (ma_service m) of [r] \<Rightarrow> [(r, i)] | _ \<Rightarrow> []) ms)"

lemma attach_metrics_edges: "attach_metrics p ms R = uf_unions p (attach_edges ms R)"
proof (induction ms arbitrary: p)
  case (Cons e ms)
  then show ?case
    by (cases e) (auto simp: attach_edges_def split: list.splits)
qed (simp add: attach_edges_def)

lemma log_roots_ex:
  "uf_repr p n E \<Longrightarrow> (\<And>i l. (i, l) \<in> set logs \<Longrightarrow> i < n) \<Longrightarrow> (\<And>s. distinct (R s)) \<Longrightarrow>
   \<exists>p' R'. log_roots p logs R = Some (p', R') \<and> uf_repr p' n E \<and> (\<forall>s. distinct (R' s))
     \<and> (\<forall>s. set (R' s) = set (R s) \<union> {r. \<exists>i l. (i, l) \<in> set logs \<and> la_service l = s \<and> rooted p i r})"
proof (induction logs arbitrary: p R)
  case (Cons e logs)
  obtain i l where e: "e = (i, l)" by (cases e)
  with Cons.prems have "i < n" by auto
  with Cons.prems(1) obtain r p1 where f: "uf_find p i = Some (r, p1)" "rooted p i r" "uf_repr p1 n E"
    "\<forall>y s. rooted p1 y s \<longleftrightarrow> rooted p y s" by (rule uf_repr_find)
  let ?R = "R(la_service l := List.insert r (R (la_service l)))"
  have "distinct (?R s)" for s using Cons.prems(3) by simp
  with Cons.IH [OF f(3), of ?R] Cons.prems(2)
  obtain p' R' where ih: "log_roots p1 logs ?R = Some (p', R')" "uf_repr p' n E" "\<forall>s. distinct (R' s)"
    "\<forall>s. set (R' s) = set (?R s) \<union> {r. \<exists>i l. (i, l) \<in> set logs \<and> la_service l = s \<and> rooted p1 i r}"
    by (meson list.set_intros(2))
  have "rooted p i r' \<longleftrightarrow> r' = r" for r' using f(2) by (auto dest: rooted_det)
  then have "set (R' s) = set (R s) \<union> {r. \<exists>i l. (i, l) \<in> set (e # logs) \<and> la_service l = s \<and> rooted p i r}" for s
    using ih(4) f(4) e by auto
  with ih f e show ?case by auto
qed auto

section \<open>The forest represents the incident relation\<close>

lemma eqcl_disjoint:
  assumes "E \<subseteq> A \<times> A" and "F \<subseteq> B \<times> B" and "A \<inter> B = {}" and "x \<in> A"
  shows "(x, y) \<in> eqcl (E \<union> F) \<longleftrightarrow> (x, y) \<in> eqcl E"
proof
  assume "(x, y) \<in> eqcl (E \<union> F)"
  then have "(x, y) \<in> eqcl E \<and> y \<in> A"
    unfolding eqcl_def
  proof (induction rule: rtrancl_induct)
    case (step y z)
    then have "(y, z) \<in> E \<union> E\<inverse>" "z \<in> A" using assms by auto
    with step show ?case by (meson rtrancl.rtrancl_into_rtrancl)
  qed (use assms in auto)
  then show "(x, y) \<in> eqcl E" ..
next
  assume "(x, y) \<in> eqcl E"
  then show "(x, y) \<in> eqcl (E \<union> F)" using eqcl_mono [of E "E \<union> F"] by auto
qed

lemma log_metric_disjoint: "fst ` logs_at as \<inter> fst ` metrics_at as = {}"
  by (auto simp: logs_at_def metrics_at_def)

lemma log_class:
  assumes "(i, a) \<in> logs_at as"
  shows "(i, k) \<in> eqcl (log_link as \<union> metric_link as) \<longleftrightarrow> (i, k) \<in> eqcl (log_link as)"
proof (rule eqcl_disjoint [OF _ _ log_metric_disjoint])
  show "log_link as \<subseteq> fst ` logs_at as \<times> fst ` logs_at as"
    and "metric_link as \<subseteq> fst ` metrics_at as \<times> fst ` metrics_at as"
    and "i \<in> fst ` logs_at as"
    using assms by (force simp: log_link_def metric_link_def)+
qed

lemma singleton_set: "distinct xs \<Longrightarrow> (xs = [r]) = (set xs = {r})"
  by (cases xs rule: remdups_adj.cases) auto

lemma set_attach_edges:
  "(r, j) \<in> set (attach_edges ms R) \<longleftrightarrow> (\<exists>b. (j, b) \<in> set ms \<and> R (ma_service b) = [r])"
  by (force simp: attach_edges_def split: list.splits)

lemma attach_edges_link:
  assumes p: "uf_repr p n E" and E: "eqcl E = eqcl (log_link as \<union> metric_link as)" and n: "n = length as"
    and d: "\<And>s. distinct (R s)"
    and R: "\<And>s. set (R s) = {r. \<exists>i l. (i, l) \<in> logs_at as \<and> la_service l = s \<and> rooted p i r}"
  shows "eqcl (E \<union> set (attach_edges (enum_metrics as) R)) = incident as"
proof -
  have cl: "(i, k) \<in> eqcl E \<longleftrightarrow> (\<exists>r. rooted p i r \<and> rooted p k r)" if "i < n" "k < n" for i k
    using p that by (simp add: uf_repr_def)
  have rt: "\<exists>r. rooted p i r" if "i < n" for i using p that by (auto simp: uf_repr_def uf_inv_def)
  have bnd: "(i, l) \<in> logs_at as \<Longrightarrow> i < n" for i l using n by (simp add: logs_at_def)
  have cl_root: "(i, r) \<in> eqcl E" if "rooted p i r" for i r
  proof -
    from rooted_bounds [OF that] p have "i < n" "r < n" by (simp_all add: uf_repr_def)
    with cl that rooted_root [OF that] show ?thesis by blast
  qed
  have "eqcl (E \<union> set (attach_edges (enum_metrics as) R)) = eqcl (E \<union> attach_link as)" (is "eqcl ?L = eqcl ?M")
  proof (rule eqcl_eqI)
    have "(r, j) \<in> eqcl ?M" if "(r, j) \<in> set (attach_edges (enum_metrics as) R)" for r j
    proof -
      from that obtain b where b: "(j, b) \<in> metrics_at as" "R (ma_service b) = [r]"
        by (auto simp: set_attach_edges set_enum_metrics)
      then have Rr: "{r. \<exists>i l. (i, l) \<in> logs_at as \<and> la_service l = ma_service b \<and> rooted p i r} = {r}"
        using R by (metis empty_set list.simps(15))
      then obtain i a where i: "(i, a) \<in> logs_at as" "la_service a = ma_service b" "rooted p i r" by blast
      have "(i, k) \<in> eqcl (log_link as)" if "(k, c) \<in> logs_at as" "la_service c = ma_service b" for k c
      proof -
        from rt bnd that obtain r' where "rooted p k r'" by blast
        moreover from this that have "r' \<in> {r. \<exists>i l. (i, l) \<in> logs_at as \<and> la_service l = ma_service b \<and> rooted p i r}"
          by blast
        ultimately have "rooted p k r" unfolding Rr by simp
        with i cl bnd that E show ?thesis using log_class by blast
      qed
      with i b have "(i, j) \<in> attach_link as" by (auto simp: attach_link_def)
      then have "(i, j) \<in> eqcl ?M" by (auto intro: eqcl_base)
      moreover have "(i, r) \<in> eqcl ?M" using cl_root [OF i(3)] eqcl_mono [of E ?M] by auto
      ultimately show ?thesis by (blast intro: eqcl_sym eqcl_trans)
    qed
    then show "?L \<subseteq> eqcl ?M" by (auto intro: eqcl_base)
  next
    have "(i, j) \<in> eqcl ?L" if "(i, j) \<in> attach_link as" for i j
    proof -
      from that obtain a b where ab: "(i, a) \<in> logs_at as" "(j, b) \<in> metrics_at as" "la_service a = ma_service b"
        and all: "\<And>k c. (k, c) \<in> logs_at as \<Longrightarrow> la_service c = ma_service b \<Longrightarrow> (i, k) \<in> eqcl (log_link as)"
        by (auto simp: attach_link_def)
      obtain r where r: "rooted p i r" using rt bnd ab(1) by blast
      have "r' = r" if "(k, c) \<in> logs_at as" "la_service c = ma_service b" "rooted p k r'" for k c r'
      proof -
        have "(i, k) \<in> eqcl E" using all [OF that(1,2)] log_class [OF ab(1)] E by blast
        with cl bnd ab(1) that(1) obtain s where "rooted p i s" "rooted p k s" by blast
        with r that(3) show ?thesis by (metis rooted_det)
      qed
      then have "set (R (ma_service b)) = {r}" using R ab(1,3) r by blast
      then have "(r, j) \<in> set (attach_edges (enum_metrics as) R)"
        using ab d by (auto simp: set_attach_edges set_enum_metrics singleton_set)
      then have "(r, j) \<in> eqcl ?L" by (auto intro: eqcl_base)
      moreover have "(i, r) \<in> eqcl ?L" using cl_root [OF r] eqcl_mono [of E ?L] by auto
      ultimately show ?thesis by (blast intro: eqcl_trans)
    qed
    then show "?M \<subseteq> eqcl ?L" by (auto intro: eqcl_base)
  qed
  also have "\<dots> = incident as" unfolding incident_def by (rule eqcl_Un_cong [OF E])
  finally show ?thesis .
qed

lemma eqcl_idem: "eqcl (eqcl E) = eqcl E"
  by (rule eqcl_eqI) (auto intro: eqcl_base)

lemma incident_closed: "eqcl (incident as) = incident as"
  by (simp add: incident_def eqcl_idem)

lemma group_forest_repr: "\<exists>p. group_forest as = Some p \<and> uf_repr p (length as) (incident as)"
proof -
  let ?n = "length as" and ?le = "key_edges (log_events (enum_logs as)) Map.empty"
    and ?me = "filter (\<lambda>(a, b). a \<noteq> b) (key_edges (metric_events (enum_metrics as)) Map.empty)"
  have cs: "case_sum Map.empty Map.empty = Map.empty" by (auto simp: fun_eq_iff split: sum.splits)
  have lb: "a < ?n \<and> b < ?n" if "(a, b) \<in> set ?le" for a b
    using key_edges_range [OF that] by (auto simp: logs_at_def dest!: log_events_range)
  obtain p1 where p1: "uf_unions (uf_init ?n) ?le = Some p1" "uf_repr p1 ?n ({} \<union> set ?le)"
    using uf_unions_repr [OF uf_repr_init lb] by blast
  have mb: "a < ?n \<and> b < ?n" if "(a, b) \<in> set ?me" for a b
    using that by (auto simp: metric_events_def set_enum_metrics metrics_at_def dest!: key_edges_range)
  obtain p2 where p2: "uf_unions p1 ?me = Some p2" "uf_repr p2 ?n ({} \<union> set ?le \<union> set ?me)"
    using uf_unions_repr [OF p1(2) mb] by blast
  let ?E = "{} \<union> set ?le \<union> set ?me"
  have le: "eqcl ({} \<union> set ?le) = eqcl (log_link as)"
    by (simp add: key_edges_link key_link_log_events)
  have me: "eqcl (set ?me) = eqcl (metric_link as)"
    using key_edges_link [of "metric_events (enum_metrics as)"] by (simp add: eqcl_loops key_link_metric_events)
  have E: "eqcl ?E = eqcl (log_link as \<union> metric_link as)"
    using eqcl_Un_cong [OF le, of "set ?me"] eqcl_Un_cong [OF me, of "log_link as"] by (simp add: Un_commute)
  obtain p3 R where p3: "log_roots p2 (enum_logs as) (\<lambda>_. []) = Some (p3, R)" "uf_repr p3 ?n ?E"
    "\<And>s. distinct (R s)"
    "\<And>s. set (R s) = {r. \<exists>i l. (i, l) \<in> logs_at as \<and> la_service l = s \<and> rooted p2 i r}"
    using log_roots_ex [OF p2(2), of "enum_logs as" "\<lambda>_. []"] by (auto simp: set_enum_logs logs_at_def)
  have ab: "a < ?n \<and> b < ?n" if "(a, b) \<in> set (attach_edges (enum_metrics as) R)" for a b
  proof -
    from that obtain c where c: "(b, c) \<in> metrics_at as" "R (ma_service c) = [a]"
      by (auto simp: set_attach_edges set_enum_metrics)
    then have "a \<in> set (R (ma_service c))" by simp
    then show ?thesis using c(1) p2(2) unfolding p3(4)
      by (auto simp: metrics_at_def uf_repr_def dest: rooted_bounds)
  qed
  obtain p where p: "uf_unions p3 (attach_edges (enum_metrics as) R) = Some p"
    "uf_repr p ?n (?E \<union> set (attach_edges (enum_metrics as) R))"
    using uf_unions_repr [OF p3(2) ab] by blast
  have "eqcl (?E \<union> set (attach_edges (enum_metrics as) R)) = incident as"
    by (rule attach_edges_link [OF p2(2) E refl p3(3,4)])
  then have "uf_repr p ?n (incident as)" using p(2) by (metis uf_repr_cong incident_closed)
  with p1 p2 p3 p show ?thesis
    by (simp add: group_forest_def union_logs_edges union_metrics_edges attach_metrics_edges cs)
qed

section \<open>Collecting the components\<close>

definition collected :: "(nat \<Rightarrow> nat) \<Rightarrow> (nat \<times> anomaly) list \<Rightarrow> (nat \<times> component) list \<Rightarrow> (nat \<times> nat) list \<Rightarrow> bool" where
  "collected f xs comps fi \<longleftrightarrow> map fst fi = map fst comps \<and> distinct (map fst comps)
     \<and> set (map fst comps) = f ` fst ` set xs
     \<and> (\<forall>r. map_of comps r = (if r \<in> f ` fst ` set xs then Some (filter (\<lambda>x. f (fst x) = r) xs) else None))
     \<and> map snd fi = map (\<lambda>r. fst (hd (filter (\<lambda>x. f (fst x) = r) xs))) (map fst comps)
     \<and> sorted_wrt (<) (map snd fi)"

lemma collected_Nil: "collected f [] [] []"
  by (simp add: collected_def)

lemma filter_hd_snoc: "filter P xs \<noteq> [] \<Longrightarrow> hd (filter P (xs @ ys)) = hd (filter P xs)"
  by simp

lemma collected_snoc:
  assumes c: "collected f xs comps fi" and lt: "\<And>j b. (j, b) \<in> set xs \<Longrightarrow> j < i"
  shows "collected f (xs @ [(i, a)])
    (AList.update (f i) ((case map_of comps (f i) of None \<Rightarrow> [] | Some g \<Rightarrow> g) @ [(i, a)]) comps)
    (case map_of fi (f i) of None \<Rightarrow> fi @ [(f i, i)] | Some _ \<Rightarrow> fi)"
proof -
  have keys: "map fst fi = map fst comps" "distinct (map fst comps)" "set (map fst comps) = f ` fst ` set xs"
    and mo: "\<And>r. map_of comps r = (if r \<in> f ` fst ` set xs then Some (filter (\<lambda>x. f (fst x) = r) xs) else None)"
    and sn: "map snd fi = map (\<lambda>r. fst (hd (filter (\<lambda>x. f (fst x) = r) xs))) (map fst comps)"
    and so: "sorted_wrt (<) (map snd fi)"
    using c by (auto simp: collected_def)
  have ne: "filter (\<lambda>x. f (fst x) = r) xs \<noteq> []" if "r \<in> set (map fst comps)" for r
    using that unfolding keys(3) by (auto simp: filter_empty_conv)
  have hds: "map (\<lambda>r. fst (hd (filter (\<lambda>x. f (fst x) = r) (xs @ ys)))) (map fst comps) = map snd fi" for ys
    unfolding sn by (intro map_cong refl) (simp only: filter_hd_snoc [OF ne])
  have fi_dom: "map_of fi (f i) = None \<longleftrightarrow> f i \<notin> f ` fst ` set xs"
    using keys(1,3) by (simp add: map_of_eq_None_iff flip: set_map)
  show ?thesis
  proof (cases "f i \<in> f ` fst ` set xs")
    case True
    have "map fst (AList.update (f i) v comps) = map fst comps" for v
      using True keys(3) by (simp add: update_keys)
    with True fi_dom keys mo so hds [of "[(i, a)]"] show ?thesis
      unfolding collected_def by (auto simp: map_of_update)
  next
    case False
    have upd: "map fst (AList.update (f i) v comps) = map fst comps @ [f i]" for v
      using False keys(3) by (simp add: update_keys)
    have emp: "filter (\<lambda>x. f (fst x) = f i) xs = []"
      using False by (metis (mono_tags, lifting) filter_False image_eqI)
    have "\<forall>s \<in> set (map snd fi). s < i"
    proof
      fix s assume "s \<in> set (map snd fi)"
      then obtain r where r: "r \<in> set (map fst comps)" "s = fst (hd (filter (\<lambda>x. f (fst x) = r) xs))"
        unfolding sn by auto
      from hd_in_set [OF ne [OF r(1)]] have "hd (filter (\<lambda>x. f (fst x) = r) xs) \<in> set xs" by auto
      with r(2) lt show "s < i" by (metis prod.collapse)
    qed
    with so have "sorted_wrt (<) (map snd fi @ [i])" by (simp add: sorted_wrt_append)
    moreover have "map snd fi @ [i] = map (\<lambda>r. fst (hd (filter (\<lambda>x. f (fst x) = r) (xs @ [(i, a)])))) (map fst comps @ [f i])"
      using hds [of "[(i, a)]"] emp by simp
    ultimately show ?thesis
      using False fi_dom keys mo emp unfolding collected_def upd
      by (auto simp: map_of_update)
  qed
qed

lemma components_collected:
  "uf_repr p n E \<Longrightarrow> (\<And>i. i < n \<Longrightarrow> rooted p i (f i)) \<Longrightarrow> (\<And>i a. (i, a) \<in> set ys \<Longrightarrow> i < n)
    \<Longrightarrow> sorted_wrt (<) (map fst (xs @ ys)) \<Longrightarrow> collected f xs comps fi
    \<Longrightarrow> \<exists>comps' fi'. components p ys comps fi = Some (comps', fi') \<and> collected f (xs @ ys) comps' fi'"
proof (induction ys arbitrary: p xs comps fi)
  case (Cons y ys)
  obtain i a where y: "y = (i, a)" by (cases y)
  with Cons.prems have i: "i < n" by auto
  obtain r p' where fd: "uf_find p i = Some (r, p')" "rooted p i r" "uf_repr p' n E"
    "\<forall>y s. rooted p' y s \<longleftrightarrow> rooted p y s" by (rule uf_repr_find [OF Cons.prems(1) i])
  with Cons.prems(2) i have r: "r = f i" by (auto dest: rooted_det)
  have "collected f (xs @ [(i, a)])
    (AList.update (f i) ((case map_of comps (f i) of None \<Rightarrow> [] | Some g \<Rightarrow> g) @ [(i, a)]) comps)
    (case map_of fi (f i) of None \<Rightarrow> fi @ [(f i, i)] | Some _ \<Rightarrow> fi)"
    using Cons.prems(4) y by (intro collected_snoc [OF Cons.prems(5)]) (force simp: sorted_wrt_append)
  moreover have "\<And>i a. (i, a) \<in> set ys \<Longrightarrow> i < n" using Cons.prems(3) by auto
  ultimately show ?case
    using Cons.IH [OF fd(3), of "xs @ [(i, a)]"] fd Cons.prems(2,4) y r by simp
qed simp

text \<open>Splitting a list by the value of a function, over the distinct values it takes, partitions it.\<close>

lemma mset_classes:
  "distinct keys \<Longrightarrow> f ` set xs \<subseteq> set keys
     \<Longrightarrow> mset (concat (map (\<lambda>r. filter (\<lambda>x. f x = r) xs) keys)) = mset xs"
proof (induction keys arbitrary: xs)
  case (Cons k keys)
  let ?ys = "filter (\<lambda>x. f x \<noteq> k) xs"
  have "f ` set ?ys \<subseteq> set keys" "distinct keys" using Cons.prems by auto
  from Cons.IH [OF this(2,1)] have "mset (concat (map (\<lambda>r. filter (\<lambda>x. f x = r) ?ys) keys)) = mset ?ys" .
  moreover have "map (\<lambda>r. filter (\<lambda>x. f x = r) ?ys) keys = map (\<lambda>r. filter (\<lambda>x. f x = r) xs) keys"
    using Cons.prems(1) by (auto intro!: filter_cong)
  ultimately have "mset (concat (map (\<lambda>r. filter (\<lambda>x. f x = r) xs) keys)) = mset ?ys" by argo
  then show ?case by (simp add: multiset_partition [symmetric] add.commute)
qed auto

lemma class_members: "fst ` set (filter (\<lambda>x. f (fst x) = r) (enumerate 0 as)) = {i. i < length as \<and> f i = r}"
proof -
  have "map fst (filter (\<lambda>x. f (fst x) = r) (enumerate 0 as)) = filter (\<lambda>i. f i = r) [0..<length as]"
    using filter_map [of "\<lambda>i. f i = r" fst "enumerate 0 as"] by (simp add: comp_def)
  then have "set (map fst (filter (\<lambda>x. f (fst x) = r) (enumerate 0 as))) = set (filter (\<lambda>i. f i = r) [0..<length as])"
    by (rule arg_cong)
  then show ?thesis by (simp only: set_map set_filter set_upt) auto
qed

lemma group_components_InrI:
  assumes "as \<noteq> []" and "group_forest as = Some p" and "components p (enumerate 0 as) [] [] = Some (comps, fi)"
    and "map (\<lambda>r. the (map_of comps r)) (sort_key (\<lambda>r. the (map_of fi r)) (map fst comps)) = gs"
    and "sum_list (map length gs) = length as" and "card (set (map fst (concat gs))) = length as"
  shows "group_components as = Inr gs"
  using assms by (simp add: group_components_def Let_def del: map_map)

lemma group_components_spec:
  "\<exists>(f :: nat \<Rightarrow> nat) keys. group_components as = Inr (map (\<lambda>r. filter (\<lambda>x. f (fst x) = r) (enumerate 0 as)) keys)
     \<and> distinct keys \<and> set keys = f ` {..<length as}
     \<and> (\<forall>i < length as. \<forall>j < length as. f i = f j \<longleftrightarrow> (i, j) \<in> incident as)
     \<and> sorted_wrt (<) (map (\<lambda>r. fst (hd (filter (\<lambda>x. f (fst x) = r) (enumerate 0 as)))) keys)"
proof (cases "as = []")
  case True
  then show ?thesis by (intro exI [of _ id] exI [of _ "[]"]) (simp add: group_components_def)
next
  case False
  let ?n = "length as" and ?xs = "enumerate 0 as"
  obtain p where p: "group_forest as = Some p" "uf_repr p ?n (incident as)" using group_forest_repr by blast
  then obtain f where f: "rooted p i (f i)" if "i < ?n" for i
    unfolding uf_repr_def uf_inv_def by metis
  have fe: "f i = f j \<longleftrightarrow> (i, j) \<in> incident as" if "i < ?n" "j < ?n" for i j
    using p(2) f that unfolding uf_repr_def incident_closed by (metis rooted_det)
  have srt: "sorted_wrt (<) (map fst ([] @ ?xs))" by (simp add: sorted_wrt_upt)
  obtain comps fi where c: "components p ?xs [] [] = Some (comps, fi)" "collected f ([] @ ?xs) comps fi"
    using components_collected [OF p(2) f _ srt collected_Nil] by (auto simp: in_set_enumerate_eq)
  let ?keys = "map fst comps" and ?cls = "\<lambda>r. filter (\<lambda>x. f (fst x) = r) ?xs"
  have im: "f ` fst ` set ?xs = f ` {..<?n}"
    by (metis atLeast_upt enumerate_eq_zip list.set_map map_fst_enumerate add_0)
  from c(2) have k: "map fst fi = ?keys" "distinct ?keys" "set ?keys = f ` fst ` set ?xs"
    "map snd fi = map (\<lambda>r. fst (hd (?cls r))) ?keys" "sorted_wrt (<) (map snd fi)"
    and mo: "\<And>r. r \<in> set ?keys \<Longrightarrow> map_of comps r = Some (?cls r)"
    by (auto simp: collected_def)
  have "distinct (map fst fi)" using k(1,2) by simp
  then have "map (\<lambda>r. the (map_of fi r)) (map fst fi) = map snd fi" by auto
  then have "map (\<lambda>r. the (map_of fi r)) ?keys = map snd fi" unfolding k(1) .
  then have "sorted (map (\<lambda>r. the (map_of fi r)) ?keys)"
    using k(5) strict_sorted_imp_sorted by metis
  then have groups: "map (\<lambda>r. the (map_of comps r)) (sort_key (\<lambda>r. the (map_of fi r)) ?keys) = map ?cls ?keys"
    using mo by (auto simp: sort_key_id_if_sorted)
  have part: "mset (concat (map ?cls ?keys)) = mset ?xs"
    using k(2,3) by (intro mset_classes) auto
  have len: "sum_list (map length (map ?cls ?keys)) = ?n"
    using part by (metis length_concat length_enumerate size_mset)
  have "set (map fst (concat (map ?cls ?keys))) = {..<?n}"
  proof -
    have "set (concat (map ?cls ?keys)) = set ?xs" using part by (rule mset_eq_setD)
    then have "set (map fst (concat (map ?cls ?keys))) = set (map fst ?xs)" by (simp only: set_map)
    then show ?thesis by (simp add: atLeast0LessThan)
  qed
  then have "group_components as = Inr (map ?cls ?keys)"
    by (intro group_components_InrI [OF False p(1) c(1) groups len]) simp
  with k fe im show ?thesis by (intro exI [of _ f] exI [of _ ?keys]) simp
qed

lemma group_componentsE:
  obtains f :: "nat \<Rightarrow> nat" and keys
  where "group_components as = Inr (map (\<lambda>r. filter (\<lambda>x. f (fst x) = r) (enumerate 0 as)) keys)"
    and "distinct keys" and "set keys = f ` {..<length as}"
    and "\<forall>i < length as. \<forall>j < length as. f i = f j \<longleftrightarrow> (i, j) \<in> incident as"
    and "sorted_wrt (<) (map (\<lambda>r. fst (hd (filter (\<lambda>x. f (fst x) = r) (enumerate 0 as)))) keys)"
  by (insert group_components_spec [of as], elim exE conjE, rule that)

section \<open>Properties of the grouping\<close>

lemma group_partition:
  "\<exists>gs. group_components as = Inr gs \<and> mset (concat gs) = mset (enumerate 0 as) \<and> [] \<notin> set gs"
proof -
  obtain f :: "nat \<Rightarrow> nat" and keys
    where g: "group_components as = Inr (map (\<lambda>r. filter (\<lambda>x. f (fst x) = r) (enumerate 0 as)) keys)"
      and k: "distinct keys" "set keys = f ` {..<length as}"
      and fe: "\<forall>i < length as. \<forall>j < length as. f i = f j \<longleftrightarrow> (i, j) \<in> incident as"
      and s: "sorted_wrt (<) (map (\<lambda>r. fst (hd (filter (\<lambda>x. f (fst x) = r) (enumerate 0 as)))) keys)"
    by (rule group_componentsE [of as])
  have "mset (concat (map (\<lambda>r. filter (\<lambda>x. f (fst x) = r) (enumerate 0 as)) keys)) = mset (enumerate 0 as)"
    using k by (intro mset_classes) (auto simp: in_set_enumerate_eq)
  moreover have "[] \<noteq> filter (\<lambda>x. f (fst x) = r) (enumerate 0 as)" if "r \<in> set keys" for r
    using that k(2) class_members [of f r as] by (metis (mono_tags, lifting) empty_iff empty_set image_empty image_iff lessThan_iff mem_Collect_eq)
  ultimately show ?thesis using g by auto
qed

text \<open>C1. \<open>group_anomalies\<close> never raises and never loops: on every input it returns, none of its two
  final assertions fires, and the groups are a partition: every position of the input occurs exactly
  once in them, and no group is empty.\<close>

theorem group_components_partition:
  "\<exists>gs. group_components as = Inr gs \<and> mset (concat gs) = mset (enumerate 0 as) \<and> [] \<notin> set gs"
  by (rule group_partition)

text \<open>C2. Two anomalies of a round are put into the same group exactly when the documented linking
  rules connect them: logs by a shared signature or trace id, metrics by service, a metric to the
  logs of its service when these are a single class.\<close>

theorem group_iff_incident:
  assumes "group_components as = Inr gs" and "i < length as" and "j < length as"
  shows "(\<exists>g \<in> set gs. i \<in> fst ` set g \<and> j \<in> fst ` set g) \<longleftrightarrow> (i, j) \<in> incident as"
proof -
  obtain f :: "nat \<Rightarrow> nat" and keys
    where g: "group_components as = Inr (map (\<lambda>r. filter (\<lambda>x. f (fst x) = r) (enumerate 0 as)) keys)"
      and k: "distinct keys" "set keys = f ` {..<length as}"
      and fe: "\<forall>i < length as. \<forall>j < length as. f i = f j \<longleftrightarrow> (i, j) \<in> incident as"
      and s: "sorted_wrt (<) (map (\<lambda>r. fst (hd (filter (\<lambda>x. f (fst x) = r) (enumerate 0 as)))) keys)"
    by (rule group_componentsE [of as])
  from assms(1) g have "gs = map (\<lambda>r. filter (\<lambda>x. f (fst x) = r) (enumerate 0 as)) keys" by simp
  then have "(\<exists>g \<in> set gs. i \<in> fst ` set g \<and> j \<in> fst ` set g) \<longleftrightarrow> (\<exists>r \<in> set keys. f i = r \<and> f j = r)"
    using assms(2,3) by (simp add: class_members del: set_filter)
  also have "\<dots> \<longleftrightarrow> f i = f j" using k assms(2,3) by auto
  finally show ?thesis using fe assms(2,3) by simp
qed

theorem group_iff_incident_witness:
  "(0, 2) \<in> incident [LogAnomaly (sample_log ''api'' ''boom'' [''tr1'']), MetricAnomaly (sample_metric ''db'' ''cpu'' []),
     LogAnomaly (sample_log ''web'' ''bang'' [''tr1''])]"
  using group_iff_incident [of "[LogAnomaly (sample_log ''api'' ''boom'' [''tr1'']), MetricAnomaly (sample_metric ''db'' ''cpu'' []),
     LogAnomaly (sample_log ''web'' ''bang'' [''tr1''])]"
     "[[(0, LogAnomaly (sample_log ''api'' ''boom'' [''tr1''])), (2, LogAnomaly (sample_log ''web'' ''bang'' [''tr1'']))],
       [(1, MetricAnomaly (sample_metric ''db'' ''cpu'' []))]]" 0 2]
  by (simp add: group_components_def group_forest_def enum_logs_def enum_metrics_def uf_init_def uf_union_def
      uf_find_def uf_root.simps uf_compress.simps sample_log_def sample_metric_def Let_def)

text \<open>The result is deterministic in the order of the input: groups come in the order of their
  first member, and within a group the members keep the order of the input.\<close>

theorem group_components_ordered:
  assumes "group_components as = Inr gs"
  shows "sorted_wrt (<) (map (\<lambda>g. fst (hd g)) gs) \<and> (\<forall>g \<in> set gs. sorted_wrt (<) (map fst g))"
proof -
  obtain f :: "nat \<Rightarrow> nat" and keys
    where g: "group_components as = Inr (map (\<lambda>r. filter (\<lambda>x. f (fst x) = r) (enumerate 0 as)) keys)"
      and k: "distinct keys" "set keys = f ` {..<length as}"
      and fe: "\<forall>i < length as. \<forall>j < length as. f i = f j \<longleftrightarrow> (i, j) \<in> incident as"
      and s: "sorted_wrt (<) (map (\<lambda>r. fst (hd (filter (\<lambda>x. f (fst x) = r) (enumerate 0 as)))) keys)"
    by (rule group_componentsE [of as])
  have "sorted_wrt (\<lambda>x y. fst x < fst y) (enumerate 0 as)"
    using sorted_wrt_map [of "(<)" fst "enumerate 0 as"] by (simp add: sorted_wrt_upt)
  then have "sorted_wrt (<) (map fst (filter P (enumerate 0 as)))" for P
    by (simp add: sorted_wrt_map sorted_wrt_filter)
  with assms g s show ?thesis by (auto simp: comp_def)
qed

theorem group_components_ordered_witness:
  "group_components [LogAnomaly (sample_log ''api'' ''boom'' []), LogAnomaly (sample_log ''api'' ''bang'' []),
       MetricAnomaly (sample_metric ''api'' ''cpu'' []), MetricAnomaly (sample_metric ''api'' ''mem'' [])]
     = Inr [[(0, LogAnomaly (sample_log ''api'' ''boom'' []))], [(1, LogAnomaly (sample_log ''api'' ''bang'' []))],
        [(2, MetricAnomaly (sample_metric ''api'' ''cpu'' [])), (3, MetricAnomaly (sample_metric ''api'' ''mem'' []))]]
     \<and> sorted_wrt (<) [0::nat, 1, 2]"
  using group_components_ordered [of "[LogAnomaly (sample_log ''api'' ''boom'' []), LogAnomaly (sample_log ''api'' ''bang'' []),
       MetricAnomaly (sample_metric ''api'' ''cpu'' []), MetricAnomaly (sample_metric ''api'' ''mem'' [])]"
      "[[(0, LogAnomaly (sample_log ''api'' ''boom'' []))], [(1, LogAnomaly (sample_log ''api'' ''bang'' []))],
        [(2, MetricAnomaly (sample_metric ''api'' ''cpu'' [])), (3, MetricAnomaly (sample_metric ''api'' ''mem'' []))]]"]
  by (simp add: group_components_def group_forest_def enum_logs_def enum_metrics_def uf_init_def uf_union_def
      uf_find_def uf_root.simps uf_compress.simps sample_log_def sample_metric_def Let_def)

end
