(* ===== verification/Apm_Signature.thy ===== *)
theory Apm_Signature
  imports Apm_Models
begin

text \<open>
  \<open>signature.py\<close>: the signature of a log line, which is its identity for deduplication. The regular
  expression \<open>_KV\<close> is written out as a scanner: at each position whose predecessor is no identifier
  character, the maximal identifier followed by \<open>=\<close> and a nonempty maximal run of value characters
  is replaced by the identifier and \<open>=<*>\<close>. Neither run can be shortened by backtracking to make the
  pattern match, since \<open>=\<close> is no identifier character and the value is last.
\<close>

definition MAX_SIGNATURE_LEN :: nat where "MAX_SIGNATURE_LEN = 1000"
definition MESSAGE_LIMIT :: nat where "MESSAGE_LIMIT = 120"

definition in_range :: "nat \<Rightarrow> nat \<Rightarrow> char \<Rightarrow> bool" where
  "in_range a b c = (a \<le> of_char c \<and> of_char c \<le> b)"

definition id_start :: "char \<Rightarrow> bool" where
  "id_start c = (in_range 65 90 c \<or> in_range 97 122 c \<or> c = CHR ''_'')"

definition id_char :: "char \<Rightarrow> bool" where
  "id_char c = (id_start c \<or> in_range 48 57 c \<or> c = CHR ''.'')"

definition val_char :: "char \<Rightarrow> bool" where
  "val_char c = (\<not> py_space c \<and> c \<notin> set ''=,;)]}'' \<and> c \<noteq> CHR 0x22 \<and> c \<noteq> CHR 0x27)"

definition bounded :: "char option \<Rightarrow> bool" where
  "bounded prev = (case prev of None \<Rightarrow> True | Some c \<Rightarrow> \<not> id_char c)"

text \<open>One attempt of \<open>_KV\<close> at a position: the key, the value and what follows.\<close>

definition kv_match :: "char option \<Rightarrow> string \<Rightarrow> (string \<times> string \<times> string) option" where
  "kv_match prev s =
     (case s of [] \<Rightarrow> None
      | c # _ \<Rightarrow>
        if \<not> (bounded prev \<and> id_start c) then None
        else let key = takeWhile id_char s; r = dropWhile id_char s in
          (case r of [] \<Rightarrow> None
           | e # r' \<Rightarrow> if e \<noteq> CHR ''='' then None
               else let v = takeWhile val_char r' in
                 if v = [] then None else Some (key, v, dropWhile val_char r')))"

lemma kv_match_shorter: "kv_match prev s = Some (key, v, r) \<Longrightarrow> length r < length s"
proof -
  assume m: "kv_match prev s = Some (key, v, r)"
  then obtain e r' where r': "dropWhile id_char s = e # r'" "r = dropWhile val_char r'"
    by (auto simp: kv_match_def Let_def split: list.splits if_splits)
  have "length r \<le> length r'" by (simp add: r' length_dropWhile_le)
  moreover have "length (dropWhile id_char s) \<le> length s" by (rule length_dropWhile_le)
  ultimately show ?thesis using r'(1) by simp
qed

function kv_sub :: "char option \<Rightarrow> string \<Rightarrow> string" where
  "kv_sub prev s =
     (case s of [] \<Rightarrow> []
      | c # cs \<Rightarrow>
        (case kv_match prev s of
           None \<Rightarrow> c # kv_sub (Some c) cs
         | Some (key, v, r) \<Rightarrow> key @ ''=<*>'' @ kv_sub (Some (last v)) r))"
  by auto
termination by (relation "measure (length \<circ> snd)") (auto dest: kv_match_shorter)

declare kv_sub.simps [simp del]

definition normalize_message :: "string \<Rightarrow> string" where
  "normalize_message text = kv_sub None text"

text \<open>The slice \<open>xs[1 : 1 + n]\<close>; a negative bound counts from the end.\<close>

definition slice_from_1 :: "int \<Rightarrow> 'a list \<Rightarrow> 'a list" where
  "slice_from_1 n xs = (let stop = 1 + n; e = (if stop < 0 then stop + int (length xs) else stop)
     in drop 1 (take (nat e) xs))"

definition signature :: "log_signal \<Rightarrow> int \<Rightarrow> string" where
  "signature l n_frames =
     take MAX_SIGNATURE_LEN
       (if ls_stack_trace l = None \<or> ls_stack_trace l = Some []
        then normalize_message (take MESSAGE_LIMIT (ls_message l))
        else let lines = split_on (CHR 0x0A) (strip (the (ls_stack_trace l)));
                 exc = (case lines of [] \<Rightarrow> ls_message l | e # _ \<Rightarrow> e);
                 frames = map strip (slice_from_1 n_frames lines)
             in join ''|'' (normalize_message exc # frames))"

section \<open>Idempotence\<close>

lemma id_char_props: "id_start c \<Longrightarrow> id_char c \<and> val_char c \<and> c \<noteq> CHR ''=''"
  by (auto simp: id_start_def id_char_def val_char_def in_range_def py_space_def Let_def)

lemma eq_not_id [simp]: "\<not> id_char (CHR ''='')" "\<not> id_start (CHR ''='')" "\<not> val_char (CHR ''='')"
  by (simp_all add: id_char_def id_start_def val_char_def in_range_def)

lemma star_val [simp]: "val_char (CHR ''<'')" "val_char (CHR ''*'')" "val_char (CHR ''>'')"
  "\<not> id_char (CHR ''<'')"
  by (simp_all add: id_char_def id_start_def val_char_def in_range_def py_space_def)

lemma kv_sub_Nil [simp]: "kv_sub p [] = []"
  by (simp add: kv_sub.simps)

lemma kv_sub_skip: "\<not> (bounded p \<and> id_start c) \<Longrightarrow> kv_sub p (c # s) = c # kv_sub (Some c) s"
  by (subst kv_sub.simps) (simp add: kv_match_def)

lemma kv_sub_None: "kv_match p (c # s) = None \<Longrightarrow> kv_sub p (c # s) = c # kv_sub (Some c) s"
  by (subst kv_sub.simps) simp

lemma kv_sub_Some:
  "kv_match p s = Some (key, v, r) \<Longrightarrow> kv_sub p s = key @ ''=<*>'' @ kv_sub (Some (last v)) r"
proof -
  assume m: "kv_match p s = Some (key, v, r)"
  then obtain c cs where "s = c # cs" by (cases s) (simp add: kv_match_def)
  with m show ?thesis by (subst kv_sub.simps) simp
qed

text \<open>Inside an identifier the scanner only copies.\<close>

lemma kv_sub_ident:
  "(\<forall>c \<in> set k. id_char c) \<Longrightarrow> id_char p \<Longrightarrow> kv_sub (Some p) (k @ s) = k @ kv_sub (Some (last (p # k))) s"
proof (induction k arbitrary: p)
  case (Cons c k)
  then have "kv_sub (Some p) (c # k @ s) = c # kv_sub (Some c) (k @ s)"
    by (intro kv_sub_skip) (simp add: bounded_def)
  with Cons show ?case by simp
qed simp

text \<open>The predecessor does not matter before a character that starts no identifier.\<close>

definition no_start :: "string \<Rightarrow> bool" where
  "no_start s = (case s of [] \<Rightarrow> True | c # _ \<Rightarrow> \<not> id_start c)"

lemma kv_sub_no_start: "no_start s \<Longrightarrow> kv_sub p s = kv_sub q s"
  by (cases s) (simp_all add: no_start_def kv_sub_skip)

lemma kv_match_Some:
  "kv_match p s = Some (key, v, r) \<longleftrightarrow>
     s = key @ CHR ''='' # v @ r \<and> bounded p \<and> key \<noteq> [] \<and> id_start (hd key) \<and> (\<forall>c \<in> set key. id_char c)
     \<and> v \<noteq> [] \<and> (\<forall>c \<in> set v. val_char c) \<and> (r = [] \<or> \<not> val_char (hd r))" (is "?L \<longleftrightarrow> ?R")
proof
  assume L: ?L
  then obtain c cs where c: "s = c # cs" "bounded p" "id_start c"
    by (cases s) (auto simp: kv_match_def split: if_splits)
  obtain d where d: "dropWhile id_char s = d" by blast
  from L c have "(case d of [] \<Rightarrow> None
      | e # r' \<Rightarrow> if e \<noteq> CHR ''='' then None else let v = takeWhile val_char r' in
          if v = [] then None else Some (takeWhile id_char s, v, dropWhile val_char r')) = Some (key, v, r)"
    unfolding kv_match_def Let_def d [symmetric] by simp
  then obtain r' where e: "d = CHR ''='' # r'" "takeWhile id_char s = key" "takeWhile val_char r' = v"
    "dropWhile val_char r' = r" "v \<noteq> []"
    by (cases d) (auto simp: Let_def split: if_splits)
  have s: "s = c # cs" "bounded p" "id_start c" "key = takeWhile id_char s" using c e by simp_all
  have r: "dropWhile id_char s = CHR ''='' # v @ r" using d e takeWhile_dropWhile_id [of val_char r'] by simp
  have v: "v \<noteq> []" "\<forall>c \<in> set v. val_char c" "r = [] \<or> \<not> val_char (hd r)"
  proof -
    show "v \<noteq> []" by (rule e(5))
    show "\<forall>c \<in> set v. val_char c" unfolding e(3) [symmetric] by (auto dest: set_takeWhileD)
    show "r = [] \<or> \<not> val_char (hd r)" unfolding e(4) [symmetric] using hd_dropWhile by blast
  qed
  have "s = key @ CHR ''='' # v @ r" using s(4) r by (metis takeWhile_dropWhile_id)
  moreover have "key \<noteq> []" "id_start (hd key)" unfolding s(4) s(1) using s(3) id_char_props [of c] by simp_all
  moreover have "\<forall>c \<in> set key. id_char c" unfolding s(4) by (auto dest: set_takeWhileD)
  ultimately show ?R using s(2) v by blast
next
  assume R: ?R
  then have k: "takeWhile id_char s = key" "dropWhile id_char s = CHR ''='' # v @ r"
    by (auto simp: takeWhile_append dropWhile_append)
  have "takeWhile val_char (v @ r) = v" "dropWhile val_char (v @ r) = r"
    using R by (cases r; auto simp: takeWhile_append dropWhile_append)+
  moreover obtain c cs where "s = c # cs" "id_start c" using R by (cases key) auto
  ultimately show ?L using R k by (simp add: kv_match_def Let_def)
qed

lemma kv_match_None_head:
  assumes "bounded p" "id_start c"
  shows "kv_match p (c # s) = None \<longleftrightarrow>
    (case dropWhile id_char s of [] \<Rightarrow> True
     | e # r \<Rightarrow> e = CHR ''='' \<longrightarrow> (r = [] \<or> \<not> val_char (hd r)))"
proof -
  have tw: "takeWhile val_char r = [] \<longleftrightarrow> r = [] \<or> \<not> val_char (hd r)" for r by (cases r) auto
  show ?thesis
    using assms id_char_props [OF assms(2)]
    by (cases "dropWhile id_char s") (auto simp: kv_match_def Let_def tw simp del: dropWhile_eq_Nil_conv)
qed

lemma kv_sub_after_run:
  assumes "id_char p"
  shows "kv_sub (Some p) s =
    takeWhile id_char s @ kv_sub (Some (last (p # takeWhile id_char s))) (dropWhile id_char s)"
proof -
  have "\<forall>c \<in> set (takeWhile id_char s). id_char c" by (auto dest: set_takeWhileD)
  from kv_sub_ident [OF this assms, of "dropWhile id_char s"] show ?thesis by simp
qed

lemma kv_sub_head_no_start: "s \<noteq> [] \<Longrightarrow> \<not> id_start (hd s) \<Longrightarrow> \<exists>t. kv_sub p s = hd s # t"
  by (cases s) (auto simp: kv_sub_skip)

lemma kv_match_copied:
  assumes "kv_match p (c # s) = None"
  shows "kv_match p (c # kv_sub (Some c) s) = None"
proof (cases "bounded p \<and> id_start c")
  case True
  let ?k = "takeWhile id_char s" and ?r = "dropWhile id_char s"
  have idc: "id_char c" using True id_char_props by blast
  obtain q where eq: "kv_sub (Some c) s = ?k @ kv_sub q ?r" using kv_sub_after_run [OF idc, of s] by blast
  have K: "\<forall>c \<in> set ?k. id_char c" by (auto dest: set_takeWhileD)
  have "case dropWhile id_char (kv_sub (Some c) s) of [] \<Rightarrow> True
     | e # r \<Rightarrow> e = CHR ''='' \<longrightarrow> (r = [] \<or> \<not> val_char (hd r))"
  proof (cases ?r)
    case Nil
    with eq have "kv_sub (Some c) s = ?k" by simp
    with K have "dropWhile id_char (kv_sub (Some c) s) = []" by (simp only: dropWhile_eq_Nil_conv)
    then show ?thesis by (simp del: dropWhile_eq_Nil_conv)
  next
    case (Cons e r)
    then have ne: "\<not> id_char e" by (metis hd_dropWhile list.distinct(1) list.sel(1))
    then have "\<not> id_start e" using id_char_props by blast
    then have sub: "kv_sub q ?r = e # kv_sub (Some e) r" using Cons by (simp add: kv_sub_skip)
    have "e = CHR ''='' \<longrightarrow> (kv_sub (Some e) r = [] \<or> \<not> val_char (hd (kv_sub (Some e) r)))"
    proof
      assume "e = CHR ''=''"
      with assms True Cons have "r = [] \<or> \<not> val_char (hd r)" by (simp add: kv_match_None_head)
      then show "kv_sub (Some e) r = [] \<or> \<not> val_char (hd (kv_sub (Some e) r))"
        using kv_sub_head_no_start [of r "Some e"] id_char_props by (metis kv_sub_Nil list.sel(1))
    qed
    with K eq sub ne show ?thesis by (simp add: dropWhile_append)
  qed
  with True show ?thesis by (simp add: kv_match_None_head)
qed (auto simp: kv_match_def)

lemma kv_sub_idem: "kv_sub p (kv_sub p s) = kv_sub p s"
proof (induction p s rule: kv_sub.induct)
  case (1 p s)
  show ?case
  proof (cases s)
    case Nil
    then show ?thesis by simp
  next
    case (Cons c cs)
    show ?thesis
    proof (cases "kv_match p s")
      case None
      with Cons have "kv_sub p s = c # kv_sub (Some c) cs" by (simp add: kv_sub_None)
      moreover have "kv_sub (Some c) (kv_sub (Some c) cs) = kv_sub (Some c) cs"
        using "1.IH"(1) [OF Cons None] .
      ultimately show ?thesis using None Cons by (simp add: kv_sub_None kv_match_copied)
    next
      case (Some m)
      obtain key v r where m: "m = (key, v, r)" by (cases m)
      with Some have sub: "kv_sub p s = key @ ''=<*>'' @ kv_sub (Some (last v)) r" by (simp add: kv_sub_Some)
      from Some m have ps: "bounded p" "key \<noteq> []" "id_start (hd key)" "\<forall>c \<in> set key. id_char c"
          "r = [] \<or> \<not> val_char (hd r)"
        by (auto simp: kv_match_Some)
      let ?t = "kv_sub (Some (last v)) r"
      have t: "?t = [] \<or> (\<not> val_char (hd ?t) \<and> \<not> id_start (hd ?t))"
        using ps(5) kv_sub_head_no_start [of r "Some (last v)"] id_char_props
        by (metis kv_sub_Nil list.sel(1))
      have "kv_match p (kv_sub p s) = Some (key, ''<*>'', ?t)"
        using ps t unfolding kv_match_Some sub by auto
      then have "kv_sub p (kv_sub p s) = key @ ''=<*>'' @ kv_sub (Some (last ''<*>'')) ?t"
        by (rule kv_sub_Some)
      also have "kv_sub (Some (last ''<*>'')) ?t = kv_sub (Some (last v)) ?t"
        using t by (intro kv_sub_no_start) (auto simp: no_start_def split: list.splits)
      also have "\<dots> = ?t" using "1.IH"(2) [OF Cons Some m [symmetric] refl] by simp
      finally show ?thesis using sub by simp
    qed
  qed
qed

section \<open>Separators\<close>

text \<open>A character that can be in no identifier and in no value and is not \<open>=\<close> separates the scan.\<close>

definition separator :: "char \<Rightarrow> bool" where
  "separator t = (\<not> id_char t \<and> \<not> val_char t \<and> t \<noteq> CHR ''='')"

lemma kv_match_before_separator:
  assumes t: "separator t" and ne: "s \<noteq> []"
  shows "kv_match p (s @ t # u) = map_option (\<lambda>(k, v, r). (k, v, r @ t # u)) (kv_match p s)"
proof (cases "kv_match p s")
  case (Some m)
  then obtain k v r where m: "m = (k, v, r)" "kv_match p s = Some (k, v, r)" by (cases m) auto
  then have "kv_match p (s @ t # u) = Some (k, v, r @ t # u)"
    using t unfolding kv_match_Some by (auto simp: separator_def hd_append)
  with m show ?thesis by simp
next
  case None
  obtain c s' where s: "s = c # s'" using ne by (cases s) auto
  show ?thesis
  proof (cases "bounded p \<and> id_start c")
    case True
    let ?d = "dropWhile id_char s'"
    have dw: "dropWhile id_char (s' @ t # u) = ?d @ t # u"
      using t by (cases "\<forall>c \<in> set s'. id_char c") (auto simp: dropWhile_append separator_def)
    have "case ?d of [] \<Rightarrow> True | e # r \<Rightarrow> e = CHR ''='' \<longrightarrow> (r = [] \<or> \<not> val_char (hd r))"
      using None True s by (simp add: kv_match_None_head)
    then have "kv_match p (c # s' @ t # u) = None"
      using True t unfolding kv_match_None_head [OF conjunct1 [OF True] conjunct2 [OF True]] dw
      by (cases ?d) (auto simp: separator_def hd_append simp del: dropWhile_eq_Nil_conv)
    with None s show ?thesis by simp
  next
    case False
    with None s show ?thesis by (auto simp: kv_match_def)
  qed
qed

lemma kv_sub_separator:
  assumes t: "separator t"
  shows "kv_sub p (s @ t # u) = kv_sub p s @ t # kv_sub (Some t) u"
proof (induction p s rule: kv_sub.induct)
  case (1 p s)
  have nst: "\<not> id_start t" using t id_char_props by (auto simp: separator_def)
  show ?case
  proof (cases s)
    case Nil
    with nst show ?thesis by (simp add: kv_sub_skip)
  next
    case (Cons c cs)
    then have m: "kv_match p (s @ t # u) = map_option (\<lambda>(k, v, r). (k, v, r @ t # u)) (kv_match p s)"
      using kv_match_before_separator [OF t] by blast
    show ?thesis
    proof (cases "kv_match p s")
      case None
      with Cons m "1.IH"(1) [OF Cons None] show ?thesis by (simp add: kv_sub_None)
    next
      case (Some x)
      obtain key v r where x: "x = (key, v, r)" by (cases x)
      with Some m have "kv_match p (s @ t # u) = Some (key, v, r @ t # u)" by simp
      from kv_sub_Some [OF this] Some x "1.IH"(2) [OF Cons Some x [symmetric] refl] show ?thesis
        by (simp add: kv_sub_Some)
    qed
  qed
qed

lemma kv_sub_value:
  assumes "bounded p" "key \<noteq> []" "id_start (hd key)" "\<forall>c \<in> set key. id_char c"
    "v \<noteq> []" "\<forall>c \<in> set v. val_char c" "r = [] \<or> \<not> val_char (hd r)"
  shows "kv_sub p (key @ CHR ''='' # v @ r) = key @ ''=<*>'' @ kv_sub None r"
proof -
  have "kv_match p (key @ CHR ''='' # v @ r) = Some (key, v, r)" using assms by (simp add: kv_match_Some)
  moreover have "no_start r" using assms(7) id_char_props by (auto simp: no_start_def split: list.splits)
  ultimately show ?thesis by (metis kv_sub_Some kv_sub_no_start)
qed

section \<open>Properties\<close>

text \<open>Normalisation is a projection: normalising a normalised message changes nothing, so a signature
  that is computed again from its own text is stable.\<close>

theorem normalize_message_idempotent: "normalize_message (normalize_message text) = normalize_message text"
  unfolding normalize_message_def by (rule kv_sub_idem)

text \<open>The values of \<open>key=value\<close> pairs do not influence the normalised message: after a separator, two
  messages that differ only in the value given to a key are normalised to the same text.\<close>

theorem normalize_message_value_irrelevant:
  assumes "separator t" "key \<noteq> []" "id_start (hd key)" "\<forall>c \<in> set key. id_char c"
    and "v \<noteq> []" "\<forall>c \<in> set v. val_char c" and "w \<noteq> []" "\<forall>c \<in> set w. val_char c"
    and "post = [] \<or> \<not> val_char (hd post)"
  shows "normalize_message (pre @ t # key @ CHR ''='' # v @ post)
       = normalize_message (pre @ t # key @ CHR ''='' # w @ post)"
proof -
  have "bounded (Some t)" using assms(1) by (simp add: bounded_def separator_def)
  with assms show ?thesis by (simp add: normalize_message_def kv_sub_separator kv_sub_value)
qed

theorem normalize_message_value_irrelevant_witness:
  "normalize_message ''failed orderId=ORD-1 now'' = normalize_message ''failed orderId=ORD-27 now''"
  using normalize_message_value_irrelevant [of "CHR '' ''" "''orderId''" "''ORD-1''" "''ORD-27''" "'' now''" "''failed''"]
  by (simp add: separator_def id_char_def id_start_def val_char_def in_range_def py_space_def)

lemma signature_bounded: "length (signature l n_frames) \<le> 1000"
  by (simp add: signature_def MAX_SIGNATURE_LEN_def)

end
