(* ===== verification/Apm_Plugins.thy ===== *)
theory Apm_Plugins
  imports Apm_Signature
begin

text \<open>
  The plugin layer: \<open>plugins/registry.py\<close>, the signal matcher \<open>pipeline/filter_signals.py\<close>, the built-in
  detectors and suppressors. A plugin is a record of its name and its operation; the parameters of a
  rule are an arbitrary dictionary, so every type error of the Python code is a branch of the model.
\<close>

section \<open>Dynamically typed values\<close>

fun py_num :: "pyval \<Rightarrow> rat option" where
  "py_num (PBool b) = Some (if b then 1 else 0)"
| "py_num (PInt i) = Some (of_int i)"
| "py_num (PFloat r) = Some r"
| "py_num v = None"

fun py_index :: "pyval \<Rightarrow> int option" where
  "py_index (PBool b) = Some (if b then 1 else 0)"
| "py_index (PInt i) = Some i"
| "py_index v = None"

definition num_op :: "(rat \<Rightarrow> rat \<Rightarrow> bool) \<Rightarrow> pyval \<Rightarrow> pyval \<Rightarrow> bool res" where
  "num_op f v w = (case (py_num v, py_num w) of (Some a, Some b) \<Rightarrow> Inr (f a b)
     | _ \<Rightarrow> Inl (TypeError ''not supported between instances''))"

text \<open>\<open>a * b\<close>: exact on ints, rounded when a float is involved.\<close>

definition py_mul :: "pyval \<Rightarrow> pyval \<Rightarrow> pyval res" where
  "py_mul v w =
     (case (py_index v, py_index w) of
        (Some a, Some b) \<Rightarrow> Inr (PInt (a * b))
      | _ \<Rightarrow> (case (py_num v, py_num w) of
            (Some a, Some b) \<Rightarrow> Inr (PFloat (fl (fl a * fl b)))
          | _ \<Rightarrow> Inl (TypeError ''multiplication'')))"

definition unpack2 :: "pyval \<Rightarrow> (pyval \<times> pyval) res" where
  "unpack2 v =
     (let two = (\<lambda>xs. case xs of [a, b] \<Rightarrow> Inr (a, b) | _ \<Rightarrow> Inl (ValueError ''values to unpack'')) in
      case v of PList xs \<Rightarrow> two xs | PStr s \<Rightarrow> two (map (\<lambda>c. PStr [c]) s)
      | PDict d \<Rightarrow> two (map (\<lambda>(k, _). PStr k) d) | _ \<Rightarrow> Inl (TypeError ''cannot unpack''))"

text \<open>\<open>repr\<close> and \<open>str\<close> of a value; \<open>str\<close> is what an f-string inserts.\<close>

definition time_repr :: "time \<Rightarrow> string" where
  "time_repr t = (let (y, m, d) = civil (t div usec_per_day); r = t mod usec_per_day; sec = r div 1000000;
     us = r mod 1000000; num = (\<lambda>i. show_nat (nat i)); sep = '', ''
   in ''datetime.datetime('' @ num y @ sep @ num m @ sep @ num d @ sep @ num (sec div 3600) @ sep
      @ num (sec mod 3600 div 60)
      @ (if sec mod 60 = 0 \<and> us = 0 then [] else sep @ num (sec mod 60))
      @ (if us = 0 then [] else sep @ num us) @ '', tzinfo=datetime.timezone.utc)'')"

fun py_repr :: "pyval \<Rightarrow> string" where
  "py_repr PNone = ''None''"
| "py_repr (PBool b) = (if b then ''True'' else ''False'')"
| "py_repr (PInt i) = show_int i"
| "py_repr (PFloat r) = float_repr r"
| "py_repr (PStr s) = repr_str s"
| "py_repr (PTime t) = time_repr t"
| "py_repr (PList xs) = ''['' @ join '', '' (map py_repr xs) @ '']''"
| "py_repr (PDict d) = ''{'' @ join '', '' (map (\<lambda>(k, v). repr_str k @ '': '' @ py_repr v) d) @ ''}''"

definition py_str :: "pyval \<Rightarrow> string" where
  "py_str v = (case v of PStr s \<Rightarrow> s | PTime t \<Rightarrow> iso_time (CHR '' '') t | _ \<Rightarrow> py_repr v)"

definition key_index :: "pydict \<Rightarrow> string \<Rightarrow> pyval res" where
  "key_index d k = (case map_of d k of None \<Rightarrow> Inl (KeyError k) | Some v \<Rightarrow> Inr v)"

section \<open>\<open>filter_signals\<close>\<close>

text \<open>\<open>_labels_match\<close>: a wanted \<open>None\<close> also matches a missing label, since \<open>get\<close> returns \<open>None\<close>.\<close>

definition labels_match :: "(string \<times> string) list \<Rightarrow> pydict \<Rightarrow> bool" where
  "labels_match actual wanted =
     (\<forall>(k, v) \<in> set wanted. (case map_of actual k of None \<Rightarrow> v = PNone | Some x \<Rightarrow> v = PStr x))"

definition field_match :: "pydict \<Rightarrow> string \<Rightarrow> string \<Rightarrow> bool" where
  "field_match matcher k actual = (\<not> truthy (py_get matcher k) \<or> py_get matcher k = PStr actual)"

definition dict_match :: "pydict \<Rightarrow> signal \<Rightarrow> bool res" where
  "dict_match matcher s =
     (case s of
        MetricSignal m \<Rightarrow>
          if py_get matcher ''signal_type'' \<noteq> PStr ''metric'' then Inr False
          else if \<not> field_match matcher ''metric'' (ms_metric m) then Inr False
          else bind_res
            (if truthy (py_get matcher ''labels'')
             then (case py_get matcher ''labels'' of PDict d \<Rightarrow> Inr d | _ \<Rightarrow> Inl (AttributeError ''items''))
             else Inr [])
            (\<lambda>wanted. Inr (labels_match (ms_labels m) wanted
                          \<and> field_match matcher ''service'' (ms_service m)))
      | LogSignal l \<Rightarrow>
          Inr (py_get matcher ''signal_type'' = PStr ''log'' \<and> field_match matcher ''level'' (ls_level l)
               \<and> field_match matcher ''service'' (ls_service l))
      | ChangeSignal c \<Rightarrow> Inr False)"

fun filterM :: "('a \<Rightarrow> bool res) \<Rightarrow> 'a list \<Rightarrow> 'a list res" where
  "filterM f [] = Inr []"
| "filterM f (x # xs) = bind_res (f x) (\<lambda>b. bind_res (filterM f xs) (\<lambda>ys. Inr (if b then x # ys else ys)))"

definition name_match :: "string \<Rightarrow> signal \<Rightarrow> bool" where
  "name_match name s =
     (case s of MetricSignal m \<Rightarrow> ms_metric m = name | LogSignal l \<Rightarrow> ls_level l = name | ChangeSignal c \<Rightarrow> False)"

definition filter_signals :: "signal list \<Rightarrow> pyval \<Rightarrow> signal list res" where
  "filter_signals signals matcher =
     (if matcher = PNone \<or> matcher = PStr ''*'' \<or> matcher = PStr [] then Inr signals
      else case matcher of
        PStr name \<Rightarrow> Inr (filter (name_match name) signals)
      | PDict d \<Rightarrow> filterM (dict_match d) signals
      | _ \<Rightarrow> Inr [])"

section \<open>Detectors\<close>

datatype operator = GT | GTE | LT | LTE | RANGE

definition Operator :: "pyval \<Rightarrow> operator res" where
  "Operator v =
     (if v = PStr ''gt'' then Inr GT else if v = PStr ''gte'' then Inr GTE else if v = PStr ''lt'' then Inr LT
      else if v = PStr ''lte'' then Inr LTE else if v = PStr ''range'' then Inr RANGE
      else Inl (ValueError ''is not a valid Operator''))"

fun threshold_hit :: "operator \<Rightarrow> pyval \<Rightarrow> pydict \<Rightarrow> rat \<Rightarrow> bool res" where
  "threshold_hit GT threshold params v = num_op (>) (PFloat v) threshold"
| "threshold_hit GTE threshold params v = num_op (\<ge>) (PFloat v) threshold"
| "threshold_hit LT threshold params v = num_op (<) (PFloat v) threshold"
| "threshold_hit LTE threshold params v = num_op (\<le>) (PFloat v) threshold"
| "threshold_hit RANGE threshold params v =
     bind_res (unpack2 (py_get_or params ''range'' (PList [threshold, threshold]))) (\<lambda>(lo, hi).
     bind_res (num_op (\<le>) lo (PFloat v)) (\<lambda>above.
       if above then bind_res (num_op (\<le>) (PFloat v) hi) (\<lambda>below. Inr (\<not> below)) else Inr True))"

text \<open>The model validation of \<open>severity\<close>, a required string.\<close>

definition severity_param :: "pydict \<Rightarrow> string res" where
  "severity_param params = (case py_get_or params ''severity'' (PStr ''warning'') of
     PStr s \<Rightarrow> Inr s | _ \<Rightarrow> Inl (ValidationError ''severity''))"

definition metric_anomaly_of :: "metric_signal \<Rightarrow> rat option \<Rightarrow> string \<Rightarrow> string
    \<Rightarrow> (string \<times> string) list \<Rightarrow> anomaly" where
  "metric_anomaly_of s baseline method severity labels =
     MetricAnomaly \<lparr>ma_tenant_id = ms_tenant_id s, ma_service = ms_service s, ma_metric = ms_metric s,
       ma_value = ms_value s, ma_baseline = baseline, ma_method = method, ma_severity = severity,
       ma_detected_at = ms_timestamp s, ma_labels = labels\<rparr>"

fun metric_loop :: "(metric_signal \<Rightarrow> anomaly option res) \<Rightarrow> signal list \<Rightarrow> anomaly list res" where
  "metric_loop f [] = Inr []"
| "metric_loop f (MetricSignal m # ss) =
     bind_res (f m) (\<lambda>r. bind_res (metric_loop f ss) (\<lambda>as. Inr (case r of None \<Rightarrow> as | Some a \<Rightarrow> a # as)))"
| "metric_loop f (s # ss) = metric_loop f ss"

definition static_threshold_detect :: "signal list \<Rightarrow> pydict \<Rightarrow> anomaly list res" where
  "static_threshold_detect signals params =
     bind_res (key_index params ''threshold'') (\<lambda>threshold.
     bind_res (Operator (py_get_or params ''operator'' (PStr ''gt''))) (\<lambda>operator.
       metric_loop (\<lambda>s.
         bind_res (threshold_hit operator threshold params (ms_value s)) (\<lambda>hit.
           if hit then bind_res (severity_param params) (\<lambda>severity.
             Inr (Some (metric_anomaly_of s None ''static_threshold'' severity (ms_labels s))))
           else Inr None)) signals))"

definition simple_compare_detect :: "signal list \<Rightarrow> pydict \<Rightarrow> anomaly list res" where
  "simple_compare_detect signals params =
     (let ratio = py_get_or params ''ratio'' (PFloat (3 / 2)); baseline = py_get params ''baseline'' in
      metric_loop (\<lambda>s.
        if baseline = PNone then Inr None
        else bind_res (py_mul baseline ratio) (\<lambda>limit.
             bind_res (num_op (>) (PFloat (ms_value s)) limit) (\<lambda>hit.
               if hit then bind_res (severity_param params) (\<lambda>severity.
                 Inr (Some (metric_anomaly_of s (map_option fl (py_num baseline)) ''simple_compare'' severity [])))
               else Inr None))) signals)"

text \<open>\<open>s.signature or signature(s, n_frames)\<close>; the number of frames is only used on a stack trace.\<close>

definition log_signature :: "log_signal \<Rightarrow> pyval \<Rightarrow> string res" where
  "log_signature s n_frames =
     (case ls_signature s of
        Some (c # cs) \<Rightarrow> Inr (c # cs)
      | _ \<Rightarrow> if ls_stack_trace s = None \<or> ls_stack_trace s = Some [] then Inr (signature s 0)
           else (case py_index n_frames of Some n \<Rightarrow> Inr (signature s n)
                 | None \<Rightarrow> Inl (TypeError ''n_frames''))) "

type_synonym log_groups = "((string \<times> string) \<times> log_signal list) list"

fun aggregate :: "pyval \<Rightarrow> signal list \<Rightarrow> log_groups \<Rightarrow> log_groups res" where
  "aggregate n_frames [] groups = Inr groups"
| "aggregate n_frames (LogSignal s # ss) groups =
     bind_res (log_signature s n_frames) (\<lambda>sig.
       aggregate n_frames ss
         (AList.update (sig, ls_service s)
           ((case map_of groups (sig, ls_service s) of None \<Rightarrow> [] | Some logs \<Rightarrow> logs) @ [s]) groups))"
| "aggregate n_frames (s # ss) groups = aggregate n_frames ss groups"

definition log_anomaly_of :: "string \<Rightarrow> string \<Rightarrow> log_signal list \<Rightarrow> string \<Rightarrow> log_anomaly" where
  "log_anomaly_of sig service logs severity =
     \<lparr>la_tenant_id = ls_tenant_id (hd logs), la_service = service, la_level = ls_level (hd logs),
      la_signature = sig, la_pattern = take 120 (ls_message (hd logs)), la_count = length logs,
      la_first_seen = Min (set (map ls_timestamp logs)), la_severity = severity,
      la_detected_at = Some (Max (set (map ls_timestamp logs))),
      la_trace_ids = sorted_set (concat (map (\<lambda>l. case ls_trace_id l of Some (c # cs) \<Rightarrow> [c # cs] | _ \<Rightarrow> []) logs))\<rparr>"

fun aggregate_emit :: "pyval \<Rightarrow> pydict \<Rightarrow> log_groups \<Rightarrow> anomaly list res" where
  "aggregate_emit min_count params [] = Inr []"
| "aggregate_emit min_count params (((sig, service), logs) # groups) =
     bind_res (num_op (<) (PInt (int (length logs))) min_count) (\<lambda>small.
       if small then aggregate_emit min_count params groups
       else bind_res (severity_param params) (\<lambda>severity.
            bind_res (aggregate_emit min_count params groups) (\<lambda>as.
              Inr (LogAnomaly (log_anomaly_of sig service logs severity) # as))))"

definition signature_aggregate_detect :: "signal list \<Rightarrow> pydict \<Rightarrow> anomaly list res" where
  "signature_aggregate_detect signals params =
     (let min_count = py_get_or params ''min_count'' (PInt 5); n_frames = py_get_or params ''n_frames'' (PInt 3) in
      bind_res (aggregate n_frames signals []) (\<lambda>groups. aggregate_emit min_count params groups))"

section \<open>Suppressors\<close>

record suppress_ctx =
  sx_maintenance_windows :: "pydict list"
  sx_blacklist :: "pydict list"

definition time_le :: "pyval \<Rightarrow> pyval \<Rightarrow> bool res" where
  "time_le v w = (case (v, w) of (PTime a, PTime b) \<Rightarrow> Inr (a \<le> b)
     | _ \<Rightarrow> Inl (TypeError ''not supported between instances''))"

fun maintenance_reason :: "pydict list \<Rightarrow> signal \<Rightarrow> string option res" where
  "maintenance_reason [] signal = Inr None"
| "maintenance_reason (w # ws) signal =
     bind_res (key_index w ''service'') (\<lambda>service.
     bind_res
       (if service \<noteq> PStr (sig_service signal) then Inr False
        else bind_res (key_index w ''start_at'') (\<lambda>start_at.
             bind_res (time_le start_at (PTime (sig_timestamp signal))) (\<lambda>after.
               if after then bind_res (key_index w ''end_at'') (\<lambda>end_at. time_le (PTime (sig_timestamp signal)) end_at)
               else Inr False)))
       (\<lambda>hit. if hit then Inr (Some (''maintenance_window: '' @ py_str (py_get_or w ''reason'' (PStr []))))
              else maintenance_reason ws signal))"

definition signal_name :: "signal \<Rightarrow> string option" where
  "signal_name s = (case s of MetricSignal m \<Rightarrow> Some (ms_metric m) | LogSignal l \<Rightarrow> Some (ls_level l)
     | ChangeSignal c \<Rightarrow> None)"

fun blacklist_reason :: "pydict list \<Rightarrow> signal \<Rightarrow> string option res" where
  "blacklist_reason [] signal = Inr None"
| "blacklist_reason (entry # es) signal =
     bind_res (key_index entry ''service'') (\<lambda>service.
       if service \<noteq> PStr (sig_service signal) then blacklist_reason es signal
       else case signal_name signal of
         None \<Rightarrow> blacklist_reason es signal
       | Some name \<Rightarrow> bind_res (key_index entry ''signal'') (\<lambda>sg.
           if sg = PStr name then Inr (Some (''blacklist: '' @ py_str (py_get_or entry ''reason'' (PStr []))))
           else blacklist_reason es signal))"

text \<open>A signal in a round is an object: its number is its identity. \<open>batch_check\<close> pairs each with a reason.\<close>

type_synonym sigobj = "nat \<times> signal"

definition batch_check :: "(signal \<Rightarrow> string option res) \<Rightarrow> sigobj list \<Rightarrow> (sigobj \<times> string option) list res" where
  "batch_check reason_for signals = mapM (\<lambda>s. bind_res (reason_for (snd s)) (\<lambda>r. Inr (s, r))) signals"

definition maintenance_window_batch :: "sigobj list \<Rightarrow> suppress_ctx \<Rightarrow> pydict \<Rightarrow> (sigobj \<times> string option) list res" where
  "maintenance_window_batch signals ctx params =
     batch_check (maintenance_reason (sx_maintenance_windows ctx)) signals"

definition blacklist_batch :: "sigobj list \<Rightarrow> suppress_ctx \<Rightarrow> pydict \<Rightarrow> (sigobj \<times> string option) list res" where
  "blacklist_batch signals ctx params = batch_check (blacklist_reason (sx_blacklist ctx)) signals"

section \<open>The registry\<close>

record detector =
  det_name :: string
  det_detect :: "signal list \<Rightarrow> pydict \<Rightarrow> anomaly list res"

record suppressor =
  sup_name :: string
  sup_batch_check :: "sigobj list \<Rightarrow> suppress_ctx \<Rightarrow> pydict \<Rightarrow> (sigobj \<times> string option) list res"

datatype plugin = DetectorPlugin detector | SuppressorPlugin suppressor | CollectorPlugin string

type_synonym registry = "(string \<times> (string \<times> plugin) list) list"

definition GROUPS :: "(string \<times> string) list" where
  "GROUPS = [(''collector'', ''aiops_apm.collectors''), (''detector'', ''aiops_apm.detectors''),
             (''suppressor'', ''aiops_apm.suppressors'')]"

definition registry_init :: registry where
  "registry_init = map (\<lambda>(k, g). (k, [])) GROUPS"

text \<open>What an entry point's factory gives: a plugin, a coroutine (refused), or an exception.\<close>

datatype build_outcome = Built plugin | AsyncBuild | BuildRaised error

definition registry_load :: "(string \<Rightarrow> (string \<times> build_outcome) list) \<Rightarrow> registry" where
  "registry_load entry_points =
     map (\<lambda>(kind, grp). (kind, fold (\<lambda>(name, b) table. case b of Built p \<Rightarrow> AList.update name p table
       | AsyncBuild \<Rightarrow> table | BuildRaised e \<Rightarrow> table) (entry_points grp) [])) GROUPS"

definition registry_register :: "registry \<Rightarrow> string \<Rightarrow> string \<Rightarrow> plugin \<Rightarrow> registry" where
  "registry_register active kind name p =
     AList.update kind (AList.update name p (case map_of active kind of None \<Rightarrow> [] | Some t \<Rightarrow> t)) active"

definition registry_get :: "registry \<Rightarrow> string \<Rightarrow> string \<Rightarrow> plugin res" where
  "registry_get active kind name =
     (case map_of (case map_of active kind of None \<Rightarrow> [] | Some t \<Rightarrow> t) name of
        None \<Rightarrow> Inl (AppException PLUGIN_NOT_FOUND (kind @ ''/'' @ name))
      | Some p \<Rightarrow> Inr p)"

definition registry_list :: "registry \<Rightarrow> string option \<Rightarrow> (string \<times> string list) list" where
  "registry_list active kind =
     (case kind of Some (c # cs) \<Rightarrow>
        [(c # cs, map fst (case map_of active (c # cs) of None \<Rightarrow> [] | Some t \<Rightarrow> t))]
      | _ \<Rightarrow> map (\<lambda>(k, t). (k, map fst t)) active)"

definition static_threshold :: detector where
  "static_threshold = \<lparr>det_name = ''static_threshold'', det_detect = static_threshold_detect\<rparr>"

definition simple_compare :: detector where
  "simple_compare = \<lparr>det_name = ''simple_compare'', det_detect = simple_compare_detect\<rparr>"

definition signature_aggregate :: detector where
  "signature_aggregate = \<lparr>det_name = ''signature_aggregate'', det_detect = signature_aggregate_detect\<rparr>"

definition maintenance_window :: suppressor where
  "maintenance_window = \<lparr>sup_name = ''maintenance_window'', sup_batch_check = maintenance_window_batch\<rparr>"

definition blacklist :: suppressor where
  "blacklist = \<lparr>sup_name = ''blacklist'', sup_batch_check = blacklist_batch\<rparr>"

text \<open>The entry points the package itself declares.\<close>

definition builtin_entry_points :: "string \<Rightarrow> (string \<times> build_outcome) list" where
  "builtin_entry_points grp =
     (if grp = ''aiops_apm.collectors'' then
        map (\<lambda>n. (n, Built (CollectorPlugin n))) [''http_metrics'', ''http_logs'', ''mock'']
      else if grp = ''aiops_apm.detectors'' then
        map (\<lambda>d. (det_name d, Built (DetectorPlugin d))) [static_threshold, simple_compare, signature_aggregate]
      else if grp = ''aiops_apm.suppressors'' then
        map (\<lambda>x. (sup_name x, Built (SuppressorPlugin x))) [maintenance_window, blacklist]
      else [])"

section \<open>The contract of a detector\<close>

fun sig_tenant :: "signal \<Rightarrow> string" where
  "sig_tenant (MetricSignal m) = ms_tenant_id m"
| "sig_tenant (LogSignal l) = ls_tenant_id l"
| "sig_tenant (ChangeSignal c) = cs_tenant_id c"

fun an_tenant :: "anomaly \<Rightarrow> string" where
  "an_tenant (MetricAnomaly m) = ma_tenant_id m"
| "an_tenant (LogAnomaly l) = la_tenant_id l"

text \<open>What the pipeline relies on: an anomaly speaks about a signal the detector was given.\<close>

locale detector_laws =
  fixes detect :: "signal list \<Rightarrow> pydict \<Rightarrow> anomaly list res"
  assumes detect_grounded: "detect ss ps = Inr as \<Longrightarrow> a \<in> set as
    \<Longrightarrow> \<exists>s \<in> set ss. sig_service s = an_service a \<and> sig_tenant s = an_tenant a"
begin

lemma services_within: "detect ss ps = Inr as \<Longrightarrow> an_service ` set as \<subseteq> sig_service ` set ss"
  by (auto dest!: detect_grounded) (metis imageI)

lemma tenants_within: "detect ss ps = Inr as \<Longrightarrow> an_tenant ` set as \<subseteq> sig_tenant ` set ss"
  by (auto dest!: detect_grounded) (metis imageI)

lemma silent_without_signals: "detect [] ps = Inr as \<Longrightarrow> as = []"
  using detect_grounded by fastforce

end

lemma metric_loop_grounded:
  assumes "metric_loop f ss = Inr as" and "a \<in> set as"
    and "\<And>m b. f m = Inr (Some b) \<Longrightarrow> an_service b = ms_service m \<and> an_tenant b = ms_tenant_id m"
  shows "\<exists>s \<in> set ss. sig_service s = an_service a \<and> sig_tenant s = an_tenant a"
  using assms
proof (induction f ss arbitrary: as rule: metric_loop.induct)
  case (2 f m ss)
  from 2(2) obtain r bs where r: "f m = Inr r" "metric_loop f ss = Inr bs"
    "as = (case r of None \<Rightarrow> bs | Some a \<Rightarrow> a # bs)" by auto
  show ?case
  proof (cases "a \<in> set bs")
    case True
    with 2(1) [OF r(1) r(2)] 2(4) show ?thesis by auto
  next
    case False
    with r 2(3) have "r = Some a" by (auto split: option.splits)
    with r(1) 2(4) show ?thesis by fastforce
  qed
qed fastforce+

lemma metric_anomaly_of_sel [simp]:
  "an_service (metric_anomaly_of s b me sev ls) = ms_service s"
  "an_tenant (metric_anomaly_of s b me sev ls) = ms_tenant_id s"
  by (simp_all add: metric_anomaly_of_def)

interpretation static_threshold: detector_laws static_threshold_detect
  by unfold_locales
    (auto simp: static_threshold_detect_def elim!: metric_loop_grounded split: if_splits)

interpretation simple_compare: detector_laws simple_compare_detect
  by unfold_locales
    (auto simp: simple_compare_detect_def Let_def elim!: metric_loop_grounded split: if_splits)

section \<open>Aggregation by signature\<close>

definition logs_of :: "signal list \<Rightarrow> log_signal list" where
  "logs_of ss = concat (map (\<lambda>s. case s of LogSignal l \<Rightarrow> [l] | _ \<Rightarrow> []) ss)"

text \<open>The log lines of a signature and service.\<close>

definition lines_of :: "pyval \<Rightarrow> signal list \<Rightarrow> string \<times> string \<Rightarrow> log_signal list" where
  "lines_of n ss k = filter (\<lambda>l. log_signature l n = Inr (fst k) \<and> ls_service l = snd k) (logs_of ss)"

lemma lines_of_simps [simp]:
  "lines_of n [] k = []"
  "lines_of n (LogSignal l # ss) k =
     (if log_signature l n = Inr (fst k) \<and> ls_service l = snd k then l # lines_of n ss k else lines_of n ss k)"
  "lines_of n (MetricSignal m # ss) k = lines_of n ss k"
  "lines_of n (ChangeSignal c # ss) k = lines_of n ss k"
  by (simp_all add: lines_of_def logs_of_def)

lemma aggregate_lines:
  "aggregate n ss groups = Inr g \<Longrightarrow> distinct (map fst groups) \<Longrightarrow> (\<forall>k. map_of groups k \<noteq> Some []) \<Longrightarrow>
   distinct (map fst g) \<and> (\<forall>k. map_of g k =
     (let ls = (case map_of groups k of None \<Rightarrow> [] | Some l \<Rightarrow> l) @ lines_of n ss k in
      if ls = [] then None else Some ls))"
proof (induction n ss groups arbitrary: g rule: aggregate.induct)
  case (1 n groups)
  then show ?case by (auto simp: Let_def split: option.splits)
next
  case (2 n s ss groups)
  from 2(2) obtain sig where sig: "log_signature s n = Inr sig" by (cases "log_signature s n") auto
  let ?k = "(sig, ls_service s)"
  let ?g = "AList.update ?k ((case map_of groups ?k of None \<Rightarrow> [] | Some logs \<Rightarrow> logs) @ [s]) groups"
  have ag: "aggregate n ss ?g = Inr g" using 2(2) sig by simp
  have ih: "distinct (map fst g) \<and> (\<forall>k. map_of g k =
     (let ls = (case map_of ?g k of None \<Rightarrow> [] | Some l \<Rightarrow> l) @ lines_of n ss k in
      if ls = [] then None else Some ls))"
  proof (rule 2(1) [OF sig ag])
    show "distinct (map fst ?g)" by (rule distinct_keys_update [OF 2(3)])
    show "\<forall>k. map_of ?g k \<noteq> Some []" using 2(4) by (simp add: map_of_update)
  qed
  have k: "log_signature s n = Inr (fst k) \<and> ls_service s = snd k \<longleftrightarrow> k = ?k" for k
    using sig by (cases k) auto
  have "map_of g k = (let ls = (case map_of groups k of None \<Rightarrow> [] | Some l \<Rightarrow> l) @ lines_of n (LogSignal s # ss) k in
      if ls = [] then None else Some ls)" for k
    using spec [OF conjunct2 [OF ih], of k] k [of k] by (cases "k = ?k") (auto simp: map_of_update Let_def)
  with ih show ?case by blast
qed auto

definition log_anomaly_sel :: "anomaly \<Rightarrow> (string \<times> string) \<times> nat" where
  "log_anomaly_sel a = (case a of LogAnomaly l \<Rightarrow> ((la_signature l, la_service l), la_count l)
     | MetricAnomaly m \<Rightarrow> (([], []), 0))"

lemma aggregate_emit_anoms:
  assumes "py_num mc = Some c" and "severity_param ps = Inr sev"
  shows "aggregate_emit mc ps g = Inr (map (\<lambda>((sig, svc), logs). LogAnomaly (log_anomaly_of sig svc logs sev))
     (filter (\<lambda>(k, logs). c \<le> of_nat (length logs)) g))"
  using assms by (induction mc ps g rule: aggregate_emit.induct) (auto simp: num_op_def)

lemma aggregate_emit_sound:
  "aggregate_emit mc ps g = Inr as \<Longrightarrow> a \<in> set as
     \<Longrightarrow> \<exists>sig svc logs sev. ((sig, svc), logs) \<in> set g \<and> a = LogAnomaly (log_anomaly_of sig svc logs sev)"
proof (induction mc ps g arbitrary: as rule: aggregate_emit.induct)
  case (2 mc ps sig svc logs g)
  from "2.prems"(1) obtain small where sm: "num_op (<) (PInt (int (length logs))) mc = Inr small" by auto
  show ?case
  proof (cases small)
    case True
    with "2.prems"(1) sm have "aggregate_emit mc ps g = Inr as" by simp
    from "2.IH"(1) [OF sm True this "2.prems"(2)] show ?thesis by auto
  next
    case False
    with "2.prems"(1) sm obtain sev bs where bs: "severity_param ps = Inr sev" "aggregate_emit mc ps g = Inr bs"
      "as = LogAnomaly (log_anomaly_of sig svc logs sev) # bs" by auto
    show ?thesis
    proof (cases "a \<in> set bs")
      case True
      from "2.IH"(2) [OF sm False bs(1,2) True] show ?thesis by auto
    next
      case notin: False
      with bs(3) "2.prems"(2) have "a = LogAnomaly (log_anomaly_of sig svc logs sev)" by simp
      then show ?thesis by auto
    qed
  qed
qed simp

lemma log_signature_total: "py_index n = Some i \<Longrightarrow> \<exists>sig. log_signature s n = Inr sig"
  by (auto simp: log_signature_def split: option.splits list.splits)

lemma aggregate_total: "py_index n = Some i \<Longrightarrow> \<exists>g. aggregate n ss groups = Inr g"
proof (induction n ss groups rule: aggregate.induct)
  case (2 n s ss groups)
  from log_signature_total [OF 2(2)] obtain sig where "log_signature s n = Inr sig" by blast
  with 2 show ?case by (simp del: bind_res_Inr_iff)
qed auto

lemma aggregate_groups:
  assumes "aggregate n ss [] = Inr g"
  shows "distinct (map fst g)" and "(k, logs) \<in> set g \<longleftrightarrow> logs = lines_of n ss k \<and> logs \<noteq> []"
proof -
  have A: "distinct (map fst g) \<and> (\<forall>k. map_of g k =
     (let ls = (case map_of [] k of None \<Rightarrow> [] | Some l \<Rightarrow> l) @ lines_of n ss k in if ls = [] then None else Some ls))"
    by (rule aggregate_lines [OF assms]) simp_all
  then show d: "distinct (map fst g)" ..
  have "map_of g k = (if lines_of n ss k = [] then None else Some (lines_of n ss k))"
    using spec [OF conjunct2 [OF A], of k] by (simp add: Let_def)
  moreover have "(k, logs) \<in> set g \<longleftrightarrow> map_of g k = Some logs" using d by simp
  ultimately show "(k, logs) \<in> set g \<longleftrightarrow> logs = lines_of n ss k \<and> logs \<noteq> []" by auto
qed

interpretation signature_aggregate: detector_laws signature_aggregate_detect
proof
  fix ss ps as a
  assume "signature_aggregate_detect ss ps = Inr as" "a \<in> set as"
  then obtain n g sig svc logs sev where g: "aggregate n ss [] = Inr g" "((sig, svc), logs) \<in> set g"
    "a = LogAnomaly (log_anomaly_of sig svc logs sev)"
    by (auto simp: signature_aggregate_detect_def Let_def dest!: aggregate_emit_sound)
  from g(2) have "logs = lines_of n ss (sig, svc)" "logs \<noteq> []"
    unfolding aggregate_groups(2) [OF g(1)] by blast+
  then have "hd logs \<in> set (lines_of n ss (sig, svc))" by (metis hd_in_set)
  then have "LogSignal (hd logs) \<in> set ss" "ls_service (hd logs) = svc"
    by (auto simp: lines_of_def logs_of_def split: signal.splits)
  with g(3) show "\<exists>s \<in> set ss. sig_service s = an_service a \<and> sig_tenant s = an_tenant a"
    by (intro bexI [of _ "LogSignal (hd logs)"]) (simp_all add: log_anomaly_of_def)
qed

section \<open>The contract of a suppressor\<close>

text \<open>A batch check answers for every signal object, in order, and each answer depends on that signal only.\<close>

locale suppressor_laws =
  fixes batch :: "sigobj list \<Rightarrow> suppress_ctx \<Rightarrow> pydict \<Rightarrow> (sigobj \<times> string option) list res"
  assumes batch_covers: "batch ss cx ps = Inr rs \<Longrightarrow> map fst rs = ss"
    and batch_local: "batch ss cx ps = Inr rs \<Longrightarrow> (s, r) \<in> set rs \<Longrightarrow> batch [s] cx ps = Inr [(s, r)]"
begin

lemma answers_once: "batch ss cx ps = Inr rs \<Longrightarrow> length rs = length ss"
  by (metis batch_covers length_map)

lemma answer_unique: "batch ss cx ps = Inr rs \<Longrightarrow> (s, r) \<in> set rs \<Longrightarrow> (s, q) \<in> set rs \<Longrightarrow> r = q"
  by (metis batch_local list.inject sum.inject(2) prod.inject)

end

lemma batch_check_laws:
  "batch_check f ss = Inr rs \<Longrightarrow> map fst rs = ss"
  "batch_check f ss = Inr rs \<Longrightarrow> (s, r) \<in> set rs \<Longrightarrow> batch_check f [s] = Inr [(s, r)]"
proof -
  assume "batch_check f ss = Inr rs"
  then have rel: "list_all2 (\<lambda>s y. bind_res (f (snd s)) (\<lambda>r. Inr (s, r)) = Inr y) ss rs"
    by (simp add: batch_check_def mapM_Inr_iff)
  show "map fst rs = ss" using rel by (induction rule: list_all2_induct) auto
  show "(s, r) \<in> set rs \<Longrightarrow> batch_check f [s] = Inr [(s, r)]"
    using rel by (induction rule: list_all2_induct) (auto simp: batch_check_def)
qed

interpretation maintenance_window: suppressor_laws maintenance_window_batch
  by unfold_locales (simp_all add: maintenance_window_batch_def batch_check_laws)

interpretation blacklist: suppressor_laws blacklist_batch
  by unfold_locales (simp_all add: blacklist_batch_def batch_check_laws)

section \<open>Properties\<close>

definition metrics_of :: "signal list \<Rightarrow> metric_signal list" where
  "metrics_of ss = concat (map (\<lambda>s. case s of MetricSignal m \<Rightarrow> [m] | _ \<Rightarrow> []) ss)"

lemma metric_loop_exact:
  assumes "\<And>m. f m = Inr (if P m then Some (h m) else None)"
  shows "metric_loop f ss = Inr (map h (filter P (metrics_of ss)))"
proof (induction ss)
  case (Cons s ss)
  then show ?case by (cases s) (auto simp: metrics_of_def assms)
qed (simp add: metrics_of_def)

text \<open>The values a rule is meant to report: beyond the threshold, or outside the interval.\<close>

fun crosses :: "operator \<Rightarrow> rat \<Rightarrow> rat \<Rightarrow> rat \<Rightarrow> rat \<Rightarrow> bool" where
  "crosses GT th lo hi v = (v > th)"
| "crosses GTE th lo hi v = (v \<ge> th)"
| "crosses LT th lo hi v = (v < th)"
| "crosses LTE th lo hi v = (v \<le> th)"
| "crosses RANGE th lo hi v = (v < lo \<or> hi < v)"

text \<open>C31. \<open>static_threshold\<close> with numeric parameters never raises and reports exactly the metric samples that
  cross the threshold (or leave the interval), one anomaly each, in the order of the input and with the
  labels of the sample.\<close>

theorem static_threshold_exact:
  assumes "map_of params ''threshold'' = Some t" and "py_num t = Some th"
    and "Operator (py_get_or params ''operator'' (PStr ''gt'')) = Inr op"
    and "py_get_or params ''range'' (PList [t, t]) = PList [l, h]" and "py_num l = Some lo" and "py_num h = Some hi"
    and "severity_param params = Inr sev"
  shows "static_threshold_detect ss params =
    Inr (map (\<lambda>m. metric_anomaly_of m None ''static_threshold'' sev (ms_labels m))
      (filter (\<lambda>m. crosses op th lo hi (ms_value m)) (metrics_of ss)))"
proof -
  have "threshold_hit op t params v = Inr (crosses op th lo hi v)" for v
    using assms by (cases op) (auto simp: num_op_def unpack2_def)
  then show ?thesis using assms
    by (simp add: static_threshold_detect_def key_index_def metric_loop_exact [where P = "\<lambda>m. crosses op th lo hi (ms_value m)"
          and h = "\<lambda>m. metric_anomaly_of m None ''static_threshold'' sev (ms_labels m)"])
qed

definition sample_cpu :: "rat \<Rightarrow> metric_signal" where
  "sample_cpu v = \<lparr>ms_tenant_id = ''t1'', ms_service = ''api'', ms_metric = ''cpu'', ms_value = v, ms_timestamp = 7,
     ms_labels = [(''pod'', ''a'')]\<rparr>"

theorem static_threshold_exact_witness:
  "static_threshold_detect [MetricSignal (sample_cpu 95), MetricSignal (sample_cpu 90)] [(''threshold'', PInt 90)] =
     Inr [metric_anomaly_of (sample_cpu 95) None ''static_threshold'' ''warning'' [(''pod'', ''a'')]]"
  using static_threshold_exact [of "[(''threshold'', PInt 90)]" "PInt 90" 90 GT "PInt 90" "PInt 90" 90 90 "''warning''"
      "[MetricSignal (sample_cpu 95), MetricSignal (sample_cpu 90)]"]
  by (simp add: py_get_or_def Operator_def severity_param_def metrics_of_def sample_cpu_def)

text \<open>C32. \<open>signature_aggregate\<close> with well-typed parameters never raises and reports exactly the pairs of
  signature and service with at least \<open>min_count\<close> log lines in the round (and at least one), each
  once, with the number of those lines as its count; lines of different services are never mixed.\<close>

theorem signature_aggregate_exact:
  assumes "py_num (py_get_or params ''min_count'' (PInt 5)) = Some c"
    and "py_index (py_get_or params ''n_frames'' (PInt 3)) = Some n" and "severity_param params = Inr sev"
  shows "\<exists>as. signature_aggregate_detect ss params = Inr as \<and> distinct (map (fst \<circ> log_anomaly_sel) as)
    \<and> set (map log_anomaly_sel as) =
        {(k, length (lines_of (py_get_or params ''n_frames'' (PInt 3)) ss k)) | k.
           lines_of (py_get_or params ''n_frames'' (PInt 3)) ss k \<noteq> []
           \<and> c \<le> of_nat (length (lines_of (py_get_or params ''n_frames'' (PInt 3)) ss k))}"
proof -
  let ?n = "py_get_or params ''n_frames'' (PInt 3)"
  let ?f = "\<lambda>((sig, svc), logs). LogAnomaly (log_anomaly_of sig svc logs sev)"
  let ?P = "\<lambda>(k, logs). c \<le> (of_nat (length logs) :: rat)"
  obtain g where g: "aggregate ?n ss [] = Inr g" using aggregate_total [OF assms(2)] by blast
  note d = aggregate_groups(1) [OF g] and m = aggregate_groups(2) [OF g]
  have sel: "log_anomaly_sel (?f x) = (fst x, length (snd x))" for x
    by (cases x) (auto simp: log_anomaly_sel_def log_anomaly_of_def)
  have im: "{x \<in> set g. ?P x} = {(k, lines_of ?n ss k) | k.
      lines_of ?n ss k \<noteq> [] \<and> c \<le> of_nat (length (lines_of ?n ss k))}"
    by (auto simp: m)
  have "signature_aggregate_detect ss params = Inr (map ?f (filter ?P g))"
    by (simp add: signature_aggregate_detect_def Let_def g aggregate_emit_anoms [OF assms(1,3)])
  moreover have "distinct (map (fst \<circ> log_anomaly_sel) (map ?f (filter ?P g)))"
    using d by (simp add: comp_def sel distinct_map_filter)
  moreover have "set (map log_anomaly_sel (map ?f (filter ?P g))) =
      {(k, length (lines_of ?n ss k)) | k. lines_of ?n ss k \<noteq> [] \<and> c \<le> of_nat (length (lines_of ?n ss k))}"
    unfolding set_map set_filter image_image sel im setcompr_eq_image fst_conv snd_conv ..
  ultimately show ?thesis by (intro exI [of _ "map ?f (filter ?P g)"] conjI)
qed

definition sample_line :: "string \<Rightarrow> string \<Rightarrow> time \<Rightarrow> signal" where
  "sample_line svc msg t = LogSignal \<lparr>ls_tenant_id = ''t1'', ls_service = svc, ls_level = ''ERROR'', ls_message = msg,
     ls_stack_trace = None, ls_timestamp = t, ls_trace_id = None, ls_signature = Some msg\<rparr>"

theorem signature_aggregate_exact_witness:
  "\<exists>as. signature_aggregate_detect [sample_line ''api'' ''boom'' 1, sample_line ''web'' ''boom'' 2, sample_line ''api'' ''boom'' 3]
       [(''min_count'', PInt 2)] = Inr as
     \<and> ((''boom'', ''api''), 2) \<in> set (map log_anomaly_sel as)"
proof -
  let ?ss = "[sample_line ''api'' ''boom'' 1, sample_line ''web'' ''boom'' 2, sample_line ''api'' ''boom'' 3]"
  have "length (lines_of (PInt 3) ?ss (''boom'', ''api'')) = 2"
    by (simp add: sample_line_def log_signature_def)
  then have len: "lines_of (PInt 3) ?ss (''boom'', ''api'') \<noteq> []"
    "length (lines_of (PInt 3) ?ss (''boom'', ''api'')) = 2" by auto
  obtain as where as: "signature_aggregate_detect ?ss [(''min_count'', PInt 2)] = Inr as"
    "set (map log_anomaly_sel as) = {(k, length (lines_of (PInt 3) ?ss k)) | k. lines_of (PInt 3) ?ss k \<noteq> []
       \<and> 2 \<le> (of_nat (length (lines_of (PInt 3) ?ss k)) :: rat)}"
    using signature_aggregate_exact [of "[(''min_count'', PInt 2)]" 2 3 "''warning''" ?ss]
    by (auto simp: py_get_or_def severity_param_def simp del: lines_of_simps)
  have "((''boom'', ''api''), 2) \<in> set (map log_anomaly_sel as)"
    unfolding as(2) using len by (intro CollectI exI [of _ "(''boom'', ''api'')"]) simp
  with as(1) show ?thesis by blast
qed

end
