(* ===== verification/Apm_Stores.thy ===== *)
theory Apm_Stores
  imports Apm_Models
begin

text \<open>
  The small stores of \<open>storage/\<close>: \<open>detection_state.py\<close>, \<open>watermarks.py\<close>, \<open>sequence.py\<close> and \<open>lease.py\<close>.
  The in-memory classes are association lists updated as the code updates its dictionaries. The
  PostgreSQL classes are the effect of their statements on a table, an association list from primary
  key to row: \<open>INSERT ... ON CONFLICT (pk) DO UPDATE\<close>, \<open>UPDATE ... WHERE\<close>, \<open>DELETE ... WHERE\<close>, \<open>SELECT\<close>.
  Durations (\<open>ttl_sec\<close>) are times; the clock value of each call is an argument.

  The locale \<open>tenant_store\<close> is the contract all tenant-scoped stores share, \<open>lease_store\<close> that of the
  leader election.
\<close>

section \<open>Tenant isolation as a contract\<close>

text \<open>Any interleaving of operations of tenants; one that raises leaves the store as it was.\<close>

fun run_ops :: "('op \<Rightarrow> string \<Rightarrow> 's \<Rightarrow> 's res) \<Rightarrow> ('op \<times> string) list \<Rightarrow> 's \<Rightarrow> 's" where
  "run_ops step [] s = s"
| "run_ops step ((p, t) # ops) s = run_ops step ops (case step p t s of Inl e \<Rightarrow> s | Inr s' \<Rightarrow> s')"

locale tenant_store =
  fixes step :: "'op \<Rightarrow> string \<Rightarrow> 's \<Rightarrow> 's res"
    and view :: "string \<Rightarrow> 's \<Rightarrow> 'v"
    and inv :: "'s \<Rightarrow> bool"
  assumes guard: "step p [] s = Inl (ValueError ''tenant_id is required'')"
    and inv_step: "inv s \<Longrightarrow> step p t s = Inr s' \<Longrightarrow> inv s'"
    and frame: "inv s \<Longrightarrow> step p t s = Inr s' \<Longrightarrow> u \<noteq> t \<Longrightarrow> view u s' = view u s"
begin

lemma inv_run: "inv s \<Longrightarrow> inv (run_ops step ops s)"
proof (induction ops arbitrary: s)
  case (Cons x ops)
  then show ?case using inv_step by (cases x) (auto split: sum.split)
qed simp

lemma isolation: "inv s \<Longrightarrow> \<forall>(p, t) \<in> set ops. t \<noteq> u \<Longrightarrow> view u (run_ops step ops s) = view u s"
proof (induction ops arbitrary: s)
  case (Cons x ops)
  obtain p t where x: "x = (p, t)" by (cases x)
  let ?s = "case step p t s of Inl e \<Rightarrow> s | Inr s' \<Rightarrow> s'"
  have "view u ?s = view u s" "inv ?s"
    using Cons.prems x frame inv_step by (cases "step p t s"; auto)+
  with Cons x show ?case by auto
qed simp

lemma tenantless: "\<forall>(p, t) \<in> set ops. t = [] \<Longrightarrow> run_ops step ops s = s"
  by (induction ops arbitrary: s) (auto simp: guard)

end

section \<open>\<open>detection_state\<close>\<close>

record det_state =
  st_consecutive_rounds :: int
  st_miss_rounds :: int
  st_first_seen :: time
  st_last_seen :: time

type_synonym det_store = "((string \<times> string \<times> string) \<times> det_state) list"

definition ds_get :: "string \<Rightarrow> string \<Rightarrow> string \<Rightarrow> det_store \<Rightarrow> det_state option res" where
  "ds_get tenant_id domain key rows = require_tenant tenant_id (Inr (map_of rows (tenant_id, domain, key)))"

definition ds_upsert :: "string \<Rightarrow> string \<Rightarrow> string \<Rightarrow> int \<Rightarrow> int \<Rightarrow> time \<Rightarrow> time \<Rightarrow> det_store \<Rightarrow> det_store res" where
  "ds_upsert tenant_id domain key consecutive_rounds miss_rounds first_seen last_seen rows =
     require_tenant tenant_id (Inr (AList.update (tenant_id, domain, key)
       \<lparr>st_consecutive_rounds = consecutive_rounds, st_miss_rounds = miss_rounds,
        st_first_seen = first_seen, st_last_seen = last_seen\<rparr> rows))"

definition ds_sweep :: "string \<Rightarrow> string \<Rightarrow> string set \<Rightarrow> det_store \<Rightarrow> det_store res" where
  "ds_sweep tenant_id domain seen_keys rows =
     require_tenant tenant_id (Inr (map_vals (\<lambda>(t, d, k) row.
       if t = tenant_id \<and> d = domain \<and> k \<notin> seen_keys
       then row\<lparr>st_miss_rounds := st_miss_rounds row + 1\<rparr> else row) rows))"

definition ds_list_by_domain :: "string \<Rightarrow> string \<Rightarrow> det_store \<Rightarrow> (string \<times> det_state) list res" where
  "ds_list_by_domain tenant_id domain rows =
     require_tenant tenant_id (Inr (map (\<lambda>((t, d, k), row). (k, row))
       (filter (\<lambda>((t, d, k), row). t = tenant_id \<and> d = domain) rows)))"

text \<open>\<open>PGDetectionStateStore\<close>: the sweep reads the keys of the domain and updates row by row.\<close>

definition pg_ds_update_miss :: "string \<Rightarrow> string \<Rightarrow> string \<Rightarrow> det_store \<Rightarrow> det_store" where
  "pg_ds_update_miss tenant_id domain key rows =
     map_vals (\<lambda>pk row. if pk = (tenant_id, domain, key)
       then row\<lparr>st_miss_rounds := st_miss_rounds row + 1\<rparr> else row) rows"

definition pg_ds_sweep :: "string \<Rightarrow> string \<Rightarrow> string set \<Rightarrow> det_store \<Rightarrow> det_store res" where
  "pg_ds_sweep tenant_id domain seen_keys rows =
     require_tenant tenant_id (Inr (fold
       (\<lambda>key r. if key \<in> seen_keys then r else pg_ds_update_miss tenant_id domain key r)
       (map (\<lambda>((t, d, k), row). k) (filter (\<lambda>((t, d, k), row). t = tenant_id \<and> d = domain) rows)) rows))"

lemma map_vals_comp: "map_vals f (map_vals g d) = map_vals (\<lambda>k v. f k (g k v)) d"
  by (simp add: map_vals_def case_prod_beta comp_def)

lemma map_vals_cong: "(\<And>k v. (k, v) \<in> set d \<Longrightarrow> f k v = g k v) \<Longrightarrow> map_vals f d = map_vals g d"
  by (auto simp: map_vals_def)

definition bump_miss :: "string \<Rightarrow> string \<Rightarrow> string set \<Rightarrow> det_store \<Rightarrow> det_store" where
  "bump_miss t d K rows = map_vals (\<lambda>pk row. if pk \<in> {(t, d, k) | k. k \<in> K}
     then row\<lparr>st_miss_rounds := st_miss_rounds row + 1\<rparr> else row) rows"

lemma pg_sweep_loop:
  "distinct ks \<Longrightarrow> fold (\<lambda>key r. if key \<in> seen then r else pg_ds_update_miss t d key r) ks rows
     = bump_miss t d (set ks - seen) rows"
proof (induction ks rule: rev_induct)
  case Nil
  then show ?case by (simp add: bump_miss_def map_vals_def)
next
  case (snoc k ks)
  then have ih: "fold (\<lambda>key r. if key \<in> seen then r else pg_ds_update_miss t d key r) ks rows
     = bump_miss t d (set ks - seen) rows" and k: "k \<notin> set ks" by simp_all
  show ?case
  proof (cases "k \<in> seen")
    case True
    then have "set (ks @ [k]) - seen = set ks - seen" by auto
    with ih True show ?thesis by simp
  next
    case False
    with ih k show ?thesis
      by (auto simp: bump_miss_def pg_ds_update_miss_def map_vals_comp intro!: map_vals_cong)
  qed
qed

datatype ds_op = DsUpsert string string int int time time | DsSweep string "string set"

fun ds_step :: "ds_op \<Rightarrow> string \<Rightarrow> det_store \<Rightarrow> det_store res" where
  "ds_step (DsUpsert d k c m f l) t rows = ds_upsert t d k c m f l rows"
| "ds_step (DsSweep d seen) t rows = ds_sweep t d seen rows"

definition ds_view :: "string \<Rightarrow> det_store \<Rightarrow> (string \<times> string) \<rightharpoonup> det_state" where
  "ds_view t rows = (\<lambda>(d, k). map_of rows (t, d, k))"

interpretation det: tenant_store ds_step ds_view "\<lambda>_. True"
proof
  show "ds_step p [] s = Inl (ValueError ''tenant_id is required'')" for p s
    by (cases p) (simp_all add: ds_upsert_def ds_sweep_def)
  show "True" by simp
  show "ds_step p t s = Inr s' \<Longrightarrow> u \<noteq> t \<Longrightarrow> ds_view u s' = ds_view u s" for p t s s' u
    by (cases p)
      (auto simp: ds_upsert_def ds_sweep_def ds_view_def map_of_update map_of_map_vals fun_eq_iff option.map_ident)
qed

lemma ds_get_upsert:
  "ds_upsert t d k c m f l rows = Inr rows' \<Longrightarrow> ds_get t d k rows' =
     Inr (Some \<lparr>st_consecutive_rounds = c, st_miss_rounds = m, st_first_seen = f, st_last_seen = l\<rparr>)"
  by (auto simp: ds_upsert_def ds_get_def map_of_update)

section \<open>\<open>collect_watermark\<close>\<close>

type_synonym watermarks = "((string \<times> string) \<times> time) list"

definition wm_get :: "string \<Rightarrow> string \<Rightarrow> watermarks \<Rightarrow> time option res" where
  "wm_get tenant_id target_id rows = require_tenant tenant_id (Inr (map_of rows (tenant_id, target_id)))"

definition wm_update :: "string \<Rightarrow> string \<Rightarrow> time \<Rightarrow> watermarks \<Rightarrow> watermarks res" where
  "wm_update tenant_id target_id last_ts rows =
     require_tenant tenant_id (Inr (AList.update (tenant_id, target_id) last_ts rows))"

definition wm_view :: "string \<Rightarrow> watermarks \<Rightarrow> string \<rightharpoonup> time" where
  "wm_view t rows = (\<lambda>x. map_of rows (t, x))"

interpretation wm: tenant_store "\<lambda>(x, ts) t rows. wm_update t x ts rows" wm_view "\<lambda>_. True"
  by unfold_locales (auto simp: wm_update_def wm_view_def map_of_update fun_eq_iff)

section \<open>Numbering (\<open>sequence.py\<close>)\<close>

type_synonym sequences = "((string \<times> string) \<times> nat) list"

definition RECORD_PREFIX :: string where "RECORD_PREFIX = ''PR''"
definition TICKET_PREFIX :: string where "TICKET_PREFIX = ''INC''"

definition seq_bump :: "string \<Rightarrow> string \<Rightarrow> sequences \<Rightarrow> nat \<times> sequences" where
  "seq_bump prefix seq_date nxt =
     (let n = (case map_of nxt (prefix, seq_date) of None \<Rightarrow> 0 | Some k \<Rightarrow> k) + 1
      in (n, AList.update (prefix, seq_date) n nxt))"

definition seq_number :: "string \<Rightarrow> time \<Rightarrow> sequences \<Rightarrow> string \<times> sequences" where
  "seq_number prefix now nxt =
     (let seq_date = date_key now; (n, nxt') = seq_bump prefix seq_date nxt
      in (prefix @ ''-'' @ seq_date @ ''-'' @ zfill 4 (show_nat n), nxt'))"

definition next_id :: "string \<Rightarrow> time \<Rightarrow> sequences \<Rightarrow> string \<times> sequences" where
  "next_id domain now nxt = seq_number RECORD_PREFIX now nxt"

definition next_ticket_number :: "time \<Rightarrow> sequences \<Rightarrow> string \<times> sequences" where
  "next_ticket_number now nxt = seq_number TICKET_PREFIX now nxt"

text \<open>\<open>PGSequenceStore\<close>: one table per prefix, \<open>INSERT ... ON CONFLICT DO UPDATE ... RETURNING next_seq\<close>.\<close>

record seq_tables =
  record_seq :: "(string \<times> nat) list"
  ticket_seq :: "(string \<times> nat) list"

definition pg_bump :: "string \<Rightarrow> (string \<times> nat) list \<Rightarrow> nat \<times> (string \<times> nat) list" where
  "pg_bump seq_date table =
     (let next_seq = (case map_of table seq_date of None \<Rightarrow> 1 | Some k \<Rightarrow> k + 1);
          n = next_seq
      in (if n = 0 then 1 else n, AList.update seq_date next_seq table))"

definition pg_next_id :: "string \<Rightarrow> time \<Rightarrow> seq_tables \<Rightarrow> string \<times> seq_tables" where
  "pg_next_id domain now db =
     (let seq_date = date_key now; (n, tbl) = pg_bump seq_date (record_seq db)
      in (RECORD_PREFIX @ ''-'' @ seq_date @ ''-'' @ zfill 4 (show_nat n), db\<lparr>record_seq := tbl\<rparr>))"

definition pg_next_ticket_number :: "time \<Rightarrow> seq_tables \<Rightarrow> string \<times> seq_tables" where
  "pg_next_ticket_number now db =
     (let seq_date = date_key now; (n, tbl) = pg_bump seq_date (ticket_seq db)
      in (TICKET_PREFIX @ ''-'' @ seq_date @ ''-'' @ zfill 4 (show_nat n), db\<lparr>ticket_seq := tbl\<rparr>))"

text \<open>A history of requests: record numbers and ticket numbers, each with the clock of its call.\<close>

datatype seq_call = NextId string time | NextTicket time

fun seq_run :: "seq_call list \<Rightarrow> sequences \<Rightarrow> string list" where
  "seq_run [] nxt = []"
| "seq_run (NextId d now # cs) nxt = (let (x, nxt') = next_id d now nxt in x # seq_run cs nxt')"
| "seq_run (NextTicket now # cs) nxt = (let (x, nxt') = next_ticket_number now nxt in x # seq_run cs nxt')"

fun pg_seq_run :: "seq_call list \<Rightarrow> seq_tables \<Rightarrow> string list" where
  "pg_seq_run [] db = []"
| "pg_seq_run (NextId d now # cs) db = (let (x, db') = pg_next_id d now db in x # pg_seq_run cs db')"
| "pg_seq_run (NextTicket now # cs) db = (let (x, db') = pg_next_ticket_number now db in x # pg_seq_run cs db')"

lemma show_nat_chars: "c \<in> set (show_nat n) \<Longrightarrow> c \<noteq> CHR ''-''"
proof (induction n rule: show_nat.induct)
  case (1 n)
  have "char_of (48 + d) \<noteq> CHR ''-''" if "d < 10" for d :: nat
  proof
    assume "char_of (48 + d) = CHR ''-''"
    then have "(of_char (char_of (48 + d)) :: nat) = of_char (CHR ''-'')" by (rule arg_cong)
    with that show False by (simp add: of_char_of)
  qed
  note digit = this
  show ?case
  proof (cases "n < 10")
    case True
    with 1(2) digit show ?thesis by (simp add: show_nat.simps [of n])
  next
    case False
    with 1(2) have "c \<in> set (show_nat (n div 10)) \<or> c = char_of (48 + n mod 10)"
      by (auto simp: show_nat.simps [of n])
    with 1(1) [OF False] digit [of "n mod 10"] show ?thesis by auto
  qed
qed

lemma pad_chars: "CHR ''-'' \<notin> set (pad w i)"
  by (auto simp: pad_def zfill_def dest: show_nat_chars)

lemma date_key_chars: "CHR ''-'' \<notin> set (date_key t)"
  by (auto simp: date_key_def Let_def pad_chars split: prod.splits)

definition seq_format :: "string \<Rightarrow> string \<Rightarrow> nat \<Rightarrow> string" where
  "seq_format prefix seq_date n = prefix @ ''-'' @ seq_date @ ''-'' @ zfill 4 (show_nat n)"

lemma seq_format_inj:
  assumes "seq_format p d m = seq_format q e n" and "CHR ''-'' \<notin> set p" "CHR ''-'' \<notin> set q"
    and "CHR ''-'' \<notin> set d" "CHR ''-'' \<notin> set e"
  shows "p = q \<and> d = e \<and> m = n"
  using assms by (auto simp: seq_format_def dest!: sep_inj [rotated 2] zfill_show_nat_inj)

lemma seq_number_format:
  "seq_number p now nxt = (seq_format p (date_key now) (count_of nxt (p, date_key now) + 1),
     AList.update (p, date_key now) (count_of nxt (p, date_key now) + 1) nxt)"
  by (simp add: seq_number_def seq_bump_def seq_format_def count_of_def Let_def)

fun call_key :: "seq_call \<Rightarrow> string \<times> string" where
  "call_key (NextId d now) = (RECORD_PREFIX, date_key now)"
| "call_key (NextTicket now) = (TICKET_PREFIX, date_key now)"

lemma call_key_chars: "CHR ''-'' \<notin> set (fst (call_key c)) \<and> CHR ''-'' \<notin> set (snd (call_key c))"
  by (cases c) (simp_all add: RECORD_PREFIX_def TICKET_PREFIX_def date_key_chars)

lemma seq_run_Cons:
  "seq_run (c # cs) nxt = seq_format (fst (call_key c)) (snd (call_key c)) (count_of nxt (call_key c) + 1)
     # seq_run cs (AList.update (call_key c) (count_of nxt (call_key c) + 1) nxt)"
  by (cases c) (simp_all add: next_id_def next_ticket_number_def seq_number_format)

lemma seq_run_above:
  "x \<in> set (seq_run cs nxt) \<Longrightarrow> \<exists>c n. c \<in> set cs \<and> count_of nxt (call_key c) < n
     \<and> x = seq_format (fst (call_key c)) (snd (call_key c)) n"
proof (induction cs arbitrary: nxt)
  case (Cons c cs)
  let ?nxt = "AList.update (call_key c) (count_of nxt (call_key c) + 1) nxt"
  have mono: "count_of nxt k \<le> count_of ?nxt k" for k by (simp add: count_of_def map_of_update)
  show ?case
  proof (cases "x \<in> set (seq_run cs ?nxt)")
    case True
    from Cons.IH [OF this] obtain c' n where "c' \<in> set cs" "count_of ?nxt (call_key c') < n"
      "x = seq_format (fst (call_key c')) (snd (call_key c')) n" by blast
    with mono [of "call_key c'"] show ?thesis by (intro exI [of _ c'] exI [of _ n]) auto
  next
    case False
    with Cons.prems have "x = seq_format (fst (call_key c)) (snd (call_key c)) (count_of nxt (call_key c) + 1)"
      unfolding seq_run_Cons by (simp only: list.set insert_iff) blast
    then show ?thesis by (intro exI [of _ c] exI [of _ "count_of nxt (call_key c) + 1"]) simp
  qed
qed simp

lemma seq_run_distinct: "distinct (seq_run cs nxt)"
proof (induction cs arbitrary: nxt)
  case (Cons c cs)
  let ?nxt = "AList.update (call_key c) (count_of nxt (call_key c) + 1) nxt"
  let ?x = "seq_format (fst (call_key c)) (snd (call_key c)) (count_of nxt (call_key c) + 1)"
  have "?x \<notin> set (seq_run cs ?nxt)"
  proof
    assume "?x \<in> set (seq_run cs ?nxt)"
    then obtain c' n where c': "count_of ?nxt (call_key c') < n"
      "?x = seq_format (fst (call_key c')) (snd (call_key c')) n"
      by (blast dest: seq_run_above)
    from seq_format_inj [OF c'(2)] call_key_chars have "call_key c' = call_key c" "n = count_of nxt (call_key c) + 1"
      by (metis prod.collapse)+
    with c'(1) show False by (simp add: count_of_def map_of_update)
  qed
  with Cons show ?case unfolding seq_run_Cons distinct.simps by blast
qed simp

definition seq_sim :: "sequences \<Rightarrow> seq_tables \<Rightarrow> bool" where
  "seq_sim nxt db = (\<forall>d. map_of nxt (RECORD_PREFIX, d) = map_of (record_seq db) d
     \<and> map_of nxt (TICKET_PREFIX, d) = map_of (ticket_seq db) d)"

lemma pg_seq_run_sim: "seq_sim nxt db \<Longrightarrow> pg_seq_run cs db = seq_run cs nxt"
proof (induction cs arbitrary: nxt db)
  case (Cons c cs)
  have ne: "RECORD_PREFIX \<noteq> TICKET_PREFIX" by (simp add: RECORD_PREFIX_def TICKET_PREFIX_def)
  have count: "(case map_of nxt (p, d) of None \<Rightarrow> 1 | Some k \<Rightarrow> k + 1) = count_of nxt (p, d) + 1" for p d
    by (simp add: count_of_def split: option.splits)
  show ?case
  proof (cases c)
    case (NextId d now)
    have "seq_sim (AList.update (RECORD_PREFIX, date_key now) n nxt) (db\<lparr>record_seq := AList.update (date_key now) n (record_seq db)\<rparr>)" for n
      using Cons.prems ne by (simp add: seq_sim_def map_of_update)
    with Cons NextId show ?thesis
      by (simp add: next_id_def seq_number_format seq_format_def pg_next_id_def pg_bump_def Let_def seq_sim_def count_of_def
          split: option.splits)
  next
    case (NextTicket now)
    have "seq_sim (AList.update (TICKET_PREFIX, date_key now) n nxt) (db\<lparr>ticket_seq := AList.update (date_key now) n (ticket_seq db)\<rparr>)" for n
      using Cons.prems ne by (simp add: seq_sim_def map_of_update)
    with Cons NextTicket show ?thesis
      by (simp add: next_ticket_number_def seq_number_format seq_format_def pg_next_ticket_number_def pg_bump_def Let_def
          seq_sim_def count_of_def split: option.splits)
  qed
qed simp

section \<open>Leases (\<open>lease.py\<close>)\<close>

record lease =
  le_holder :: string
  le_expires_at :: time

type_synonym leases = "(string \<times> lease) list"

definition lease_try_acquire :: "string \<Rightarrow> string \<Rightarrow> time \<Rightarrow> time \<Rightarrow> leases \<Rightarrow> bool \<times> leases" where
  "lease_try_acquire lease_name holder ttl now ls =
     (let taken = (case map_of ls lease_name of None \<Rightarrow> False
        | Some entry \<Rightarrow> le_expires_at entry > now \<and> le_holder entry \<noteq> holder)
      in if taken then (False, ls)
         else (True, AList.update lease_name \<lparr>le_holder = holder, le_expires_at = now + ttl\<rparr> ls))"

definition lease_renew :: "string \<Rightarrow> string \<Rightarrow> time \<Rightarrow> time \<Rightarrow> leases \<Rightarrow> bool \<times> leases" where
  "lease_renew lease_name holder ttl now ls =
     (case map_of ls lease_name of
        None \<Rightarrow> (False, ls)
      | Some entry \<Rightarrow>
          if le_holder entry \<noteq> holder \<or> le_expires_at entry \<le> now then (False, ls)
          else (True, AList.update lease_name (entry\<lparr>le_expires_at := now + ttl\<rparr>) ls))"

definition lease_release :: "string \<Rightarrow> string \<Rightarrow> leases \<Rightarrow> leases" where
  "lease_release lease_name holder ls =
     (case map_of ls lease_name of
        None \<Rightarrow> ls
      | Some entry \<Rightarrow> if le_holder entry = holder then AList.delete lease_name ls else ls)"

definition lease_holder :: "string \<Rightarrow> leases \<Rightarrow> string option" where
  "lease_holder lease_name ls = map_option le_holder (map_of ls lease_name)"

text \<open>\<open>PGLeaseStore\<close>: the acquisition is one upsert whose two \<open>CASE\<close>s read the row before the update.\<close>

definition pg_try_acquire :: "string \<Rightarrow> string \<Rightarrow> time \<Rightarrow> time \<Rightarrow> leases \<Rightarrow> bool \<times> leases" where
  "pg_try_acquire lease_name holder ttl now tbl =
     (let excluded = \<lparr>le_holder = holder, le_expires_at = now + ttl\<rparr>;
          row = (case map_of tbl lease_name of
              None \<Rightarrow> excluded
            | Some old \<Rightarrow>
                \<lparr>le_holder = (if le_expires_at old < now then le_holder excluded else le_holder old),
                 le_expires_at = (if le_expires_at old < now then le_expires_at excluded else le_expires_at old)\<rparr>)
      in (le_holder row = holder, AList.update lease_name row tbl))"

definition pg_renew :: "string \<Rightarrow> string \<Rightarrow> time \<Rightarrow> time \<Rightarrow> leases \<Rightarrow> bool \<times> leases" where
  "pg_renew lease_name holder ttl now tbl =
     (let hit = (\<lambda>n row. n = lease_name \<and> le_holder row = holder \<and> le_expires_at row > now);
          affected = length (filter (\<lambda>(n, row). hit n row) tbl)
      in (affected = 1, map_vals (\<lambda>n row. if hit n row then row\<lparr>le_expires_at := now + ttl\<rparr> else row) tbl))"

definition pg_release :: "string \<Rightarrow> string \<Rightarrow> leases \<Rightarrow> leases" where
  "pg_release lease_name holder tbl = filter (\<lambda>(n, row). \<not> (n = lease_name \<and> le_holder row = holder)) tbl"

text \<open>The contract the scheduler's leader election rests on. \<open>owned\<close> reads the current holder and expiry.\<close>

locale lease_store =
  fixes owned :: "string \<Rightarrow> 'l \<Rightarrow> (string \<times> time) option"
    and acquire renew :: "string \<Rightarrow> string \<Rightarrow> time \<Rightarrow> time \<Rightarrow> 'l \<Rightarrow> bool \<times> 'l"
    and release :: "string \<Rightarrow> string \<Rightarrow> 'l \<Rightarrow> 'l"
    and ok :: "'l \<Rightarrow> bool"
  assumes acquire_refused: "ok l \<Longrightarrow> owned x l = Some (h, e) \<Longrightarrow> now < e \<Longrightarrow> k \<noteq> h
      \<Longrightarrow> fst (acquire x k ttl now l) = False \<and> owned x (snd (acquire x k ttl now l)) = Some (h, e)"
    and acquire_free: "ok l \<Longrightarrow> owned x l = None \<or> (\<exists>h e. owned x l = Some (h, e) \<and> e < now)
      \<Longrightarrow> fst (acquire x k ttl now l) \<and> owned x (snd (acquire x k ttl now l)) = Some (k, now + ttl)"
    and acquire_frame: "ok l \<Longrightarrow> y \<noteq> x \<Longrightarrow> owned y (snd (acquire x k ttl now l)) = owned y l"
    and renew_refused: "ok l \<Longrightarrow> owned x l = Some (h, e) \<Longrightarrow> k \<noteq> h
      \<Longrightarrow> fst (renew x k ttl now l) = False \<and> owned x (snd (renew x k ttl now l)) = Some (h, e)"
    and renew_live: "ok l \<Longrightarrow> owned x l = Some (k, e) \<Longrightarrow> now < e
      \<Longrightarrow> fst (renew x k ttl now l) \<and> owned x (snd (renew x k ttl now l)) = Some (k, now + ttl)"
    and renew_expired: "ok l \<Longrightarrow> owned x l = Some (k, e) \<Longrightarrow> e \<le> now \<Longrightarrow> \<not> fst (renew x k ttl now l)"
    and renew_frame: "ok l \<Longrightarrow> y \<noteq> x \<Longrightarrow> owned y (snd (renew x k ttl now l)) = owned y l"
    and release_other: "ok l \<Longrightarrow> owned x l = Some (h, e) \<Longrightarrow> k \<noteq> h \<Longrightarrow> owned x (release x k l) = Some (h, e)"
    and release_own: "ok l \<Longrightarrow> owned x l = Some (h, e) \<Longrightarrow> owned x (release x h l) = None"
    and release_frame: "ok l \<Longrightarrow> y \<noteq> x \<Longrightarrow> owned y (release x k l) = owned y l"
    and ok_acquire: "ok l \<Longrightarrow> ok (snd (acquire x k ttl now l))"
    and ok_renew: "ok l \<Longrightarrow> ok (snd (renew x k ttl now l))"
    and ok_release: "ok l \<Longrightarrow> ok (release x k l)"

datatype lease_call = Acquire string string time time | Renew string string time time | Release string string

fun caller :: "lease_call \<Rightarrow> string" where
  "caller (Acquire x k ttl now) = k" | "caller (Renew x k ttl now) = k" | "caller (Release x k) = k"

fun call_time :: "lease_call \<Rightarrow> time option" where
  "call_time (Acquire x k ttl now) = Some now" | "call_time (Renew x k ttl now) = Some now"
| "call_time (Release x k) = None"

fun lease_name_of :: "lease_call \<Rightarrow> string" where
  "lease_name_of (Acquire x k ttl now) = x" | "lease_name_of (Renew x k ttl now) = x"
| "lease_name_of (Release x k) = x"

text \<open>The answers of a history of calls on a lease store, and the store they leave.\<close>

type_synonym 'l lease_ops = "(string \<Rightarrow> string \<Rightarrow> time \<Rightarrow> time \<Rightarrow> 'l \<Rightarrow> bool \<times> 'l)
  \<times> (string \<Rightarrow> string \<Rightarrow> time \<Rightarrow> time \<Rightarrow> 'l \<Rightarrow> bool \<times> 'l) \<times> (string \<Rightarrow> string \<Rightarrow> 'l \<Rightarrow> 'l)"

fun perform :: "'l lease_ops \<Rightarrow> lease_call \<Rightarrow> 'l \<Rightarrow> bool \<times> 'l" where
  "perform (acq, ren, rel) (Acquire x k ttl now) l = acq x k ttl now l"
| "perform (acq, ren, rel) (Renew x k ttl now) l = ren x k ttl now l"
| "perform (acq, ren, rel) (Release x k) l = (False, rel x k l)"

fun history :: "'l lease_ops \<Rightarrow> lease_call list \<Rightarrow> 'l \<Rightarrow> bool list \<times> 'l" where
  "history ops [] l = ([], l)"
| "history ops (c # cs) l = (let (b, l1) = perform ops c l; (bs, l2) = history ops cs l1 in (b # bs, l2))"

context lease_store
begin

abbreviation "lease_ops \<equiv> (acquire, renew, release)"

lemma ok_perform: "ok l \<Longrightarrow> ok (snd (perform lease_ops c l))"
  by (cases c) (simp_all add: ok_acquire ok_renew ok_release)

lemma foreign_call:
  assumes "ok l" "owned x l = Some (h, e)" "caller c \<noteq> h" "\<forall>t. call_time c = Some t \<longrightarrow> t < e"
  shows "owned x (snd (perform lease_ops c l)) = Some (h, e) \<and> (lease_name_of c = x \<longrightarrow> \<not> fst (perform lease_ops c l))"
proof (cases "lease_name_of c = x")
  case True
  with assms show ?thesis
    by (cases c) (simp_all add: acquire_refused renew_refused release_other)
next
  case False
  with assms show ?thesis
    by (cases c) (simp_all add: acquire_frame renew_frame release_frame)
qed

lemma exclusive:
  assumes "ok l" "owned x l = Some (h, e)"
    and "\<forall>c \<in> set cs. caller c \<noteq> h \<and> lease_name_of c = x \<and> (\<forall>t. call_time c = Some t \<longrightarrow> t < e)"
  shows "True \<notin> set (fst (history lease_ops cs l)) \<and> owned x (snd (history lease_ops cs l)) = Some (h, e)"
  using assms
proof (induction cs arbitrary: l)
  case (Cons c cs)
  obtain b l1 where p: "perform lease_ops c l = (b, l1)" by (cases "perform lease_ops c l")
  from foreign_call [OF Cons.prems(1,2), of c] Cons.prems(3) p
  have "\<not> b" "owned x l1 = Some (h, e)" by auto
  moreover have "ok l1" using ok_perform [OF Cons.prems(1), of c] p by simp
  moreover have "\<forall>c \<in> set cs. caller c \<noteq> h \<and> lease_name_of c = x \<and> (\<forall>t. call_time c = Some t \<longrightarrow> t < e)"
    using Cons.prems(3) by simp
  ultimately show ?case using Cons.IH [of l1] p by (simp add: Let_def case_prod_beta)
qed simp

lemma takeover:
  assumes "ok l" "owned x l = Some (h, e)" "e < now" "0 < ttl"
  shows "fst (acquire x k ttl now l)
    \<and> (k \<noteq> h \<longrightarrow> \<not> fst (renew x h ttl now (snd (acquire x k ttl now l))))"
  using acquire_free [OF assms(1), of x now k ttl] assms
    renew_refused [OF ok_acquire [OF assms(1)], of x x k ttl now k "now + ttl" h ttl now]
  by auto

end

definition lease_owned :: "string \<Rightarrow> leases \<Rightarrow> (string \<times> time) option" where
  "lease_owned x ls = map_option (\<lambda>r. (le_holder r, le_expires_at r)) (map_of ls x)"

definition lease_ok :: "leases \<Rightarrow> bool" where
  "lease_ok ls = distinct (map fst ls)"

lemma map_of_filter_key:
  "distinct (map fst d) \<Longrightarrow> map_of (filter (\<lambda>(k, v). P k v) d) x =
     (case map_of d x of None \<Rightarrow> None | Some v \<Rightarrow> if P x v then Some v else None)"
proof (induction d)
  case (Cons e d)
  then show ?case by (cases e) (auto split: option.splits simp: map_of_eq_None_iff)
qed simp

lemma filter_key_length:
  "distinct (map fst d) \<Longrightarrow> length (filter (\<lambda>(k, v). k = x \<and> Q v) d) =
     (case map_of d x of None \<Rightarrow> 0 | Some v \<Rightarrow> if Q v then 1 else 0)"
proof (induction d)
  case (Cons e d)
  have "x \<notin> fst ` set d \<Longrightarrow> filter (\<lambda>(k, v). k = x \<and> Q v) d = []" by (force simp: filter_empty_conv)
  with Cons show ?case by (cases e) (auto split: option.splits simp: map_of_eq_None_iff)
qed simp

interpretation mem_lease: lease_store lease_owned lease_try_acquire lease_renew lease_release lease_ok
  by unfold_locales
    (auto simp: lease_owned_def lease_try_acquire_def lease_renew_def lease_release_def lease_ok_def Let_def
      map_of_update distinct_update delete_conv' distinct_delete simp del: map_of_eq_Some_iff split: option.splits)

interpretation pg_lease: lease_store lease_owned pg_try_acquire pg_renew pg_release lease_ok
  by unfold_locales
    (auto simp: lease_owned_def pg_try_acquire_def pg_renew_def pg_release_def lease_ok_def Let_def
      map_of_update distinct_update map_of_map_vals map_of_filter_key filter_key_length distinct_map_filter option.map_ident
      simp del: map_of_eq_Some_iff split: option.splits)

section \<open>Properties\<close>

text \<open>The row-by-row sweep of the PostgreSQL detection state is the in-memory sweep: with the primary
  key unique, both raise on the same input and leave the same table, each unseen key of the domain
  getting exactly one more miss.\<close>

theorem pg_sweep_refines:
  assumes "distinct (map fst rows)"
  shows "pg_ds_sweep tenant_id domain seen_keys rows = ds_sweep tenant_id domain seen_keys rows"
proof -
  let ?ks = "map (\<lambda>((t, d, k), row). k) (filter (\<lambda>((t, d, k), row). t = tenant_id \<and> d = domain) rows)"
  have "distinct ?ks" using assms
    by (induction rows) (auto simp: image_iff)
  then have "fold (\<lambda>key r. if key \<in> seen_keys then r else pg_ds_update_miss tenant_id domain key r) ?ks rows
      = bump_miss tenant_id domain (set ?ks - seen_keys) rows" by (rule pg_sweep_loop)
  also have "\<dots> = map_vals (\<lambda>(t, d, k) row. if t = tenant_id \<and> d = domain \<and> k \<notin> seen_keys
       then row\<lparr>st_miss_rounds := st_miss_rounds row + 1\<rparr> else row) rows"
    unfolding bump_miss_def by (rule map_vals_cong) (force split: prod.splits)
  finally show ?thesis by (simp add: pg_ds_sweep_def ds_sweep_def)
qed

theorem pg_sweep_refines_witness:
  "pg_ds_sweep ''t'' ''apm'' {''a''}
     [((''t'', ''apm'', ''a''), \<lparr>st_consecutive_rounds = 1, st_miss_rounds = 0, st_first_seen = 0, st_last_seen = 5\<rparr>),
      ((''t'', ''apm'', ''b''), \<lparr>st_consecutive_rounds = 2, st_miss_rounds = 1, st_first_seen = 0, st_last_seen = 5\<rparr>)]
   = Inr
     [((''t'', ''apm'', ''a''), \<lparr>st_consecutive_rounds = 1, st_miss_rounds = 0, st_first_seen = 0, st_last_seen = 5\<rparr>),
      ((''t'', ''apm'', ''b''), \<lparr>st_consecutive_rounds = 2, st_miss_rounds = 2, st_first_seen = 0, st_last_seen = 5\<rparr>)]"
  by (subst pg_sweep_refines) (simp_all add: ds_sweep_def map_vals_def)

text \<open>C28. Numbers are never handed out twice: whatever the sequence of requests for record and ticket
  numbers and whatever the clock does between them, all the numbers returned are different.\<close>

theorem sequence_numbers_unique: "distinct (seq_run calls [])"
  by (rule seq_run_distinct)

text \<open>The PostgreSQL sequence store, one table per prefix, returns on every sequence of requests exactly
  the numbers of the in-memory store.\<close>

theorem pg_sequence_refines: "pg_seq_run calls \<lparr>record_seq = [], ticket_seq = []\<rparr> = seq_run calls []"
  by (rule pg_seq_run_sim) (simp add: seq_sim_def)

text \<open>C26. Mutual exclusion of the scheduler lease: while a replica owns a lease that has not expired, no
  acquisition or renewal by another replica succeeds and no release by another one takes it away,
  in any interleaving of their calls against the database.\<close>

theorem pg_lease_exclusive:
  assumes "lease_ok tbl" and "lease_owned x tbl = Some (h, e)"
    and "\<forall>c \<in> set calls. caller c \<noteq> h \<and> lease_name_of c = x \<and> (\<forall>t. call_time c = Some t \<longrightarrow> t < e)"
  shows "True \<notin> set (fst (history (pg_try_acquire, pg_renew, pg_release) calls tbl))
    \<and> lease_owned x (snd (history (pg_try_acquire, pg_renew, pg_release) calls tbl)) = Some (h, e)"
  by (rule pg_lease.exclusive [OF assms])

theorem pg_lease_exclusive_witness:
  "True \<notin> set (fst (history (pg_try_acquire, pg_renew, pg_release)
      [Acquire ''sched'' ''b'' 30 10, Release ''sched'' ''b'', Renew ''sched'' ''b'' 30 19]
      [(''sched'', \<lparr>le_holder = ''a'', le_expires_at = 20\<rparr>)]))"
  using pg_lease_exclusive [of "[(''sched'', \<lparr>le_holder = ''a'', le_expires_at = 20\<rparr>)]" "''sched''" "''a''" 20
      "[Acquire ''sched'' ''b'' 30 10, Release ''sched'' ''b'', Renew ''sched'' ''b'' 30 19]"]
  by (simp add: lease_ok_def lease_owned_def del: history.simps)

text \<open>C27. Crash takeover: once a lease has expired, any replica acquires it in one call, and the former
  holder can then no longer renew it.\<close>

theorem pg_lease_takeover:
  assumes "lease_ok tbl" and "lease_owned x tbl = Some (h, e)" and "e < now" and "0 < ttl"
  shows "fst (pg_try_acquire x k ttl now tbl)
    \<and> (k \<noteq> h \<longrightarrow> \<not> fst (pg_renew x h ttl now (snd (pg_try_acquire x k ttl now tbl))))"
  by (rule pg_lease.takeover [OF assms])

theorem pg_lease_takeover_witness:
  "fst (pg_try_acquire ''sched'' ''b'' 30 25 [(''sched'', \<lparr>le_holder = ''a'', le_expires_at = 20\<rparr>)])"
  using pg_lease_takeover [of "[(''sched'', \<lparr>le_holder = ''a'', le_expires_at = 20\<rparr>)]" "''sched''" "''a''" 20 25 30 "''b''"]
  by (simp add: lease_ok_def lease_owned_def)

end
