(* ===== verification/Apm_DynConfig.thy ===== *)
theory Apm_DynConfig
  imports Apm_Plugins Apm_Stores
begin

text \<open>
  \<open>storage/dynamic_config.py\<close>: the configuration a round loads from tables (maintenance windows,
  blacklist, false-positive rates, changes) and the administrative operations on it. Rows are Python
  dictionaries, so a missing key or an ill-typed value raises as it does in the code. Float arithmetic is
  rounded with \<open>fl\<close>; \<open>round(x, 4)\<close> is the correctly rounded decimal.
\<close>

record fpr_row =
  fp_fpr :: rat
  fp_total :: int

record dyn_config =
  dy_maintenance_windows :: "(string \<times> pydict list) list"
  dy_blacklist :: "(string \<times> pydict list) list"
  dy_fpr :: "(string \<times> (string \<times> fpr_row) list) list"
  dy_changes :: "(string \<times> pydict list) list"

definition tenant_rows :: "(string \<times> 'a list) list \<Rightarrow> string \<Rightarrow> 'a list" where
  "tenant_rows store tenant_id = (case map_of store tenant_id of None \<Rightarrow> [] | Some rows \<Rightarrow> rows)"

section \<open>Loading\<close>

definition load_maintenance_windows :: "string \<Rightarrow> dyn_config \<Rightarrow> pydict list res" where
  "load_maintenance_windows tenant_id dc = require_tenant tenant_id (Inr (tenant_rows (dy_maintenance_windows dc) tenant_id))"

definition load_blacklist :: "string \<Rightarrow> dyn_config \<Rightarrow> pydict list res" where
  "load_blacklist tenant_id dc = require_tenant tenant_id
     (Inr (filter (\<lambda>r. truthy (py_get_or r ''enabled'' (PBool True))) (tenant_rows (dy_blacklist dc) tenant_id)))"

definition load_fpr :: "string \<Rightarrow> dyn_config \<Rightarrow> (string \<times> fpr_row) list res" where
  "load_fpr tenant_id dc = require_tenant tenant_id (Inr (tenant_rows (dy_fpr dc) tenant_id))"

definition load_changes :: "string \<Rightarrow> dyn_config \<Rightarrow> pydict list res" where
  "load_changes tenant_id dc = require_tenant tenant_id (Inr (tenant_rows (dy_changes dc) tenant_id))"

section \<open>Administration\<close>

definition row_id :: "pydict \<Rightarrow> int res" where
  "row_id r = bind_res (key_index r ''id'') (\<lambda>v. case py_index v of Some i \<Rightarrow> Inr i | None \<Rightarrow> Inl (TypeError ''id''))"

text \<open>\<open>max((r["id"] for r in rows), default=0) + 1\<close>\<close>

definition next_row_id :: "pydict list \<Rightarrow> int res" where
  "next_row_id rows = bind_res (mapM row_id rows) (\<lambda>ids. Inr ((if ids = [] then 0 else Max (set ids)) + 1))"

text \<open>The first row with the id, with its position in the list.\<close>

fun find_row :: "pydict list \<Rightarrow> int \<Rightarrow> (pydict list \<times> pydict \<times> pydict list) option res" where
  "find_row [] rid = Inr None"
| "find_row (r # rs) rid =
     bind_res (key_index r ''id'') (\<lambda>v.
       if py_index v = Some rid then Inr (Some ([], r, rs))
       else bind_res (find_row rs rid) (\<lambda>res. Inr (map_option (\<lambda>(xs, y, zs). (r # xs, y, zs)) res)))"

definition patch_keys :: "string list \<Rightarrow> pydict \<Rightarrow> pydict \<Rightarrow> pydict" where
  "patch_keys ks patch row = fold (\<lambda>k r. case map_of patch k of None \<Rightarrow> r | Some v \<Rightarrow> AList.update k v r) ks row"

fun drop_row :: "int \<Rightarrow> pydict list \<Rightarrow> pydict list res" where
  "drop_row rid rows = filterM (\<lambda>r. bind_res (key_index r ''id'') (\<lambda>v. Inr (py_index v \<noteq> Some rid))) rows"

definition create_maintenance_window :: "string \<Rightarrow> pydict \<Rightarrow> dyn_config \<Rightarrow> (pydict \<times> dyn_config) res" where
  "create_maintenance_window tenant_id window dc = require_tenant tenant_id
     (let rows = tenant_rows (dy_maintenance_windows dc) tenant_id in
      bind_res (next_row_id rows) (\<lambda>rid.
      bind_res (key_index window ''service'') (\<lambda>service.
      bind_res (key_index window ''start_at'') (\<lambda>start_at.
      bind_res (key_index window ''end_at'') (\<lambda>end_at.
        let row = [(''id'', PInt rid), (''tenant_id'', PStr tenant_id), (''service'', service), (''start_at'', start_at),
                   (''end_at'', end_at), (''reason'', py_get window ''reason'')]
        in Inr (row, dc\<lparr>dy_maintenance_windows := AList.update tenant_id (rows @ [row]) (dy_maintenance_windows dc)\<rparr>))))))"

definition list_maintenance_windows :: "string \<Rightarrow> string option \<Rightarrow> dyn_config \<Rightarrow> pydict list res" where
  "list_maintenance_windows tenant_id service dc = require_tenant tenant_id
     (let rows = tenant_rows (dy_maintenance_windows dc) tenant_id in
      case service of None \<Rightarrow> Inr rows
      | Some s \<Rightarrow> filterM (\<lambda>r. bind_res (key_index r ''service'') (\<lambda>v. Inr (v = PStr s))) rows)"

definition update_maintenance_window :: "string \<Rightarrow> int \<Rightarrow> pydict \<Rightarrow> dyn_config \<Rightarrow> (pydict option \<times> dyn_config) res" where
  "update_maintenance_window tenant_id window_id patch dc = require_tenant tenant_id
     (bind_res (find_row (tenant_rows (dy_maintenance_windows dc) tenant_id) window_id) (\<lambda>found.
        case found of None \<Rightarrow> Inr (None, dc)
        | Some (xs, row, zs) \<Rightarrow>
            let row' = patch_keys [''service'', ''start_at'', ''end_at'', ''reason''] patch row
            in Inr (Some row', dc\<lparr>dy_maintenance_windows := AList.update tenant_id (xs @ row' # zs) (dy_maintenance_windows dc)\<rparr>)))"

definition delete_maintenance_window :: "string \<Rightarrow> int \<Rightarrow> dyn_config \<Rightarrow> dyn_config res" where
  "delete_maintenance_window tenant_id window_id dc = require_tenant tenant_id
     (bind_res (drop_row window_id (tenant_rows (dy_maintenance_windows dc) tenant_id)) (\<lambda>rows.
        Inr (dc\<lparr>dy_maintenance_windows := AList.update tenant_id rows (dy_maintenance_windows dc)\<rparr>)))"

definition create_blacklist :: "string \<Rightarrow> pydict \<Rightarrow> dyn_config \<Rightarrow> (pydict \<times> dyn_config) res" where
  "create_blacklist tenant_id entry dc = require_tenant tenant_id
     (let rows = tenant_rows (dy_blacklist dc) tenant_id in
      bind_res (next_row_id rows) (\<lambda>rid.
      bind_res (key_index entry ''service'') (\<lambda>service.
      bind_res (key_index entry ''signal'') (\<lambda>sg.
        let row = [(''id'', PInt rid), (''tenant_id'', PStr tenant_id),
                   (''domain'', py_get_or entry ''domain'' (PStr ''application'')), (''service'', service),
                   (''signal'', sg), (''reason'', py_get entry ''reason''),
                   (''enabled'', PBool (truthy (py_get_or entry ''enabled'' (PBool True))))]
        in Inr (row, dc\<lparr>dy_blacklist := AList.update tenant_id (rows @ [row]) (dy_blacklist dc)\<rparr>)))))"

definition list_blacklist :: "string \<Rightarrow> dyn_config \<Rightarrow> pydict list res" where
  "list_blacklist tenant_id dc = require_tenant tenant_id (Inr (tenant_rows (dy_blacklist dc) tenant_id))"

definition update_blacklist :: "string \<Rightarrow> int \<Rightarrow> pydict \<Rightarrow> dyn_config \<Rightarrow> (pydict option \<times> dyn_config) res" where
  "update_blacklist tenant_id entry_id patch dc = require_tenant tenant_id
     (bind_res (find_row (tenant_rows (dy_blacklist dc) tenant_id) entry_id) (\<lambda>found.
        case found of None \<Rightarrow> Inr (None, dc)
        | Some (xs, row, zs) \<Rightarrow>
            let row1 = patch_keys [''domain'', ''service'', ''signal'', ''reason''] patch row;
                row' = (case map_of patch ''enabled'' of None \<Rightarrow> row1
                        | Some v \<Rightarrow> AList.update ''enabled'' (PBool (truthy v)) row1)
            in Inr (Some row', dc\<lparr>dy_blacklist := AList.update tenant_id (xs @ row' # zs) (dy_blacklist dc)\<rparr>)))"

definition delete_blacklist :: "string \<Rightarrow> int \<Rightarrow> dyn_config \<Rightarrow> dyn_config res" where
  "delete_blacklist tenant_id entry_id dc = require_tenant tenant_id
     (bind_res (drop_row entry_id (tenant_rows (dy_blacklist dc) tenant_id)) (\<lambda>rows.
        Inr (dc\<lparr>dy_blacklist := AList.update tenant_id rows (dy_blacklist dc)\<rparr>)))"

definition round4 :: "rat \<Rightarrow> rat" where
  "round4 x = fl (of_int (round_even (x * 10000)) / 10000)"

definition write_fpr :: "string \<Rightarrow> string \<Rightarrow> bool \<Rightarrow> dyn_config \<Rightarrow> dyn_config res" where
  "write_fpr tenant_id gk false_positive dc = require_tenant tenant_id (Inr
     (let table = tenant_rows (dy_fpr dc) tenant_id;
          old_total = (case map_of table gk of None \<Rightarrow> 0 | Some row \<Rightarrow> fp_total row);
          old_fpr = (case map_of table gk of None \<Rightarrow> 0 | Some row \<Rightarrow> fp_fpr row);
          new_total = old_total + 1;
          fp_inc = (if false_positive then 1 else 0);
          new_fpr = fl (fl (fl (old_fpr * fl (of_int old_total)) + fp_inc) / fl (of_int new_total))
      in dc\<lparr>dy_fpr := AList.update tenant_id (AList.update gk \<lparr>fp_fpr = round4 new_fpr, fp_total = new_total\<rparr> table) (dy_fpr dc)\<rparr>))"

section \<open>\<open>PGDynamicConfigStore\<close>\<close>

text \<open>The false-positive table keeps both counters; the rate column is their quotient in a \<open>DECIMAL(5,4)\<close>
  column, which rounds half up.\<close>

definition numeric4 :: "rat \<Rightarrow> rat" where
  "numeric4 x = of_int \<lfloor>x * 10000 + 1 / 2\<rfloor> / 10000"

record pg_fpr_row =
  pf_false_positive_cnt :: int
  pf_total_cnt :: int
  pf_fpr :: rat

type_synonym pg_fpr_table = "((string \<times> string) \<times> pg_fpr_row) list"

definition pg_write_fpr :: "string \<Rightarrow> string \<Rightarrow> bool \<Rightarrow> pg_fpr_table \<Rightarrow> pg_fpr_table res" where
  "pg_write_fpr tenant_id gk false_positive tbl = require_tenant tenant_id (Inr
     (let fp_inc = (if false_positive then 1 else 0) in
      AList.update (tenant_id, gk)
        (case map_of tbl (tenant_id, gk) of
           None \<Rightarrow> \<lparr>pf_false_positive_cnt = fp_inc, pf_total_cnt = 1, pf_fpr = (if false_positive then 1 else 0)\<rparr>
         | Some old \<Rightarrow> \<lparr>pf_false_positive_cnt = pf_false_positive_cnt old + fp_inc,
              pf_total_cnt = pf_total_cnt old + 1,
              pf_fpr = numeric4 (of_int (pf_false_positive_cnt old + fp_inc) / of_int (pf_total_cnt old + 1))\<rparr>) tbl))"

text \<open>The parameters of the two \<open>UPDATE\<close> statements: the columns of the \<open>SET\<close> list come first in the text,
  the tenant and the id first in the argument list.\<close>

definition patch_columns :: "string list \<Rightarrow> pydict \<Rightarrow> string list" where
  "patch_columns ks patch = filter (\<lambda>k. map_of patch k \<noteq> None) ks"

definition pg_update_placeholders :: "string list \<Rightarrow> pydict \<Rightarrow> string list" where
  "pg_update_placeholders ks patch = patch_columns ks patch @ [''tenant_id'', ''id'']"

definition pg_update_args :: "string list \<Rightarrow> string \<Rightarrow> int \<Rightarrow> pydict \<Rightarrow> pyval list" where
  "pg_update_args ks tenant_id rid patch = [PStr tenant_id, PInt rid] @ map (py_get patch) (patch_columns ks patch)"

definition pg_update_binding :: "string list \<Rightarrow> string \<Rightarrow> int \<Rightarrow> pydict \<Rightarrow> (string \<times> pyval) list" where
  "pg_update_binding ks tenant_id rid patch = zip (pg_update_placeholders ks patch) (pg_update_args ks tenant_id rid patch)"

section \<open>Tenant isolation\<close>

datatype dyn_op = DyCreateWindow pydict | DyUpdateWindow int pydict | DyDeleteWindow int
  | DyCreateBlack pydict | DyUpdateBlack int pydict | DyDeleteBlack int | DyFpr string bool

fun dyn_step :: "dyn_op \<Rightarrow> string \<Rightarrow> dyn_config \<Rightarrow> dyn_config res" where
  "dyn_step (DyCreateWindow w) t dc = bind_res (create_maintenance_window t w dc) (\<lambda>(_, dc'). Inr dc')"
| "dyn_step (DyUpdateWindow i p) t dc = bind_res (update_maintenance_window t i p dc) (\<lambda>(_, dc'). Inr dc')"
| "dyn_step (DyDeleteWindow i) t dc = delete_maintenance_window t i dc"
| "dyn_step (DyCreateBlack e) t dc = bind_res (create_blacklist t e dc) (\<lambda>(_, dc'). Inr dc')"
| "dyn_step (DyUpdateBlack i p) t dc = bind_res (update_blacklist t i p dc) (\<lambda>(_, dc'). Inr dc')"
| "dyn_step (DyDeleteBlack i) t dc = delete_blacklist t i dc"
| "dyn_step (DyFpr gk b) t dc = write_fpr t gk b dc"

definition dyn_view :: "string \<Rightarrow> dyn_config \<Rightarrow> pydict list res \<times> pydict list res \<times> (string \<times> fpr_row) list res \<times> pydict list res" where
  "dyn_view t dc = (load_maintenance_windows t dc, load_blacklist t dc, load_fpr t dc, load_changes t dc)"

lemma tenant_rows_update [simp]:
  "tenant_rows (AList.update t rows store) u = (if u = t then rows else tenant_rows store u)"
  by (simp add: tenant_rows_def map_of_update)

lemmas dyn_defs = create_maintenance_window_def update_maintenance_window_def delete_maintenance_window_def
  create_blacklist_def update_blacklist_def delete_blacklist_def write_fpr_def

lemmas dyn_load_defs = load_maintenance_windows_def load_blacklist_def load_fpr_def load_changes_def

lemma update_blacklist_shape:
  assumes "update_blacklist t i patch dc = Inr (x, dc')"
  shows "dc' = dc \<or> (\<exists>rows. dc' = dc\<lparr>dy_blacklist := AList.update t rows (dy_blacklist dc)\<rparr>)"
proof -
  from assms obtain found where f: "find_row (tenant_rows (dy_blacklist dc) t) i = Inr found"
    by (auto simp: update_blacklist_def)
  show ?thesis
  proof (cases found)
    case None
    with f assms show ?thesis by (simp add: update_blacklist_def)
  next
    case (Some z)
    with f assms show ?thesis by (cases z) (auto simp: update_blacklist_def Let_def)
  qed
qed

lemma update_window_shape:
  assumes "update_maintenance_window t i patch dc = Inr (x, dc')"
  shows "dc' = dc \<or> (\<exists>rows. dc' = dc\<lparr>dy_maintenance_windows := AList.update t rows (dy_maintenance_windows dc)\<rparr>)"
proof -
  from assms obtain found where f: "find_row (tenant_rows (dy_maintenance_windows dc) t) i = Inr found"
    by (auto simp: update_maintenance_window_def)
  show ?thesis
  proof (cases found)
    case None
    with f assms show ?thesis by (simp add: update_maintenance_window_def)
  next
    case (Some z)
    with f assms show ?thesis by (cases z) (auto simp: update_maintenance_window_def Let_def)
  qed
qed

interpretation dyn: tenant_store dyn_step dyn_view "\<lambda>_. True"
proof
  show "dyn_step p [] s = Inl (ValueError ''tenant_id is required'')" for p s
    by (cases p) (simp_all add: dyn_defs)
  show "dyn_step p t s = Inr s' \<Longrightarrow> u \<noteq> t \<Longrightarrow> dyn_view u s' = dyn_view u s" for p t s s' u
    by (cases p)
      (auto simp: create_maintenance_window_def delete_maintenance_window_def create_blacklist_def delete_blacklist_def
        write_fpr_def dyn_view_def dyn_load_defs Let_def dest!: update_window_shape update_blacklist_shape)
qed simp

section \<open>Properties\<close>

fun pg_judge :: "(string \<times> string \<times> bool) list \<Rightarrow> pg_fpr_table \<Rightarrow> pg_fpr_table res" where
  "pg_judge [] tbl = Inr tbl"
| "pg_judge ((t, gk, b) # js) tbl = bind_res (pg_write_fpr t gk b tbl) (pg_judge js)"

definition judged :: "string \<Rightarrow> string \<Rightarrow> (string \<times> string \<times> bool) list \<Rightarrow> bool list" where
  "judged t gk js = map (snd \<circ> snd) (filter (\<lambda>(u, g, b). u = t \<and> g = gk) js)"

definition fpr_counts :: "bool list \<Rightarrow> pg_fpr_row option" where
  "fpr_counts bs = (if bs = [] then None else Some
     \<lparr>pf_false_positive_cnt = int (count_list bs True), pf_total_cnt = int (length bs),
      pf_fpr = numeric4 (of_nat (count_list bs True) / of_nat (length bs))\<rparr>)"

lemma numeric4_simps: "numeric4 0 = 0" "numeric4 1 = 1" "numeric4 (1 / 2) = 1 / 2"
  by (simp_all add: numeric4_def floor_eq_iff)

lemma pg_judge_step:
  assumes "map_of tbl (t, gk) = fpr_counts bs" and "pg_write_fpr u g b tbl = Inr tbl'"
  shows "map_of tbl' (t, gk) = fpr_counts (bs @ (if u = t \<and> g = gk then [b] else []))"
proof (cases "u = t \<and> g = gk")
  case True
  with assms show ?thesis
    by (cases "bs = []") (auto simp: pg_write_fpr_def fpr_counts_def map_of_update Let_def add.commute numeric4_simps)
next
  case False
  with assms show ?thesis by (auto simp: pg_write_fpr_def map_of_update Let_def)
qed

text \<open>The numbers the database keeps per group key are exact counts: after any sequence of judgements on a
  key, its total is the number of judgements, its false-positive count the number of those judged
  false, and its rate their quotient to four decimals; judgements on other keys and tenants do not touch them.\<close>

theorem pg_fpr_counts:
  assumes "pg_judge js [] = Inr tbl"
  shows "map_of tbl (t, gk) = fpr_counts (judged t gk js)"
proof -
  have "map_of tbl0 (t, gk) = fpr_counts bs \<Longrightarrow> pg_judge js tbl0 = Inr tbl \<Longrightarrow>
      map_of tbl (t, gk) = fpr_counts (bs @ judged t gk js)" for bs tbl0
  proof (induction js arbitrary: bs tbl0)
    case (Cons j js)
    obtain u g b where j: "j = (u, g, b)" by (cases j)
    with Cons.prems(2) obtain tbl1 where w: "pg_write_fpr u g b tbl0 = Inr tbl1" "pg_judge js tbl1 = Inr tbl" by auto
    from Cons.IH [OF pg_judge_step [OF Cons.prems(1) w(1)] w(2)] j show ?case
      by (auto simp: judged_def)
  qed (simp add: judged_def)
  from this [of "[]" "[]"] assms show ?thesis by (simp add: fpr_counts_def)
qed

theorem pg_fpr_counts_witness:
  "\<exists>tbl. pg_judge [(''t'', ''g'', True), (''t'', ''h'', True), (''t'', ''g'', False)] [] = Inr tbl
     \<and> map_of tbl (''t'', ''g'') = Some \<lparr>pf_false_positive_cnt = 1, pf_total_cnt = 2, pf_fpr = 1 / 2\<rparr>"
  using pg_fpr_counts [of "[(''t'', ''g'', True), (''t'', ''h'', True), (''t'', ''g'', False)]"
      "[((''t'', ''g''), \<lparr>pf_false_positive_cnt = 1, pf_total_cnt = 2, pf_fpr = 1 / 2\<rparr>),
        ((''t'', ''h''), \<lparr>pf_false_positive_cnt = 1, pf_total_cnt = 1, pf_fpr = 1\<rparr>)]" "''t''" "''g''"]
  by (simp add: pg_write_fpr_def judged_def fpr_counts_def numeric4_simps)

lemma mapM_row_id_bound: "mapM row_id rows = Inr ids \<Longrightarrow> r \<in> set rows \<Longrightarrow> \<exists>i \<in> set ids. row_id r = Inr i"
  by (induction rows arbitrary: ids) auto

text \<open>What an administrator creates is what the suppressors see: a new maintenance window gets an id no
  other window of the tenant has, and the next round loads exactly the former windows and the new one.\<close>

theorem create_window_fresh_id:
  assumes "create_maintenance_window tenant_id window dc = Inr (row, dc')"
  shows "load_maintenance_windows tenant_id dc' = bind_res (load_maintenance_windows tenant_id dc) (\<lambda>ws. Inr (ws @ [row]))
    \<and> (\<forall>r \<in> set (tenant_rows (dy_maintenance_windows dc) tenant_id). row_id r \<noteq> row_id row)"
proof -
  let ?rows = "tenant_rows (dy_maintenance_windows dc) tenant_id"
  from assms obtain ids where t: "tenant_id \<noteq> []" and ids: "mapM row_id ?rows = Inr ids"
    and row: "row_id row = Inr ((if ids = [] then 0 else Max (set ids)) + 1)"
    and dc': "dc' = dc\<lparr>dy_maintenance_windows := AList.update tenant_id (?rows @ [row]) (dy_maintenance_windows dc)\<rparr>"
    by (auto simp: create_maintenance_window_def next_row_id_def Let_def row_id_def key_index_def)
  have "row_id r \<noteq> row_id row" if r: "r \<in> set ?rows" for r
  proof -
    from mapM_row_id_bound [OF ids r] obtain i where i: "i \<in> set ids" "row_id r = Inr i" by blast
    then have "i \<le> Max (set ids)" "ids \<noteq> []" by auto
    then show ?thesis unfolding i(2) row by auto
  qed
  with t dc' show ?thesis by (simp add: load_maintenance_windows_def)
qed

theorem create_window_fresh_id_witness:
  "load_maintenance_windows ''t'' \<lparr>dy_maintenance_windows = [(''t'', [[(''id'', PInt 1), (''tenant_id'', PStr ''t''), (''service'', PStr ''api''),
      (''start_at'', PTime 0), (''end_at'', PTime 9), (''reason'', PNone)]])], dy_blacklist = [], dy_fpr = [], dy_changes = []\<rparr>
    = Inr [[(''id'', PInt 1), (''tenant_id'', PStr ''t''), (''service'', PStr ''api''), (''start_at'', PTime 0), (''end_at'', PTime 9),
      (''reason'', PNone)]]"
  using create_window_fresh_id [of "''t''" "[(''service'', PStr ''api''), (''start_at'', PTime 0), (''end_at'', PTime 9)]"
      "\<lparr>dy_maintenance_windows = [], dy_blacklist = [], dy_fpr = [], dy_changes = []\<rparr>"
      "[(''id'', PInt 1), (''tenant_id'', PStr ''t''), (''service'', PStr ''api''), (''start_at'', PTime 0), (''end_at'', PTime 9), (''reason'', PNone)]"
      "\<lparr>dy_maintenance_windows = [(''t'', [[(''id'', PInt 1), (''tenant_id'', PStr ''t''), (''service'', PStr ''api''),
      (''start_at'', PTime 0), (''end_at'', PTime 9), (''reason'', PNone)]])], dy_blacklist = [], dy_fpr = [], dy_changes = []\<rparr>"]
  by (simp add: create_maintenance_window_def tenant_rows_def next_row_id_def key_index_def py_get_def load_maintenance_windows_def)

section \<open>A misplaced argument list\<close>

text \<open>The database update of a maintenance window binds its parameters in the wrong order: changing the
  reason writes the tenant id into it and looks for a row whose tenant is the id and whose id is the new reason.\<close>

theorem pg_update_binds_tenant:
  "pg_update_binding [''service'', ''start_at'', ''end_at'', ''reason''] tenant_id rid [(''reason'', PStr v)]
     = [(''reason'', PStr tenant_id), (''tenant_id'', PInt rid), (''id'', PStr v)]"
  by (simp add: pg_update_binding_def pg_update_placeholders_def pg_update_args_def patch_columns_def py_get_def)

end
