(* ===== verification/Apm_Records.thy ===== *)
theory Apm_Records
  imports Apm_Stores
begin

text \<open>
  \<open>storage/records.py\<close>: the problem records, their deduplication and their life cycle. A stored row is
  the record with its \<open>group_key\<close> column; the store maps record ids to rows in insertion order. Anomalies
  are kept as model values: the code dumps them to dictionaries and validates them back before use.
  \<open>sha\<close> is the hash behind the fingerprints, \<open>now\<close> the clock of a call.
\<close>

record problem_row = problem_record + row_group_key :: string

type_synonym records = "(string \<times> problem_row) list"

definition OPEN_STATES :: "string list" where
  "OPEN_STATES = [''pending'', ''in_progress'']"

definition is_open :: "problem_row \<Rightarrow> bool" where
  "is_open row = (pr_state row \<in> set OPEN_STATES)"

definition severity_rank :: "string \<Rightarrow> int" where
  "severity_rank s = (if s = ''high'' then 1 else if s = ''critical'' then 2 else 0)"

section \<open>Merging into a smaller open record\<close>

definition row_anomaly_keys :: "(string \<Rightarrow> string) \<Rightarrow> metric_anomaly list \<Rightarrow> log_anomaly list \<Rightarrow> string set" where
  "row_anomaly_keys sha metric_anomalies log_anomalies =
     set (map (\<lambda>a. anomaly_key sha (MetricAnomaly a)) metric_anomalies)
     \<union> set (map (\<lambda>a. anomaly_key sha (LogAnomaly a)) log_anomalies)"

fun merge_loop :: "('a \<Rightarrow> string) \<Rightarrow> 'a list \<Rightarrow> string set \<Rightarrow> 'a list" where
  "merge_loop key [] seen = []"
| "merge_loop key (a # as) seen =
     (if key a \<in> seen then merge_loop key as seen else a # merge_loop key as (insert (key a) seen))"

definition merge_anomalies :: "('a \<Rightarrow> string) \<Rightarrow> 'a list \<Rightarrow> 'a list \<Rightarrow> 'a list" where
  "merge_anomalies key old new = merge_loop key (old @ new) {}"

abbreviation rec_keys :: "(string \<Rightarrow> string) \<Rightarrow> 'a problem_record_scheme \<Rightarrow> string set" where
  "rec_keys sha r \<equiv> row_anomaly_keys sha (pr_metric_anomalies r) (pr_log_anomalies r)"

fun superset_loop :: "(string \<Rightarrow> string) \<Rightarrow> string set \<Rightarrow> string \<Rightarrow> records \<Rightarrow> (string \<times> nat) option
    \<Rightarrow> (string \<times> nat) option" where
  "superset_loop sha new_keys tenant_id [] best = best"
| "superset_loop sha new_keys tenant_id ((rid, row) # rows) best =
     (if pr_tenant_id row \<noteq> tenant_id \<or> \<not> is_open row then superset_loop sha new_keys tenant_id rows best
      else let keys = rec_keys sha row in
        superset_loop sha new_keys tenant_id rows
          (if keys \<noteq> {} \<and> keys \<subset> new_keys \<and> (best = None \<or> card keys > snd (the best))
           then Some (rid, card keys) else best))"

definition superset_candidate :: "(string \<Rightarrow> string) \<Rightarrow> problem_record \<Rightarrow> records \<Rightarrow> string \<Rightarrow> string option" where
  "superset_candidate sha r rows tenant_id =
     (let new_keys = rec_keys sha r in
      if new_keys = {} then None else map_option fst (superset_loop sha new_keys tenant_id rows None))"

definition last_seen_or_detected :: "problem_record \<Rightarrow> time" where
  "last_seen_or_detected r = (case pr_last_seen_at r of None \<Rightarrow> pr_detected_at r | Some t \<Rightarrow> t)"

definition max_severity :: "string \<Rightarrow> string \<Rightarrow> string" where
  "max_severity new old = (if severity_rank new > severity_rank old then new else old)"

text \<open>The part of a merge that the exact-key path shares: evidence, count, last sighting, severity.\<close>

definition append_to :: "problem_record \<Rightarrow> problem_row \<Rightarrow> problem_row" where
  "append_to r row = row\<lparr>pr_evidence := pr_evidence row @ pr_evidence r,
     pr_occurrence_count := pr_occurrence_count row + 1,
     pr_last_seen_at := Some (last_seen_or_detected r),
     pr_severity := max_severity (pr_severity r) (pr_severity row)\<rparr>"

definition apply_merge :: "(string \<Rightarrow> string) \<Rightarrow> problem_record \<Rightarrow> problem_row \<Rightarrow> problem_row" where
  "apply_merge sha r row = (append_to r row)\<lparr>
     pr_metric_anomalies := merge_anomalies (\<lambda>a. anomaly_key sha (MetricAnomaly a))
       (pr_metric_anomalies row) (pr_metric_anomalies r),
     pr_log_anomalies := merge_anomalies (\<lambda>a. anomaly_key sha (LogAnomaly a))
       (pr_log_anomalies row) (pr_log_anomalies r),
     row_group_key := record_group_key sha r\<rparr>"

section \<open>\<open>InMemoryRecordStore\<close>\<close>

definition matches_open :: "string \<Rightarrow> string \<Rightarrow> problem_row \<Rightarrow> bool" where
  "matches_open tenant_id gk row = (pr_tenant_id row = tenant_id \<and> row_group_key row = gk \<and> is_open row)"

definition find_open :: "string \<Rightarrow> string \<Rightarrow> records \<Rightarrow> problem_row option res" where
  "find_open tenant_id gk rows =
     require_tenant tenant_id (Inr (map_option snd (find (\<lambda>(rid, row). matches_open tenant_id gk row) rows)))"

text \<open>\<open>model_dump()\<close> of a record, with its group key.\<close>

definition row_of :: "(string \<Rightarrow> string) \<Rightarrow> problem_record \<Rightarrow> problem_row" where
  "row_of sha r = problem_record.extend r \<lparr>row_group_key = record_group_key sha r\<rparr>"

definition update_row :: "string \<Rightarrow> (problem_row \<Rightarrow> problem_row) \<Rightarrow> records \<Rightarrow> records" where
  "update_row rid f rows = map_vals (\<lambda>k row. if k = rid then f row else row) rows"

definition write_or_append :: "(string \<Rightarrow> string) \<Rightarrow> string \<Rightarrow> problem_record \<Rightarrow> records \<Rightarrow> records res" where
  "write_or_append sha tenant_id r rows =
     require_tenant tenant_id (Inr
       (case superset_candidate sha r rows tenant_id of
          Some rid \<Rightarrow> update_row rid (apply_merge sha r) rows
        | None \<Rightarrow>
            (case find (\<lambda>(rid, row). matches_open tenant_id (record_group_key sha r) row) rows of
               Some (rid, _) \<Rightarrow> update_row rid (append_to r) rows
             | None \<Rightarrow> AList.update (pr_record_id r) (row_of sha r) rows)))"

definition slice_to :: "int \<Rightarrow> 'a list \<Rightarrow> 'a list" where
  "slice_to n xs = take (nat (if n < 0 then int (length xs) + n else n)) xs"

definition rec_list :: "string \<Rightarrow> string option \<Rightarrow> string option \<Rightarrow> string option \<Rightarrow> int \<Rightarrow> records
    \<Rightarrow> problem_row list res" where
  "rec_list tenant_id state service severity limit rows =
     require_tenant tenant_id (Inr
       (let rs = filter (\<lambda>r. pr_tenant_id r = tenant_id) (map snd rows);
            rs = (case state of None \<Rightarrow> rs | Some x \<Rightarrow> filter (\<lambda>r. pr_state r = x) rs);
            rs = (case service of None \<Rightarrow> rs
                  | Some x \<Rightarrow> filter (\<lambda>r. x \<in> set (split_on (CHR '','') (pr_service r))) rs);
            rs = (case severity of None \<Rightarrow> rs | Some x \<Rightarrow> filter (\<lambda>r. pr_severity r = x) rs)
        in slice_to limit (sort_desc pr_detected_at rs)))"

definition owned_row :: "string \<Rightarrow> string \<Rightarrow> records \<Rightarrow> problem_row option" where
  "owned_row tenant_id rid rows =
     (case map_of rows rid of None \<Rightarrow> None
      | Some row \<Rightarrow> if pr_tenant_id row \<noteq> tenant_id then None else Some row)"

definition rec_get :: "string \<Rightarrow> string \<Rightarrow> records \<Rightarrow> problem_row option res" where
  "rec_get tenant_id rid rows = require_tenant tenant_id (Inr (owned_row tenant_id rid rows))"

definition holds_ticket :: "problem_row \<Rightarrow> string \<Rightarrow> bool" where
  "holds_ticket row ticket =
     (ticket \<noteq> [] \<and>
      ((case pr_resolve_reason row of None \<Rightarrow> [] | Some s \<Rightarrow> s) = ''escalated:'' @ ticket
       \<or> (\<exists>entry \<in> set (pr_evidence row).
            py_get entry ''ticket_id'' = PStr ticket \<or> py_get entry ''ticket_number'' = PStr ticket)))"

definition find_by_ticket :: "string \<Rightarrow> string \<Rightarrow> records \<Rightarrow> problem_row option res" where
  "find_by_ticket tenant_id ticket rows =
     require_tenant tenant_id (Inr (map_option snd
       (find (\<lambda>(rid, row). pr_tenant_id row = tenant_id \<and> holds_ticket row ticket) rows)))"

definition set_terminal_state :: "string \<Rightarrow> string \<Rightarrow> string \<Rightarrow> string \<Rightarrow> time \<Rightarrow> records \<Rightarrow> records res" where
  "set_terminal_state tenant_id rid state reason now rows =
     require_tenant tenant_id (Inr
       (case owned_row tenant_id rid rows of
          None \<Rightarrow> rows
        | Some row \<Rightarrow> update_row rid (\<lambda>row. row\<lparr>pr_state := state, pr_resolved_at := Some now,
            pr_resolve_reason := Some reason\<rparr>) rows))"

definition rec_resolve :: "string \<Rightarrow> string \<Rightarrow> string \<Rightarrow> time \<Rightarrow> records \<Rightarrow> records res" where
  "rec_resolve tenant_id rid reason now rows = set_terminal_state tenant_id rid ''resolved'' reason now rows"

definition rec_close :: "string \<Rightarrow> string \<Rightarrow> string \<Rightarrow> time \<Rightarrow> records \<Rightarrow> records res" where
  "rec_close tenant_id rid reason now rows = set_terminal_state tenant_id rid ''closed'' reason now rows"

definition mark_escalated :: "string \<Rightarrow> string \<Rightarrow> string \<Rightarrow> time \<Rightarrow> records \<Rightarrow> records res" where
  "mark_escalated tenant_id rid reason now rows = set_terminal_state tenant_id rid ''escalated'' reason now rows"

definition agent_run_entry :: "string \<Rightarrow> string \<Rightarrow> time \<Rightarrow> pydict" where
  "agent_run_entry run_id workflow_id now =
     [(''type'', PStr ''agent_run''), (''run_id'', PStr run_id), (''workflow_id'', PStr workflow_id),
      (''started_at'', PTime now)]"

definition mark_in_progress :: "string \<Rightarrow> string \<Rightarrow> string \<Rightarrow> string \<Rightarrow> time \<Rightarrow> records \<Rightarrow> (bool \<times> records) res" where
  "mark_in_progress tenant_id rid run_id workflow_id now rows =
     require_tenant tenant_id (Inr
       (case owned_row tenant_id rid rows of
          None \<Rightarrow> (False, rows)
        | Some row \<Rightarrow>
            if pr_state row \<noteq> ''pending'' then (False, rows)
            else (True, update_row rid (\<lambda>row. row\<lparr>pr_state := ''in_progress'',
                   pr_evidence := pr_evidence row @ [agent_run_entry run_id workflow_id now]\<rparr>) rows)))"

definition append_evidence :: "string \<Rightarrow> string \<Rightarrow> pydict \<Rightarrow> records \<Rightarrow> (bool \<times> records) res" where
  "append_evidence tenant_id rid entry rows =
     require_tenant tenant_id (Inr
       (case owned_row tenant_id rid rows of
          None \<Rightarrow> (False, rows)
        | Some row \<Rightarrow> (True, update_row rid (\<lambda>row. row\<lparr>pr_evidence := pr_evidence row @ [entry]\<rparr>) rows)))"

definition list_tenants :: "records \<Rightarrow> string list" where
  "list_tenants rows = sorted_set (map (pr_tenant_id \<circ> snd) rows)"

section \<open>\<open>PGRecordStore\<close>\<close>

text \<open>The table has the primary key \<open>record_id\<close> and \<open>UNIQUE (tenant_id, open_group_key)\<close>, where the generated
  column \<open>open_group_key\<close> is the group key of an open row and NULL otherwise. A statement that would
  break the constraint raises.\<close>

definition pg_unique :: "records \<Rightarrow> bool" where
  "pg_unique tbl = distinct (map (\<lambda>(rid, row). (pr_tenant_id row, row_group_key row))
     (filter (\<lambda>(rid, row). is_open row) tbl))"

definition pg_check :: "records \<Rightarrow> records res" where
  "pg_check tbl = (if pg_unique tbl then Inr tbl else Inl (UniqueViolation ''open_group_key''))"

text \<open>\<open>array_position(ARRAY['warning','high','critical'], x)\<close> with \<open>COALESCE(..., 0)\<close>.\<close>

definition pg_severity_rank :: "string \<Rightarrow> int" where
  "pg_severity_rank s = (if s = ''warning'' then 1 else if s = ''high'' then 2 else if s = ''critical'' then 3 else 0)"

definition pg_append_to :: "problem_record \<Rightarrow> time option \<Rightarrow> problem_row \<Rightarrow> problem_row" where
  "pg_append_to r last_seen row = row\<lparr>pr_evidence := pr_evidence row @ pr_evidence r,
     pr_occurrence_count := pr_occurrence_count row + 1,
     pr_last_seen_at := last_seen,
     pr_severity := (if pg_severity_rank (pr_severity r) > pg_severity_rank (pr_severity row)
       then pr_severity r else pr_severity row)\<rparr>"

definition pg_find_superset_candidate :: "(string \<Rightarrow> string) \<Rightarrow> string \<Rightarrow> problem_record \<Rightarrow> records \<Rightarrow> string option" where
  "pg_find_superset_candidate sha tenant_id r tbl =
     superset_candidate sha r
       (filter (\<lambda>(rid, row). pr_tenant_id row = tenant_id \<and> pr_domain row = pr_domain r \<and> is_open row) tbl) tenant_id"

definition pg_merge_into :: "(string \<Rightarrow> string) \<Rightarrow> string \<Rightarrow> string \<Rightarrow> problem_record \<Rightarrow> records \<Rightarrow> records res" where
  "pg_merge_into sha tenant_id target r tbl =
     pg_check (map_vals (\<lambda>rid row. if rid = target \<and> pr_tenant_id row = tenant_id \<and> is_open row
       then (pg_append_to r (Some (last_seen_or_detected r)) row)\<lparr>
         pr_metric_anomalies := merge_anomalies (\<lambda>a. anomaly_key sha (MetricAnomaly a))
           (pr_metric_anomalies row) (pr_metric_anomalies r),
         pr_log_anomalies := merge_anomalies (\<lambda>a. anomaly_key sha (LogAnomaly a))
           (pr_log_anomalies row) (pr_log_anomalies r),
         row_group_key := record_group_key sha r\<rparr>
       else row) tbl)"

definition pg_write_or_append :: "(string \<Rightarrow> string) \<Rightarrow> string \<Rightarrow> problem_record \<Rightarrow> records \<Rightarrow> records res" where
  "pg_write_or_append sha tenant_id r tbl =
     require_tenant tenant_id
       (case pg_find_superset_candidate sha tenant_id r tbl of
          Some target \<Rightarrow> pg_merge_into sha tenant_id target r tbl
        | None \<Rightarrow>
            let row = row_of sha r in
            (case (if is_open row
                   then find (\<lambda>(rid, x). matches_open (pr_tenant_id r) (record_group_key sha r) x) tbl
                   else None) of
               Some (rid, _) \<Rightarrow> Inr (update_row rid (pg_append_to r (pr_last_seen_at r)) tbl)
             | None \<Rightarrow> if map_of tbl (pr_record_id r) \<noteq> None then Inl (UniqueViolation ''record_id'')
                       else Inr (tbl @ [(pr_record_id r, row)])))"

definition pg_set_terminal_state :: "string \<Rightarrow> string \<Rightarrow> string \<Rightarrow> string \<Rightarrow> time \<Rightarrow> records \<Rightarrow> records res" where
  "pg_set_terminal_state tenant_id rid state reason now tbl =
     require_tenant tenant_id (Inr (map_vals (\<lambda>k row.
       if pr_tenant_id row = tenant_id \<and> k = rid \<and> pr_state row \<noteq> state
       then row\<lparr>pr_state := state, pr_resolved_at := Some now, pr_resolve_reason := Some reason\<rparr>
       else row) tbl))"

definition pg_mark_in_progress :: "string \<Rightarrow> string \<Rightarrow> string \<Rightarrow> string \<Rightarrow> time \<Rightarrow> records \<Rightarrow> (bool \<times> records) res" where
  "pg_mark_in_progress tenant_id rid run_id workflow_id now tbl =
     require_tenant tenant_id
       (let hit = (\<lambda>k row. pr_tenant_id row = tenant_id \<and> k = rid \<and> pr_state row = ''pending'') in
        Inr (length (filter (\<lambda>(k, row). hit k row) tbl) = 1,
          map_vals (\<lambda>k row. if hit k row then row\<lparr>pr_state := ''in_progress'',
            pr_evidence := pr_evidence row @ [agent_run_entry run_id workflow_id now]\<rparr> else row) tbl))"

definition pg_append_evidence :: "string \<Rightarrow> string \<Rightarrow> pydict \<Rightarrow> records \<Rightarrow> (bool \<times> records) res" where
  "pg_append_evidence tenant_id rid entry tbl =
     require_tenant tenant_id
       (let hit = (\<lambda>k row. pr_tenant_id row = tenant_id \<and> k = rid) in
        Inr (length (filter (\<lambda>(k, row). hit k row) tbl) = 1,
          map_vals (\<lambda>k row. if hit k row then row\<lparr>pr_evidence := pr_evidence row @ [entry]\<rparr> else row) tbl))"

definition pg_find_open :: "string \<Rightarrow> string \<Rightarrow> records \<Rightarrow> problem_row option res" where
  "pg_find_open tenant_id gk tbl =
     require_tenant tenant_id (Inr (case sort_desc pr_detected_at (filter (matches_open tenant_id gk) (map snd tbl)) of
       [] \<Rightarrow> None | row # _ \<Rightarrow> Some row))"

definition pg_find_by_ticket :: "string \<Rightarrow> string \<Rightarrow> records \<Rightarrow> problem_row option res" where
  "pg_find_by_ticket tenant_id ticket tbl =
     require_tenant tenant_id (Inr
       (if ticket = [] then None
        else case sort_desc pr_detected_at
               (filter (\<lambda>row. pr_tenant_id row = tenant_id \<and> holds_ticket row ticket) (map snd tbl)) of
          [] \<Rightarrow> None | row # _ \<Rightarrow> Some row))"

section \<open>What a write does\<close>

definition eligible :: "(string \<Rightarrow> string) \<Rightarrow> string set \<Rightarrow> string \<Rightarrow> problem_row \<Rightarrow> bool" where
  "eligible sha new_keys t row \<longleftrightarrow> pr_tenant_id row = t \<and> is_open row \<and> rec_keys sha row \<noteq> {}
     \<and> rec_keys sha row \<subset> new_keys"

fun chosen :: "(string \<Rightarrow> string) \<Rightarrow> string set \<Rightarrow> string \<Rightarrow> records \<Rightarrow> (string \<times> nat) option \<Rightarrow> (string \<times> nat) option \<Rightarrow> bool" where
  "chosen sha K t rows best None \<longleftrightarrow> best = None \<and> (\<forall>k x. (k, x) \<in> set rows \<longrightarrow> \<not> eligible sha K t x)"
| "chosen sha K t rows best (Some c) \<longleftrightarrow>
     (best = Some c \<or> (\<exists>x. (fst c, x) \<in> set rows \<and> eligible sha K t x \<and> snd c = card (rec_keys sha x)))
     \<and> (\<forall>b. best = Some b \<longrightarrow> snd b \<le> snd c)
     \<and> (\<forall>k x. (k, x) \<in> set rows \<longrightarrow> eligible sha K t x \<longrightarrow> card (rec_keys sha x) \<le> snd c)"

lemma chosen_skip:
  "chosen sha K t rows best res \<Longrightarrow> (eligible sha K t row \<Longrightarrow> \<exists>b. best = Some b \<and> card (rec_keys sha row) \<le> snd b)
     \<Longrightarrow> chosen sha K t ((rid, row) # rows) best res"
  by (cases res) (auto intro: order_trans)

lemma chosen_take:
  "chosen sha K t rows (Some (rid, card (rec_keys sha row))) res \<Longrightarrow> eligible sha K t row
     \<Longrightarrow> (\<And>b. best = Some b \<Longrightarrow> snd b < card (rec_keys sha row)) \<Longrightarrow> chosen sha K t ((rid, row) # rows) best res"
  by (cases res) (auto intro: order_trans less_imp_le)

lemma superset_loop_spec: "chosen sha K t rows best (superset_loop sha K t rows best)"
proof (induction sha K t rows best rule: superset_loop.induct)
  case (2 sha K t rid row rows best)
  let ?keys = "rec_keys sha row"
  show ?case
  proof (cases "pr_tenant_id row \<noteq> t \<or> \<not> is_open row")
    case True
    have "chosen sha K t ((rid, row) # rows) best (superset_loop sha K t rows best)"
      by (rule chosen_skip [OF "2.IH"(1) [OF True]]) (use True in \<open>auto simp: eligible_def\<close>)
    with True show ?thesis by simp
  next
    case False
    note ih = "2.IH"(2) [OF False refl]
    have el: "eligible sha K t row \<longleftrightarrow> ?keys \<noteq> {} \<and> ?keys \<subset> K" using False by (auto simp: eligible_def)
    show ?thesis
    proof (cases "?keys \<noteq> {} \<and> ?keys \<subset> K \<and> (best = None \<or> card ?keys > snd (the best))")
      case True
      then have "chosen sha K t ((rid, row) # rows) best (superset_loop sha K t rows (Some (rid, card ?keys)))"
        using ih el by (intro chosen_take) auto
      with True False show ?thesis by (simp add: Let_def)
    next
      case no: False
      have "\<exists>b. best = Some b \<and> card ?keys \<le> snd b" if "eligible sha K t row"
        using no el that by (cases best) auto
      then have "chosen sha K t ((rid, row) # rows) best (superset_loop sha K t rows best)"
        by (rule chosen_skip [OF ih [unfolded if_not_P [OF no]]])
      with False show ?thesis by (simp only: superset_loop.simps Let_def if_not_P [OF no] if_not_P [OF False] if_False)
    qed
  qed
next
  case (1 sha K t best)
  show ?case by (cases best) auto
qed

lemma superset_candidate_Some:
  assumes "superset_candidate sha r rows t = Some rid"
  obtains row where "(rid, row) \<in> set rows" and "eligible sha (rec_keys sha r) t row"
    and "\<forall>k x. (k, x) \<in> set rows \<longrightarrow> eligible sha (rec_keys sha r) t x
      \<longrightarrow> card (rec_keys sha x) \<le> card (rec_keys sha row)"
proof -
  from assms obtain n where "superset_loop sha (rec_keys sha r) t rows None = Some (rid, n)"
    by (auto simp: superset_candidate_def Let_def split: if_splits)
  with superset_loop_spec [of sha "rec_keys sha r" t rows None] that show ?thesis by force
qed

lemma superset_candidate_None:
  assumes "superset_candidate sha r rows t = None" and "(k, x) \<in> set rows"
  shows "\<not> eligible sha (rec_keys sha r) t x"
proof (cases "rec_keys sha r = {}")
  case True
  then show ?thesis by (simp add: eligible_def)
next
  case False
  with assms(1) have "superset_loop sha (rec_keys sha r) t rows None = None"
    by (simp add: superset_candidate_def Let_def)
  with superset_loop_spec [of sha "rec_keys sha r" t rows None] assms(2) show ?thesis by simp
qed

lemma write_cases [consumes 2, case_names merge append insert]:
  assumes "write_or_append sha t r rows = Inr rows'" and d: "distinct (map fst rows)"
  obtains rid row where "map_of rows rid = Some row" "eligible sha (rec_keys sha r) t row"
      "rows' = update_row rid (apply_merge sha r) rows"
  | rid row where "map_of rows rid = Some row" "matches_open t (record_group_key sha r) row"
      "rows' = update_row rid (append_to r) rows"
  | "rows' = AList.update (pr_record_id r) (row_of sha r) rows"
      "\<And>k row. map_of rows k = Some row \<Longrightarrow> \<not> matches_open t (record_group_key sha r) row"
      "\<And>k row. map_of rows k = Some row \<Longrightarrow> \<not> eligible sha (rec_keys sha r) t row"
proof (cases "superset_candidate sha r rows t")
  case (Some rid)
  then obtain row where "(rid, row) \<in> set rows" "eligible sha (rec_keys sha r) t row"
    by (rule superset_candidate_Some)
  with d Some assms(1) that(1) show ?thesis by (simp add: write_or_append_def)
next
  case None
  show ?thesis
  proof (cases "find (\<lambda>(rid, row). matches_open t (record_group_key sha r) row) rows")
    case (Some e)
    obtain rid row where e: "e = (rid, row)" by (cases e)
    with Some have "(rid, row) \<in> set rows" "matches_open t (record_group_key sha r) row"
      by (auto simp: find_Some_iff in_set_conv_nth)
    with None Some e d assms(1) that(2) show ?thesis by (simp add: write_or_append_def)
  next
    case no: None
    then have "\<not> matches_open t (record_group_key sha r) row" if "map_of rows k = Some row" for k row
      using map_of_SomeD [OF that] by (fastforce simp: find_None_iff)
    moreover have "\<not> eligible sha (rec_keys sha r) t row" if "map_of rows k = Some row" for k row
      using superset_candidate_None [OF None map_of_SomeD [OF that]] .
    ultimately show ?thesis using None no assms(1) that(3) by (simp add: write_or_append_def)
  qed
qed

lemma map_of_update_row: "map_of (update_row rid f rows) k = map_option (\<lambda>row. if k = rid then f row else row) (map_of rows k)"
  by (simp add: update_row_def map_of_map_vals)

lemma keys_update_row [simp]: "map fst (update_row rid f rows) = map fst rows"
  by (simp add: update_row_def)

lemma set_merge_loop: "key ` set (merge_loop key as seen) = key ` set as - seen"
  by (induction as arbitrary: seen) auto

lemma distinct_merge_loop: "distinct (map key (merge_loop key as seen))"
proof (induction as arbitrary: seen)
  case (Cons a as)
  have "key a \<notin> key ` set (merge_loop key as (insert (key a) seen))" by (simp add: set_merge_loop)
  with Cons show ?case by simp
qed simp

lemma rec_keys_apply_merge: "rec_keys sha (apply_merge sha r row) = rec_keys sha row \<union> rec_keys sha r"
  using set_merge_loop [of "\<lambda>a. anomaly_key sha (MetricAnomaly a)" "pr_metric_anomalies row @ pr_metric_anomalies r" "{}"]
    set_merge_loop [of "\<lambda>a. anomaly_key sha (LogAnomaly a)" "pr_log_anomalies row @ pr_log_anomalies r" "{}"]
  by (auto simp: row_anomaly_keys_def apply_merge_def append_to_def merge_anomalies_def image_Un)

lemma append_to_sel [simp]:
  "pr_tenant_id (append_to r row) = pr_tenant_id row" "pr_state (append_to r row) = pr_state row"
  "row_group_key (append_to r row) = row_group_key row" "is_open (append_to r row) = is_open row"
  "rec_keys sha (append_to r row) = rec_keys sha row" "pr_record_id (append_to r row) = pr_record_id row"
  "pr_occurrence_count (append_to r row) = pr_occurrence_count row + 1"
  by (simp_all add: append_to_def is_open_def)

lemma apply_merge_sel [simp]:
  "pr_tenant_id (apply_merge sha r row) = pr_tenant_id row" "pr_state (apply_merge sha r row) = pr_state row"
  "row_group_key (apply_merge sha r row) = record_group_key sha r" "is_open (apply_merge sha r row) = is_open row"
  "pr_record_id (apply_merge sha r row) = pr_record_id row"
  "pr_occurrence_count (apply_merge sha r row) = pr_occurrence_count row + 1"
  by (simp_all add: apply_merge_def is_open_def)

lemma row_of_sel [simp]:
  "pr_tenant_id (row_of sha r) = pr_tenant_id r" "pr_state (row_of sha r) = pr_state r"
  "row_group_key (row_of sha r) = record_group_key sha r" "pr_record_id (row_of sha r) = pr_record_id r"
  "rec_keys sha' (row_of sha r) = rec_keys sha' r" "is_open (row_of sha r) = (pr_state r \<in> set OPEN_STATES)"
  "pr_occurrence_count (row_of sha r) = pr_occurrence_count r"
  by (simp_all add: row_of_def problem_record.defs is_open_def)

lemma find_open_Some_iff:
  "t \<noteq> [] \<Longrightarrow> distinct (map fst rows) \<Longrightarrow>
   (\<exists>row. find_open t gk rows = Inr (Some row)) \<longleftrightarrow> (\<exists>k row. map_of rows k = Some row \<and> matches_open t gk row)"
proof -
  assume t: "t \<noteq> []" and d: "distinct (map fst rows)"
  have "(\<exists>row. find_open t gk rows = Inr (Some row)) \<longleftrightarrow> find (\<lambda>(rid, row). matches_open t gk row) rows \<noteq> None"
    using t by (cases "find (\<lambda>(rid, row). matches_open t gk row) rows") (simp_all add: find_open_def)
  also have "\<dots> \<longleftrightarrow> (\<exists>k row. (k, row) \<in> set rows \<and> matches_open t gk row)"
    by (simp add: find_None_iff)
  finally show ?thesis using d by simp
qed

section \<open>The life cycle of a row\<close>

text \<open>How a row may change over time: it keeps its identity, evidence and counts only grow, anomalies are only
  added, severity only rises, and its state only moves from pending over in progress to a terminal one.\<close>

definition stage :: "string \<Rightarrow> nat" where
  "stage st = (if st = ''pending'' then 0 else if st = ''in_progress'' then 1 else 2)"

definition evolves :: "(string \<Rightarrow> string) \<Rightarrow> problem_row \<Rightarrow> problem_row \<Rightarrow> bool" where
  "evolves sha row row' \<longleftrightarrow> pr_record_id row' = pr_record_id row \<and> pr_tenant_id row' = pr_tenant_id row
     \<and> pr_domain row' = pr_domain row \<and> pr_service row' = pr_service row
     \<and> pr_detected_at row' = pr_detected_at row \<and> pr_first_seen_at row' = pr_first_seen_at row
     \<and> (\<exists>new. pr_evidence row' = pr_evidence row @ new)
     \<and> pr_occurrence_count row \<le> pr_occurrence_count row' \<and> rec_keys sha row \<subseteq> rec_keys sha row'
     \<and> severity_rank (pr_severity row) \<le> severity_rank (pr_severity row')
     \<and> stage (pr_state row) \<le> stage (pr_state row')"

lemma evolves_refl [simp]: "evolves sha row row"
  by (simp add: evolves_def)

lemma evolves_trans: "evolves sha a b \<Longrightarrow> evolves sha b c \<Longrightarrow> evolves sha a c"
  unfolding evolves_def by (auto intro: order_trans)

lemma evolves_append_to: "evolves sha row (append_to r row)"
  by (auto simp: evolves_def append_to_def max_severity_def)

lemma evolves_apply_merge: "evolves sha row (apply_merge sha r row)"
proof -
  have "rec_keys sha row \<subseteq> rec_keys sha (apply_merge sha r row)" by (simp add: rec_keys_apply_merge)
  moreover have "pr_evidence (apply_merge sha r row) = pr_evidence row @ pr_evidence r"
    "pr_severity (apply_merge sha r row) = max_severity (pr_severity r) (pr_severity row)"
    "pr_domain (apply_merge sha r row) = pr_domain row" "pr_service (apply_merge sha r row) = pr_service row"
    "pr_detected_at (apply_merge sha r row) = pr_detected_at row"
    "pr_first_seen_at (apply_merge sha r row) = pr_first_seen_at row"
    by (simp_all add: apply_merge_def append_to_def)
  ultimately show ?thesis by (auto simp: evolves_def max_severity_def)
qed

text \<open>The operations on the store as the program issues them; a write comes with a fresh record number and
  the tenant of the call, as \<open>emit\<close> builds it.\<close>

datatype rec_op = RWrite problem_record time
  | RResolve string string time | RClose string string time | REscalate string string time
  | RInProgress string string string time | REvidence string pydict

type_synonym rec_store = "sequences \<times> records"

fun rec_step :: "(string \<Rightarrow> string) \<Rightarrow> rec_op \<Rightarrow> string \<Rightarrow> rec_store \<Rightarrow> rec_store res" where
  "rec_step sha (RWrite r now) t (nxt, rows) =
     (let (rid, nxt') = next_id (pr_domain r) now nxt in
      bind_res (write_or_append sha t (r\<lparr>pr_record_id := rid, pr_tenant_id := t\<rparr>) rows) (\<lambda>rows'. Inr (nxt', rows')))"
| "rec_step sha (RResolve rid reason now) t (nxt, rows) =
     bind_res (rec_resolve t rid reason now rows) (\<lambda>rows'. Inr (nxt, rows'))"
| "rec_step sha (RClose rid reason now) t (nxt, rows) =
     bind_res (rec_close t rid reason now rows) (\<lambda>rows'. Inr (nxt, rows'))"
| "rec_step sha (REscalate rid reason now) t (nxt, rows) =
     bind_res (mark_escalated t rid reason now rows) (\<lambda>rows'. Inr (nxt, rows'))"
| "rec_step sha (RInProgress rid run_id wid now) t (nxt, rows) =
     bind_res (mark_in_progress t rid run_id wid now rows) (\<lambda>(_, rows'). Inr (nxt, rows'))"
| "rec_step sha (REvidence rid entry) t (nxt, rows) =
     bind_res (append_evidence t rid entry rows) (\<lambda>(_, rows'). Inr (nxt, rows'))"

definition issued :: "sequences \<Rightarrow> string \<Rightarrow> bool" where
  "issued nxt rid = (\<exists>d n. rid = seq_format RECORD_PREFIX d n \<and> CHR ''-'' \<notin> set d \<and> n \<le> count_of nxt (RECORD_PREFIX, d))"

definition rec_inv :: "rec_store \<Rightarrow> bool" where
  "rec_inv = (\<lambda>(nxt, rows). distinct (map fst rows)
     \<and> (\<forall>k row. map_of rows k = Some row \<longrightarrow> pr_record_id row = k \<and> issued nxt k))"

lemma next_id_fresh:
  assumes "next_id d now nxt = (rid, nxt')"
  shows "issued nxt' rid" "\<not> issued nxt rid" "issued nxt k \<Longrightarrow> issued nxt' k"
proof -
  have n: "rid = seq_format RECORD_PREFIX (date_key now) (count_of nxt (RECORD_PREFIX, date_key now) + 1)"
    "nxt' = AList.update (RECORD_PREFIX, date_key now) (count_of nxt (RECORD_PREFIX, date_key now) + 1) nxt"
    using assms by (simp_all add: next_id_def seq_number_format)
  have c: "count_of nxt' j = count_of nxt j + (if j = (RECORD_PREFIX, date_key now) then 1 else 0)" for j
    by (simp add: n(2) count_of_def map_of_update)
  show "issued nxt' rid" unfolding issued_def
    by (intro exI [of _ "date_key now"] exI [of _ "count_of nxt (RECORD_PREFIX, date_key now) + 1"])
      (simp add: n(1) c date_key_chars)
  show "\<not> issued nxt rid"
  proof
    assume "issued nxt rid"
    then obtain e m where e: "rid = seq_format RECORD_PREFIX e m" "CHR ''-'' \<notin> set e" "m \<le> count_of nxt (RECORD_PREFIX, e)"
      by (auto simp: issued_def)
    have "CHR ''-'' \<notin> set RECORD_PREFIX" by (simp add: RECORD_PREFIX_def)
    with seq_format_inj [OF e(1) [symmetric, unfolded n(1)]] e date_key_chars [of now]
    show False by simp
  qed
  have "count_of nxt j \<le> count_of nxt' j" for j by (simp add: c)
  then show "issued nxt k \<Longrightarrow> issued nxt' k" unfolding issued_def by (blast intro: order_trans)
qed

text \<open>Every operation is a pointwise change of the rows of its tenant, or adds one row with a new number.\<close>

definition pointwise :: "(string \<Rightarrow> string) \<Rightarrow> string \<Rightarrow> records \<Rightarrow> records \<Rightarrow> bool" where
  "pointwise sha t rows rows' \<longleftrightarrow> map fst rows' = map fst rows \<and> (\<forall>k row. map_of rows k = Some row \<longrightarrow>
     (\<exists>row'. map_of rows' k = Some row' \<and> evolves sha row row' \<and> (pr_tenant_id row \<noteq> t \<longrightarrow> row' = row)))"

lemma pointwise_update_row:
  assumes "distinct (map fst rows)" "map_of rows rid = Some row" "pr_tenant_id row = t" "evolves sha row (f row)"
  shows "pointwise sha t rows (update_row rid f rows)"
  using assms by (auto simp: pointwise_def map_of_update_row simp del: map_of_eq_Some_iff)

lemma pointwise_refl: "pointwise sha t rows rows"
  by (simp add: pointwise_def)

lemma owned_row_Some: "owned_row t rid rows = Some row \<longleftrightarrow> map_of rows rid = Some row \<and> pr_tenant_id row = t"
  by (auto simp: owned_row_def split: option.splits)

lemma terminal_pointwise:
  assumes "distinct (map fst rows)" and "set_terminal_state t rid state reason now rows = Inr rows'" and "stage state = 2"
  shows "pointwise sha t rows rows'"
proof -
  let ?f = "\<lambda>row. row\<lparr>pr_state := state, pr_resolved_at := Some now, pr_resolve_reason := Some reason\<rparr>"
  have st: "stage x \<le> 2" for x by (simp add: stage_def)
  have ev: "evolves sha row (?f row)" for row using assms(3) st by (simp add: evolves_def)
  have r: "rows' = (case owned_row t rid rows of None \<Rightarrow> rows | Some row \<Rightarrow> update_row rid ?f rows)"
    using assms(2) by (auto simp: set_terminal_state_def)
  show ?thesis
  proof (cases "owned_row t rid rows")
    case None
    with r show ?thesis by (simp add: pointwise_refl)
  next
    case (Some row)
    with r have "rows' = update_row rid ?f rows" by simp
    moreover from Some have "map_of rows rid = Some row" "pr_tenant_id row = t" by (simp_all add: owned_row_Some)
    ultimately show ?thesis using pointwise_update_row [OF assms(1), of rid row t sha ?f] ev by simp
  qed
qed

lemma rec_step_cases:
  assumes "rec_inv (nxt, rows)" and "rec_step sha p t (nxt, rows) = Inr (nxt', rows')"
  shows "(nxt' = nxt \<or> (\<exists>d now rid. next_id d now nxt = (rid, nxt')))
    \<and> (pointwise sha t rows rows'
      \<or> (\<exists>rid row. rows' = AList.update rid row rows \<and> map_of rows rid = None \<and> pr_tenant_id row = t
          \<and> pr_record_id row = rid \<and> issued nxt' rid))"
proof (cases p)
  case (RWrite r now)
  obtain rid where id: "next_id (pr_domain r) now nxt = (rid, nxt')"
    and w: "write_or_append sha t (r\<lparr>pr_record_id := rid, pr_tenant_id := t\<rparr>) rows = Inr rows'"
    using assms(2) RWrite by (auto split: prod.splits)
  have d: "distinct (map fst rows)" using assms(1) by (simp add: rec_inv_def)
  have fresh: "map_of rows rid = None"
    using assms(1) next_id_fresh(2) [OF id] unfolding rec_inv_def by (cases "map_of rows rid") auto
  from w d have "pointwise sha t rows rows'
      \<or> rows' = AList.update rid (row_of sha (r\<lparr>pr_record_id := rid, pr_tenant_id := t\<rparr>)) rows"
  proof (cases rule: write_cases)
    case (merge k row)
    then show ?thesis
      using pointwise_update_row [OF d, of k row t sha] evolves_apply_merge by (auto simp: eligible_def)
  next
    case (append k row)
    then show ?thesis
      using pointwise_update_row [OF d, of k row t sha] evolves_append_to by (auto simp: matches_open_def)
  next
    case insert
    then show ?thesis by simp
  qed
  then show ?thesis
  proof
    assume "rows' = AList.update rid (row_of sha (r\<lparr>pr_record_id := rid, pr_tenant_id := t\<rparr>)) rows"
    then have "\<exists>rid row. rows' = AList.update rid row rows \<and> map_of rows rid = None \<and> pr_tenant_id row = t
          \<and> pr_record_id row = rid \<and> issued nxt' rid"
      using fresh next_id_fresh(1) [OF id]
      by (intro exI [of _ rid] exI [of _ "row_of sha (r\<lparr>pr_record_id := rid, pr_tenant_id := t\<rparr>)"]) simp
    with id show ?thesis by blast
  qed (use id in blast)
next
  case (RResolve rid reason now)
  with assms terminal_pointwise [of rows t rid "''resolved''"] show ?thesis by (auto simp: rec_resolve_def rec_inv_def stage_def)
next
  case (RClose rid reason now)
  with assms terminal_pointwise [of rows t rid "''closed''"] show ?thesis by (auto simp: rec_close_def rec_inv_def stage_def)
next
  case (REscalate rid reason now)
  with assms terminal_pointwise [of rows t rid "''escalated''"] show ?thesis by (auto simp: mark_escalated_def rec_inv_def stage_def)
next
  case (RInProgress rid run_id wid now)
  let ?f = "\<lambda>row. row\<lparr>pr_state := ''in_progress'', pr_evidence := pr_evidence row @ [agent_run_entry run_id wid now]\<rparr>"
  have "pr_state row = ''pending'' \<Longrightarrow> evolves sha row (?f row)" for row
    by (auto simp: evolves_def stage_def)
  moreover have "nxt' = nxt" "rows' = (case owned_row t rid rows of None \<Rightarrow> rows
      | Some row \<Rightarrow> if pr_state row \<noteq> ''pending'' then rows else update_row rid ?f rows)"
    using assms(2) RInProgress by (auto simp: mark_in_progress_def split: option.splits if_splits)
  ultimately show ?thesis
    using assms(1) by (auto simp: rec_inv_def owned_row_Some pointwise_refl intro!: pointwise_update_row
        split: option.split simp del: map_of_eq_Some_iff)
next
  case (REvidence rid entry)
  let ?f = "\<lambda>row. row\<lparr>pr_evidence := pr_evidence row @ [entry]\<rparr>"
  have "evolves sha row (?f row)" for row by (auto simp: evolves_def)
  moreover have "nxt' = nxt" "rows' = (case owned_row t rid rows of None \<Rightarrow> rows | Some row \<Rightarrow> update_row rid ?f rows)"
    using assms(2) REvidence by (auto simp: append_evidence_def split: option.splits)
  ultimately show ?thesis
    using assms(1) by (auto simp: rec_inv_def owned_row_Some pointwise_refl intro!: pointwise_update_row
        split: option.split simp del: map_of_eq_Some_iff)
qed

lemma rec_step_inv:
  assumes "rec_inv s" and "rec_step sha p t s = Inr s'"
  shows "rec_inv s'"
proof -
  obtain nxt rows nxt' rows' where s: "s = (nxt, rows)" "s' = (nxt', rows')" by (cases s; cases s')
  note c = rec_step_cases [OF assms(1) [unfolded s] assms(2) [unfolded s]]
  have iss: "issued nxt k \<Longrightarrow> issued nxt' k" for k using c next_id_fresh(3) by blast
  from c have "pointwise sha t rows rows' \<or> (\<exists>rid row. rows' = AList.update rid row rows \<and> map_of rows rid = None
      \<and> pr_tenant_id row = t \<and> pr_record_id row = rid \<and> issued nxt' rid)" by blast
  then show ?thesis
  proof
    assume pw: "pointwise sha t rows rows'"
    have "pr_record_id row' = k \<and> issued nxt' k" if m: "map_of rows' k = Some row'" for k row'
    proof -
      have "k \<in> set (map fst rows)" using m pw unfolding pointwise_def by (metis domI dom_map_of_conv_image_fst set_map)
      then obtain row where "map_of rows k = Some row" by (auto simp: dom_map_of_conv_image_fst [symmetric] dom_def)
      with assms(1) s pw m iss show ?thesis by (fastforce simp: rec_inv_def pointwise_def evolves_def)
    qed
    with pw assms(1) s show ?thesis by (simp add: rec_inv_def pointwise_def)
  next
    assume "\<exists>rid row. rows' = AList.update rid row rows \<and> map_of rows rid = None
      \<and> pr_tenant_id row = t \<and> pr_record_id row = rid \<and> issued nxt' rid"
    then obtain rid row where ins: "rows' = AList.update rid row rows" "pr_record_id row = rid" "issued nxt' rid" by blast
    have d: "distinct (map fst rows)" and old: "\<And>k row. map_of rows k = Some row \<Longrightarrow> pr_record_id row = k \<and> issued nxt k"
      using assms(1) s by (simp_all add: rec_inv_def del: map_of_eq_Some_iff)
    have "pr_record_id x = k \<and> issued nxt' k" if "map_of rows' k = Some x" for k x
      using that ins old iss by (auto simp: map_of_update simp del: map_of_eq_Some_iff split: if_splits)
    with d ins(1) s show ?thesis by (simp add: rec_inv_def distinct_keys_update del: map_of_eq_Some_iff)
  qed
qed

lemma rec_step_frame:
  assumes "rec_inv s" and "rec_step sha p t s = Inr s'" and "map_of (snd s) k = Some row"
  shows "\<exists>row'. map_of (snd s') k = Some row' \<and> evolves sha row row' \<and> (pr_tenant_id row \<noteq> t \<longrightarrow> row' = row)"
proof -
  obtain nxt rows nxt' rows' where s: "s = (nxt, rows)" "s' = (nxt', rows')" by (cases s; cases s')
  from rec_step_cases [OF assms(1) [unfolded s] assms(2) [unfolded s]] assms(3) s show ?thesis
    by (auto simp: pointwise_def map_of_update)
qed

text \<open>What a tenant can see of the store: its own rows.\<close>

definition rec_view :: "string \<Rightarrow> rec_store \<Rightarrow> string \<rightharpoonup> problem_row" where
  "rec_view t s = (\<lambda>k. owned_row t k (snd s))"

lemma rec_step_view:
  assumes "rec_inv s" and "rec_step sha p t s = Inr s'" and "u \<noteq> t"
  shows "rec_view u s' = rec_view u s"
proof
  fix k
  obtain nxt rows nxt' rows' where s: "s = (nxt, rows)" "s' = (nxt', rows')" by (cases s; cases s')
  note c = rec_step_cases [OF assms(1) [unfolded s] assms(2) [unfolded s]]
  show "rec_view u s' k = rec_view u s k"
  proof (cases "map_of rows k")
    case None
    have "map_of rows' k = None \<or> (\<exists>row. map_of rows' k = Some row \<and> pr_tenant_id row = t)"
    proof (cases "map fst rows' = map fst rows")
      case True
      with None show ?thesis by (simp add: map_of_eq_None_iff flip: set_map)
    next
      case False
      with c None show ?thesis by (auto simp: pointwise_def map_of_update)
    qed
    with None assms(3) s show ?thesis by (auto simp: rec_view_def owned_row_def)
  next
    case (Some row)
    with rec_step_frame [OF assms(1,2), of k row] s obtain row' where row': "map_of rows' k = Some row'"
      "evolves sha row row'" "pr_tenant_id row \<noteq> t \<longrightarrow> row' = row" by auto
    then have "pr_tenant_id row' = pr_tenant_id row" by (simp add: evolves_def)
    with Some row'(1,3) assms(3) s show ?thesis by (auto simp: rec_view_def owned_row_def)
  qed
qed

interpretation rec: tenant_store "rec_step sha" rec_view rec_inv for sha
proof
  show "rec_step sha p [] s = Inl (ValueError ''tenant_id is required'')" for p s
    by (cases s; cases p) (auto simp: write_or_append_def rec_resolve_def rec_close_def mark_escalated_def
        set_terminal_state_def mark_in_progress_def append_evidence_def split: prod.split)
qed (auto intro: rec_step_inv rec_step_view)

section \<open>Properties\<close>

text \<open>C9. Tenant isolation of the problem records: no interleaving of operations issued by other tenants, with
  whatever record ids, changes what a tenant sees of the store.\<close>

theorem record_isolation:
  assumes "rec_inv s" and "\<forall>(p, t) \<in> set ops. t \<noteq> u"
  shows "rec_view u (run_ops (rec_step sha) ops s) = rec_view u s"
  by (rule rec.isolation [OF assms])

definition sample_record :: "string \<Rightarrow> metric_anomaly list \<Rightarrow> problem_record" where
  "sample_record svc ms = \<lparr>pr_record_id = [], pr_source = ''apm-alert'', pr_tenant_id = ''t1'', pr_domain = ''apm'',
     pr_state = ''pending'', pr_service = svc, pr_instance = None, pr_severity = ''warning'', pr_detected_at = 0,
     pr_first_seen_at = Some 0, pr_last_seen_at = Some 0, pr_occurrence_count = 1, pr_resolved_at = None,
     pr_resolve_reason = None, pr_symptom = [], pr_metric_anomalies = ms, pr_log_anomalies = [],
     pr_correlation = \<lparr>co_related = False, co_reason = ''metric_only''\<rparr>, pr_change_related = False,
     pr_recent_change = None,
     pr_verification = \<lparr>ve_passed = True, ve_persistence_ok = True, ve_resample_ok = True,
       ve_false_positive_rate = 0, ve_final_severity = ''warning''\<rparr>,
     pr_evidence = [], pr_trace_id = None, pr_group_key_service = None\<rparr>"

theorem record_isolation_witness:
  "rec_view ''t2'' (run_ops (rec_step id) [(RWrite (sample_record ''api'' [sample_metric ''api'' ''cpu'' []]) 0, ''t1''),
      (RResolve ''PR-19700101-0001'' ''auto'' 5, ''t1'')] ([], [])) = (\<lambda>_. None)"
  using record_isolation [of "([], [])" "[(RWrite (sample_record ''api'' [sample_metric ''api'' ''cpu'' []]) 0, ''t1''),
      (RResolve ''PR-19700101-0001'' ''auto'' 5, ''t1'')]" "''t2''" id]
  by (simp add: rec_inv_def rec_view_def owned_row_def del: rec_step.simps run_ops.simps)

text \<open>C10. The life cycle of a record: in every history of operations of any tenants, a record that exists is
  never lost, keeps its number, tenant, domain, service and first sighting, its evidence only grows by
  appending, its count never falls, its set of anomalies never shrinks, its severity never drops, and
  its state moves only forward from pending over in progress to a terminal state, so a closed
  record is never reopened.\<close>

theorem record_evolution:
  assumes "rec_inv s" and "map_of (snd s) k = Some row"
  shows "\<exists>row'. map_of (snd (run_ops (rec_step sha) ops s)) k = Some row' \<and> evolves sha row row'"
  using assms
proof (induction ops arbitrary: s row)
  case (Cons x ops)
  obtain p t where x: "x = (p, t)" by (cases x)
  show ?case
  proof (cases "rec_step sha p t s")
    case (Inl e)
    with Cons x show ?thesis by simp
  next
    case (Inr s1)
    from rec_step_frame [OF Cons.prems(1) Inr Cons.prems(2)] obtain row1 where
      row1: "map_of (snd s1) k = Some row1" "evolves sha row row1" by blast
    from Cons.IH [OF rec_step_inv [OF Cons.prems(1) Inr] row1(1)] Inr x row1(2) show ?thesis
      by (auto intro: evolves_trans)
  qed
qed auto

theorem record_evolution_witness:
  "\<exists>row'. map_of (snd (run_ops (rec_step id) [(RResolve ''PR-1-0001'' ''auto'' 5, ''t1'')]
       ([((''PR'', ''1''), 1)], [(''PR-1-0001'', row_of id (sample_record ''api'' [] \<lparr>pr_record_id := ''PR-1-0001''\<rparr>))]))) ''PR-1-0001''
       = Some row' \<and> pr_first_seen_at row' = Some 0"
proof -
  have "issued [((''PR'', ''1''), 1)] ''PR-1-0001''"
    unfolding issued_def
  proof (intro exI [of _ "''1''"] exI [of _ "1 :: nat"] conjI)
    show "''PR-1-0001'' = seq_format RECORD_PREFIX ''1'' 1" by code_simp
  qed (simp_all add: RECORD_PREFIX_def count_of_def)
  moreover let ?row = "row_of id (sample_record ''api'' [] \<lparr>pr_record_id := ''PR-1-0001''\<rparr>)"
  have "pr_first_seen_at ?row = Some 0" by (simp add: row_of_def problem_record.defs sample_record_def)
  ultimately have "rec_inv ([((''PR'', ''1''), 1)], [(''PR-1-0001'', ?row)])" "pr_first_seen_at ?row = Some 0"
    by (simp_all add: rec_inv_def)
  with record_evolution [of "([((''PR'', ''1''), 1)], [(''PR-1-0001'', ?row)])" "''PR-1-0001''" ?row id
      "[(RResolve ''PR-1-0001'' ''auto'' 5, ''t1'')]"]
  show ?thesis by (auto simp only: evolves_def fst_conv snd_conv map_of.simps fun_upd_same)
qed

text \<open>A written incident is found again: after \<open>write_or_append\<close> of an open record of the tenant, whichever
  of its three paths was taken, \<open>find_open\<close> with the record's group key returns a record, and writing
  the same incident again then creates no further row.\<close>

theorem write_then_found:
  assumes "tenant_id \<noteq> []" and "distinct (map fst rows)" and "pr_tenant_id r = tenant_id" and "pr_state r = ''pending''"
    and "write_or_append sha tenant_id r rows = Inr rows'"
  shows "(\<exists>row. find_open tenant_id (record_group_key sha r) rows' = Inr (Some row))
    \<and> (\<forall>r' rows''. record_group_key sha r' = record_group_key sha r
         \<longrightarrow> write_or_append sha tenant_id r' rows' = Inr rows'' \<longrightarrow> map fst rows'' = map fst rows')"
proof -
  have ex: "\<exists>k row. map_of rows' k = Some row \<and> matches_open tenant_id (record_group_key sha r) row"
    using assms(5,2)
  proof (cases rule: write_cases)
    case (merge k row)
    then show ?thesis
      by (intro exI [of _ k] exI [of _ "apply_merge sha r row"])
        (simp add: map_of_update_row matches_open_def eligible_def del: map_of_eq_Some_iff)
  next
    case (append k row)
    then show ?thesis
      by (intro exI [of _ k] exI [of _ "append_to r row"]) (auto simp: map_of_update_row matches_open_def simp del: map_of_eq_Some_iff)
  next
    case insert
    then show ?thesis using assms(3,4)
      by (intro exI [of _ "pr_record_id r"] exI [of _ "row_of sha r"])
        (simp add: map_of_update matches_open_def OPEN_STATES_def)
  qed
  have d: "distinct (map fst rows')"
    using assms(5,2) by (cases rule: write_cases) (use assms(2) in \<open>simp_all add: distinct_keys_update\<close>)
  have "map fst rows'' = map fst rows'"
    if "record_group_key sha r' = record_group_key sha r" "write_or_append sha tenant_id r' rows' = Inr rows''" for r' rows''
    using that(2) d
  proof (cases rule: write_cases)
    case insert
    with ex that(1) show ?thesis by (metis (no_types))
  qed simp_all
  with ex d assms(1) find_open_Some_iff show ?thesis by blast
qed

theorem write_then_found_witness:
  "\<exists>row. find_open ''t1'' (record_group_key id (sample_record ''api'' [sample_metric ''api'' ''cpu'' []]))
     [([], row_of id (sample_record ''api'' [sample_metric ''api'' ''cpu'' []]))] = Inr (Some row)"
  using write_then_found [of "''t1''" "[]" "sample_record ''api'' [sample_metric ''api'' ''cpu'' []]" id
      "[([], row_of id (sample_record ''api'' [sample_metric ''api'' ''cpu'' []]))]"]
  by (simp add: write_or_append_def superset_candidate_def sample_record_def Let_def)

text \<open>C11. A growing incident is merged, not reported twice: when some open record of the tenant holds a
  non-empty proper subset of the new record's anomalies, the write creates no row; the record that
  absorbs it is a largest such one, and afterwards it holds exactly the new record's set of anomalies.\<close>

theorem write_merges_largest_subset:
  assumes "tenant_id \<noteq> []" and "distinct (map fst rows)"
    and "map_of rows k0 = Some row0" and "eligible sha (rec_keys sha r) tenant_id row0"
  shows "\<exists>k row. map_of rows k = Some row \<and> eligible sha (rec_keys sha r) tenant_id row
    \<and> (\<forall>j x. map_of rows j = Some x \<longrightarrow> eligible sha (rec_keys sha r) tenant_id x
         \<longrightarrow> card (rec_keys sha x) \<le> card (rec_keys sha row))
    \<and> write_or_append sha tenant_id r rows = Inr (update_row k (apply_merge sha r) rows)
    \<and> rec_keys sha (apply_merge sha r row) = rec_keys sha r"
proof (cases "superset_candidate sha r rows tenant_id")
  case None
  with superset_candidate_None [OF None map_of_SomeD [OF assms(3)]] assms(4) show ?thesis by simp
next
  case (Some k)
  then obtain row where row: "(k, row) \<in> set rows" "eligible sha (rec_keys sha r) tenant_id row"
    "\<forall>j x. (j, x) \<in> set rows \<longrightarrow> eligible sha (rec_keys sha r) tenant_id x
      \<longrightarrow> card (rec_keys sha x) \<le> card (rec_keys sha row)"
    by (rule superset_candidate_Some)
  have "rec_keys sha (apply_merge sha r row) = rec_keys sha r"
    using row(2) by (auto simp: rec_keys_apply_merge eligible_def)
  with row assms(1,2) Some show ?thesis
    by (intro exI [of _ k] exI [of _ row]) (auto simp: write_or_append_def dest: map_of_SomeD)
qed

theorem write_merges_largest_subset_witness:
  "\<exists>k row. write_or_append id ''t1'' (sample_record ''s'' [sample_metric ''s'' ''a'' [], sample_metric ''s'' ''b'' []])
     [(''PR-1'', row_of id (sample_record ''s'' [sample_metric ''s'' ''a'' []]))]
   = Inr (update_row k (apply_merge id (sample_record ''s'' [sample_metric ''s'' ''a'' [], sample_metric ''s'' ''b'' []]))
     [(''PR-1'', row_of id (sample_record ''s'' [sample_metric ''s'' ''a'' []]))])"
proof -
  let ?r = "sample_record ''s'' [sample_metric ''s'' ''a'' [], sample_metric ''s'' ''b'' []]"
  let ?row = "row_of id (sample_record ''s'' [sample_metric ''s'' ''a'' []])"
  have "eligible id (rec_keys id ?r) ''t1'' ?row"
    by code_simp
  moreover have "distinct (map fst [(''PR-1'', ?row)])" "map_of [(''PR-1'', ?row)] ''PR-1'' = Some ?row" by simp_all
  ultimately show ?thesis using write_merges_largest_subset [of "''t1''" "[(''PR-1'', ?row)]" "''PR-1''" ?row id ?r]
    by (metis list.distinct(1))
qed

definition total_occurrences :: "records \<Rightarrow> int" where
  "total_occurrences rows = sum_list (map (pr_occurrence_count \<circ> snd) rows)"

lemma total_update_row:
  assumes "distinct (map fst rows)" and "map_of rows k = Some row"
    and "pr_occurrence_count (f row) = pr_occurrence_count row + 1"
  shows "total_occurrences (update_row k f rows) = total_occurrences rows + 1"
  using assms(1,2)
proof (induction rows)
  case (Cons e rows)
  obtain j x where e: "e = (j, x)" by (cases e)
  show ?case
  proof (cases "j = k")
    case True
    then have "update_row k f rows = rows" using Cons.prems(1) e
      by (auto simp: update_row_def map_vals_def intro!: map_idI) (metis fst_conv image_eqI)
    with True e Cons.prems assms(3) show ?thesis by (simp add: total_occurrences_def update_row_def map_vals_def)
  next
    case False
    with e Cons show ?thesis by (simp add: total_occurrences_def update_row_def map_vals_def)
  qed
qed simp

lemma update_fresh: "map_of d k = None \<Longrightarrow> AList.update k v d = d @ [(k, v)]"
  by (induction d) (auto split: if_splits)

text \<open>No sighting is lost or counted twice: a write with a fresh record number raises the total of the
  occurrence counts over the whole store by exactly the one occurrence it brings.\<close>

theorem write_counts_once:
  assumes "distinct (map fst rows)" and "map_of rows (pr_record_id r) = None" and "pr_occurrence_count r = 1"
    and "write_or_append sha tenant_id r rows = Inr rows'"
  shows "total_occurrences rows' = total_occurrences rows + 1"
  using assms(4,1)
proof (cases rule: write_cases)
  case (merge k row)
  with assms(1) show ?thesis by (simp add: total_update_row del: map_of_eq_Some_iff)
next
  case (append k row)
  with assms(1) show ?thesis by (simp add: total_update_row del: map_of_eq_Some_iff)
next
  case insert
  with assms(2,3) show ?thesis by (simp add: update_fresh total_occurrences_def)
qed

theorem write_counts_once_witness:
  "total_occurrences [([], row_of id (sample_record ''api'' []))] = 1"
  using write_counts_once [of "[]" "sample_record ''api'' []" id "''t1''" "[([], row_of id (sample_record ''api'' []))]"]
  by (simp add: write_or_append_def superset_candidate_def row_anomaly_keys_def sample_record_def total_occurrences_def)

definition pg_ok :: "records \<Rightarrow> bool" where
  "pg_ok tbl \<longleftrightarrow> pg_unique tbl \<and> distinct (map fst tbl)"

text \<open>The constraint as the list of the keys of the open rows.\<close>

definition open_keys :: "records \<Rightarrow> (string \<times> string) list" where
  "open_keys tbl = map (\<lambda>(rid, row). (pr_tenant_id row, row_group_key row)) (filter (\<lambda>(rid, row). is_open row) tbl)"

lemma pg_unique_open_keys: "pg_unique tbl = distinct (open_keys tbl)"
  by (simp add: pg_unique_def open_keys_def)

lemma open_keys_simps [simp]:
  "open_keys [] = []"
  "open_keys ((k, row) # tbl) = (if is_open row then (pr_tenant_id row, row_group_key row) # open_keys tbl else open_keys tbl)"
  "map_vals f [] = []" "map_vals f ((k, row) # tbl) = (k, f k row) # map_vals f tbl"
  by (simp_all add: open_keys_def map_vals_def)

lemma open_keys_map_vals:
  assumes "\<And>k row. is_open (f k row) = is_open row \<and> pr_tenant_id (f k row) = pr_tenant_id row
      \<and> row_group_key (f k row) = row_group_key row"
  shows "open_keys (map_vals f tbl) = open_keys tbl"
proof (induction tbl)
  case (Cons e tbl)
  obtain k row where "e = (k, row)" by (cases e)
  with Cons assms [of k row] show ?case by simp
qed simp

lemma pg_unique_close:
  assumes "pg_unique tbl" and "\<And>k row. f k row = row \<or> \<not> is_open (f k row)"
  shows "pg_unique (map_vals f tbl)"
proof -
  have sub: "set (open_keys (map_vals f tbl)) \<subseteq> set (open_keys tbl)" for tbl
    using assms(2) by (force simp: open_keys_def map_vals_def)
  from assms(1) show ?thesis unfolding pg_unique_open_keys
  proof (induction tbl)
    case (Cons e tbl)
    obtain k row where e: "e = (k, row)" by (cases e)
    with Cons have "distinct (open_keys (map_vals f tbl))" by (simp split: if_splits)
    with Cons.prems sub [of tbl] assms(2) [of k row] e show ?case by (auto split: if_splits)
  qed simp
qed

lemma pg_write_keeps_ok:
  assumes "pg_ok tbl" and "pg_write_or_append sha tenant_id r tbl = Inr tbl'"
  shows "pg_ok tbl'"
proof (cases "pg_find_superset_candidate sha tenant_id r tbl")
  case (Some target)
  with assms show ?thesis
    by (auto simp: pg_write_or_append_def pg_merge_into_def pg_check_def pg_ok_def split: if_splits)
next
  case None
  let ?m = "\<lambda>(rid, x). matches_open (pr_tenant_id r) (record_group_key sha r) x"
  let ?hit = "if is_open (row_of sha r) then find ?m tbl else None"
  show ?thesis
  proof (cases ?hit)
    case hit: (Some e)
    with None assms(2) have t: "tbl' = update_row (fst e) (pg_append_to r (pr_last_seen_at r)) tbl"
      by (auto simp: pg_write_or_append_def Let_def split: if_splits prod.splits)
    have "open_keys tbl' = open_keys tbl"
      unfolding t update_row_def by (rule open_keys_map_vals) (simp add: pg_append_to_def is_open_def)
    with assms(1) t show ?thesis by (simp add: pg_ok_def pg_unique_open_keys)
  next
    case no: None
    with None assms(2) have t: "tbl' = tbl @ [(pr_record_id r, row_of sha r)]" "map_of tbl (pr_record_id r) = None"
      by (auto simp: pg_write_or_append_def Let_def split: if_splits)
    have "is_open (row_of sha r) \<Longrightarrow> (pr_tenant_id r, record_group_key sha r) \<notin> set (open_keys tbl)"
      using no by (auto simp: find_None_iff open_keys_def matches_open_def)
    with assms(1) t show ?thesis
      by (auto simp: pg_ok_def pg_unique_open_keys open_keys_def map_of_eq_None_iff)
  qed
qed

lemma pg_close_keeps_ok:
  assumes "pg_ok tbl" and "pg_set_terminal_state tenant_id rid state reason now tbl = Inr tbl'" and "state \<notin> set OPEN_STATES"
  shows "pg_ok tbl'"
proof -
  let ?f = "\<lambda>k row. if pr_tenant_id row = tenant_id \<and> k = rid \<and> pr_state row \<noteq> state
       then row\<lparr>pr_state := state, pr_resolved_at := Some now, pr_resolve_reason := Some reason\<rparr> else row"
  have "tbl' = map_vals ?f tbl" using assms(2) by (simp add: pg_set_terminal_state_def)
  moreover have "?f k row = row \<or> \<not> is_open (?f k row)" for k row using assms(3) by (simp add: is_open_def)
  ultimately show ?thesis using assms(1) pg_unique_close [of tbl ?f] by (simp add: pg_ok_def keys_map_vals)
qed

lemma pg_update_keeps_ok:
  assumes "pg_ok tbl" and "\<And>k row. is_open (f k row) = is_open row \<and> pr_tenant_id (f k row) = pr_tenant_id row
      \<and> row_group_key (f k row) = row_group_key row"
  shows "pg_ok (map_vals f tbl)"
  using assms(1) open_keys_map_vals [of f, OF assms(2)] by (simp add: pg_ok_def pg_unique_open_keys keys_map_vals)

text \<open>The operations on the table, as the program issues them.\<close>

fun pg_rec_step :: "(string \<Rightarrow> string) \<Rightarrow> rec_op \<Rightarrow> string \<Rightarrow> records \<Rightarrow> records res" where
  "pg_rec_step sha (RWrite r now) t tbl = pg_write_or_append sha t r tbl"
| "pg_rec_step sha (RResolve rid reason now) t tbl = pg_set_terminal_state t rid ''resolved'' reason now tbl"
| "pg_rec_step sha (RClose rid reason now) t tbl = pg_set_terminal_state t rid ''closed'' reason now tbl"
| "pg_rec_step sha (REscalate rid reason now) t tbl = pg_set_terminal_state t rid ''escalated'' reason now tbl"
| "pg_rec_step sha (RInProgress rid run_id wid now) t tbl = bind_res (pg_mark_in_progress t rid run_id wid now tbl) (\<lambda>(_, tbl'). Inr tbl')"
| "pg_rec_step sha (REvidence rid entry) t tbl = bind_res (pg_append_evidence t rid entry tbl) (\<lambda>(_, tbl'). Inr tbl')"

lemma pg_rec_step_ok: "pg_ok tbl \<Longrightarrow> pg_rec_step sha p t tbl = Inr tbl' \<Longrightarrow> pg_ok tbl'"
proof (cases p)
  case (RWrite r now)
  then show "pg_ok tbl \<Longrightarrow> pg_rec_step sha p t tbl = Inr tbl' \<Longrightarrow> pg_ok tbl'" by (simp add: pg_write_keeps_ok)
qed (auto simp: OPEN_STATES_def pg_mark_in_progress_def pg_append_evidence_def Let_def is_open_def
    intro: pg_close_keeps_ok intro!: pg_update_keeps_ok split: if_splits)

section \<open>What a write of the database class does\<close>

text \<open>An open record of the tenant and the domain whose anomalies are a proper part of the new ones.\<close>

definition absorbable :: "(string \<Rightarrow> string) \<Rightarrow> string \<Rightarrow> problem_record \<Rightarrow> problem_row \<Rightarrow> bool" where
  "absorbable sha t r row \<longleftrightarrow> eligible sha (rec_keys sha r) t row \<and> pr_domain row = pr_domain r"

definition pg_merged :: "(string \<Rightarrow> string) \<Rightarrow> problem_record \<Rightarrow> problem_row \<Rightarrow> problem_row" where
  "pg_merged sha r row = (pg_append_to r (Some (last_seen_or_detected r)) row)\<lparr>
     pr_metric_anomalies := merge_anomalies (\<lambda>a. anomaly_key sha (MetricAnomaly a)) (pr_metric_anomalies row) (pr_metric_anomalies r),
     pr_log_anomalies := merge_anomalies (\<lambda>a. anomaly_key sha (LogAnomaly a)) (pr_log_anomalies row) (pr_log_anomalies r),
     row_group_key := record_group_key sha r\<rparr>"

lemma pg_merged_sel [simp]:
  "pr_tenant_id (pg_merged sha r row) = pr_tenant_id row" "pr_state (pg_merged sha r row) = pr_state row"
  "is_open (pg_merged sha r row) = is_open row" "row_group_key (pg_merged sha r row) = record_group_key sha r"
  "pr_evidence (pg_merged sha r row) = pr_evidence row @ pr_evidence r"
  "pr_occurrence_count (pg_merged sha r row) = pr_occurrence_count row + 1"
  by (simp_all add: pg_merged_def pg_append_to_def is_open_def)

lemma rec_keys_pg_merged: "rec_keys sha (pg_merged sha r row) = rec_keys sha row \<union> rec_keys sha r"
  using set_merge_loop [of "\<lambda>a. anomaly_key sha (MetricAnomaly a)" "pr_metric_anomalies row @ pr_metric_anomalies r" "{}"]
    set_merge_loop [of "\<lambda>a. anomaly_key sha (LogAnomaly a)" "pr_log_anomalies row @ pr_log_anomalies r" "{}"]
  by (auto simp: row_anomaly_keys_def pg_merged_def pg_append_to_def merge_anomalies_def image_Un)

lemma open_keys_append: "open_keys (xs @ ys) = open_keys xs @ open_keys ys"
  by (simp add: open_keys_def)

lemma in_open_keys: "(t, gk) \<in> set (open_keys tbl) \<longleftrightarrow> (\<exists>(k, x) \<in> set tbl. matches_open t gk x)"
  by (auto simp: open_keys_def matches_open_def image_iff)

lemma update_row_split:
  "distinct (map fst (xs @ (k, row) # ys)) \<Longrightarrow> update_row k f (xs @ (k, row) # ys) = xs @ (k, f row) # ys"
  by (auto simp: update_row_def map_vals_def image_iff intro!: map_idI split: prod.splits)

lemma pg_unique_promoted:
  assumes "pg_ok tbl" "(k, row) \<in> set tbl" "is_open row"
  shows "pg_unique (update_row k (pg_merged sha r) tbl)
    \<longleftrightarrow> (\<forall>(j, y) \<in> set tbl. j \<noteq> k \<longrightarrow> \<not> matches_open (pr_tenant_id row) (record_group_key sha r) y)"
proof -
  obtain xs ys where tbl: "tbl = xs @ (k, row) # ys" using assms(2) by (auto dest: split_list)
  have d: "distinct (map fst tbl)" and u: "distinct (open_keys tbl)"
    using assms(1) by (auto simp: pg_ok_def pg_unique_open_keys)
  have upd: "update_row k (pg_merged sha r) tbl = xs @ (k, pg_merged sha r row) # ys"
    using update_row_split [of xs k row ys] d tbl by simp
  have other: "(\<forall>(j, y) \<in> set tbl. j \<noteq> k \<longrightarrow> P y) \<longleftrightarrow> (\<forall>(j, y) \<in> set (xs @ ys). P y)" for P
    using d tbl by (fastforce simp: image_iff)
  have "pg_unique (update_row k (pg_merged sha r) tbl)
      \<longleftrightarrow> (pr_tenant_id row, record_group_key sha r) \<notin> set (open_keys (xs @ ys))"
    using u assms(3) unfolding upd by (auto simp: tbl pg_unique_open_keys open_keys_append)
  then show ?thesis unfolding other in_open_keys by auto
qed

lemma pg_merge_result:
  assumes "pg_ok tbl" "(k, row) \<in> set tbl" "is_open row" "pr_tenant_id row = t"
  shows "pg_merge_into sha t k r tbl
    = (if \<exists>(j, y) \<in> set tbl. j \<noteq> k \<and> matches_open t (record_group_key sha r) y then Inl (UniqueViolation ''open_group_key'')
       else Inr (update_row k (pg_merged sha r) tbl))"
proof -
  have one: "x = row" if "(k, x) \<in> set tbl" for x
    using that assms(1,2) by (auto simp: pg_ok_def dest: eq_key_imp_eq_value)
  have "pg_merge_into sha t k r tbl = pg_check (map_vals (\<lambda>rid x. if rid = k \<and> pr_tenant_id x = t \<and> is_open x then pg_merged sha r x else x) tbl)"
    unfolding pg_merge_into_def pg_merged_def ..
  also have "map_vals (\<lambda>rid x. if rid = k \<and> pr_tenant_id x = t \<and> is_open x then pg_merged sha r x else x) tbl = update_row k (pg_merged sha r) tbl"
    using one assms(3,4) by (auto simp: map_vals_def update_row_def)
  finally show ?thesis
    using pg_unique_promoted [OF assms(1-3), of sha r] assms(4) by (auto simp: pg_check_def)
qed

lemma pg_candidate_Some:
  assumes "pg_find_superset_candidate sha t r tbl = Some k"
  obtains row where "(k, row) \<in> set tbl" "absorbable sha t r row"
    "\<forall>(j, y) \<in> set tbl. absorbable sha t r y \<longrightarrow> card (rec_keys sha y) \<le> card (rec_keys sha row)"
proof -
  from assms obtain row where row: "(k, row) \<in> set tbl" "absorbable sha t r row"
    and most: "\<forall>j y. (j, y) \<in> set (filter (\<lambda>(rid, row). pr_tenant_id row = t \<and> pr_domain row = pr_domain r \<and> is_open row) tbl)
      \<longrightarrow> eligible sha (rec_keys sha r) t y \<longrightarrow> card (rec_keys sha y) \<le> card (rec_keys sha row)"
    unfolding pg_find_superset_candidate_def absorbable_def by (rule superset_candidate_Some) auto
  from most have "\<forall>(j, y) \<in> set tbl. absorbable sha t r y \<longrightarrow> card (rec_keys sha y) \<le> card (rec_keys sha row)"
    by (fastforce simp: absorbable_def eligible_def)
  with row show thesis by (rule that)
qed

lemma pg_candidate_None:
  "pg_find_superset_candidate sha t r tbl = None \<Longrightarrow> (k, row) \<in> set tbl \<Longrightarrow> \<not> absorbable sha t r row"
  using superset_candidate_None [of sha r "filter (\<lambda>(rid, row). pr_tenant_id row = t \<and> pr_domain row = pr_domain r \<and> is_open row) tbl" t k row]
  by (auto simp: pg_find_superset_candidate_def absorbable_def eligible_def)

lemma open_row_unique:
  assumes "pg_ok tbl" "(k, x) \<in> set tbl" "(j, y) \<in> set tbl" "matches_open t gk x" "matches_open t gk y"
  shows "j = k \<and> y = x"
proof -
  let ?open = "filter (\<lambda>(rid, row). is_open row) tbl" let ?f = "\<lambda>(rid, row). (pr_tenant_id row, row_group_key row)"
  have "inj_on ?f (set ?open)" using assms(1) by (simp add: pg_ok_def pg_unique_def distinct_map)
  moreover have "?f (k, x) = ?f (j, y)" "(k, x) \<in> set ?open" "(j, y) \<in> set ?open"
    using assms(2-5) by (auto simp: matches_open_def)
  ultimately have "(k, x) = (j, y)" by (rule inj_onD)
  then show ?thesis by simp
qed

lemma pg_write_insert:
  assumes "t \<noteq> []" "pr_tenant_id r = t" "map_of tbl (pr_record_id r) = None"
    and "\<forall>(k, x) \<in> set tbl. \<not> absorbable sha t r x \<and> \<not> matches_open t (record_group_key sha r) x"
  shows "pg_write_or_append sha t r tbl = Inr (tbl @ [(pr_record_id r, row_of sha r)])"
proof (cases "pg_find_superset_candidate sha t r tbl")
  case None
  have "find (\<lambda>(rid, x). matches_open t (record_group_key sha r) x) tbl = None"
    using assms(4) by (auto simp: find_None_iff)
  with None assms(1-3) show ?thesis by (simp add: pg_write_or_append_def Let_def)
next
  case (Some k)
  then show ?thesis using assms(4) by (auto elim!: pg_candidate_Some)
qed

lemma pg_write_append:
  assumes "pg_ok tbl" "t \<noteq> []" "pr_tenant_id r = t" "pr_state r \<in> set OPEN_STATES"
    and "\<forall>(k, x) \<in> set tbl. \<not> absorbable sha t r x" "(k, x) \<in> set tbl" "matches_open t (record_group_key sha r) x"
  shows "pg_write_or_append sha t r tbl = Inr (update_row k (pg_append_to r (pr_last_seen_at r)) tbl)"
proof (cases "pg_find_superset_candidate sha t r tbl")
  case None
  let ?P = "\<lambda>(rid, x). matches_open t (record_group_key sha r) x"
  have "find ?P tbl \<noteq> None" using assms(6,7) by (auto simp: find_None_iff)
  then obtain e where e: "find ?P tbl = Some e" by auto
  then have "e \<in> set tbl" "?P e" by (auto simp: find_Some_iff in_set_conv_nth)
  with open_row_unique [OF assms(1,6) _ assms(7)] have "e = (k, x)" by (cases e) auto
  with None e assms(2-4) show ?thesis by (simp add: pg_write_or_append_def Let_def)
next
  case (Some k)
  then show ?thesis using assms(5) by (auto elim!: pg_candidate_Some)
qed

lemma pg_write_absorb:
  assumes "pg_ok tbl" "t \<noteq> []" "\<exists>(k, x) \<in> set tbl. absorbable sha t r x"
  obtains k x where "(k, x) \<in> set tbl" "absorbable sha t r x"
    "\<forall>(j, y) \<in> set tbl. absorbable sha t r y \<longrightarrow> card (rec_keys sha y) \<le> card (rec_keys sha x)"
    "pg_write_or_append sha t r tbl
      = (if \<exists>(j, y) \<in> set tbl. j \<noteq> k \<and> matches_open t (record_group_key sha r) y then Inl (UniqueViolation ''open_group_key'')
         else Inr (update_row k (pg_merged sha r) tbl))"
proof (cases "pg_find_superset_candidate sha t r tbl")
  case None
  with assms(3) pg_candidate_None [OF None] show thesis by auto
next
  case (Some k)
  then obtain x where x: "(k, x) \<in> set tbl" "absorbable sha t r x"
    "\<forall>(j, y) \<in> set tbl. absorbable sha t r y \<longrightarrow> card (rec_keys sha y) \<le> card (rec_keys sha x)"
    by (rule pg_candidate_Some)
  from x(2) have open': "is_open x" "pr_tenant_id x = t" by (auto simp: absorbable_def eligible_def)
  from pg_merge_result [OF assms(1) x(1) this, of sha r] Some assms(2) x show thesis
    by (intro that) (auto simp: pg_write_or_append_def)
qed

lemma absorbed_keys: "absorbable sha t r x \<Longrightarrow> rec_keys sha (pg_merged sha r x) = rec_keys sha r"
  by (auto simp: rec_keys_pg_merged absorbable_def eligible_def)

lemma pg_history_ok: "pg_ok tbl \<Longrightarrow> pg_ok (run_ops (pg_rec_step sha) ops tbl)"
proof (induction ops arbitrary: tbl)
  case (Cons x ops)
  obtain p t where x: "x = (p, t)" by (cases x)
  then show ?case using Cons pg_rec_step_ok by (auto split: sum.split)
qed simp

lemma pg_reachable_ok: "pg_ok (run_ops (pg_rec_step sha) ops [])"
  by (rule pg_history_ok) (simp add: pg_ok_def pg_unique_def)

text \<open>C20. What a write does in the database, in every table a history of operations can reach. A new pending record is inserted if
  no open record of the tenant has its group key and none of its domain holds a proper part of its anomalies; if none holds
  a part, it is appended to the one open record with its group key; otherwise a largest such part absorbs it, becomes the record of
  exactly the new anomalies under the new key, and no other row changes, unless another open record has that key already. Then,
  and only then, does the write break the uniqueness of open group keys and raise.\<close>

theorem pg_write_outcome:
  assumes "tbl = run_ops (pg_rec_step sha) ops []" "t \<noteq> []" "pr_tenant_id r = t" "pr_state r = ''pending''"
    and "map_of tbl (pr_record_id r) = None"
  shows "((\<forall>(k, x) \<in> set tbl. \<not> absorbable sha t r x \<and> \<not> matches_open t (record_group_key sha r) x)
      \<longrightarrow> pg_write_or_append sha t r tbl = Inr (tbl @ [(pr_record_id r, row_of sha r)]))
    \<and> (\<forall>(k, x) \<in> set tbl. (\<forall>(j, y) \<in> set tbl. \<not> absorbable sha t r y) \<longrightarrow> matches_open t (record_group_key sha r) x
      \<longrightarrow> pg_write_or_append sha t r tbl = Inr (update_row k (pg_append_to r (pr_last_seen_at r)) tbl))
    \<and> ((\<exists>(k, x) \<in> set tbl. absorbable sha t r x) \<longrightarrow> (\<exists>(k, x) \<in> set tbl. absorbable sha t r x
      \<and> (\<forall>(j, y) \<in> set tbl. absorbable sha t r y \<longrightarrow> card (rec_keys sha y) \<le> card (rec_keys sha x))
      \<and> (if \<exists>(j, y) \<in> set tbl. j \<noteq> k \<and> matches_open t (record_group_key sha r) y
         then pg_write_or_append sha t r tbl = Inl (UniqueViolation ''open_group_key'')
         else \<exists>f. pg_write_or_append sha t r tbl = Inr (update_row k f tbl) \<and> rec_keys sha (f x) = rec_keys sha r
           \<and> matches_open t (record_group_key sha r) (f x) \<and> pr_evidence (f x) = pr_evidence x @ pr_evidence r
           \<and> pr_occurrence_count (f x) = pr_occurrence_count x + 1)))"
proof (intro conjI impI ballI)
  have ok: "pg_ok tbl" using pg_reachable_ok assms(1) by simp
  show "\<forall>(k, x) \<in> set tbl. \<not> absorbable sha t r x \<and> \<not> matches_open t (record_group_key sha r) x
      \<Longrightarrow> pg_write_or_append sha t r tbl = Inr (tbl @ [(pr_record_id r, row_of sha r)])"
    using assms(2,3,5) by (rule pg_write_insert)
  fix e assume "e \<in> set tbl"
  with pg_write_append [OF ok assms(2,3), of sha] assms(4)
  show "case e of (k, x) \<Rightarrow> (\<forall>(j, y) \<in> set tbl. \<not> absorbable sha t r y) \<longrightarrow> matches_open t (record_group_key sha r) x
      \<longrightarrow> pg_write_or_append sha t r tbl = Inr (update_row k (pg_append_to r (pr_last_seen_at r)) tbl)"
    by (auto simp: OPEN_STATES_def)
next
  have ok: "pg_ok tbl" using pg_reachable_ok assms(1) by simp
  assume "\<exists>(k, x) \<in> set tbl. absorbable sha t r x"
  then obtain k x where x: "(k, x) \<in> set tbl" "absorbable sha t r x"
    "\<forall>(j, y) \<in> set tbl. absorbable sha t r y \<longrightarrow> card (rec_keys sha y) \<le> card (rec_keys sha x)"
    and w: "pg_write_or_append sha t r tbl
      = (if \<exists>(j, y) \<in> set tbl. j \<noteq> k \<and> matches_open t (record_group_key sha r) y then Inl (UniqueViolation ''open_group_key'')
         else Inr (update_row k (pg_merged sha r) tbl))" by (rule pg_write_absorb [OF ok assms(2)])
  have "matches_open t (record_group_key sha r) (pg_merged sha r x)"
    using x(2) by (simp add: matches_open_def absorbable_def eligible_def)
  with w absorbed_keys [OF x(2)] x show "\<exists>(k, x) \<in> set tbl. absorbable sha t r x
      \<and> (\<forall>(j, y) \<in> set tbl. absorbable sha t r y \<longrightarrow> card (rec_keys sha y) \<le> card (rec_keys sha x))
      \<and> (if \<exists>(j, y) \<in> set tbl. j \<noteq> k \<and> matches_open t (record_group_key sha r) y
         then pg_write_or_append sha t r tbl = Inl (UniqueViolation ''open_group_key'')
         else \<exists>f. pg_write_or_append sha t r tbl = Inr (update_row k f tbl) \<and> rec_keys sha (f x) = rec_keys sha r
           \<and> matches_open t (record_group_key sha r) (f x) \<and> pr_evidence (f x) = pr_evidence x @ pr_evidence r
           \<and> pr_occurrence_count (f x) = pr_occurrence_count x + 1)"
    by (intro bexI [of _ "(k, x)"]) auto
qed

section \<open>Where deduplication fails\<close>




definition len_hash :: "string \<Rightarrow> string" where
  "len_hash s = show_nat (length s)"

definition incident_rec :: "string \<Rightarrow> string list \<Rightarrow> problem_record" where
  "incident_rec rid metrics = (sample_record ''s'' (map (\<lambda>m. sample_metric ''s'' m []) metrics))\<lparr>pr_record_id := rid\<rparr>"

theorem pg_write_outcome_witness:
  "\<exists>f. pg_write_or_append len_hash ''t1'' (incident_rec ''PR-2'' [''a'', ''bb'']) [(''PR-1'', row_of len_hash (incident_rec ''PR-1'' [''a'']))]
     = Inr (update_row ''PR-1'' f [(''PR-1'', row_of len_hash (incident_rec ''PR-1'' [''a'']))])
   \<and> row_group_key (f (row_of len_hash (incident_rec ''PR-1'' [''a'']))) = record_group_key len_hash (incident_rec ''PR-2'' [''a'', ''bb''])"
proof -
  let ?r = "incident_rec ''PR-2'' [''a'', ''bb'']" let ?x = "row_of len_hash (incident_rec ''PR-1'' [''a''])" let ?tbl = "[(''PR-1'', ?x)]"
  have sel: "pr_tenant_id ?r = ''t1''" "pr_state ?r = ''pending''" "pr_record_id ?r = ''PR-2''"
    "pr_tenant_id (incident_rec ''PR-1'' [''a'']) = ''t1''" "pr_record_id (incident_rec ''PR-1'' [''a'']) = ''PR-1''"
    by (simp_all add: incident_rec_def sample_record_def)
  have tbl: "?tbl = run_ops (pg_rec_step len_hash) [(RWrite (incident_rec ''PR-1'' [''a'']) 0, ''t1'')] []"
    using pg_write_insert [of "''t1''" "incident_rec ''PR-1'' [''a'']" "[]" len_hash] sel by simp
  have new: "''t1'' \<noteq> []" "map_of ?tbl (pr_record_id ?r) = None" by (simp_all add: sel)
  have "absorbable len_hash ''t1'' ?r ?x" by code_simp
  then have "\<exists>(k, x) \<in> set ?tbl. absorbable len_hash ''t1'' ?r x" by simp
  from pg_write_outcome [OF tbl new(1) sel(1,2) new(2), THEN conjunct2, THEN conjunct2, rule_format, OF this]
  obtain k x where "(k, x) \<in> set ?tbl"
    and w: "if \<exists>(j, y) \<in> set ?tbl. j \<noteq> k \<and> matches_open ''t1'' (record_group_key len_hash ?r) y
      then pg_write_or_append len_hash ''t1'' ?r ?tbl = Inl (UniqueViolation ''open_group_key'')
      else \<exists>f. pg_write_or_append len_hash ''t1'' ?r ?tbl = Inr (update_row k f ?tbl) \<and> rec_keys len_hash (f x) = rec_keys len_hash ?r
        \<and> matches_open ''t1'' (record_group_key len_hash ?r) (f x) \<and> pr_evidence (f x) = pr_evidence x @ pr_evidence ?r
        \<and> pr_occurrence_count (f x) = pr_occurrence_count x + 1" by blast
  then have k: "k = ''PR-1''" "x = ?x" by simp_all
  have "\<not> (\<exists>(j, y) \<in> set ?tbl. j \<noteq> k \<and> matches_open ''t1'' (record_group_key len_hash ?r) y)" by (simp add: k)
  from w [unfolded if_not_P [OF this]] have "\<exists>f. pg_write_or_append len_hash ''t1'' ?r ?tbl = Inr (update_row ''PR-1'' f ?tbl)
      \<and> matches_open ''t1'' (record_group_key len_hash ?r) (f ?x)" unfolding k by blast
  then show ?thesis by (auto simp: matches_open_def)
qed


end
