(* ===== verification/Apm_Rounds.thy ===== *)
theory Apm_Rounds
  imports Apm_Stores
begin

text \<open>
  \<open>storage/rounds.py\<close>: the audit trail of detection rounds and of the targets of each round. The in-memory
  store keeps two dictionaries, keyed by tenant and round and by tenant, round and target. The
  PostgreSQL store keeps two tables, here lists of rows in the order a scan yields them;
  its updates are built as a list of \<open>SET\<close> assignments. \<open>ts3\<close> is what a \<open>TIMESTAMP(3)\<close> column keeps of a time.
\<close>

section \<open>Rows\<close>

text \<open>\<open>_json_safe\<close>: times inside a JSON document become ISO strings.\<close>

fun json_safe :: "pyval \<Rightarrow> pyval" where
  "json_safe (PTime t) = PStr (iso_time (CHR ''T'') t)"
| "json_safe (PDict d) = PDict (map (\<lambda>(k, v). (k, json_safe v)) d)"
| "json_safe (PList xs) = PList (map json_safe xs)"
| "json_safe v = v"

fun time_free :: "pyval \<Rightarrow> bool" where
  "time_free (PTime t) = False"
| "time_free (PDict d) = list_all (\<lambda>(k, v). time_free v) d"
| "time_free (PList xs) = list_all time_free xs"
| "time_free v = True"

record round_row =
  rd_round_id :: string
  rd_tenant_id :: string
  rd_domain :: string
  rd_started_at :: time
  rd_finished_at :: "time option"
  rd_status :: string
  rd_target_ids :: "string list"
  rd_signals_count :: int
  rd_anomaly_count :: int
  rd_record_count :: int
  rd_suppressed_count :: int
  rd_degraded_sources :: "string list option"
  rd_timeline :: "pyval list"

record target_row =
  rt_round_id :: string
  rt_tenant_id :: string
  rt_target_id :: string
  rt_status :: string
  rt_signals_count :: int
  rt_anomaly_count :: int
  rt_record_count :: int
  rt_suppressed_count :: int
  rt_error :: "string option"
  rt_request_params :: "pydict option"
  rt_started_at :: time
  rt_finished_at :: "time option"

text \<open>The optional keyword arguments of \<open>update_status\<close> and \<open>update_target_status\<close>.\<close>

record round_patch =
  ru_timeline :: "pyval list option"
  ru_signals_count :: "int option"
  ru_anomaly_count :: "int option"
  ru_record_count :: "int option"
  ru_suppressed_count :: "int option"
  ru_degraded_sources :: "string list option"

record target_patch =
  tu_status :: "string option"
  tu_finished_at :: "time option"
  tu_signals_count :: "int option"
  tu_anomaly_count :: "int option"
  tu_record_count :: "int option"
  tu_suppressed_count :: "int option"
  tu_error :: "string option"
  tu_request_params :: "pydict option"

definition no_target_patch :: target_patch where
  "no_target_patch = \<lparr>tu_status = None, tu_finished_at = None, tu_signals_count = None, tu_anomaly_count = None,
     tu_record_count = None, tu_suppressed_count = None, tu_error = None, tu_request_params = None\<rparr>"

definition no_round_patch :: round_patch where
  "no_round_patch = \<lparr>ru_timeline = None, ru_signals_count = None, ru_anomaly_count = None, ru_record_count = None,
     ru_suppressed_count = None, ru_degraded_sources = None\<rparr>"

definition json_dict :: "pydict \<Rightarrow> pydict" where
  "json_dict d = map (\<lambda>(k, v). (k, json_safe v)) d"

text \<open>\<open>if x is not None: row[c] = x\<close>\<close>

definition if_given :: "('a \<Rightarrow> 'r \<Rightarrow> 'r) \<Rightarrow> 'a option \<Rightarrow> 'r \<Rightarrow> 'r" where
  "if_given f v row = (case v of None \<Rightarrow> row | Some x \<Rightarrow> f x row)"

section \<open>The in-memory store\<close>

record round_store =
  rs_rows :: "((string \<times> string) \<times> round_row) list"
  rs_target_rows :: "((string \<times> string \<times> string) \<times> target_row) list"

definition empty_rounds :: round_store where
  "empty_rounds = \<lparr>rs_rows = [], rs_target_rows = []\<rparr>"

definition create_round ::
  "string \<Rightarrow> string \<Rightarrow> string \<Rightarrow> time \<Rightarrow> string \<Rightarrow> string list \<Rightarrow> pyval list \<Rightarrow> round_store \<Rightarrow> round_store res" where
  "create_round tenant_id round_id domain started_at status target_ids timeline s =
     require_tenant tenant_id (Inr (s\<lparr>rs_rows := AList.update (tenant_id, round_id)
       \<lparr>rd_round_id = round_id, rd_tenant_id = tenant_id, rd_domain = domain, rd_started_at = started_at,
        rd_finished_at = None, rd_status = status, rd_target_ids = target_ids, rd_signals_count = 0,
        rd_anomaly_count = 0, rd_record_count = 0, rd_suppressed_count = 0, rd_degraded_sources = Some [],
        rd_timeline = map json_safe timeline\<rparr> (rs_rows s)\<rparr>))"

definition patch_round :: "string \<Rightarrow> time \<Rightarrow> round_patch \<Rightarrow> round_row \<Rightarrow> round_row" where
  "patch_round status ended_at p row =
     (let row = row\<lparr>rd_status := status, rd_finished_at := Some ended_at\<rparr>;
          row = if_given (\<lambda>x row. row\<lparr>rd_timeline := map json_safe x\<rparr>) (ru_timeline p) row;
          row = if_given (\<lambda>x row. row\<lparr>rd_signals_count := x\<rparr>) (ru_signals_count p) row;
          row = if_given (\<lambda>x row. row\<lparr>rd_anomaly_count := x\<rparr>) (ru_anomaly_count p) row;
          row = if_given (\<lambda>x row. row\<lparr>rd_record_count := x\<rparr>) (ru_record_count p) row;
          row = if_given (\<lambda>x row. row\<lparr>rd_suppressed_count := x\<rparr>) (ru_suppressed_count p) row
      in if_given (\<lambda>x row. row\<lparr>rd_degraded_sources := Some x\<rparr>) (ru_degraded_sources p) row)"

definition update_status ::
  "string \<Rightarrow> string \<Rightarrow> string \<Rightarrow> time \<Rightarrow> round_patch \<Rightarrow> round_store \<Rightarrow> round_store res" where
  "update_status tenant_id round_id status ended_at p s =
     require_tenant tenant_id (Inr (case map_of (rs_rows s) (tenant_id, round_id) of
       None \<Rightarrow> s
     | Some row \<Rightarrow> s\<lparr>rs_rows := AList.update (tenant_id, round_id) (patch_round status ended_at p row) (rs_rows s)\<rparr>))"

definition get_round :: "string \<Rightarrow> string \<Rightarrow> round_store \<Rightarrow> round_row option res" where
  "get_round tenant_id round_id s = require_tenant tenant_id (Inr (map_of (rs_rows s) (tenant_id, round_id)))"

definition list_rounds ::
  "string \<Rightarrow> string option \<Rightarrow> string option \<Rightarrow> nat \<Rightarrow> nat \<Rightarrow> round_store \<Rightarrow> round_row list res" where
  "list_rounds tenant_id domain status limit offset s =
     require_tenant tenant_id (Inr (
       let rows = filter (\<lambda>r. rd_tenant_id r = tenant_id) (map snd (rs_rows s));
           rows = (case domain of None \<Rightarrow> rows | Some d \<Rightarrow> filter (\<lambda>r. rd_domain r = d) rows);
           rows = (case status of None \<Rightarrow> rows | Some x \<Rightarrow> filter (\<lambda>r. rd_status r = x) rows)
       in take limit (drop offset (sort_desc rd_started_at rows))))"

definition create_target :: "string \<Rightarrow> string \<Rightarrow> string \<Rightarrow> time \<Rightarrow> round_store \<Rightarrow> round_store res" where
  "create_target tenant_id round_id target_id started_at s =
     require_tenant tenant_id (Inr (s\<lparr>rs_target_rows := AList.update (tenant_id, round_id, target_id)
       \<lparr>rt_round_id = round_id, rt_tenant_id = tenant_id, rt_target_id = target_id, rt_status = ''running'',
        rt_signals_count = 0, rt_anomaly_count = 0, rt_record_count = 0, rt_suppressed_count = 0,
        rt_error = None, rt_request_params = None, rt_started_at = started_at, rt_finished_at = None\<rparr>
       (rs_target_rows s)\<rparr>))"

definition patch_target :: "target_patch \<Rightarrow> target_row \<Rightarrow> target_row" where
  "patch_target p row =
     (let row = if_given (\<lambda>x row. row\<lparr>rt_status := x\<rparr>) (tu_status p) row;
          row = if_given (\<lambda>x row. row\<lparr>rt_finished_at := Some x\<rparr>) (tu_finished_at p) row;
          row = if_given (\<lambda>x row. row\<lparr>rt_signals_count := x\<rparr>) (tu_signals_count p) row;
          row = if_given (\<lambda>x row. row\<lparr>rt_anomaly_count := x\<rparr>) (tu_anomaly_count p) row;
          row = if_given (\<lambda>x row. row\<lparr>rt_record_count := x\<rparr>) (tu_record_count p) row;
          row = if_given (\<lambda>x row. row\<lparr>rt_suppressed_count := x\<rparr>) (tu_suppressed_count p) row;
          row = if_given (\<lambda>x row. row\<lparr>rt_error := Some x\<rparr>) (tu_error p) row
      in if_given (\<lambda>x row. row\<lparr>rt_request_params := Some (json_dict x)\<rparr>) (tu_request_params p) row)"

definition update_target_status ::
  "string \<Rightarrow> string \<Rightarrow> string \<Rightarrow> target_patch \<Rightarrow> round_store \<Rightarrow> round_store res" where
  "update_target_status tenant_id round_id target_id p s =
     require_tenant tenant_id (Inr (case map_of (rs_target_rows s) (tenant_id, round_id, target_id) of
       None \<Rightarrow> s
     | Some row \<Rightarrow> s\<lparr>rs_target_rows :=
         AList.update (tenant_id, round_id, target_id) (patch_target p row) (rs_target_rows s)\<rparr>))"

definition latest_target :: "string \<Rightarrow> string \<Rightarrow> string option \<Rightarrow> round_store \<Rightarrow> target_row option res" where
  "latest_target tenant_id target_id status s =
     require_tenant tenant_id (Inr (
       let rows = filter (\<lambda>r. rt_tenant_id r = tenant_id \<and> rt_target_id r = target_id) (map snd (rs_target_rows s));
           rows = (case status of None \<Rightarrow> rows | Some x \<Rightarrow> filter (\<lambda>r. rt_status r = x) rows)
       in if rows = [] then None else Some (hd (sort_desc rt_started_at rows))))"

definition list_targets :: "string \<Rightarrow> string \<Rightarrow> round_store \<Rightarrow> target_row list res" where
  "list_targets tenant_id round_id s =
     require_tenant tenant_id (Inr (sort_key rt_target_id
       (filter (\<lambda>r. rt_tenant_id r = tenant_id \<and> rt_round_id r = round_id) (map snd (rs_target_rows s)))))"

section \<open>The PostgreSQL store\<close>

record round_db =
  detection_round :: "round_row list"
  detection_round_target :: "target_row list"

definition empty_round_db :: round_db where
  "empty_round_db = \<lparr>detection_round = [], detection_round_target = []\<rparr>"

text \<open>One assignment of a \<open>SET\<close> clause with its bound value.\<close>

datatype round_set = SetRoundStatus string | SetRoundFinished time | SetTimeline "pyval list"
  | SetRoundSignals int | SetRoundAnomalies int | SetRoundRecords int | SetRoundSuppressed int
  | SetDegraded "string list"

fun apply_round_set :: "round_set \<Rightarrow> round_row \<Rightarrow> round_row" where
  "apply_round_set (SetRoundStatus x) row = row\<lparr>rd_status := x\<rparr>"
| "apply_round_set (SetRoundFinished x) row = row\<lparr>rd_finished_at := Some x\<rparr>"
| "apply_round_set (SetTimeline x) row = row\<lparr>rd_timeline := x\<rparr>"
| "apply_round_set (SetRoundSignals x) row = row\<lparr>rd_signals_count := x\<rparr>"
| "apply_round_set (SetRoundAnomalies x) row = row\<lparr>rd_anomaly_count := x\<rparr>"
| "apply_round_set (SetRoundRecords x) row = row\<lparr>rd_record_count := x\<rparr>"
| "apply_round_set (SetRoundSuppressed x) row = row\<lparr>rd_suppressed_count := x\<rparr>"
| "apply_round_set (SetDegraded x) row = row\<lparr>rd_degraded_sources := Some x\<rparr>"

datatype target_set = SetTargetStatus string | SetTargetFinished time | SetTargetSignals int
  | SetTargetAnomalies int | SetTargetRecords int | SetTargetSuppressed int | SetError string
  | SetRequestParams pydict

fun apply_target_set :: "target_set \<Rightarrow> target_row \<Rightarrow> target_row" where
  "apply_target_set (SetTargetStatus x) row = row\<lparr>rt_status := x\<rparr>"
| "apply_target_set (SetTargetFinished x) row = row\<lparr>rt_finished_at := Some x\<rparr>"
| "apply_target_set (SetTargetSignals x) row = row\<lparr>rt_signals_count := x\<rparr>"
| "apply_target_set (SetTargetAnomalies x) row = row\<lparr>rt_anomaly_count := x\<rparr>"
| "apply_target_set (SetTargetRecords x) row = row\<lparr>rt_record_count := x\<rparr>"
| "apply_target_set (SetTargetSuppressed x) row = row\<lparr>rt_suppressed_count := x\<rparr>"
| "apply_target_set (SetError x) row = row\<lparr>rt_error := Some x\<rparr>"
| "apply_target_set (SetRequestParams x) row = row\<lparr>rt_request_params := Some x\<rparr>"

definition opt_set :: "('a \<Rightarrow> 'b) \<Rightarrow> 'a option \<Rightarrow> 'b list" where
  "opt_set f v = (case v of None \<Rightarrow> [] | Some x \<Rightarrow> [f x])"

definition pg_create_round ::
  "(time \<Rightarrow> time) \<Rightarrow> string \<Rightarrow> string \<Rightarrow> string \<Rightarrow> time \<Rightarrow> string \<Rightarrow> string list \<Rightarrow> pyval list \<Rightarrow> round_db \<Rightarrow> round_db res" where
  "pg_create_round ts3 tenant_id round_id domain started_at status target_ids timeline db =
     require_tenant tenant_id
       (if round_id \<in> rd_round_id ` set (detection_round db)
        then Inl (UniqueViolation ''detection_round_pkey'')
        else Inr (db\<lparr>detection_round := detection_round db @
          [\<lparr>rd_round_id = round_id, rd_tenant_id = tenant_id, rd_domain = domain, rd_started_at = ts3 started_at,
            rd_finished_at = None, rd_status = status, rd_target_ids = target_ids, rd_signals_count = 0,
            rd_anomaly_count = 0, rd_record_count = 0, rd_suppressed_count = 0, rd_degraded_sources = None,
            rd_timeline = map json_safe timeline\<rparr>]\<rparr>))"

definition pg_round_sets :: "(time \<Rightarrow> time) \<Rightarrow> string \<Rightarrow> time \<Rightarrow> round_patch \<Rightarrow> round_set list" where
  "pg_round_sets ts3 status ended_at p =
     [SetRoundStatus status, SetRoundFinished (ts3 ended_at)]
     @ opt_set (\<lambda>x. SetTimeline (map json_safe x)) (ru_timeline p)
     @ opt_set SetRoundSignals (ru_signals_count p)
     @ opt_set SetRoundAnomalies (ru_anomaly_count p)
     @ opt_set SetRoundRecords (ru_record_count p)
     @ opt_set SetRoundSuppressed (ru_suppressed_count p)
     @ opt_set SetDegraded (ru_degraded_sources p)"

definition pg_update_status ::
  "(time \<Rightarrow> time) \<Rightarrow> string \<Rightarrow> string \<Rightarrow> string \<Rightarrow> time \<Rightarrow> round_patch \<Rightarrow> round_db \<Rightarrow> round_db res" where
  "pg_update_status ts3 tenant_id round_id status ended_at p db =
     require_tenant tenant_id (Inr (db\<lparr>detection_round :=
       map (\<lambda>r. if rd_tenant_id r = tenant_id \<and> rd_round_id r = round_id
                then fold apply_round_set (pg_round_sets ts3 status ended_at p) r else r) (detection_round db)\<rparr>))"

definition pg_get_round :: "string \<Rightarrow> string \<Rightarrow> round_db \<Rightarrow> round_row option res" where
  "pg_get_round tenant_id round_id db =
     require_tenant tenant_id
       (Inr (List.find (\<lambda>r. rd_tenant_id r = tenant_id \<and> rd_round_id r = round_id) (detection_round db)))"

definition pg_list_rounds ::
  "string \<Rightarrow> string option \<Rightarrow> string option \<Rightarrow> nat \<Rightarrow> nat \<Rightarrow> round_db \<Rightarrow> round_row list res" where
  "pg_list_rounds tenant_id domain status limit offset db =
     require_tenant tenant_id (Inr (take limit (drop offset (sort_desc rd_started_at
       (filter (\<lambda>r. rd_tenant_id r = tenant_id
                  \<and> (case domain of None \<Rightarrow> True | Some d \<Rightarrow> rd_domain r = d)
                  \<and> (case status of None \<Rightarrow> True | Some x \<Rightarrow> rd_status r = x)) (detection_round db))))))"

definition pg_create_target ::
  "(time \<Rightarrow> time) \<Rightarrow> string \<Rightarrow> string \<Rightarrow> string \<Rightarrow> time \<Rightarrow> round_db \<Rightarrow> round_db res" where
  "pg_create_target ts3 tenant_id round_id target_id started_at db =
     require_tenant tenant_id
       (if (round_id, tenant_id, target_id) \<in> (\<lambda>r. (rt_round_id r, rt_tenant_id r, rt_target_id r)) `
             set (detection_round_target db)
        then Inl (UniqueViolation ''detection_round_target_pkey'')
        else Inr (db\<lparr>detection_round_target := detection_round_target db @
          [\<lparr>rt_round_id = round_id, rt_tenant_id = tenant_id, rt_target_id = target_id, rt_status = ''running'',
            rt_signals_count = 0, rt_anomaly_count = 0, rt_record_count = 0, rt_suppressed_count = 0,
            rt_error = None, rt_request_params = None, rt_started_at = ts3 started_at, rt_finished_at = None\<rparr>]\<rparr>))"

definition pg_target_sets :: "(time \<Rightarrow> time) \<Rightarrow> target_patch \<Rightarrow> target_set list" where
  "pg_target_sets ts3 p =
     opt_set SetTargetStatus (tu_status p)
     @ opt_set (\<lambda>x. SetTargetFinished (ts3 x)) (tu_finished_at p)
     @ opt_set SetTargetSignals (tu_signals_count p)
     @ opt_set SetTargetAnomalies (tu_anomaly_count p)
     @ opt_set SetTargetRecords (tu_record_count p)
     @ opt_set SetTargetSuppressed (tu_suppressed_count p)
     @ opt_set SetError (tu_error p)
     @ opt_set (\<lambda>x. SetRequestParams (json_dict x)) (tu_request_params p)"

definition pg_update_target_status ::
  "(time \<Rightarrow> time) \<Rightarrow> string \<Rightarrow> string \<Rightarrow> string \<Rightarrow> target_patch \<Rightarrow> round_db \<Rightarrow> round_db res" where
  "pg_update_target_status ts3 tenant_id round_id target_id p db =
     require_tenant tenant_id
       (if pg_target_sets ts3 p = [] then Inr db
        else Inr (db\<lparr>detection_round_target :=
          map (\<lambda>r. if rt_round_id r = round_id \<and> rt_tenant_id r = tenant_id \<and> rt_target_id r = target_id
                   then fold apply_target_set (pg_target_sets ts3 p) r else r) (detection_round_target db)\<rparr>))"

definition pg_latest_target :: "string \<Rightarrow> string \<Rightarrow> string option \<Rightarrow> round_db \<Rightarrow> target_row option res" where
  "pg_latest_target tenant_id target_id status db =
     require_tenant tenant_id (Inr (
       case sort_desc rt_started_at
         (filter (\<lambda>r. rt_tenant_id r = tenant_id \<and> rt_target_id r = target_id
                    \<and> (case status of None \<Rightarrow> True | Some x \<Rightarrow> rt_status r = x)) (detection_round_target db))
       of [] \<Rightarrow> None | r # _ \<Rightarrow> Some r))"

definition pg_list_targets :: "string \<Rightarrow> string \<Rightarrow> round_db \<Rightarrow> target_row list res" where
  "pg_list_targets tenant_id round_id db =
     require_tenant tenant_id (Inr (sort_key rt_target_id
       (filter (\<lambda>r. rt_tenant_id r = tenant_id \<and> rt_round_id r = round_id) (detection_round_target db))))"

section \<open>Operations as steps\<close>

datatype round_op = CreateRound string string time string "string list" "pyval list"
  | UpdateStatus string string time round_patch
  | CreateTarget string string time
  | UpdateTarget string string target_patch

fun round_step :: "round_op \<Rightarrow> string \<Rightarrow> round_store \<Rightarrow> round_store res" where
  "round_step (CreateRound r d a st tids tml) t s = create_round t r d a st tids tml s"
| "round_step (UpdateStatus r st e p) t s = update_status t r st e p s"
| "round_step (CreateTarget r x a) t s = create_target t r x a s"
| "round_step (UpdateTarget r x p) t s = update_target_status t r x p s"

fun pg_round_step :: "(time \<Rightarrow> time) \<Rightarrow> round_op \<Rightarrow> string \<Rightarrow> round_db \<Rightarrow> round_db res" where
  "pg_round_step ts3 (CreateRound r d a st tids tml) t db = pg_create_round ts3 t r d a st tids tml db"
| "pg_round_step ts3 (UpdateStatus r st e p) t db = pg_update_status ts3 t r st e p db"
| "pg_round_step ts3 (CreateTarget r x a) t db = pg_create_target ts3 t r x a db"
| "pg_round_step ts3 (UpdateTarget r x p) t db = pg_update_target_status ts3 t r x p db"

lemmas round_op_defs = create_round_def update_status_def create_target_def update_target_status_def
lemmas pg_round_op_defs = pg_create_round_def pg_update_status_def pg_create_target_def pg_update_target_status_def

definition round_view :: "string \<Rightarrow> round_store \<Rightarrow> (string \<rightharpoonup> round_row) \<times> (string \<times> string \<rightharpoonup> target_row)" where
  "round_view u s = (\<lambda>r. map_of (rs_rows s) (u, r), \<lambda>(r, x). map_of (rs_target_rows s) (u, r, x))"

interpretation rounds: tenant_store round_step round_view "\<lambda>_. True"
proof
  show "round_step p [] s = Inl (ValueError ''tenant_id is required'')" for p s
    by (cases p) (simp_all add: round_op_defs)
  show "round_step p t s = Inr s' \<Longrightarrow> u \<noteq> t \<Longrightarrow> round_view u s' = round_view u s" for p t s s' u
    by (cases p) (auto simp: round_op_defs round_view_def map_of_update fun_eq_iff split: option.splits)
qed simp

text \<open>The SQL statements touch rows of the calling tenant only.\<close>

definition pg_round_view :: "string \<Rightarrow> round_db \<Rightarrow> round_row list \<times> target_row list" where
  "pg_round_view u db = (filter (\<lambda>r. rd_tenant_id r = u) (detection_round db),
     filter (\<lambda>r. rt_tenant_id r = u) (detection_round_target db))"

lemma apply_round_sets_keys [simp]:
  "rd_tenant_id (fold apply_round_set ss r) = rd_tenant_id r" "rd_round_id (fold apply_round_set ss r) = rd_round_id r"
proof (induction ss arbitrary: r)
  case (Cons x ss)
  { case 1 show ?case using Cons by (cases x) simp_all }
  { case 2 show ?case using Cons by (cases x) simp_all }
qed simp_all

lemma apply_target_sets_keys [simp]:
  "rt_tenant_id (fold apply_target_set ss r) = rt_tenant_id r"
  "rt_round_id (fold apply_target_set ss r) = rt_round_id r"
  "rt_target_id (fold apply_target_set ss r) = rt_target_id r"
proof (induction ss arbitrary: r)
  case (Cons x ss)
  { case 1 show ?case using Cons by (cases x) simp_all }
  { case 2 show ?case using Cons by (cases x) simp_all }
  { case 3 show ?case using Cons by (cases x) simp_all }
qed simp_all

lemma filter_map_other:
  "(\<And>r. r \<in> set xs \<Longrightarrow> P (f r) = P r) \<Longrightarrow> (\<And>r. r \<in> set xs \<Longrightarrow> P r \<Longrightarrow> f r = r)
     \<Longrightarrow> filter P (map f xs) = filter P xs"
  by (induction xs) auto

interpretation pg_rounds: tenant_store "pg_round_step ts3" pg_round_view "\<lambda>_. True"
proof
  show "pg_round_step ts3 p [] s = Inl (ValueError ''tenant_id is required'')" for p s
    by (cases p) (simp_all add: pg_round_op_defs)
  show "pg_round_step ts3 p t s = Inr s' \<Longrightarrow> u \<noteq> t \<Longrightarrow> pg_round_view u s' = pg_round_view u s" for p t s s' u
    by (cases p) (auto simp: pg_round_op_defs pg_round_view_def split: if_splits intro!: filter_map_other)
qed simp

section \<open>Documents kept in JSON columns\<close>

lemma json_safe_time_free: "time_free (json_safe v)"
  by (induction v rule: json_safe.induct) (auto simp: list_all_iff)

lemma json_safe_id: "time_free v \<Longrightarrow> json_safe v = v"
proof (induction v rule: json_safe.induct)
  case (2 d)
  then show ?case by (auto simp: list_all_iff intro!: map_idI)
qed (auto simp: list_all_iff map_idI)

section \<open>Updates by assignment lists\<close>

lemma fold_opt_set: "fold f (opt_set g v) r = if_given (\<lambda>x. f (g x)) v r"
  by (simp add: opt_set_def if_given_def split: option.split)

lemma if_given_distrib: "(\<And>x r. h (f x r) = h r) \<Longrightarrow> h (if_given f v r) = h r"
  by (simp add: if_given_def split: option.split)

lemma if_given_commute:
  "(\<And>x r. h (f x r) = f x (h r)) \<Longrightarrow> h (if_given f v r) = if_given f v (h r)"
  by (simp add: if_given_def split: option.split)

lemma apply_round_set_eta:
  "apply_round_set (SetTimeline a) = rd_timeline_update (\<lambda>_. a)"
  "apply_round_set (SetRoundSignals i) = rd_signals_count_update (\<lambda>_. i)"
  "apply_round_set (SetRoundAnomalies i) = rd_anomaly_count_update (\<lambda>_. i)"
  "apply_round_set (SetRoundRecords i) = rd_record_count_update (\<lambda>_. i)"
  "apply_round_set (SetRoundSuppressed i) = rd_suppressed_count_update (\<lambda>_. i)"
  "apply_round_set (SetDegraded x) = rd_degraded_sources_update (\<lambda>_. Some x)"
  by (simp_all add: fun_eq_iff)

lemma apply_target_set_eta:
  "apply_target_set (SetTargetStatus x) = rt_status_update (\<lambda>_. x)"
  "apply_target_set (SetTargetFinished e) = rt_finished_at_update (\<lambda>_. Some e)"
  "apply_target_set (SetTargetSignals i) = rt_signals_count_update (\<lambda>_. i)"
  "apply_target_set (SetTargetAnomalies i) = rt_anomaly_count_update (\<lambda>_. i)"
  "apply_target_set (SetTargetRecords i) = rt_record_count_update (\<lambda>_. i)"
  "apply_target_set (SetTargetSuppressed i) = rt_suppressed_count_update (\<lambda>_. i)"
  "apply_target_set (SetError x) = rt_error_update (\<lambda>_. Some x)"
  "apply_target_set (SetRequestParams d) = rt_request_params_update (\<lambda>_. Some d)"
  by (simp_all add: fun_eq_iff)

lemma pg_round_sets_patch:
  "ts3 e = e \<Longrightarrow> fold apply_round_set (pg_round_sets ts3 st e p) r = patch_round st e p r"
  by (simp add: pg_round_sets_def patch_round_def fold_opt_set Let_def apply_round_set_eta)

lemma pg_target_sets_patch:
  assumes "\<And>e. tu_finished_at p = Some e \<Longrightarrow> ts3 e = e"
  shows "fold apply_target_set (pg_target_sets ts3 p) r = patch_target p r"
proof -
  have "if_given (\<lambda>x. apply_target_set (SetTargetFinished (ts3 x))) (tu_finished_at p)
      = if_given (\<lambda>x row. row\<lparr>rt_finished_at := Some x\<rparr>) (tu_finished_at p)"
    using assms by (simp add: fun_eq_iff if_given_def split: option.split)
  then show ?thesis
    by (simp add: pg_target_sets_def patch_target_def fold_opt_set Let_def apply_target_set_eta)
qed

lemma opt_set_Nil [simp]: "opt_set f v = [] \<longleftrightarrow> v = None"
  by (simp add: opt_set_def split: option.split)

lemma pg_target_sets_Nil: "pg_target_sets ts3 p = [] \<Longrightarrow> patch_target p r = r"
  by (simp add: pg_target_sets_def patch_target_def if_given_def)

lemma patch_round_keys [simp]:
  "rd_tenant_id (patch_round st e p r) = rd_tenant_id r" "rd_round_id (patch_round st e p r) = rd_round_id r"
  by (simp_all add: patch_round_def Let_def if_given_distrib)

lemma patch_target_keys [simp]:
  "rt_tenant_id (patch_target p r) = rt_tenant_id r" "rt_round_id (patch_target p r) = rt_round_id r"
  "rt_target_id (patch_target p r) = rt_target_id r"
  by (simp_all add: patch_target_def Let_def if_given_distrib)

text \<open>A reader takes a missing list of degraded sources as the empty one.\<close>

definition read_row :: "round_row \<Rightarrow> round_row" where
  "read_row r = r\<lparr>rd_degraded_sources := Some (case rd_degraded_sources r of None \<Rightarrow> [] | Some x \<Rightarrow> x)\<rparr>"

lemma read_row_fields [simp]:
  "rd_tenant_id (read_row r) = rd_tenant_id r" "rd_round_id (read_row r) = rd_round_id r"
  "rd_domain (read_row r) = rd_domain r" "rd_status (read_row r) = rd_status r"
  "rd_started_at (read_row r) = rd_started_at r"
  by (simp_all add: read_row_def)

lemma read_row_simps [simp]:
  "read_row (r\<lparr>rd_timeline := a\<rparr>) = (read_row r)\<lparr>rd_timeline := a\<rparr>"
  "read_row (r\<lparr>rd_signals_count := i\<rparr>) = (read_row r)\<lparr>rd_signals_count := i\<rparr>"
  "read_row (r\<lparr>rd_anomaly_count := i\<rparr>) = (read_row r)\<lparr>rd_anomaly_count := i\<rparr>"
  "read_row (r\<lparr>rd_record_count := i\<rparr>) = (read_row r)\<lparr>rd_record_count := i\<rparr>"
  "read_row (r\<lparr>rd_suppressed_count := i\<rparr>) = (read_row r)\<lparr>rd_suppressed_count := i\<rparr>"
  "read_row (r\<lparr>rd_degraded_sources := Some x\<rparr>) = (read_row r)\<lparr>rd_degraded_sources := Some x\<rparr>"
  "read_row (r\<lparr>rd_status := st, rd_finished_at := e\<rparr>) = (read_row r)\<lparr>rd_status := st, rd_finished_at := e\<rparr>"
  by (simp_all add: read_row_def)

lemma read_row_patch: "read_row (patch_round st e p r) = patch_round st e p (read_row r)"
  by (simp add: patch_round_def Let_def if_given_commute [of read_row])

section \<open>The tables refine the dictionaries\<close>

definition round_inv :: "round_store \<Rightarrow> bool" where
  "round_inv s \<longleftrightarrow> keyed (\<lambda>r. (rd_tenant_id r, rd_round_id r)) (rs_rows s)
     \<and> keyed (\<lambda>r. (rt_tenant_id r, rt_round_id r, rt_target_id r)) (rs_target_rows s)"

definition round_sim :: "round_store \<Rightarrow> round_db \<Rightarrow> bool" where
  "round_sim s db \<longleftrightarrow> round_inv s \<and> map read_row (detection_round db) = map snd (rs_rows s)
     \<and> detection_round_target db = map snd (rs_target_rows s)"

lemma round_inv_get:
  "round_inv s \<Longrightarrow> map_of (rs_rows s) (t, r) = Some row \<Longrightarrow> rd_tenant_id row = t \<and> rd_round_id row = r"
  "round_inv s \<Longrightarrow> map_of (rs_target_rows s) (t, r, x) = Some trow
     \<Longrightarrow> rt_tenant_id trow = t \<and> rt_round_id trow = r \<and> rt_target_id trow = x"
  unfolding round_inv_def by (blast dest: keyed_get)+

lemma round_inv_step:
  assumes "round_inv s" "round_step p t s = Inr s'"
  shows "round_inv s'"
  using assms round_inv_get [OF assms(1)]
  by (cases p) (auto simp: round_inv_def round_op_defs intro!: keyed_update split: option.splits)

text \<open>The ids an operation creates, and the times it writes.\<close>

fun new_round :: "round_op \<times> string \<Rightarrow> string list" where
  "new_round (CreateRound r d a st tids tml, t) = [r]"
| "new_round _ = []"

fun new_target :: "round_op \<times> string \<Rightarrow> (string \<times> string \<times> string) list" where
  "new_target (CreateTarget r x a, t) = [(t, r, x)]"
| "new_target _ = []"

fun op_times :: "round_op \<Rightarrow> time list" where
  "op_times (CreateRound r d a st tids tml) = [a]"
| "op_times (UpdateStatus r st e p) = [e]"
| "op_times (CreateTarget r x a) = [a]"
| "op_times (UpdateTarget r x p) = (case tu_finished_at p of None \<Rightarrow> [] | Some e \<Rightarrow> [e])"

lemma round_sim_ids:
  "round_sim s db \<Longrightarrow> rd_round_id ` set (detection_round db) = rd_round_id ` snd ` set (rs_rows s)"
  "round_sim s db \<Longrightarrow> (\<lambda>r. (rt_round_id r, rt_tenant_id r, rt_target_id r)) ` set (detection_round_target db)
     = (\<lambda>(t, r, x). (r, t, x)) ` fst ` set (rs_target_rows s)"
proof -
  assume sim: "round_sim s db"
  then have "set (map rd_round_id (map read_row (detection_round db))) = set (map rd_round_id (map snd (rs_rows s)))"
    by (simp add: round_sim_def)
  then show "rd_round_id ` set (detection_round db) = rd_round_id ` snd ` set (rs_rows s)"
    by (simp add: image_image)
  from sim have "keyed (\<lambda>r. (rt_tenant_id r, rt_round_id r, rt_target_id r)) (rs_target_rows s)"
    by (simp add: round_sim_def round_inv_def)
  with sim show "(\<lambda>r. (rt_round_id r, rt_tenant_id r, rt_target_id r)) ` set (detection_round_target db)
     = (\<lambda>(t, r, x). (r, t, x)) ` fst ` set (rs_target_rows s)"
    by (auto simp: round_sim_def keyed_def image_image intro!: image_cong)
qed

lemma map_read_update:
  "map read_row (update_where P (patch_round st e p) rows)
     = update_where P (patch_round st e p) (map read_row rows)"
  if "\<And>r. P (read_row r) = P r"
  using that by (simp add: update_where_def read_row_patch)

lemma round_sim_update_status:
  assumes sim: "round_sim s db" and "ts3 e = e" "t \<noteq> []"
  obtains s' db' where "update_status t r st e p s = Inr s'" "pg_update_status ts3 t r st e p db = Inr db'"
    "round_sim s' db'"
proof -
  let ?P = "\<lambda>row. (rd_tenant_id row, rd_round_id row) = (t, r)" and ?f = "patch_round st e p"
  let ?s = "case map_of (rs_rows s) (t, r) of None \<Rightarrow> s
     | Some row \<Rightarrow> s\<lparr>rs_rows := AList.update (t, r) (?f row) (rs_rows s)\<rparr>"
  let ?db = "db\<lparr>detection_round := update_where ?P ?f (detection_round db)\<rparr>"
  have k: "keyed (\<lambda>row. (rd_tenant_id row, rd_round_id row)) (rs_rows s)"
    using sim by (simp add: round_sim_def round_inv_def)
  have step: "update_status t r st e p s = Inr ?s" using assms by (simp add: update_status_def)
  then have "round_inv ?s" using sim round_inv_step [of s "UpdateStatus r st e p" t] by (simp add: round_sim_def)
  moreover have "update_where ?P ?f (map snd (rs_rows s)) = map snd (rs_rows ?s)"
    using keyed_update_values [OF k, of "(t, r)" _ ?f] keyed_absent_values [OF k, of "(t, r)" ?f]
    by (simp split: option.split)
  ultimately have "round_sim ?s ?db"
    using sim by (simp add: round_sim_def map_read_update split: option.split)
  moreover have "pg_update_status ts3 t r st e p db = Inr ?db"
    using assms by (simp add: pg_update_status_def update_where_def pg_round_sets_patch)
  ultimately show ?thesis using step that by blast
qed

lemma round_sim_update_target:
  assumes sim: "round_sim s db" and e: "\<And>e. tu_finished_at p = Some e \<Longrightarrow> ts3 e = e" and "t \<noteq> []"
  obtains s' db' where "update_target_status t r x p s = Inr s'"
    "pg_update_target_status ts3 t r x p db = Inr db'" "round_sim s' db'"
proof -
  let ?P = "\<lambda>row. (rt_tenant_id row, rt_round_id row, rt_target_id row) = (t, r, x)" and ?f = "patch_target p"
  let ?s = "case map_of (rs_target_rows s) (t, r, x) of None \<Rightarrow> s
     | Some row \<Rightarrow> s\<lparr>rs_target_rows := AList.update (t, r, x) (?f row) (rs_target_rows s)\<rparr>"
  let ?db = "db\<lparr>detection_round_target := update_where ?P ?f (detection_round_target db)\<rparr>"
  have k: "keyed (\<lambda>row. (rt_tenant_id row, rt_round_id row, rt_target_id row)) (rs_target_rows s)"
    using sim by (simp add: round_sim_def round_inv_def)
  have step: "update_target_status t r x p s = Inr ?s" using assms by (simp add: update_target_status_def)
  then have "round_inv ?s" using sim round_inv_step [of s "UpdateTarget r x p" t] by (simp add: round_sim_def)
  moreover have "update_where ?P ?f (map snd (rs_target_rows s)) = map snd (rs_target_rows ?s)"
    using keyed_update_values [OF k, of "(t, r, x)" _ ?f] keyed_absent_values [OF k, of "(t, r, x)" ?f]
    by (simp split: option.split)
  ultimately have "round_sim ?s ?db"
    using sim by (simp add: round_sim_def split: option.split)
  moreover have "pg_update_target_status ts3 t r x p db = Inr ?db"
  proof (cases "pg_target_sets ts3 p = []")
    case True
    then have "update_where ?P ?f (detection_round_target db) = detection_round_target db"
      using pg_target_sets_Nil [of ts3 p] by (auto simp: update_where_def intro: map_idI)
    then have "?db = db" by simp
    with True assms(3) show ?thesis by (simp add: pg_update_target_status_def)
  next
    case False
    have "(\<lambda>row. rt_round_id row = r \<and> rt_tenant_id row = t \<and> rt_target_id row = x) = ?P" by auto
    with False assms(3) show ?thesis
      by (simp add: pg_update_target_status_def update_where_def pg_target_sets_patch [OF e] cong: if_cong)
  qed
  ultimately show ?thesis using step that by blast
qed

lemma round_sim_step:
  assumes sim: "round_sim s db" and ts: "\<forall>x \<in> set (op_times p). ts3 x = x"
    and new: "set (new_round (p, t)) \<inter> rd_round_id ` snd ` set (rs_rows s) = {}"
      "set (new_target (p, t)) \<inter> fst ` set (rs_target_rows s) = {}"
    and t: "t \<noteq> []"
  obtains s' db' where "round_step p t s = Inr s'" "pg_round_step ts3 p t db = Inr db'" "round_sim s' db'"
proof (cases p)
  case (CreateRound r d a st tids tml)
  have k: "keyed (\<lambda>row. (rd_tenant_id row, rd_round_id row)) (rs_rows s)"
    using sim by (simp add: round_sim_def round_inv_def)
  have abs: "(t, r) \<notin> fst ` set (rs_rows s)" using new(1) k CreateRound by (auto simp: keyed_def image_iff)
  obtain s' where s': "round_step p t s = Inr s'" using CreateRound t by (simp add: create_round_def)
  moreover obtain db' where db': "pg_round_step ts3 p t db = Inr db'"
    using CreateRound t new(1) round_sim_ids(1) [OF sim] by (simp add: pg_create_round_def)
  moreover have "round_sim s' db'"
    using s' db' CreateRound t ts sim abs round_inv_step [OF _ s']
    by (auto simp: round_sim_def create_round_def pg_create_round_def update_absent read_row_def split: if_splits)
  ultimately show ?thesis using that by blast
next
  case (CreateTarget r x a)
  have abs: "(t, r, x) \<notin> fst ` set (rs_target_rows s)" using new(2) CreateTarget by auto
  have "(r, t, x) \<notin> (\<lambda>(t, r, x). (r, t, x)) ` fst ` set (rs_target_rows s)"
    using abs by (auto simp: image_iff)
  then obtain db' where db': "pg_round_step ts3 p t db = Inr db'"
    using CreateTarget t round_sim_ids(2) [OF sim] by (simp add: pg_create_target_def)
  obtain s' where s': "round_step p t s = Inr s'" using CreateTarget t by (simp add: create_target_def)
  have "round_sim s' db'"
    using s' db' CreateTarget t ts sim abs round_inv_step [OF _ s']
    by (auto simp: round_sim_def create_target_def pg_create_target_def update_absent split: if_splits)
  with s' db' that show ?thesis by blast
next
  case (UpdateStatus r st e q)
  then show ?thesis using round_sim_update_status [OF sim _ t, of ts3 e] ts that by auto
next
  case (UpdateTarget r x q)
  then show ?thesis using round_sim_update_target [OF sim _ t, of q ts3] ts that by auto
qed

lemma image_keys_update: "fst ` set (AList.update k v d) = insert k (fst ` set d)"
  using dict_keys_update [of k v d] by simp

text \<open>An operation with its times as a column keeps them. Binding a rounded time exactly is the same as binding the time.\<close>

fun as_kept :: "(time \<Rightarrow> time) \<Rightarrow> round_op \<Rightarrow> round_op" where
  "as_kept ts3 (CreateRound r d a st tids tml) = CreateRound r d (ts3 a) st tids tml"
| "as_kept ts3 (UpdateStatus r st e p) = UpdateStatus r st (ts3 e) p"
| "as_kept ts3 (CreateTarget r x a) = CreateTarget r x (ts3 a)"
| "as_kept ts3 (UpdateTarget r x p) = UpdateTarget r x (p\<lparr>tu_finished_at := map_option ts3 (tu_finished_at p)\<rparr>)"

lemma pg_round_step_kept: "pg_round_step ts3 p t db = pg_round_step (\<lambda>x. x) (as_kept ts3 p) t db"
proof (cases p)
  case (UpdateTarget r x q)
  have "pg_target_sets ts3 q = pg_target_sets (\<lambda>x. x) (q\<lparr>tu_finished_at := map_option ts3 (tu_finished_at q)\<rparr>)"
    by (simp add: pg_target_sets_def opt_set_def split: option.split)
  then show ?thesis by (simp only: UpdateTarget pg_round_step.simps as_kept.simps pg_update_target_status_def)
next
  case (UpdateStatus r st e q)
  have "pg_round_sets ts3 st e q = pg_round_sets (\<lambda>x. x) st (ts3 e) q" by (simp add: pg_round_sets_def)
  then show ?thesis by (simp only: UpdateStatus pg_round_step.simps as_kept.simps pg_update_status_def)
qed (simp_all add: pg_create_round_def pg_create_target_def)

lemma run_pg_kept:
  "run_ops (pg_round_step ts3) ops db = run_ops (pg_round_step (\<lambda>x. x)) (map (\<lambda>(p, t). (as_kept ts3 p, t)) ops) db"
  by (induction ops arbitrary: db) (auto simp: pg_round_step_kept [of ts3])

text \<open>A history without the calls that create a round or a target of a round a second time, and without calls that name no tenant.\<close>

fun first_creations :: "string set \<Rightarrow> (string \<times> string \<times> string) set \<Rightarrow> (round_op \<times> string) list \<Rightarrow> (round_op \<times> string) list" where
  "first_creations R T [] = []"
| "first_creations R T ((p, t) # ops) =
     (if t = [] \<or> set (new_round (p, t)) \<inter> R \<noteq> {} \<or> set (new_target (p, t)) \<inter> T \<noteq> {} then first_creations R T ops
      else (p, t) # first_creations (set (new_round (p, t)) \<union> R) (set (new_target (p, t)) \<union> T) ops)"

lemma round_ids_keys: "round_inv s \<Longrightarrow> rd_round_id ` snd ` set (rs_rows s) = snd ` fst ` set (rs_rows s)"
  by (force simp: round_inv_def keyed_def image_image intro!: image_cong)

lemma round_step_keys:
  assumes "round_step p t s = Inr s'"
  shows "fst ` set (rs_rows s') = Pair t ` set (new_round (p, t)) \<union> fst ` set (rs_rows s)"
    and "fst ` set (rs_target_rows s') = set (new_target (p, t)) \<union> fst ` set (rs_target_rows s)"
proof -
  have old: "map_of d k = Some v \<Longrightarrow> insert k (fst ` set d) = fst ` set d" for d :: "('k \<times> 'v) list" and k v
    by (force dest: map_of_SomeD)
  show "fst ` set (rs_rows s') = Pair t ` set (new_round (p, t)) \<union> fst ` set (rs_rows s)"
    using assms by (cases p; clarsimp simp: round_op_defs image_keys_update old split: if_splits option.splits)
  show "fst ` set (rs_target_rows s') = set (new_target (p, t)) \<union> fst ` set (rs_target_rows s)"
    using assms by (cases p; clarsimp simp: round_op_defs image_keys_update old split: if_splits option.splits)
qed

lemma created_twice:
  assumes "round_sim s db" "t \<noteq> []"
    and "set (new_round (p, t)) \<inter> rd_round_id ` snd ` set (rs_rows s) \<noteq> {} \<or> set (new_target (p, t)) \<inter> fst ` set (rs_target_rows s) \<noteq> {}"
  shows "\<exists>e. pg_round_step (\<lambda>x. x) p t db = Inl e"
proof (cases p)
  case (CreateRound r d a st tids tml)
  with assms show ?thesis by (simp add: pg_create_round_def round_sim_ids(1) [OF assms(1)])
next
  case (CreateTarget r x a)
  with assms(3) have "(t, r, x) \<in> fst ` set (rs_target_rows s)" by simp
  then have "(r, t, x) \<in> (\<lambda>(t, r, x). (r, t, x)) ` fst ` set (rs_target_rows s)" by (force simp: image_iff)
  with CreateTarget assms(2) show ?thesis by (simp add: pg_create_target_def round_sim_ids(2) [OF assms(1)])
qed (use assms in simp_all)

lemma round_sim_history:
  assumes "round_sim s db"
  shows "round_sim (run_ops round_step (first_creations (snd ` fst ` set (rs_rows s)) (fst ` set (rs_target_rows s)) ops) s)
    (run_ops (pg_round_step (\<lambda>x. x)) ops db)"
  using assms
proof (induction ops arbitrary: s db)
  case (Cons y ops)
  obtain p t where y: "y = (p, t)" by (cases y)
  let ?R = "snd ` fst ` set (rs_rows s)" and ?T = "fst ` set (rs_target_rows s)"
  let ?dup = "set (new_round (p, t)) \<inter> ?R \<noteq> {} \<or> set (new_target (p, t)) \<inter> ?T \<noteq> {}"
  have R: "rd_round_id ` snd ` set (rs_rows s) = ?R" using Cons.prems by (simp add: round_sim_def round_ids_keys)
  show ?case
  proof (cases "t = [] \<or> ?dup")
    case True
    have "\<exists>e. pg_round_step (\<lambda>x. x) p t db = Inl e"
    proof (cases "t = []")
      case False
      with True have ?dup by blast
      then show ?thesis by (rule created_twice [OF Cons.prems False, unfolded R])
    qed (simp add: pg_rounds.guard)
    then obtain e where "pg_round_step (\<lambda>x. x) p t db = Inl e" ..
    with True Cons.IH [OF Cons.prems] y show ?thesis by auto
  next
    case False
    then have new: "set (new_round (p, t)) \<inter> rd_round_id ` snd ` set (rs_rows s) = {}" "set (new_target (p, t)) \<inter> ?T = {}" "t \<noteq> []"
      by (auto simp: R)
    obtain s' db' where st: "round_step p t s = Inr s'" "pg_round_step (\<lambda>x. x) p t db = Inr db'" "round_sim s' db'"
      by (rule round_sim_step [OF Cons.prems _ new]) auto
    have "snd ` fst ` set (rs_rows s') = set (new_round (p, t)) \<union> ?R" "fst ` set (rs_target_rows s') = set (new_target (p, t)) \<union> ?T"
      using round_step_keys [OF st(1)] by (auto simp: image_Un image_image)
    with Cons.IH [OF st(3)] False y st(1,2) show ?thesis by simp
  qed
qed simp

lemma round_sim_empty: "round_sim empty_rounds empty_round_db"
  by (simp add: round_sim_def round_inv_def empty_rounds_def empty_round_db_def)

section \<open>Queries\<close>

lemma sort_key_map: "sort_key f (map g xs) = map g (sort_key (f \<circ> g) xs)"
proof -
  have ins: "insort_key f (g x) (map g ys) = map g (insort_key (f \<circ> g) x ys)" for x ys
    by (induction ys) auto
  show ?thesis by (induction xs) (simp_all add: sort_key_def ins [unfolded comp_def] comp_def)
qed

lemma find_map: "List.find P (map g xs) = map_option g (List.find (P \<circ> g) xs)"
  by (induction xs) auto

lemma sort_desc_map: "(\<And>x. f (g x) = f x) \<Longrightarrow> sort_desc f (map g xs) = map g (sort_desc f xs)"
  by (simp add: sort_desc_def sort_key_map comp_def)

lemma list_rounds_filter:
  "list_rounds t d st n k s = require_tenant t (Inr (take n (drop k (sort_desc rd_started_at
     (filter (\<lambda>r. rd_tenant_id r = t \<and> (case d of None \<Rightarrow> True | Some x \<Rightarrow> rd_domain r = x)
        \<and> (case st of None \<Rightarrow> True | Some x \<Rightarrow> rd_status r = x)) (map snd (rs_rows s)))))))"
  by (simp add: list_rounds_def Let_def conj_ac split: option.split)

lemma sort_desc_Nil [simp]: "sort_desc f [] = []" "sort_desc f xs = [] \<longleftrightarrow> xs = []"
  by (simp add: sort_desc_def) (metis length_0_conv sort_desc_props(3))

lemma latest_target_cases:
  "latest_target t x st s = require_tenant t (Inr (case sort_desc rt_started_at
     (filter (\<lambda>r. rt_tenant_id r = t \<and> rt_target_id r = x \<and> (case st of None \<Rightarrow> True | Some v \<Rightarrow> rt_status r = v))
        (map snd (rs_target_rows s))) of [] \<Rightarrow> None | r # _ \<Rightarrow> Some r))"
proof -
  have eq: "(if rows = [] then None else Some (hd (sort_desc rt_started_at rows)))
      = (case sort_desc rt_started_at rows of [] \<Rightarrow> None | r # _ \<Rightarrow> Some r)" for rows
    by (cases "sort_desc rt_started_at rows") auto
  show ?thesis
    unfolding latest_target_def Let_def eq by (simp add: conj_ac split: option.split)
qed

lemma round_sim_queries:
  assumes "round_sim s db"
  shows "map_sum id (map_option read_row) (pg_get_round t r db) = get_round t r s"
    and "map_sum id (map read_row) (pg_list_rounds t d st n k db) = list_rounds t d st n k s"
    and "pg_latest_target t x st db = latest_target t x st s"
    and "pg_list_targets t r db = list_targets t r s"
proof -
  have k: "keyed (\<lambda>row. (rd_tenant_id row, rd_round_id row)) (rs_rows s)"
    and rows: "map snd (rs_rows s) = map read_row (detection_round db)"
    and targets: "map snd (rs_target_rows s) = detection_round_target db"
    using assms by (simp_all add: round_sim_def round_inv_def)
  show "map_sum id (map_option read_row) (pg_get_round t r db) = get_round t r s"
    by (cases "t = []") (simp_all add: get_round_def pg_get_round_def keyed_find [OF k] rows find_map comp_def)
  show "map_sum id (map read_row) (pg_list_rounds t d st n k db) = list_rounds t d st n k s" for k
    by (cases "t = []") (simp_all add: list_rounds_filter pg_list_rounds_def rows filter_map sort_desc_map
        take_map drop_map comp_def split: option.split)
  show "pg_latest_target t x st db = latest_target t x st s"
    by (simp add: latest_target_cases pg_latest_target_def targets)
  show "pg_list_targets t r db = list_targets t r s"
    by (simp add: list_targets_def pg_list_targets_def targets)
qed

section \<open>Correctness\<close>

text \<open>C29. The PostgreSQL round store is the in-memory one with the columns' precision and the tables' keys. After any history of
  round and target operations of any tenants, all four queries of the database, page limits and filters included, answer
  what the in-memory store answers after the same history with every time as a TIMESTAMP(3) column keeps it and
  without the calls that create a round or a target of a round again, which the database refuses. One difference is
  left: a round that never reported degraded sources has a null where the in-memory row has an empty list.\<close>

theorem pg_rounds_refine:
  "let s = run_ops round_step (first_creations {} {} (map (\<lambda>(p, u). (as_kept ts3 p, u)) ops)) empty_rounds;
       db = run_ops (pg_round_step ts3) ops empty_round_db
   in map_sum id (map_option read_row) (pg_get_round t r db) = get_round t r s
    \<and> map_sum id (map read_row) (pg_list_rounds t d st n k db) = list_rounds t d st n k s
    \<and> pg_latest_target t x st db = latest_target t x st s
    \<and> pg_list_targets t r db = list_targets t r s"
proof -
  let ?ops = "map (\<lambda>(p, u). (as_kept ts3 p, u)) ops"
  have "round_sim (run_ops round_step (first_creations {} {} ?ops) empty_rounds) (run_ops (pg_round_step ts3) ops empty_round_db)"
    using round_sim_history [OF round_sim_empty, of ?ops] by (simp add: run_pg_kept [of ts3] empty_rounds_def)
  then show ?thesis using round_sim_queries by (simp add: Let_def)
qed

text \<open>Two patches of a target that give no field in common.\<close>

definition patch_disjoint :: "target_patch \<Rightarrow> target_patch \<Rightarrow> bool" where
  "patch_disjoint p q \<longleftrightarrow> (tu_status p = None \<or> tu_status q = None)
     \<and> (tu_finished_at p = None \<or> tu_finished_at q = None)
     \<and> (tu_signals_count p = None \<or> tu_signals_count q = None)
     \<and> (tu_anomaly_count p = None \<or> tu_anomaly_count q = None)
     \<and> (tu_record_count p = None \<or> tu_record_count q = None)
     \<and> (tu_suppressed_count p = None \<or> tu_suppressed_count q = None)
     \<and> (tu_error p = None \<or> tu_error q = None)
     \<and> (tu_request_params p = None \<or> tu_request_params q = None)"

text \<open>The value a patch leaves in a field.\<close>

definition given_or :: "'a option \<Rightarrow> 'a \<Rightarrow> 'a" where
  "given_or v old = (case v of None \<Rightarrow> old | Some x \<Rightarrow> x)"

lemma given_or_None [simp]: "given_or None x = x"
  by (simp add: given_or_def)

lemma given_or_commute: "v = None \<or> w = None \<Longrightarrow> given_or v (given_or w x) = given_or w (given_or v x)"
  by auto

lemma if_given_own: "(\<And>x r. sel (f x r) = g x) \<Longrightarrow> sel (if_given f v r) = given_or (map_option g v) (sel r)"
  by (simp add: if_given_def given_or_def split: option.split)

lemma patch_target_fields:
  "rt_status (patch_target p r) = given_or (tu_status p) (rt_status r)"
  "rt_finished_at (patch_target p r) = given_or (map_option Some (tu_finished_at p)) (rt_finished_at r)"
  "rt_signals_count (patch_target p r) = given_or (tu_signals_count p) (rt_signals_count r)"
  "rt_anomaly_count (patch_target p r) = given_or (tu_anomaly_count p) (rt_anomaly_count r)"
  "rt_record_count (patch_target p r) = given_or (tu_record_count p) (rt_record_count r)"
  "rt_suppressed_count (patch_target p r) = given_or (tu_suppressed_count p) (rt_suppressed_count r)"
  "rt_error (patch_target p r) = given_or (map_option Some (tu_error p)) (rt_error r)"
  "rt_request_params (patch_target p r)
     = given_or (map_option (\<lambda>d. Some (json_dict d)) (tu_request_params p)) (rt_request_params r)"
  "rt_started_at (patch_target p r) = rt_started_at r"
  by (simp_all add: patch_target_def Let_def if_given_distrib option.map_ident
      if_given_own [of rt_status _ "\<lambda>x. x"] if_given_own [of rt_finished_at _ Some]
      if_given_own [of rt_signals_count _ "\<lambda>x. x"] if_given_own [of rt_anomaly_count _ "\<lambda>x. x"]
      if_given_own [of rt_record_count _ "\<lambda>x. x"] if_given_own [of rt_suppressed_count _ "\<lambda>x. x"]
      if_given_own [of rt_error _ Some] if_given_own [of rt_request_params _ "\<lambda>d. Some (json_dict d)"])

lemma patch_target_commute:
  "patch_disjoint p q \<Longrightarrow> patch_target p (patch_target q r) = patch_target q (patch_target p r)"
  unfolding patch_disjoint_def
  by (rule target_row.equality; simp add: patch_target_fields; rule given_or_commute; simp)

lemma update_twice: "AList.update k v (AList.update k w d) = AList.update k v d"
  by (induction d) auto

text \<open>The two back-fills of a target's audit row, after collection and after the funnel, do not overwrite each
  other: updates of a target that give no field in common can be made in either order.\<close>

theorem target_updates_commute:
  assumes "patch_disjoint p q"
  shows "bind_res (update_target_status t r x p s) (update_target_status t r x q)
       = bind_res (update_target_status t r x q s) (update_target_status t r x p)"
  by (cases "t = []")
    (simp_all add: update_target_status_def map_of_update update_twice patch_target_commute [OF assms] split: option.split)

lemma target_updates_commute_witness:
  "bind_res (create_target ''t'' ''r'' ''a'' 0 empty_rounds) (\<lambda>s.
     bind_res (update_target_status ''t'' ''r'' ''a'' (no_target_patch\<lparr>tu_status := Some ''ok''\<rparr>) s)
       (update_target_status ''t'' ''r'' ''a'' (no_target_patch\<lparr>tu_anomaly_count := Some 2\<rparr>)))
   = bind_res (create_target ''t'' ''r'' ''a'' 0 empty_rounds) (\<lambda>s.
     bind_res (update_target_status ''t'' ''r'' ''a'' (no_target_patch\<lparr>tu_anomaly_count := Some 2\<rparr>) s)
       (update_target_status ''t'' ''r'' ''a'' (no_target_patch\<lparr>tu_status := Some ''ok''\<rparr>)))"
proof -
  have "patch_disjoint (no_target_patch\<lparr>tu_status := Some ''ok''\<rparr>) (no_target_patch\<lparr>tu_anomaly_count := Some 2\<rparr>)"
    by code_simp
  then show ?thesis by (simp only: target_updates_commute)
qed

end
