(* ===== verification/Apm_Pipeline.thy ===== *)
theory Apm_Pipeline
  imports Apm_Incidents Apm_Plugins Apm_DynConfig Apm_Records Apm_Rounds
begin

text \<open>
  \<open>pipeline/\<close>: one detection round of a tenant and domain. \<open>build_context\<close> collects rules and dynamic configuration,
  then \<open>run_domain\<close> runs L0 suppression, L1 detection, grouping, and for each incident group L2 correlation,
  L3 verification and \<open>emit\<close>, and finally the miss sweep.

  \<open>ctx\<close> is the \<open>DetectionContext\<close>; the stores it points to are the \<open>world\<close>, threaded through the
  steps. Signals carry an object identity, which the code compares with \<open>is\<close>. The hash of the fingerprints and
  the summary provider are parameters.
\<close>

section \<open>Context and stores\<close>

record suppressed_item =
  si_signal :: sigobj
  si_reason :: string
  si_suppressor :: string

record ctx =
  cx_trace_id :: string
  cx_tenant_id :: string
  cx_domain :: string
  cx_domain_config :: domain_config
  cx_registry :: registry
  cx_now :: time
  cx_summary_provider :: "(string \<Rightarrow> metric_anomaly list \<Rightarrow> log_anomaly list \<Rightarrow> string) option"
  cx_has_rounds :: bool
  cx_signals :: "sigobj list"
  cx_changes :: "change_signal list"
  cx_suppressed :: "suppressed_item list"
  cx_anomalies :: "anomaly list"
  cx_maintenance_windows :: "pydict list"
  cx_blacklist :: "pydict list"
  cx_fpr :: "(string \<times> fpr_row) list"
  cx_degraded_sources :: "string list"
  cx_round_started_at :: "time option"
  cx_seen_keys :: "string set"

record world =
  wd_records :: records
  wd_states :: det_store
  wd_sequences :: sequences
  wd_rounds :: round_store
  wd_dynamic :: dyn_config

text \<open>The rows of the \<open>change_event\<close> table become signals; a missing key or a value of another type raises.\<close>

definition str_field :: "pydict \<Rightarrow> string \<Rightarrow> string res" where
  "str_field d k = bind_res (key_index d k)
     (\<lambda>v. case v of PStr s \<Rightarrow> Inr s | _ \<Rightarrow> Inl (ValidationError k))"

definition change_of :: "string \<Rightarrow> pydict \<Rightarrow> change_signal res" where
  "change_of tenant_id c =
     bind_res (str_field c ''service'') (\<lambda>service.
     bind_res (str_field c ''change_id'') (\<lambda>change_id.
     bind_res (str_field c ''type'') (\<lambda>ty.
     bind_res (str_field c ''summary'') (\<lambda>summary.
     bind_res (key_index c ''changed_at'') (\<lambda>ts.
       case ts of PTime t \<Rightarrow> Inr \<lparr>cs_tenant_id = tenant_id, cs_service = service, cs_change_id = change_id,
           cs_type = ty, cs_summary = summary, cs_timestamp = t\<rparr>
       | _ \<Rightarrow> Inl (ValidationError ''timestamp''))))))"

text \<open>\<open>build_context\<close>. \<open>rows\<close> is what the configuration loader returns for the tenant: each row's domain with the
  outcome of validating its document; \<open>fresh_id\<close> the generated trace id.\<close>

definition select_config ::
  "string \<Rightarrow> string \<Rightarrow> (string \<times> domain_config res) list \<Rightarrow> domain_config res" where
  "select_config tenant_id domain rows =
     (case List.find (\<lambda>(d, c). d = domain) rows of
        None \<Rightarrow> Inl (ValueError ''no domain config'')
      | Some (d, c) \<Rightarrow> c)"

definition build_context ::
  "string \<Rightarrow> string \<Rightarrow> registry \<Rightarrow> time \<Rightarrow> string option \<Rightarrow> string \<Rightarrow> sigobj list \<Rightarrow> change_signal list option
   \<Rightarrow> string list \<Rightarrow> domain_config option \<Rightarrow> (string \<times> domain_config res) list res
   \<Rightarrow> (string \<Rightarrow> metric_anomaly list \<Rightarrow> log_anomaly list \<Rightarrow> string) option \<Rightarrow> world \<Rightarrow> ctx res" where
  "build_context tenant_id domain registry now trace_id fresh_id signals changes degraded_sources config rows provider w =
     bind_res (case config of Some c \<Rightarrow> Inr c
       | None \<Rightarrow> bind_res rows (select_config tenant_id domain)) (\<lambda>domain_config.
     bind_res (load_maintenance_windows tenant_id (wd_dynamic w)) (\<lambda>maintenance_windows.
     bind_res (load_blacklist tenant_id (wd_dynamic w)) (\<lambda>blacklist.
     bind_res (load_fpr tenant_id (wd_dynamic w)) (\<lambda>fpr.
     bind_res (case changes of Some cs \<Rightarrow> Inr cs
       | None \<Rightarrow> bind_res (load_changes tenant_id (wd_dynamic w)) (mapM (change_of tenant_id))) (\<lambda>changes.
     Inr \<lparr>cx_trace_id = (case trace_id of Some (c # cs) \<Rightarrow> c # cs | _ \<Rightarrow> fresh_id), cx_tenant_id = tenant_id,
       cx_domain = domain, cx_domain_config = domain_config, cx_registry = registry, cx_now = now,
       cx_summary_provider = provider, cx_has_rounds = True, cx_signals = signals, cx_changes = changes,
       cx_suppressed = [], cx_anomalies = [], cx_maintenance_windows = maintenance_windows,
       cx_blacklist = blacklist, cx_fpr = fpr, cx_degraded_sources = degraded_sources,
       cx_round_started_at = None, cx_seen_keys = {}\<rparr>)))))"

section \<open>L0 suppression\<close>

definition is_suppressed :: "suppressed_item list \<Rightarrow> sigobj \<Rightarrow> bool" where
  "is_suppressed items s = (\<exists>x \<in> set items. fst (si_signal x) = fst s)"

fun suppress_results ::
  "string \<Rightarrow> (sigobj \<times> string option) list \<Rightarrow> suppressed_item list \<Rightarrow> suppressed_item list" where
  "suppress_results name [] items = items"
| "suppress_results name ((s, reason) # rs) items =
     suppress_results name rs
       (case reason of
          Some (c # cs) \<Rightarrow> if is_suppressed items s then items
            else items @ [\<lparr>si_signal = s, si_reason = c # cs, si_suppressor = name\<rparr>]
        | _ \<Rightarrow> items)"

definition sup_ctx :: "ctx \<Rightarrow> suppress_ctx" where
  "sup_ctx cx = \<lparr>sx_maintenance_windows = cx_maintenance_windows cx, sx_blacklist = cx_blacklist cx\<rparr>"

fun suppress_loop :: "ctx \<Rightarrow> suppressor_spec list \<Rightarrow> suppressed_item list \<Rightarrow> suppressed_item list res" where
  "suppress_loop cx [] items = Inr items"
| "suppress_loop cx (sc # scs) items =
     bind_res (registry_get (cx_registry cx) ''suppressor'' (ss_name sc)) (\<lambda>p.
       case p of
         SuppressorPlugin supp \<Rightarrow>
           bind_res (sup_batch_check supp (cx_signals cx) (sup_ctx cx) (ss_params sc))
             (\<lambda>results. suppress_loop cx scs (suppress_results (ss_name sc) results items))
       | _ \<Rightarrow> suppress_loop cx scs items)"

definition l0_suppress :: "ctx \<Rightarrow> ctx res" where
  "l0_suppress cx =
     bind_res (suppress_loop cx (dc_suppressors (cx_domain_config cx)) []) (\<lambda>suppressed.
       Inr (cx\<lparr>cx_suppressed := suppressed,
               cx_signals := filter (\<lambda>s. \<not> is_suppressed suppressed s) (cx_signals cx)\<rparr>))"

section \<open>L1 detection\<close>

text \<open>The severity of the rule overrides that of the detector; a metric anomaly is labelled with the plugin.\<close>

fun calibrate :: "string \<Rightarrow> string \<Rightarrow> anomaly \<Rightarrow> anomaly" where
  "calibrate name sev (MetricAnomaly m) = MetricAnomaly (m\<lparr>ma_severity := sev, ma_method := name\<rparr>)"
| "calibrate name sev (LogAnomaly l) = LogAnomaly (l\<lparr>la_severity := sev\<rparr>)"

fun detect_loop :: "registry \<Rightarrow> signal list \<Rightarrow> detector_spec list \<Rightarrow> anomaly list \<Rightarrow> anomaly list res" where
  "detect_loop reg signals [] as = Inr as"
| "detect_loop reg signals (dc # dcs) as =
     bind_res (registry_get reg ''detector'' (ds_plugin dc)) (\<lambda>p.
     bind_res (filter_signals signals (ds_signal dc)) (\<lambda>matched.
       if matched = [] then detect_loop reg signals dcs as
       else (case p of
           DetectorPlugin d \<Rightarrow>
             (case det_detect d matched (ds_params dc) of
                Inl e \<Rightarrow> detect_loop reg signals dcs as
              | Inr detected \<Rightarrow>
                  detect_loop reg signals dcs (as @ map (calibrate (det_name d) (ds_severity dc)) detected))
         | _ \<Rightarrow> detect_loop reg signals dcs as)))"

definition l1_detect :: "ctx \<Rightarrow> ctx res" where
  "l1_detect cx =
     bind_res (detect_loop (cx_registry cx) (map snd (cx_signals cx)) (dc_detectors (cx_domain_config cx)) (cx_anomalies cx))
       (\<lambda>as. Inr (cx\<lparr>cx_anomalies := as\<rparr>))"

section \<open>L2 correlation\<close>

fun anom_ts :: "anomaly \<Rightarrow> time" where
  "anom_ts (MetricAnomaly m) = ma_detected_at m"
| "anom_ts (LogAnomaly l) = (case la_detected_at l of Some t \<Rightarrow> t | None \<Rightarrow> la_first_seen l)"

definition seconds :: "int \<Rightarrow> time" where
  "seconds n = n * 1000000"

definition within_window :: "metric_anomaly list \<Rightarrow> log_anomaly list \<Rightarrow> int \<Rightarrow> bool" where
  "within_window ms ls window_sec =
     (\<exists>m \<in> set ms. \<exists>l \<in> set ls. ma_service m = la_service l
        \<and> \<bar>anom_ts (MetricAnomaly m) - anom_ts (LogAnomaly l)\<bar> \<le> seconds window_sec)"

definition change_entry :: "change_signal \<Rightarrow> pydict" where
  "change_entry c = [(''change_id'', PStr (cs_change_id c)), (''summary'', PStr (cs_summary c)),
     (''changed_at'', PTime (cs_timestamp c))]"

definition change_within_window :: "change_signal list \<Rightarrow> anomaly list \<Rightarrow> int \<Rightarrow> bool \<times> pydict option" where
  "change_within_window changes anomalies window_sec =
     (case List.find (\<lambda>c. cs_service c \<in> an_service ` set anomalies
        \<and> (\<exists>a \<in> set anomalies. \<bar>cs_timestamp c - anom_ts a\<bar> \<le> seconds window_sec)) changes of
        None \<Rightarrow> (False, None)
      | Some c \<Rightarrow> (True, Some (change_entry c)))"

definition log_message :: "string \<Rightarrow> string" where
  "log_message sig =
     (if sig = [] then []
      else let first = hd (split_on (CHR ''|'') sig) in
        if CHR '':'' \<in> set first \<and> strip (after_first (CHR '':'') first) \<noteq> []
        then strip (after_first (CHR '':'') first) else first)"

text \<open>The separator of the summary is a full-width semicolon, here by its UTF-8 bytes.\<close>

definition SUMMARY_SEP :: string where
  "SUMMARY_SEP = map char_of [239, 188, 155 :: nat]"

definition template_summary :: "metric_anomaly list \<Rightarrow> log_anomaly list \<Rightarrow> string" where
  "template_summary ms ls = join SUMMARY_SEP
     (map (\<lambda>m. ma_metric m @ '' = '' @ float_repr (ma_value m)) ms
      @ map (\<lambda>l. log_message (la_signature l) @ '' x'' @ show_nat (la_count l)) ls)"

definition TemplateSummaryProvider :: "string \<Rightarrow> metric_anomaly list \<Rightarrow> log_anomaly list \<Rightarrow> string" where
  "TemplateSummaryProvider service ms ls = template_summary ms ls"

definition l2_correlate :: "ctx \<Rightarrow> anomaly list \<Rightarrow> correlation \<times> bool \<times> pydict option" where
  "l2_correlate cx anomalies =
     (let cs = dc_correlation (cx_domain_config cx); ms = metric_anoms anomalies; ls = log_anoms anomalies;
          related = within_window ms ls (cp_metric_log_window_sec cs);
          reason = (if related then ''metric_log_within_window''
            else if ms \<noteq> [] \<and> ls = [] then ''metric_only''
            else if ls \<noteq> [] \<and> ms = [] then ''log_only'' else ''unrelated'');
          (change_related, recent_change) =
            change_within_window (cx_changes cx) anomalies (cp_change_window_sec cs)
      in (\<lparr>co_related = related, co_reason = reason\<rparr>, change_related, recent_change))"

section \<open>L3 verification\<close>

definition rank_name :: "int \<Rightarrow> string" where
  "rank_name n = (if n = 2 then ''critical'' else if n = 1 then ''high'' else ''warning'')"

definition calibrate_severity :: "anomaly list \<Rightarrow> bool \<Rightarrow> string" where
  "calibrate_severity anomalies related =
     (if anomalies = [] then ''warning''
      else if related \<and> (\<exists>a \<in> set anomalies. is_metric a \<and> an_severity a = ''high'')
                \<and> (\<exists>a \<in> set anomalies. is_log a \<and> an_severity a = ''high'')
      then ''critical''
      else rank_name (Max (set (map (\<lambda>a. severity_rank (an_severity a)) anomalies))))"

text \<open>The persistence loop: counters are incremented one anomaly after the other.\<close>

fun persist_loop ::
  "(string \<Rightarrow> string) \<Rightarrow> ctx \<Rightarrow> anomaly list \<Rightarrow> det_store \<Rightarrow> string set \<Rightarrow> (anomaly list \<times> det_store \<times> string set) res" where
  "persist_loop sha cx [] st seen = Inr ([], st, seen)"
| "persist_loop sha cx (a # as) st seen =
     (let key = anomaly_key sha a in
      bind_res (ds_get (cx_tenant_id cx) (cx_domain cx) key st) (\<lambda>state.
      let prev = (case state of None \<Rightarrow> 0 | Some r \<Rightarrow> st_consecutive_rounds r);
          first_seen = (case state of None \<Rightarrow> cx_now cx | Some r \<Rightarrow> st_first_seen r);
          new_consecutive = prev + 1 in
      bind_res (ds_upsert (cx_tenant_id cx) (cx_domain cx) key new_consecutive 0 first_seen (cx_now cx) st) (\<lambda>st'.
      bind_res (persist_loop sha cx as st' (insert key seen)) (\<lambda>(persisted, st'', seen').
        Inr (if vs_persistence_rounds (dc_verify (cx_domain_config cx)) \<le> new_consecutive
             then a # persisted else persisted, st'', seen')))))"

definition fpr_ok :: "verify_spec \<Rightarrow> fpr_row \<Rightarrow> bool" where
  "fpr_ok vc entry = (fp_total entry < vs_min_samples vc \<or> fp_fpr entry < vs_false_positive_threshold vc)"

definition fpr_entry :: "ctx \<Rightarrow> string \<Rightarrow> fpr_row" where
  "fpr_entry cx gk = (case map_of (cx_fpr cx) gk of None \<Rightarrow> \<lparr>fp_fpr = 0, fp_total = 0\<rparr> | Some e \<Rightarrow> e)"

definition l3_verify ::
  "(string \<Rightarrow> string) \<Rightarrow> string \<Rightarrow> anomaly list \<Rightarrow> bool \<Rightarrow> ctx \<times> world \<Rightarrow> (verification \<times> ctx \<times> world) res" where
  "l3_verify sha service anomalies related = (\<lambda>(cx, w).
     bind_res (persist_loop sha cx anomalies (wd_states w) (cx_seen_keys cx)) (\<lambda>(persisted, st, seen).
       let cx' = cx\<lparr>cx_seen_keys := seen\<rparr>; w' = w\<lparr>wd_states := st\<rparr> in
       if persisted = [] then
         Inr (\<lparr>ve_passed = False, ve_persistence_ok = False, ve_resample_ok = True,
               ve_false_positive_rate = 0, ve_final_severity = ''warning''\<rparr>, cx', w')
       else
         let gk = group_key sha (cx_tenant_id cx) (cx_domain cx) service persisted;
             entry = fpr_entry cx gk;
             severity = (if \<not> fpr_ok (dc_verify (cx_domain_config cx)) entry then ''warning''
                         else calibrate_severity persisted related)
         in Inr (\<lparr>ve_passed = True, ve_persistence_ok = True, ve_resample_ok = True,
                  ve_false_positive_rate = fp_fpr entry, ve_final_severity = severity\<rparr>, cx', w')))"

section \<open>Emitting a record\<close>

definition round_target_ids :: "ctx \<Rightarrow> world \<Rightarrow> string list res" where
  "round_target_ids cx w =
     (if \<not> cx_has_rounds cx then Inr []
      else bind_res (get_round (cx_tenant_id cx) (cx_trace_id cx) (wd_rounds w))
        (\<lambda>row. Inr (case row of None \<Rightarrow> [] | Some r \<Rightarrow> rd_target_ids r)))"

definition strs :: "string list \<Rightarrow> pyval" where
  "strs xs = PList (map PStr xs)"

definition emit_evidence :: "ctx \<Rightarrow> world \<Rightarrow> log_anomaly list \<Rightarrow> pydict list res" where
  "emit_evidence cx w ls =
     (let degraded = (if cx_degraded_sources cx = [] then []
            else [[(''type'', PStr ''degraded''), (''round_id'', PStr (cx_trace_id cx)),
                   (''target_ids'', strs (cx_degraded_sources cx))]]);
          log_trace_ids = dedup (concat (map la_trace_ids ls)) {}
      in if log_trace_ids = [] then Inr degraded
         else bind_res (round_target_ids cx w) (\<lambda>tids.
           Inr (degraded @ [[(''type'', PStr ''log_trace_ids''), (''round_id'', PStr (cx_trace_id cx)),
             (''target_ids'', strs tids), (''trace_ids'', strs log_trace_ids),
             (''count'', PInt (int (length log_trace_ids)))]])))"

definition emit ::
  "(string \<Rightarrow> string) \<Rightarrow> ctx \<Rightarrow> string \<Rightarrow> anomaly list \<Rightarrow> correlation \<Rightarrow> bool \<Rightarrow> pydict option \<Rightarrow> verification
   \<Rightarrow> string option \<Rightarrow> world \<Rightarrow> (problem_record list \<times> world) res" where
  "emit sha cx service anomalies corr change_related recent_change ver group_key_service w =
     (if \<not> ve_passed ver then Inr ([], w)
      else
        let ms = metric_anoms anomalies; ls = log_anoms anomalies in
        bind_res (emit_evidence cx w ls) (\<lambda>evidence.
        let provider = (case cx_summary_provider cx of Some p \<Rightarrow> p | None \<Rightarrow> TemplateSummaryProvider);
            summary = provider service ms ls;
            (record_id, sq) = next_id (cx_domain cx) (cx_now cx) (wd_sequences w);
            r = \<lparr>pr_record_id = record_id, pr_source = ''apm-alert'', pr_tenant_id = cx_tenant_id cx, pr_domain = cx_domain cx,
                 pr_state = ''pending'', pr_service = service, pr_instance = None, pr_severity = ve_final_severity ver,
                 pr_detected_at = cx_now cx, pr_first_seen_at = Some (cx_now cx), pr_last_seen_at = Some (cx_now cx),
                 pr_occurrence_count = 1, pr_resolved_at = None, pr_resolve_reason = None,
                 pr_symptom = [(''summary'', PStr summary)], pr_metric_anomalies = ms, pr_log_anomalies = ls,
                 pr_correlation = corr, pr_change_related = change_related, pr_recent_change = recent_change,
                 pr_verification = ver, pr_evidence = evidence, pr_trace_id = Some (cx_trace_id cx),
                 pr_group_key_service = group_key_service\<rparr>
        in bind_res (write_or_append sha (cx_tenant_id cx) r (wd_records w)) (\<lambda>rows.
             Inr ([r], w\<lparr>wd_sequences := sq, wd_records := rows\<rparr>))))"

section \<open>The round\<close>

definition signal_summary :: "signal \<Rightarrow> string" where
  "signal_summary s = take 200 (case s of
     LogSignal l \<Rightarrow> ''log:'' @ ls_service l @ '':'' @
       (case ls_signature l of Some (c # cs) \<Rightarrow> c # cs | _ \<Rightarrow> ls_level l)
   | MetricSignal m \<Rightarrow> ''metric:'' @ ms_service m @ '':'' @ ms_metric m
   | ChangeSignal c \<Rightarrow> ''metric:'' @ cs_service c @ '':?'')"

record domain_result =
  dr_domain :: string
  dr_records :: "problem_record list"
  dr_suppressed_count :: nat
  dr_anomaly_count :: nat
  dr_degraded_sources :: "string list"
  dr_timeline :: "pydict list"
  dr_anomalies_by_service :: "(string \<times> nat) list"
  dr_records_by_service :: "(string \<times> nat) list"
  dr_suppressed_by_service :: "(string \<times> nat) list"

definition step_entry :: "string \<Rightarrow> (string \<times> pyval) list \<Rightarrow> pydict" where
  "step_entry name kvs = (''step'', PStr name) # kvs"

definition suppressed_entry :: "ctx \<Rightarrow> pydict" where
  "suppressed_entry cx = step_entry ''suppressed'' [(''ts'', PTime (cx_now cx)),
     (''count'', PInt (int (length (cx_suppressed cx)))),
     (''details'', PList (map (\<lambda>item. PDict
        [(''signal'', PStr (signal_summary (snd (si_signal item)))),
         (''service'', PStr (sig_service (snd (si_signal item)))),
         (''suppressor'', PStr (si_suppressor item)),
         (''reason'', PStr (take 200 (si_reason item)))]) (cx_suppressed cx)))]"

fun group_loop ::
  "(string \<Rightarrow> string) \<Rightarrow> anomaly list list \<Rightarrow> problem_record list \<Rightarrow> (string \<times> nat) list \<Rightarrow> ctx \<times> world
   \<Rightarrow> (problem_record list \<times> (string \<times> nat) list \<times> ctx \<times> world) res" where
  "group_loop sha [] records by_service (cx, w) = Inr (records, by_service, cx, w)"
| "group_loop sha (g # gs) records by_service (cx, w) =
     (let services = group_services g; rep = representative_service g;
          (corr, change_related, recent_change) = l2_correlate cx g in
      bind_res (l3_verify sha rep g (co_related corr) (cx, w)) (\<lambda>(ver, cx', w').
      bind_res (emit sha cx' (join '','' services) g corr change_related recent_change ver (Some rep) w') (\<lambda>(emitted, w'').
        group_loop sha gs (records @ emitted)
          (fold (\<lambda>svc. bump_count svc (length emitted)) services by_service) (cx', w''))))"

definition run_domain :: "(string \<Rightarrow> string) \<Rightarrow> ctx \<times> world \<Rightarrow> (domain_result \<times> ctx \<times> world) res" where
  "run_domain sha = (\<lambda>(cx0, w0).
     let cx1 = cx0\<lparr>cx_round_started_at := Some (cx_now cx0)\<rparr>;
         t1 = step_entry ''collect_done'' [(''ts'', PTime (cx_now cx1)), (''count'', PInt (int (length (cx_signals cx1))))] in
     bind_res (l0_suppress cx1) (\<lambda>cx2.
     bind_res (l1_detect cx2) (\<lambda>cx3.
     bind_res (group_anomalies (cx_anomalies cx3)) (\<lambda>groups.
     let t3 = step_entry ''detected'' [(''count'', PInt (int (length (cx_anomalies cx3))))];
         t4 = step_entry ''correlated'' [(''services'', strs (sorted_set (map an_service (cx_anomalies cx3))))];
         anomalies_by_service = fold (\<lambda>a. bump_count (an_service a) 1) (cx_anomalies cx3) [];
         suppressed_by_service =
           fold (\<lambda>x. bump_count (sig_service (snd (si_signal x))) 1) (cx_suppressed cx3) [] in
     bind_res (group_loop sha groups [] [] (cx3, w0)) (\<lambda>(records, records_by_service, cx4, w1).
     bind_res (ds_sweep (cx_tenant_id cx4) (cx_domain cx4) (cx_seen_keys cx4) (wd_states w1)) (\<lambda>st.
     Inr (\<lparr>dr_domain = cx_domain cx4, dr_records = records, dr_suppressed_count = length (cx_suppressed cx4),
           dr_anomaly_count = length (cx_anomalies cx4), dr_degraded_sources = cx_degraded_sources cx4,
           dr_timeline = [t1, suppressed_entry cx2, t3, t4,
             step_entry ''record_created'' [(''count'', PInt (int (length records)))]],
           dr_anomalies_by_service = anomalies_by_service, dr_records_by_service = records_by_service,
           dr_suppressed_by_service = suppressed_by_service\<rparr>, cx4, w1\<lparr>wd_states := st\<rparr>)))))))"

end
