(* ===== verification/Apm_Funnel.thy ===== *)
theory Apm_Funnel
  imports Apm_Pipeline
begin

text \<open>
  Correctness of the detection round modelled in \<open>Apm_Pipeline\<close>: what suppression removes, where anomalies come from,
  when an incident is opened and with which severity, what a round does to the detection state and
  to the problem records, and that it completes.
\<close>

section \<open>Suppression\<close>

text \<open>What the pipeline assumes of the plugins of a registry; the built-in ones satisfy it.\<close>

definition lawful :: "registry \<Rightarrow> bool" where
  "lawful reg \<longleftrightarrow>
     (\<forall>name p. registry_get reg ''suppressor'' name = Inr (SuppressorPlugin p) \<longrightarrow> suppressor_laws (sup_batch_check p))
   \<and> (\<forall>name p. registry_get reg ''detector'' name = Inr (DetectorPlugin p) \<longrightarrow> detector_laws (det_detect p))"

text \<open>A rule hits a signal: its suppressor gives a non-empty reason.\<close>

definition rule_hits :: "ctx \<Rightarrow> sigobj \<Rightarrow> suppressor_spec \<Rightarrow> bool" where
  "rule_hits cx s sc = (\<exists>p r. registry_get (cx_registry cx) ''suppressor'' (ss_name sc) = Inr (SuppressorPlugin p)
     \<and> sup_batch_check p [s] (sup_ctx cx) (ss_params sc) = Inr [(s, Some r)] \<and> r \<noteq> [])"

lemma suppress_results_items:
  "distinct (map (\<lambda>x. fst (si_signal x)) items) \<Longrightarrow>
     distinct (map (\<lambda>x. fst (si_signal x)) (suppress_results name rs items))
   \<and> si_signal ` set items \<subseteq> si_signal ` set (suppress_results name rs items)
   \<and> fst ` si_signal ` set (suppress_results name rs items)
       = fst ` si_signal ` set items \<union> fst ` {s. \<exists>r. (s, Some r) \<in> set rs \<and> r \<noteq> []}
   \<and> si_signal ` set (suppress_results name rs items)
       \<subseteq> si_signal ` set items \<union> {s. \<exists>r. (s, Some r) \<in> set rs \<and> r \<noteq> []}"
proof (induction name rs items rule: suppress_results.induct)
  case (2 name s reason rs items)
  let ?items = "case reason of Some (c # cs) \<Rightarrow> if is_suppressed items s then items
       else items @ [\<lparr>si_signal = s, si_reason = c # cs, si_suppressor = name\<rparr>] | _ \<Rightarrow> items"
  consider (skip) "reason = None \<or> reason = Some []" | (old) c cs where "reason = Some (c # cs)" "is_suppressed items s"
    | (new) c cs where "reason = Some (c # cs)" "\<not> is_suppressed items s"
    by (metis list.exhaust option.exhaust)
  then show ?case
  proof cases
    case skip
    then have eq: "?items = items" "{x. \<exists>r. (x, Some r) \<in> set ((s, reason) # rs) \<and> r \<noteq> []} = {x. \<exists>r. (x, Some r) \<in> set rs \<and> r \<noteq> []}"
      by auto
    have "suppress_results name ((s, reason) # rs) items = suppress_results name rs items" using eq(1) by simp
    with 2 eq show ?thesis by (simp only:)
  next
    case old
    then obtain x where "x \<in> set items" "fst s = fst (si_signal x)" by (auto simp: is_suppressed_def)
    then have "fst s \<in> fst ` si_signal ` set items" by (simp add: image_image)
    moreover from old have "suppress_results name ((s, reason) # rs) items = suppress_results name rs items" by simp
    moreover from old have "{x. \<exists>r. (x, Some r) \<in> set ((s, reason) # rs) \<and> r \<noteq> []} = insert s {x. \<exists>r. (x, Some r) \<in> set rs \<and> r \<noteq> []}"
      by auto
    ultimately show ?thesis using 2 old by (simp add: insert_absorb) blast
  next
    case new
    let ?new = "items @ [\<lparr>si_signal = s, si_reason = c # cs, si_suppressor = name\<rparr>]"
    from new have "fst s \<notin> (\<lambda>x. fst (si_signal x)) ` set items" by (auto simp: is_suppressed_def)
    then have d: "distinct (map (\<lambda>x. fst (si_signal x)) ?new)" using 2(2) by simp
    have "suppress_results name ((s, reason) # rs) items = suppress_results name rs ?new" using new by simp
    moreover from new have "{x. \<exists>r. (x, Some r) \<in> set ((s, reason) # rs) \<and> r \<noteq> []} = insert s {x. \<exists>r. (x, Some r) \<in> set rs \<and> r \<noteq> []}"
      by auto
    ultimately show ?thesis using 2(1) new d by simp
  qed
qed simp

lemma registry_laws:
  "lawful reg \<Longrightarrow> registry_get reg ''suppressor'' name = Inr (SuppressorPlugin p) \<Longrightarrow> suppressor_laws (sup_batch_check p)"
  "lawful reg \<Longrightarrow> registry_get reg ''detector'' name = Inr (DetectorPlugin q) \<Longrightarrow> detector_laws (det_detect q)"
  by (auto simp: lawful_def)

lemma rule_hits_results:
  assumes "lawful (cx_registry cx)"
    and "registry_get (cx_registry cx) ''suppressor'' (ss_name sc) = Inr (SuppressorPlugin p)"
    and "sup_batch_check p (cx_signals cx) (sup_ctx cx) (ss_params sc) = Inr rs"
  shows "{s. \<exists>r. (s, Some r) \<in> set rs \<and> r \<noteq> []} = {s \<in> set (cx_signals cx). rule_hits cx s sc}"
proof -
  note laws = registry_laws(1) [OF assms(1,2)]
  have single: "sup_batch_check p [s] (sup_ctx cx) (ss_params sc) = Inr [(s, r)]" if "(s, r) \<in> set rs" for s r
    using suppressor_laws.batch_local [OF laws assms(3) that] .
  have dom: "fst ` set rs = set (cx_signals cx)"
    using suppressor_laws.batch_covers [OF laws assms(3)] by (metis set_map)
  show ?thesis
  proof (intro set_eqI iffI)
    fix s assume "s \<in> {s. \<exists>r. (s, Some r) \<in> set rs \<and> r \<noteq> []}"
    then obtain r where r: "(s, Some r) \<in> set rs" "r \<noteq> []" by blast
    then have "s \<in> fst ` set rs" by force
    with r single assms(2) dom show "s \<in> {s \<in> set (cx_signals cx). rule_hits cx s sc}"
      by (auto simp: rule_hits_def)
  next
    fix s assume "s \<in> {s \<in> set (cx_signals cx). rule_hits cx s sc}"
    then obtain r where "s \<in> fst ` set rs" "r \<noteq> []"
      and r: "sup_batch_check p [s] (sup_ctx cx) (ss_params sc) = Inr [(s, Some r)]"
      using dom assms(2) by (auto simp: rule_hits_def)
    then obtain q where q: "(s, q) \<in> set rs" by auto
    with single [OF q] r have "q = Some r" by simp
    with q \<open>r \<noteq> []\<close> show "s \<in> {s. \<exists>r. (s, Some r) \<in> set rs \<and> r \<noteq> []}" by blast
  qed
qed

definition hit_by :: "ctx \<Rightarrow> suppressor_spec list \<Rightarrow> sigobj set" where
  "hit_by cx scs = {s \<in> set (cx_signals cx). \<exists>sc \<in> set scs. rule_hits cx s sc}"

lemma suppress_loop_items:
  assumes "lawful (cx_registry cx)" "inj_on fst (set (cx_signals cx))"
    and "suppress_loop cx scs items = Inr items'"
    and "distinct (map (\<lambda>x. fst (si_signal x)) items)" "si_signal ` set items \<subseteq> set (cx_signals cx)"
  shows "distinct (map (\<lambda>x. fst (si_signal x)) items') \<and> si_signal ` set items' = si_signal ` set items \<union> hit_by cx scs"
  using assms(3-5)
proof (induction scs arbitrary: items)
  case Nil
  then show ?case by (simp add: hit_by_def)
next
  case (Cons sc scs)
  show ?case
  proof (cases "registry_get (cx_registry cx) ''suppressor'' (ss_name sc)")
    case (Inr p)
    show ?thesis
    proof (cases "\<exists>q. p = SuppressorPlugin q")
      case True
      then obtain q where q: "p = SuppressorPlugin q" by blast
      with Cons.prems(1) Inr obtain rs where rs: "sup_batch_check q (cx_signals cx) (sup_ctx cx) (ss_params sc) = Inr rs"
        "suppress_loop cx scs (suppress_results (ss_name sc) rs items) = Inr items'" by auto
      let ?items = "suppress_results (ss_name sc) rs items" and ?H = "{s \<in> set (cx_signals cx). rule_hits cx s sc}"
      note hits = rule_hits_results [OF assms(1) Inr [unfolded q] rs(1)]
      note res = suppress_results_items [OF Cons.prems(2), of "ss_name sc" rs, unfolded hits]
      have sub: "si_signal ` set ?items \<subseteq> set (cx_signals cx)" using res Cons.prems(3) by blast
      have "si_signal ` set ?items = si_signal ` set items \<union> ?H"
      proof (rule inj_on_image_eq_iff [OF assms(2), THEN iffD1])
        show "fst ` si_signal ` set ?items = fst ` (si_signal ` set items \<union> ?H)" using res by (simp add: image_Un)
      qed (use sub Cons.prems(3) in auto)
      moreover have "hit_by cx (sc # scs) = ?H \<union> hit_by cx scs" by (auto simp: hit_by_def)
      ultimately show ?thesis using Cons.IH [OF rs(2) conjunct1 [OF res] sub] by (simp only: Un_assoc)
    next
      case False
      then have "suppress_loop cx scs items = Inr items'" using Cons.prems(1) Inr by (cases p) auto
      moreover have "hit_by cx (sc # scs) = hit_by cx scs" using Inr False by (auto simp: hit_by_def rule_hits_def)
      ultimately show ?thesis using Cons.IH Cons.prems(2,3) by simp
    qed
  qed (use Cons.prems in simp)
qed

lemma l0_suppress_spec:
  assumes "lawful (cx_registry cx)" "distinct (map fst (cx_signals cx))" "l0_suppress cx = Inr cx'"
  shows "distinct (map si_signal (cx_suppressed cx'))"
    and "si_signal ` set (cx_suppressed cx') = hit_by cx (dc_suppressors (cx_domain_config cx))"
    and "cx_signals cx' = filter (\<lambda>s. s \<notin> hit_by cx (dc_suppressors (cx_domain_config cx))) (cx_signals cx)"
proof -
  let ?scs = "dc_suppressors (cx_domain_config cx)"
  have inj: "inj_on fst (set (cx_signals cx))" using assms(2) by (simp add: distinct_map)
  from assms(3) obtain items where items: "suppress_loop cx ?scs [] = Inr items"
    and cx': "cx' = cx\<lparr>cx_suppressed := items, cx_signals := filter (\<lambda>s. \<not> is_suppressed items s) (cx_signals cx)\<rparr>"
    by (auto simp: l0_suppress_def)
  from suppress_loop_items [OF assms(1) inj items] have d: "distinct (map (\<lambda>x. fst (si_signal x)) items)"
    and hit: "si_signal ` set items = hit_by cx ?scs" by auto
  show "distinct (map si_signal (cx_suppressed cx'))"
    using d cx' by (auto simp: distinct_map inj_on_def)
  show "si_signal ` set (cx_suppressed cx') = hit_by cx ?scs" using hit cx' by simp
  have "is_suppressed items s \<longleftrightarrow> s \<in> hit_by cx ?scs" if s: "s \<in> set (cx_signals cx)" for s
  proof -
    have "is_suppressed items s \<longleftrightarrow> fst s \<in> fst ` hit_by cx ?scs"
      unfolding is_suppressed_def hit [symmetric] by (auto simp: image_iff) (metis fst_conv)+
    also have "\<dots> \<longleftrightarrow> s \<in> hit_by cx ?scs"
      using inj s by (auto simp: hit_by_def inj_on_def)
    finally show ?thesis .
  qed
  then show "cx_signals cx' = filter (\<lambda>s. s \<notin> hit_by cx ?scs) (cx_signals cx)"
    using cx' by (auto intro: filter_cong)
qed

section \<open>Detection\<close>

lemma calibrate_sel [simp]:
  "an_service (calibrate n sev a) = an_service a" "an_tenant (calibrate n sev a) = an_tenant a"
  "an_severity (calibrate n sev a) = sev" "is_metric (calibrate n sev a) = is_metric a"
  by (cases a; simp)+

text \<open>A rule explains an anomaly: its detector, run on the signals the rule selects, found it, and the anomaly
  speaks of one of these signals and has the severity of the rule.\<close>

definition explains :: "registry \<Rightarrow> signal list \<Rightarrow> detector_spec \<Rightarrow> anomaly \<Rightarrow> bool" where
  "explains reg signals dc a = (\<exists>d matched detected b. registry_get reg ''detector'' (ds_plugin dc) = Inr (DetectorPlugin d)
     \<and> filter_signals signals (ds_signal dc) = Inr matched \<and> det_detect d matched (ds_params dc) = Inr detected
     \<and> b \<in> set detected \<and> a = calibrate (det_name d) (ds_severity dc) b)"

lemma detect_loop_explained:
  "detect_loop reg signals dcs as = Inr bs \<Longrightarrow> b \<in> set bs \<Longrightarrow> b \<in> set as \<or> (\<exists>dc \<in> set dcs. explains reg signals dc b)"
proof (induction dcs arbitrary: as)
  case (Cons dc dcs)
  from Cons.prems(1) obtain p ms where p: "registry_get reg ''detector'' (ds_plugin dc) = Inr p"
    and ms: "filter_signals signals (ds_signal dc) = Inr ms" by auto
  consider (skip) "detect_loop reg signals dcs as = Inr bs"
    | (run) d ds where "p = DetectorPlugin d" "det_detect d ms (ds_params dc) = Inr ds"
      "detect_loop reg signals dcs (as @ map (calibrate (det_name d) (ds_severity dc)) ds) = Inr bs"
    using Cons.prems(1) p ms by (auto split: if_splits plugin.splits sum.splits)
  then show ?case
  proof cases
    case skip
    then show ?thesis using Cons.IH Cons.prems(2) by auto
  next
    case run
    then show ?thesis using Cons.IH [OF run(3) Cons.prems(2)] p ms by (auto simp: explains_def)
  qed
qed simp

lemma filterM_subset: "filterM f xs = Inr ys \<Longrightarrow> set ys \<subseteq> set xs"
  by (induction xs arbitrary: ys) (auto split: if_splits)

lemma filter_signals_subset: "filter_signals ss m = Inr ms \<Longrightarrow> set ms \<subseteq> set ss"
  by (auto simp: filter_signals_def dest!: filterM_subset split: if_splits pyval.splits)

lemma explained_grounded:
  assumes "lawful reg" "explains reg signals dc a"
  shows "\<exists>s \<in> set signals. sig_service s = an_service a \<and> sig_tenant s = an_tenant a \<and> an_severity a = ds_severity dc"
proof -
  from assms(2) obtain d ms ds b where d: "registry_get reg ''detector'' (ds_plugin dc) = Inr (DetectorPlugin d)"
    "filter_signals signals (ds_signal dc) = Inr ms" "det_detect d ms (ds_params dc) = Inr ds"
    "b \<in> set ds" "a = calibrate (det_name d) (ds_severity dc) b" by (auto simp: explains_def)
  from detector_laws.detect_grounded [OF registry_laws(2) [OF assms(1) d(1)] d(3,4)]
  obtain s where "s \<in> set ms" "sig_service s = an_service b" "sig_tenant s = an_tenant b" by blast
  with d(5) filter_signals_subset [OF d(2)] show ?thesis by auto
qed

section \<open>Persistence\<close>

text \<open>The counter of a key before the round.\<close>

definition prev_rounds :: "ctx \<Rightarrow> det_store \<Rightarrow> string \<Rightarrow> int" where
  "prev_rounds cx st k = (case map_of st (cx_tenant_id cx, cx_domain cx, k) of None \<Rightarrow> 0 | Some r \<Rightarrow> st_consecutive_rounds r)"

text \<open>What a round leaves under a key that occurred \<open>n > 0\<close> times.\<close>

definition seen_state :: "ctx \<Rightarrow> det_store \<Rightarrow> string \<Rightarrow> nat \<Rightarrow> det_state" where
  "seen_state cx st k n = \<lparr>st_consecutive_rounds = prev_rounds cx st k + int n, st_miss_rounds = 0,
     st_first_seen = (case map_of st (cx_tenant_id cx, cx_domain cx, k) of None \<Rightarrow> cx_now cx | Some r \<Rightarrow> st_first_seen r),
     st_last_seen = cx_now cx\<rparr>"

definition bumped :: "(string \<Rightarrow> string) \<Rightarrow> ctx \<Rightarrow> anomaly list \<Rightarrow> det_store \<Rightarrow> det_store \<Rightarrow> bool" where
  "bumped sha cx as st st' \<longleftrightarrow> (\<forall>t d k. map_of st' (t, d, k) =
     (if t = cx_tenant_id cx \<and> d = cx_domain cx \<and> k \<in> anomaly_key sha ` set as
      then Some (seen_state cx st k (length (filter (\<lambda>a. anomaly_key sha a = k) as)))
      else map_of st (t, d, k)))"

text \<open>The positions at which the persistence gate opens.\<close>

definition gate_open :: "(string \<Rightarrow> string) \<Rightarrow> ctx \<Rightarrow> det_store \<Rightarrow> anomaly list \<Rightarrow> nat \<Rightarrow> bool" where
  "gate_open sha cx st as i \<longleftrightarrow> i < length as \<and> vs_persistence_rounds (dc_verify (cx_domain_config cx))
     \<le> prev_rounds cx st (anomaly_key sha (as ! i))
       + int (length (filter (\<lambda>a. anomaly_key sha a = anomaly_key sha (as ! i)) (take (Suc i) as)))"

lemma bumped_Nil: "bumped sha cx [] st st' \<longleftrightarrow> map_of st' = map_of st"
  by (auto simp: bumped_def fun_eq_iff)

lemma bumped_trans:
  assumes "bumped sha cx as st st1" "bumped sha cx bs st1 st2"
  shows "bumped sha cx (as @ bs) st st2"
proof -
  let ?k = "anomaly_key sha" and ?c = "\<lambda>xs k. length (filter (\<lambda>a. anomaly_key sha a = k) xs)"
  have none: "?c xs k = 0" if "k \<notin> ?k ` set xs" for xs k using that by (auto simp: filter_empty_conv)
  have "seen_state cx st1 k (?c bs k) = seen_state cx st k (?c (as @ bs) k)" if "k \<in> ?k ` set bs" for k
  proof (cases "k \<in> ?k ` set as")
    case True
    then have "map_of st1 (cx_tenant_id cx, cx_domain cx, k) = Some (seen_state cx st k (?c as k))"
      using assms(1) by (simp add: bumped_def)
    then show ?thesis by (simp add: seen_state_def prev_rounds_def)
  next
    case False
    then have "map_of st1 (cx_tenant_id cx, cx_domain cx, k) = map_of st (cx_tenant_id cx, cx_domain cx, k)"
      using assms(1) by (simp add: bumped_def)
    with none [OF False] show ?thesis by (simp add: seen_state_def prev_rounds_def)
  qed
  moreover have "seen_state cx st k (?c as k) = seen_state cx st k (?c (as @ bs) k)" if "k \<notin> ?k ` set bs" for k
    using none [OF that] by simp
  ultimately show ?thesis
    using assms unfolding bumped_def by (simp add: image_Un)
qed

lemma persist_loop_spec:
  assumes "cx_tenant_id cx \<noteq> []"
  shows "\<exists>persisted st'. persist_loop sha cx as st seen = Inr (persisted, st', seen \<union> anomaly_key sha ` set as)
     \<and> bumped sha cx as st st' \<and> persisted = map ((!) as) (filter (gate_open sha cx st as) [0..<length as])"
proof (induction as arbitrary: st seen)
  case Nil
  then show ?case by (simp add: bumped_Nil)
next
  case (Cons a as)
  let ?k = "anomaly_key sha a" and ?pk = "(cx_tenant_id cx, cx_domain cx, anomaly_key sha a)"
  define st1 where "st1 = AList.update ?pk (seen_state cx st ?k 1) st"
  obtain ps st' where ih: "persist_loop sha cx as st1 (insert ?k seen) = Inr (ps, st', insert ?k seen \<union> anomaly_key sha ` set as)"
    "bumped sha cx as st1 st'" "ps = map ((!) as) (filter (gate_open sha cx st1 as) [0..<length as])"
    using Cons.IH [of st1 "insert ?k seen"] by blast
  let ?open = "vs_persistence_rounds (dc_verify (cx_domain_config cx)) \<le> prev_rounds cx st ?k + 1"
  have run: "persist_loop sha cx (a # as) st seen = Inr (if ?open then a # ps else ps, st', seen \<union> anomaly_key sha ` set (a # as))"
    using assms ih(1)
    by (simp add: Let_def ds_get_def ds_upsert_def st1_def seen_state_def prev_rounds_def cong: option.case_cong)
  have "bumped sha cx [a] st st1"
    by (simp add: bumped_def st1_def map_of_update)
  with bumped_trans [OF this ih(2)] have "bumped sha cx (a # as) st st'" by simp
  moreover have "gate_open sha cx st1 as i \<longleftrightarrow> gate_open sha cx st (a # as) (Suc i)" for i
  proof -
    have "prev_rounds cx st1 k = prev_rounds cx st k + (if k = ?k then 1 else 0)" for k
      by (simp add: prev_rounds_def st1_def map_of_update seen_state_def)
    then show ?thesis by (auto simp: gate_open_def)
  qed
  then have gates: "(\<lambda>i. gate_open sha cx st1 as i) = gate_open sha cx st (a # as) \<circ> Suc" by (simp add: fun_eq_iff)
  have "gate_open sha cx st (a # as) 0 \<longleftrightarrow> ?open" by (simp add: gate_open_def)
  then have "(if ?open then a # ps else ps)
      = map ((!) (a # as)) (filter (gate_open sha cx st (a # as)) [0..<length (a # as)])"
    unfolding ih(3) gates
    by (simp del: upt_Suc add: upt_conv_Cons filter_map map_Suc_upt [symmetric] comp_def)
  ultimately show ?case using run by blast
qed

section \<open>Verification\<close>

definition persistent :: "(string \<Rightarrow> string) \<Rightarrow> ctx \<Rightarrow> det_store \<Rightarrow> anomaly list \<Rightarrow> anomaly list" where
  "persistent sha cx st as = map ((!) as) (filter (gate_open sha cx st as) [0..<length as])"

lemma persistent_Nil_iff: "persistent sha cx st as = [] \<longleftrightarrow> (\<forall>i. \<not> gate_open sha cx st as i)"
  by (auto simp: persistent_def filter_empty_conv gate_open_def)

definition verdict :: "(string \<Rightarrow> string) \<Rightarrow> ctx \<Rightarrow> det_store \<Rightarrow> string \<Rightarrow> anomaly list \<Rightarrow> bool \<Rightarrow> verification" where
  "verdict sha cx st service as related =
     (let ps = persistent sha cx st as;
          entry = fpr_entry cx (group_key sha (cx_tenant_id cx) (cx_domain cx) service ps) in
      if ps = [] then \<lparr>ve_passed = False, ve_persistence_ok = False, ve_resample_ok = True,
               ve_false_positive_rate = 0, ve_final_severity = ''warning''\<rparr>
      else \<lparr>ve_passed = True, ve_persistence_ok = True, ve_resample_ok = True,
            ve_false_positive_rate = fp_fpr entry, ve_final_severity =
              if fpr_ok (dc_verify (cx_domain_config cx)) entry then calibrate_severity ps related else ''warning''\<rparr>)"

lemma l3_verify_spec:
  assumes "cx_tenant_id cx \<noteq> []"
  shows "\<exists>st'. l3_verify sha service as related (cx, w)
      = Inr (verdict sha cx (wd_states w) service as related,
             cx\<lparr>cx_seen_keys := cx_seen_keys cx \<union> anomaly_key sha ` set as\<rparr>, w\<lparr>wd_states := st'\<rparr>)
    \<and> bumped sha cx as (wd_states w) st'"
proof -
  obtain ps st' where *: "persist_loop sha cx as (wd_states w) (cx_seen_keys cx)
      = Inr (ps, st', cx_seen_keys cx \<union> anomaly_key sha ` set as)"
    "bumped sha cx as (wd_states w) st'" "ps = persistent sha cx (wd_states w) as"
    using persist_loop_spec [OF assms, of sha as "wd_states w" "cx_seen_keys cx"] by (auto simp: persistent_def)
  then show ?thesis by (auto simp: l3_verify_def verdict_def Let_def)
qed

section \<open>Records\<close>

definition opens_record ::
  "ctx \<Rightarrow> string \<Rightarrow> anomaly list \<Rightarrow> correlation \<times> bool \<times> pydict option \<Rightarrow> verification \<Rightarrow> string \<Rightarrow> problem_record \<Rightarrow> bool" where
  "opens_record cx service as = (\<lambda>(corr, changed, change) ver rep r.
     pr_tenant_id r = cx_tenant_id cx \<and> pr_domain r = cx_domain cx \<and> pr_service r = service
     \<and> pr_state r = ''pending'' \<and> pr_severity r = ve_final_severity ver \<and> pr_occurrence_count r = 1
     \<and> pr_detected_at r = cx_now cx \<and> pr_metric_anomalies r = metric_anoms as \<and> pr_log_anomalies r = log_anoms as
     \<and> pr_correlation r = corr \<and> pr_change_related r = changed \<and> pr_recent_change r = change
     \<and> pr_verification r = ver \<and> pr_trace_id r = Some (cx_trace_id cx) \<and> pr_group_key_service r = Some rep)"

lemma emit_evidence_total: "cx_tenant_id cx \<noteq> [] \<Longrightarrow> \<exists>ev. emit_evidence cx w ls = Inr ev"
  by (simp add: emit_evidence_def round_target_ids_def get_round_def Let_def)

lemma emit_closed:
  "\<not> ve_passed ver \<Longrightarrow> emit sha cx service as corr changed change ver rep w = Inr ([], w)"
  by (simp add: emit_def)

lemma emit_opens:
  assumes "cx_tenant_id cx \<noteq> []" "ve_passed ver"
  shows "\<exists>r w'. emit sha cx service as corr changed change ver (Some rep) w = Inr ([r], w')
     \<and> opens_record cx service as (corr, changed, change) ver rep r
     \<and> rec_step sha (RWrite r (cx_now cx)) (cx_tenant_id cx) (wd_sequences w, wd_records w)
         = Inr (wd_sequences w', wd_records w')
     \<and> wd_states w' = wd_states w \<and> wd_rounds w' = wd_rounds w \<and> wd_dynamic w' = wd_dynamic w"
proof -
  obtain ev where ev: "emit_evidence cx w (log_anoms as) = Inr ev" using emit_evidence_total [OF assms(1)] by blast
  obtain rid sq where id: "next_id (cx_domain cx) (cx_now cx) (wd_sequences w) = (rid, sq)" by force
  define r where "r = \<lparr>pr_record_id = rid, pr_source = ''apm-alert'', pr_tenant_id = cx_tenant_id cx, pr_domain = cx_domain cx,
     pr_state = ''pending'', pr_service = service, pr_instance = None, pr_severity = ve_final_severity ver,
     pr_detected_at = cx_now cx, pr_first_seen_at = Some (cx_now cx), pr_last_seen_at = Some (cx_now cx),
     pr_occurrence_count = 1, pr_resolved_at = None, pr_resolve_reason = None,
     pr_symptom = [(''summary'', PStr ((case cx_summary_provider cx of Some p \<Rightarrow> p | None \<Rightarrow> TemplateSummaryProvider)
        service (metric_anoms as) (log_anoms as)))], pr_metric_anomalies = metric_anoms as, pr_log_anomalies = log_anoms as,
     pr_correlation = corr, pr_change_related = changed, pr_recent_change = change,
     pr_verification = ver, pr_evidence = ev, pr_trace_id = Some (cx_trace_id cx), pr_group_key_service = Some rep\<rparr>"
  obtain rows where rows: "write_or_append sha (cx_tenant_id cx) r (wd_records w) = Inr rows"
    using assms(1) by (simp add: write_or_append_def)
  have "emit sha cx service as corr changed change ver (Some rep) w
      = Inr ([r], w\<lparr>wd_sequences := sq, wd_records := rows\<rparr>)"
    using assms(2) ev id rows by (simp add: emit_def Let_def r_def)
  moreover have "opens_record cx service as (corr, changed, change) ver rep r" by (simp add: opens_record_def r_def)
  moreover have "r\<lparr>pr_record_id := rid, pr_tenant_id := cx_tenant_id cx\<rparr> = r" "pr_domain r = cx_domain cx"
    by (simp_all add: r_def)
  then have "rec_step sha (RWrite r (cx_now cx)) (cx_tenant_id cx) (wd_sequences w, wd_records w) = Inr (sq, rows)"
    using id rows by simp
  ultimately show ?thesis by (intro exI [of _ r] exI [of _ "w\<lparr>wd_sequences := sq, wd_records := rows\<rparr>"]) simp
qed

section \<open>The loop over the groups\<close>

text \<open>The groups of a round that open a record; \<open>pre\<close> are the anomalies verified before.\<close>

fun opened :: "(string \<Rightarrow> string) \<Rightarrow> ctx \<Rightarrow> det_store \<Rightarrow> anomaly list \<Rightarrow> anomaly list list \<Rightarrow> anomaly list list" where
  "opened sha cx st pre [] = []"
| "opened sha cx st pre (g # gs) =
     (if \<exists>i < length g. gate_open sha cx st (pre @ g) (length pre + i) then g # opened sha cx st (pre @ g) gs
      else opened sha cx st (pre @ g) gs)"

lemma bumped_prev:
  "bumped sha cx as st st' \<Longrightarrow> prev_rounds cx st' k = prev_rounds cx st k + int (length (filter (\<lambda>a. anomaly_key sha a = k) as))"
proof -
  assume b: "bumped sha cx as st st'"
  have none: "filter (\<lambda>a. anomaly_key sha a = k) as = []" if "k \<notin> anomaly_key sha ` set as"
    using that by (auto simp: filter_empty_conv)
  have "map_of st' (cx_tenant_id cx, cx_domain cx, k) = (if k \<in> anomaly_key sha ` set as
      then Some (seen_state cx st k (length (filter (\<lambda>a. anomaly_key sha a = k) as)))
      else map_of st (cx_tenant_id cx, cx_domain cx, k))" using b by (simp add: bumped_def)
  with none show ?thesis by (cases "k \<in> anomaly_key sha ` set as") (simp_all add: prev_rounds_def seen_state_def)
qed

lemma gate_open_shift:
  "bumped sha cx pre st st' \<Longrightarrow> i < length g \<Longrightarrow>
     gate_open sha cx st' g i \<longleftrightarrow> gate_open sha cx st (pre @ g) (length pre + i)"
  by (simp add: gate_open_def bumped_prev nth_append add.assoc)

text \<open>The keys seen so far do not influence the verdicts.\<close>

lemma seen_irrelevant_state [simp]:
  "prev_rounds (cx\<lparr>cx_seen_keys := x\<rparr>) = prev_rounds cx" "seen_state (cx\<lparr>cx_seen_keys := x\<rparr>) = seen_state cx"
  by (simp_all add: fun_eq_iff prev_rounds_def seen_state_def split: option.split)

lemma seen_irrelevant_gate [simp]:
  "bumped sha (cx\<lparr>cx_seen_keys := x\<rparr>) = bumped sha cx" "gate_open sha (cx\<lparr>cx_seen_keys := x\<rparr>) = gate_open sha cx"
  by (simp_all add: fun_eq_iff bumped_def gate_open_def)

lemma seen_irrelevant_verdict [simp]:
  "persistent sha (cx\<lparr>cx_seen_keys := x\<rparr>) = persistent sha cx" "fpr_entry (cx\<lparr>cx_seen_keys := x\<rparr>) = fpr_entry cx"
  "l2_correlate (cx\<lparr>cx_seen_keys := x\<rparr>) = l2_correlate cx"
  "opens_record (cx\<lparr>cx_seen_keys := x\<rparr>) = opens_record cx"
  by (simp_all add: fun_eq_iff persistent_def fpr_entry_def l2_correlate_def opens_record_def)

lemma seen_irrelevant_groups [simp]:
  "verdict sha (cx\<lparr>cx_seen_keys := x\<rparr>) = verdict sha cx"
  "opened sha (cx\<lparr>cx_seen_keys := x\<rparr>) st pre gs = opened sha cx st pre gs"
  by (simp add: fun_eq_iff verdict_def Let_def) (induction gs arbitrary: pre, simp_all)

text \<open>A record stands for a group: it carries the group's anomalies, correlation and verdict.\<close>

definition stands_for :: "(string \<Rightarrow> string) \<Rightarrow> ctx \<Rightarrow> anomaly list \<Rightarrow> problem_record \<Rightarrow> bool" where
  "stands_for sha cx g r = (\<exists>st. opens_record cx (join '','' (group_services g)) g (l2_correlate cx g)
     (verdict sha cx st (representative_service g) g (co_related (fst (l2_correlate cx g)))) (representative_service g) r)"

lemma stands_for_seen [simp]: "stands_for sha (cx\<lparr>cx_seen_keys := x\<rparr>) = stands_for sha cx"
  by (simp add: fun_eq_iff stands_for_def)

definition record_writes :: "(string \<Rightarrow> string) \<Rightarrow> ctx \<Rightarrow> problem_record list \<Rightarrow> world \<Rightarrow> world \<Rightarrow> bool" where
  "record_writes sha cx rs w w' \<longleftrightarrow> (wd_sequences w', wd_records w')
     = run_ops (rec_step sha) (map (\<lambda>r. (RWrite r (cx_now cx), cx_tenant_id cx)) rs) (wd_sequences w, wd_records w)
     \<and> wd_rounds w' = wd_rounds w \<and> wd_dynamic w' = wd_dynamic w"

lemma record_writes_seen [simp]: "record_writes sha (cx\<lparr>cx_seen_keys := x\<rparr>) = record_writes sha cx"
  by (simp add: fun_eq_iff record_writes_def)

lemma run_ops_append: "run_ops step (xs @ ys) s = run_ops step ys (run_ops step xs s)"
  by (induction step xs s rule: run_ops.induct) simp_all

lemma record_writes_trans:
  "record_writes sha cx rs w w1 \<Longrightarrow> record_writes sha cx qs w1 w2 \<Longrightarrow> record_writes sha cx (rs @ qs) w w2"
  by (auto simp: record_writes_def run_ops_append)

lemma verdict_passed: "ve_passed (verdict sha cx st service as related) \<longleftrightarrow> (\<exists>i. gate_open sha cx st as i)"
  by (simp add: verdict_def Let_def persistent_Nil_iff)

lemma group_loop_spec:
  assumes "cx_tenant_id cx \<noteq> []" "bumped sha cx pre st (wd_states w)"
  shows "\<exists>rs by w'. group_loop sha gs R B (cx, w)
       = Inr (R @ rs, by, cx\<lparr>cx_seen_keys := cx_seen_keys cx \<union> anomaly_key sha ` set (concat gs)\<rparr>, w')
     \<and> bumped sha cx (concat gs) (wd_states w) (wd_states w') \<and> record_writes sha cx rs w w'
     \<and> list_all2 (stands_for sha cx) (opened sha cx st pre gs) rs"
  using assms
proof (induction gs arbitrary: R B cx w pre)
  case Nil
  then show ?case by (simp add: bumped_Nil record_writes_def)
next
  case (Cons g gs)
  let ?rep = "representative_service g" and ?svc = "join '','' (group_services g)" and ?cr = "l2_correlate cx g"
  let ?ver = "verdict sha cx (wd_states w) ?rep g (co_related (fst ?cr))"
  let ?cx = "cx\<lparr>cx_seen_keys := cx_seen_keys cx \<union> anomaly_key sha ` set g\<rparr>"
  obtain corr changed change where cr: "?cr = (corr, changed, change)" by (cases ?cr) auto
  obtain st1 where l3: "l3_verify sha ?rep g (co_related corr) (cx, w) = Inr (?ver, ?cx, w\<lparr>wd_states := st1\<rparr>)"
    "bumped sha cx g (wd_states w) st1"
    using l3_verify_spec [OF Cons.prems(1), of sha ?rep g "co_related corr" w] cr by auto
  let ?w = "w\<lparr>wd_states := st1\<rparr>"
  have opens: "ve_passed ?ver \<longleftrightarrow> (\<exists>i < length g. gate_open sha cx st (pre @ g) (length pre + i))"
    using gate_open_shift [OF Cons.prems(2), of _ g] by (auto simp: verdict_passed) (auto simp: gate_open_def)
  obtain es w1 where em: "emit sha ?cx ?svc g corr changed change ?ver (Some ?rep) ?w = Inr (es, w1)"
    "wd_states w1 = st1" "record_writes sha cx es w w1"
    "list_all2 (stands_for sha cx) (if ve_passed ?ver then [g] else []) es"
  proof (cases "ve_passed ?ver")
    case False
    then show ?thesis using that [of "[]" ?w] by (simp add: emit_closed record_writes_def)
  next
    case True
    from emit_opens [of ?cx, OF _ this] Cons.prems(1) cr
    obtain r w1 where r: "emit sha ?cx ?svc g corr changed change ?ver (Some ?rep) ?w = Inr ([r], w1)"
      "opens_record cx ?svc g ?cr ?ver ?rep r"
      "rec_step sha (RWrite r (cx_now cx)) (cx_tenant_id cx) (wd_sequences w, wd_records w) = Inr (wd_sequences w1, wd_records w1)"
      "wd_states w1 = st1" "wd_rounds w1 = wd_rounds w" "wd_dynamic w1 = wd_dynamic w"
      by fastforce
    moreover have "stands_for sha cx g r" using r(2) by (auto simp: stands_for_def)
    ultimately show ?thesis using that [of "[r]" w1] True by (simp add: record_writes_def)
  qed
  have "bumped sha ?cx (pre @ g) st (wd_states w1)"
    using bumped_trans [OF Cons.prems(2) l3(2)] em(2) by simp
  from Cons.IH [OF _ this, of "R @ es" "fold (\<lambda>svc. bump_count svc (length es)) (group_services g) B"] Cons.prems(1)
  obtain rs by_svc w2 where ih: "group_loop sha gs (R @ es) (fold (\<lambda>svc. bump_count svc (length es)) (group_services g) B) (?cx, w1)
       = Inr ((R @ es) @ rs, by_svc, ?cx\<lparr>cx_seen_keys := cx_seen_keys ?cx \<union> anomaly_key sha ` set (concat gs)\<rparr>, w2)"
     "bumped sha cx (concat gs) st1 (wd_states w2)" "record_writes sha ?cx rs w1 w2"
     "list_all2 (stands_for sha ?cx) (opened sha ?cx st (pre @ g) gs) rs"
    using em(2) by auto
  have "group_loop sha (g # gs) R B (cx, w)
      = Inr (R @ (es @ rs), by_svc, cx\<lparr>cx_seen_keys := cx_seen_keys cx \<union> anomaly_key sha ` set (concat (g # gs))\<rparr>, w2)"
    using l3(1) em(1) ih(1) cr by (simp add: Let_def image_Un Un_assoc)
  moreover have "bumped sha cx (concat (g # gs)) (wd_states w) (wd_states w2)"
    using bumped_trans [OF l3(2) ih(2)] by simp
  moreover have "record_writes sha cx (es @ rs) w w2"
    using record_writes_trans [OF em(3)] ih(3) by simp
  moreover have "list_all2 (stands_for sha cx) (opened sha cx st pre (g # gs)) (es @ rs)"
  proof -
    have "opened sha cx st pre (g # gs) = (if ve_passed ?ver then [g] else []) @ opened sha cx st (pre @ g) gs"
      using opens by simp
    then show ?thesis using list_all2_appendI [OF em(4)] ih(4) by simp
  qed
  ultimately show ?case by blast
qed

lemma l3_verify_tenant:
  "l3_verify sha service as related (cx, w) = Inr (ver, cx', w') \<Longrightarrow> cx_tenant_id cx' = cx_tenant_id cx"
  by (auto simp: l3_verify_def Let_def split: if_splits)

lemma group_loop_tenant:
  "group_loop sha gs R B (cx, w) = Inr (R', B', cx', w') \<Longrightarrow> cx_tenant_id cx' = cx_tenant_id cx"
proof (induction gs arbitrary: R B cx w)
  case (Cons g gs)
  obtain corr changed change where cr: "l2_correlate cx g = (corr, changed, change)" by (cases "l2_correlate cx g") auto
  from Cons.prems cr obtain ver cx1 w1 es w2 where
    l3: "l3_verify sha (representative_service g) g (co_related corr) (cx, w) = Inr (ver, cx1, w1)"
    and rest: "group_loop sha gs (R @ es) (fold (\<lambda>svc. bump_count svc (length es)) (group_services g) B) (cx1, w2) = Inr (R', B', cx', w')"
    by (auto simp: Let_def)
  from Cons.IH [OF rest] l3_verify_tenant [OF l3] show ?case by simp
qed simp

section \<open>The whole round\<close>

lemma bumped_mset: "mset as = mset bs \<Longrightarrow> bumped sha cx as = bumped sha cx bs"
proof -
  assume m: "mset as = mset bs"
  then have "length (filter P as) = length (filter P bs)" for P by (metis mset_filter size_mset)
  moreover from m have "set as = set bs" by (rule mset_eq_setD)
  ultimately show ?thesis by (simp add: fun_eq_iff bumped_def)
qed

lemma group_anomalies_partition:
  "\<exists>gs. group_anomalies as = Inr gs \<and> mset (concat gs) = mset as \<and> [] \<notin> set gs"
proof -
  obtain gs where gs: "group_components as = Inr gs" "mset (concat gs) = mset (enumerate 0 as)" "[] \<notin> set gs"
    using group_partition by blast
  have "mset (concat (map (map snd) gs)) = image_mset snd (mset (concat gs))" by (simp add: map_concat [symmetric])
  also have "\<dots> = mset as" by (simp add: gs(2) flip: mset_map)
  finally show ?thesis using gs by (intro exI [of _ "map (map snd) gs"]) (auto simp: group_anomalies_def)
qed

text \<open>The detection state after a round whose anomalies are \<open>as\<close>.\<close>

definition round_state :: "(string \<Rightarrow> string) \<Rightarrow> ctx \<Rightarrow> anomaly list \<Rightarrow> det_store \<Rightarrow> string \<times> string \<times> string \<Rightarrow> det_state option" where
  "round_state sha cx as st = (\<lambda>(t, d, k).
     if t = cx_tenant_id cx \<and> d = cx_domain cx then
       (if k \<in> anomaly_key sha ` set as
        then Some (seen_state cx st k (length (filter (\<lambda>a. anomaly_key sha a = k) as)))
        else map_option (\<lambda>r. r\<lparr>st_miss_rounds := st_miss_rounds r + 1\<rparr>) (map_of st (t, d, k)))
     else map_of st (t, d, k))"

lemma l1_detect_keeps:
  "l1_detect cx = Inr cx' \<Longrightarrow> \<exists>as. cx' = cx\<lparr>cx_anomalies := as\<rparr>"
  by (auto simp: l1_detect_def)

lemma l0_suppress_keeps:
  "l0_suppress cx = Inr cx' \<Longrightarrow> \<exists>items ss. cx' = cx\<lparr>cx_suppressed := items, cx_signals := ss\<rparr>"
  by (auto simp: l0_suppress_def)

lemma run_domain_spec:
  fixes cx :: ctx and w :: world
  defines "cx1 \<equiv> cx\<lparr>cx_round_started_at := Some (cx_now cx)\<rparr>"
  assumes "cx_tenant_id cx \<noteq> []" "cx_seen_keys cx = {}" and l0: "l0_suppress cx1 = Inr cx2" and l1: "l1_detect cx2 = Inr cx3"
  shows "\<exists>gs res cx' w'. run_domain sha (cx, w) = Inr (res, cx', w')
     \<and> group_anomalies (cx_anomalies cx3) = Inr gs
     \<and> map_of (wd_states w') = round_state sha cx3 (cx_anomalies cx3) (wd_states w)
     \<and> record_writes sha cx3 (dr_records res) w w'
     \<and> list_all2 (stands_for sha cx3) (opened sha cx3 (wd_states w) [] gs) (dr_records res)
     \<and> dr_anomaly_count res = length (cx_anomalies cx3) \<and> dr_suppressed_count res = length (cx_suppressed cx3)
     \<and> count_of (dr_anomalies_by_service res) = (\<lambda>s. length (filter (\<lambda>a. an_service a = s) (cx_anomalies cx3)))
     \<and> count_of (dr_suppressed_by_service res) = (\<lambda>s. length (filter (\<lambda>x. sig_service (snd (si_signal x)) = s) (cx_suppressed cx3)))"
proof -
  let ?as = "cx_anomalies cx3"
  from l1_detect_keeps [OF l1] l0_suppress_keeps [OF l0] have keeps: "cx_tenant_id cx3 = cx_tenant_id cx"
    "cx_domain cx3 = cx_domain cx" "cx_seen_keys cx3 = {}" using assms(3) by (auto simp: cx1_def)
  obtain gs where gs: "group_anomalies ?as = Inr gs" "mset (concat gs) = mset ?as" using group_anomalies_partition by blast
  have "bumped sha cx3 [] (wd_states w) (wd_states w)" by (simp add: bumped_Nil)
  from group_loop_spec [OF _ this, of gs "[]" "[]"] keeps assms(2) obtain rs by_svc w1 where loop:
    "group_loop sha gs [] [] (cx3, w) = Inr (rs, by_svc, cx3\<lparr>cx_seen_keys := anomaly_key sha ` set (concat gs)\<rparr>, w1)"
    "bumped sha cx3 (concat gs) (wd_states w) (wd_states w1)" "record_writes sha cx3 rs w w1"
    "list_all2 (stands_for sha cx3) (opened sha cx3 (wd_states w) [] gs) rs" by auto
  have keys: "set (concat gs) = set ?as" using gs(2) by (metis set_mset_mset)
  let ?K = "anomaly_key sha ` set (concat gs)"
  obtain st where st: "ds_sweep (cx_tenant_id cx3) (cx_domain cx3) ?K (wd_states w1) = Inr st"
    using keeps assms(2) by (simp add: ds_sweep_def)
  have "map_of st = round_state sha cx3 ?as (wd_states w)"
  proof
    fix x :: "string \<times> string \<times> string"
    obtain t d k where x: "x = (t, d, k)" by (cases x)
    have b: "bumped sha cx3 ?as (wd_states w) (wd_states w1)" using loop(2) bumped_mset [OF gs(2)] by simp
    have "st = map_vals (\<lambda>(t, d, k) row. if t = cx_tenant_id cx3 \<and> d = cx_domain cx3 \<and> k \<notin> ?K
       then row\<lparr>st_miss_rounds := st_miss_rounds row + 1\<rparr> else row) (wd_states w1)"
      using st by (simp add: ds_sweep_def)
    with b keys show "map_of st x = round_state sha cx3 ?as (wd_states w) x"
      unfolding x round_state_def bumped_def by (cases "map_of (wd_states w) (t, d, k)") (simp_all add: map_of_map_vals)
  qed
  note states = this
  let ?w = "w1\<lparr>wd_states := st\<rparr>"
  obtain res where res: "run_domain sha (cx, w) = Inr (res, cx3\<lparr>cx_seen_keys := ?K\<rparr>, ?w)"
      "dr_records res = rs" "dr_anomaly_count res = length ?as" "dr_suppressed_count res = length (cx_suppressed cx3)"
      "dr_anomalies_by_service res = fold (\<lambda>a. bump_count (an_service a) 1) ?as []"
      "dr_suppressed_by_service res = fold (\<lambda>x. bump_count (sig_service (snd (si_signal x))) 1) (cx_suppressed cx3) []"
    using l0 l1 gs(1) loop(1) st by (simp add: run_domain_def Let_def cx1_def)
  have "record_writes sha cx3 rs w ?w" using loop(3) by (simp add: record_writes_def)
  moreover have "map_of (wd_states ?w) = round_state sha cx3 ?as (wd_states w)" using states by simp
  moreover have "count_of (dr_anomalies_by_service res) = (\<lambda>s. length (filter (\<lambda>a. an_service a = s) ?as))"
    "count_of (dr_suppressed_by_service res) = (\<lambda>s. length (filter (\<lambda>x. sig_service (snd (si_signal x)) = s) (cx_suppressed cx3)))"
    unfolding res(5,6) by (simp_all only: fun_eq_iff count_of_fold_bump) (simp_all add: count_of_def)
  ultimately show ?thesis using gs(1) loop(4) res by blast
qed

section \<open>Severity\<close>

lemma severity_rank_range: "0 \<le> severity_rank s \<and> severity_rank s \<le> 2"
  by (simp add: severity_rank_def)

lemma severity_rank_name: "0 \<le> n \<Longrightarrow> n \<le> 2 \<Longrightarrow> severity_rank (rank_name n) = n"
  by (auto simp: severity_rank_def rank_name_def)

definition combined_high :: "anomaly list \<Rightarrow> bool" where
  "combined_high as \<longleftrightarrow> (\<exists>a \<in> set as. is_metric a \<and> an_severity a = ''high'') \<and> (\<exists>a \<in> set as. is_log a \<and> an_severity a = ''high'')"

lemma calibrate_severity_rank:
  assumes "as \<noteq> []"
  shows "severity_rank (calibrate_severity as related) =
    (if related \<and> combined_high as then 2 else Max (severity_rank ` an_severity ` set as))"
proof -
  let ?M = "Max (severity_rank ` an_severity ` set as)"
  have "?M \<in> severity_rank ` an_severity ` set as" using assms by (intro Max_in) auto
  then have "0 \<le> ?M \<and> ?M \<le> 2" using severity_rank_range by auto
  then have "severity_rank (rank_name ?M) = ?M" by (simp add: severity_rank_name)
  moreover have "(\<lambda>a. severity_rank (an_severity a)) ` set as = severity_rank ` an_severity ` set as"
    by (simp add: image_image)
  moreover have "severity_rank ''critical'' = 2" by (simp add: severity_rank_def)
  ultimately show ?thesis
    using assms by (auto simp: calibrate_severity_def combined_high_def)
qed

lemma mset_split: "mset (filter P xs) + mset (filter (\<lambda>x. \<not> P x) xs) = mset xs"
  by (induction xs) auto

section \<open>Properties of a round\<close>

text \<open>The built-in plugins, and a small configuration over them, for the concrete instances.\<close>

definition demo_registry :: registry where
  "demo_registry = registry_load builtin_entry_points"

definition demo_config :: "int \<Rightarrow> domain_config" where
  "demo_config n = \<lparr>
     dc_detectors = [\<lparr>ds_signal = PStr ''cpu'', ds_plugin = ''static_threshold'',
       ds_params = [(''threshold'', PInt 90)], ds_severity = ''high''\<rparr>],
     dc_suppressors = [\<lparr>ss_name = ''blacklist'', ss_params = []\<rparr>],
     dc_correlation = \<lparr>cp_metric_log_window_sec = 60, cp_change_window_sec = 300\<rparr>,
     dc_verify = \<lparr>vs_persistence_rounds = n, vs_false_positive_threshold = 1 / 2, vs_min_samples = 10\<rparr>\<rparr>"

definition demo_cpu :: "string \<Rightarrow> rat \<Rightarrow> signal" where
  "demo_cpu svc v = MetricSignal \<lparr>ms_tenant_id = ''t1'', ms_service = svc, ms_metric = ''cpu'', ms_value = v,
     ms_timestamp = 0, ms_labels = []\<rparr>"

definition demo_ctx :: "int \<Rightarrow> sigobj list \<Rightarrow> ctx" where
  "demo_ctx n ss = \<lparr>cx_trace_id = ''trace-1'', cx_tenant_id = ''t1'', cx_domain = ''application'',
     cx_domain_config = demo_config n, cx_registry = demo_registry, cx_now = 1000000, cx_summary_provider = Some (\<lambda>_ _ _. ''summary''),
     cx_has_rounds = True, cx_signals = ss, cx_changes = [], cx_suppressed = [], cx_anomalies = [],
     cx_maintenance_windows = [], cx_blacklist = [[(''service'', PStr ''quiet''), (''signal'', PStr ''cpu'')]], cx_fpr = [],
     cx_degraded_sources = [], cx_round_started_at = None, cx_seen_keys = {}\<rparr>"

definition demo_world :: world where
  "demo_world = \<lparr>wd_records = [], wd_states = [], wd_sequences = [], wd_rounds = empty_rounds,
     wd_dynamic = \<lparr>dy_maintenance_windows = [], dy_blacklist = [], dy_fpr = [], dy_changes = []\<rparr>\<rparr>"

lemma demo_plugins:
  "registry_get demo_registry ''suppressor'' name = Inr p
     \<Longrightarrow> p = SuppressorPlugin maintenance_window \<or> p = SuppressorPlugin blacklist"
  "registry_get demo_registry ''detector'' name = Inr p
     \<Longrightarrow> p = DetectorPlugin static_threshold \<or> p = DetectorPlugin simple_compare \<or> p = DetectorPlugin signature_aggregate"
proof -
  have "map_of demo_registry ''suppressor'' = Some [(''maintenance_window'', SuppressorPlugin maintenance_window), (''blacklist'', SuppressorPlugin blacklist)]"
    "map_of demo_registry ''detector'' = Some [(''static_threshold'', DetectorPlugin static_threshold),
       (''simple_compare'', DetectorPlugin simple_compare), (''signature_aggregate'', DetectorPlugin signature_aggregate)]"
    by (simp_all add: demo_registry_def registry_load_def builtin_entry_points_def GROUPS_def
        maintenance_window_def blacklist_def static_threshold_def simple_compare_def signature_aggregate_def)
  then show "registry_get demo_registry ''suppressor'' name = Inr p
     \<Longrightarrow> p = SuppressorPlugin maintenance_window \<or> p = SuppressorPlugin blacklist"
    "registry_get demo_registry ''detector'' name = Inr p
     \<Longrightarrow> p = DetectorPlugin static_threshold \<or> p = DetectorPlugin simple_compare \<or> p = DetectorPlugin signature_aggregate"
    by (auto simp: registry_get_def split: if_splits)
qed

lemma demo_registry_lawful: "lawful demo_registry"
  unfolding lawful_def
proof (intro conjI allI impI)
  fix name p assume "registry_get demo_registry ''suppressor'' name = Inr (SuppressorPlugin p)"
  then have "p = maintenance_window \<or> p = blacklist" by (auto dest: demo_plugins(1))
  then show "suppressor_laws (sup_batch_check p)"
    using Apm_Plugins.maintenance_window.suppressor_laws_axioms Apm_Plugins.blacklist.suppressor_laws_axioms
    by (auto simp: maintenance_window_def blacklist_def)
next
  fix name p assume "registry_get demo_registry ''detector'' name = Inr (DetectorPlugin p)"
  then have "p = static_threshold \<or> p = simple_compare \<or> p = signature_aggregate" by (auto dest: demo_plugins(2))
  then show "detector_laws (det_detect p)"
    using Apm_Plugins.static_threshold.detector_laws_axioms Apm_Plugins.simple_compare.detector_laws_axioms
      Apm_Plugins.signature_aggregate.detector_laws_axioms
    by (auto simp: static_threshold_def simple_compare_def signature_aggregate_def)
qed

section \<open>Properties of a round\<close>

text \<open>C5. L0 removes exactly the signals some configured suppressor gives a reason for. With plugins that
  keep the suppressor contract and signal objects that are distinct, every signal is afterwards either kept
  or listed once with its reason, the kept ones in their order, and it is listed if and only if a rule hits it.\<close>

theorem l0_suppress_exact:
  assumes "lawful (cx_registry cx)" "distinct (map fst (cx_signals cx))" "l0_suppress cx = Inr cx'"
  shows "mset (cx_signals cx') + mset (map si_signal (cx_suppressed cx')) = mset (cx_signals cx)
    \<and> cx_signals cx' = filter (\<lambda>s. \<not> (\<exists>sc \<in> set (dc_suppressors (cx_domain_config cx)). rule_hits cx s sc)) (cx_signals cx)"
proof
  let ?H = "hit_by cx (dc_suppressors (cx_domain_config cx))"
  note spec = l0_suppress_spec [OF assms]
  have d: "distinct (cx_signals cx)" using assms(2) by (simp add: distinct_map)
  have "mset (map si_signal (cx_suppressed cx')) = mset_set ?H"
    using mset_set_set [OF spec(1)] spec(2) by simp
  also have "\<dots> = mset (filter (\<lambda>s. s \<in> ?H) (cx_signals cx))"
  proof -
    have "set (filter (\<lambda>s. s \<in> ?H) (cx_signals cx)) = ?H" by (auto simp: hit_by_def)
    with mset_set_set [OF distinct_filter [OF d, of "\<lambda>s. s \<in> ?H"]] show ?thesis by simp
  qed
  finally have hits: "mset (map si_signal (cx_suppressed cx')) = mset (filter (\<lambda>s. s \<in> ?H) (cx_signals cx))" .
  show "mset (cx_signals cx') + mset (map si_signal (cx_suppressed cx')) = mset (cx_signals cx)"
    unfolding spec(3) hits using mset_split [of "\<lambda>s. s \<notin> ?H" "cx_signals cx"] by (simp only: not_not)
  show "cx_signals cx' = filter (\<lambda>s. \<not> (\<exists>sc \<in> set (dc_suppressors (cx_domain_config cx)). rule_hits cx s sc)) (cx_signals cx)"
    unfolding spec(3) by (rule filter_cong) (auto simp: hit_by_def)
qed

definition demo_signals :: "sigobj list" where
  "demo_signals = [(1, demo_cpu ''api'' 95), (2, demo_cpu ''quiet'' 99), (3, demo_cpu ''api'' 20)]"

theorem l0_suppress_exact_witness:
  "\<exists>cx'. l0_suppress (demo_ctx 1 demo_signals) = Inr cx' \<and> cx_signals cx' = [(1, demo_cpu ''api'' 95), (3, demo_cpu ''api'' 20)]
     \<and> mset (cx_signals cx') + mset (map si_signal (cx_suppressed cx')) = mset demo_signals"
proof -
  let ?cx = "demo_ctx 1 demo_signals"
  have "map_sum id (\<lambda>cx. map fst (cx_signals cx)) (l0_suppress ?cx) = Inr [1, 3]" by code_simp
  then obtain cx' where cx': "l0_suppress ?cx = Inr cx'" "map fst (cx_signals cx') = [1, 3]"
    by (cases "l0_suppress ?cx") auto
  have sel: "cx_signals ?cx = demo_signals" "cx_registry ?cx = demo_registry" by (simp_all add: demo_ctx_def)
  have "distinct (map fst (cx_signals ?cx))" unfolding sel by (simp add: demo_signals_def)
  from l0_suppress_exact [OF _ this cx'(1)] demo_registry_lawful sel
  have *: "mset (cx_signals cx') + mset (map si_signal (cx_suppressed cx')) = mset demo_signals"
    "set (cx_signals cx') \<subseteq> set demo_signals" by auto
  have "cx_signals cx' = [(1, demo_cpu ''api'' 95), (3, demo_cpu ''api'' 20)]"
    using cx'(2) *(2) by (cases "cx_signals cx'" rule: remdups_adj.cases) (auto simp: demo_signals_def)
  with cx' * show ?thesis by blast
qed

text \<open>C6. Anomalies come from signals that were not suppressed. Every anomaly a round detects speaks of the
  service and the tenant of a collected signal that no suppressor hits, was found by a configured rule on the
  signals the rule selects, and has the severity of that rule, whatever the detector said.\<close>

theorem anomalies_from_unsuppressed:
  assumes "lawful (cx_registry cx)" "distinct (map fst (cx_signals cx))" "cx_anomalies cx = []"
    and "l0_suppress cx = Inr cx2" "l1_detect cx2 = Inr cx3" "a \<in> set (cx_anomalies cx3)"
  shows "\<exists>s \<in> set (cx_signals cx). (\<forall>sc \<in> set (dc_suppressors (cx_domain_config cx)). \<not> rule_hits cx s sc)
      \<and> sig_service (snd s) = an_service a \<and> sig_tenant (snd s) = an_tenant a
      \<and> (\<exists>dc \<in> set (dc_detectors (cx_domain_config cx)). explains (cx_registry cx) (map snd (cx_signals cx2)) dc a
           \<and> an_severity a = ds_severity dc)"
proof -
  obtain items ss where cx2: "cx2 = cx\<lparr>cx_suppressed := items, cx_signals := ss\<rparr>"
    using l0_suppress_keeps [OF assms(4)] by blast
  have sigs: "set (cx_signals cx2) = {s \<in> set (cx_signals cx). \<forall>sc \<in> set (dc_suppressors (cx_domain_config cx)). \<not> rule_hits cx s sc}"
    using l0_suppress_spec(3) [OF assms(1,2,4)] by (auto simp: hit_by_def)
  from assms(5) have "detect_loop (cx_registry cx) (map snd (cx_signals cx2)) (dc_detectors (cx_domain_config cx)) []
      = Inr (cx_anomalies cx3)" using cx2 assms(3) by (auto simp: l1_detect_def)
  from detect_loop_explained [OF this assms(6)] obtain dc where dc: "dc \<in> set (dc_detectors (cx_domain_config cx))"
    "explains (cx_registry cx) (map snd (cx_signals cx2)) dc a" by auto
  from explained_grounded [OF assms(1) dc(2)] obtain s where "s \<in> set (cx_signals cx2)"
    "sig_service (snd s) = an_service a" "sig_tenant (snd s) = an_tenant a" "an_severity a = ds_severity dc" by auto
  with sigs dc show ?thesis by blast
qed

theorem anomalies_from_unsuppressed_witness:
  "\<exists>cx2 cx3. l0_suppress (demo_ctx 1 demo_signals) = Inr cx2 \<and> l1_detect cx2 = Inr cx3 \<and> cx_anomalies cx3 \<noteq> []
     \<and> (\<forall>a \<in> set (cx_anomalies cx3). \<exists>s \<in> set demo_signals. sig_service (snd s) = an_service a)"
proof -
  let ?cx = "demo_ctx 1 demo_signals"
  have "map_sum id (\<lambda>cx. length (cx_anomalies cx)) (bind_res (l0_suppress ?cx) l1_detect) = Inr 1" by code_simp
  then obtain cx2 cx3 where run: "l0_suppress ?cx = Inr cx2" "l1_detect cx2 = Inr cx3" "length (cx_anomalies cx3) = 1"
    by (cases "l0_suppress ?cx"; cases "bind_res (l0_suppress ?cx) l1_detect") auto
  have sel: "cx_signals ?cx = demo_signals" "cx_registry ?cx = demo_registry" "cx_anomalies ?cx = []"
    by (simp_all add: demo_ctx_def)
  have "distinct (map fst (cx_signals ?cx))" unfolding sel by (simp add: demo_signals_def)
  from anomalies_from_unsuppressed [OF _ this sel(3) run(1,2)] demo_registry_lawful sel
  have "\<exists>s \<in> set demo_signals. sig_service (snd s) = an_service a" if "a \<in> set (cx_anomalies cx3)" for a
    using that by (simp only:) blast
  with run show ?thesis by (metis list.size(3) zero_neq_one)
qed

text \<open>C4. L3 opens an incident exactly when one of its anomalies has reached the persistence threshold, counting
  this round; its severity is then the highest of the persistent anomalies, raised to critical for a related high metric
  and high log. A false-positive history over the threshold with enough samples only lowers the severity to
  warning: the incident still passes. The counter of every key of the group advances by its occurrences and its
  misses are reset; no other counter changes.\<close>

theorem l3_verify_exact:
  assumes "cx_tenant_id cx \<noteq> []"
  shows "\<exists>ver cx' w'. l3_verify sha service as related (cx, w) = Inr (ver, cx', w')
    \<and> (ve_passed ver \<longleftrightarrow> (\<exists>i < length as. vs_persistence_rounds (dc_verify (cx_domain_config cx))
         \<le> prev_rounds cx (wd_states w) (anomaly_key sha (as ! i))
           + int (length (filter (\<lambda>a. anomaly_key sha a = anomaly_key sha (as ! i)) (take (Suc i) as)))))
    \<and> (ve_passed ver \<longrightarrow> (let ps = persistent sha cx (wd_states w) as;
          entry = fpr_entry cx (group_key sha (cx_tenant_id cx) (cx_domain cx) service ps) in
        severity_rank (ve_final_severity ver) =
          (if vs_min_samples (dc_verify (cx_domain_config cx)) \<le> fp_total entry
             \<and> vs_false_positive_threshold (dc_verify (cx_domain_config cx)) \<le> fp_fpr entry then 0
           else if related \<and> combined_high ps then 2 else Max (severity_rank ` an_severity ` set ps))))
    \<and> bumped sha cx as (wd_states w) (wd_states w')"
proof -
  let ?ver = "verdict sha cx (wd_states w) service as related" and ?ps = "persistent sha cx (wd_states w) as"
  obtain st' where st': "l3_verify sha service as related (cx, w) = Inr (?ver,
      cx\<lparr>cx_seen_keys := cx_seen_keys cx \<union> anomaly_key sha ` set as\<rparr>, w\<lparr>wd_states := st'\<rparr>)"
    "bumped sha cx as (wd_states w) st'" using l3_verify_spec [OF assms] by blast
  have ne: "ve_passed ?ver \<longleftrightarrow> ?ps \<noteq> []" by (simp add: verdict_passed persistent_Nil_iff)
  have w0: "severity_rank ''warning'' = 0" by (simp add: severity_rank_def)
  have "ve_passed ?ver \<longrightarrow> (let ps = ?ps;
          entry = fpr_entry cx (group_key sha (cx_tenant_id cx) (cx_domain cx) service ps) in
        severity_rank (ve_final_severity ?ver) =
          (if vs_min_samples (dc_verify (cx_domain_config cx)) \<le> fp_total entry
             \<and> vs_false_positive_threshold (dc_verify (cx_domain_config cx)) \<le> fp_fpr entry then 0
           else if related \<and> combined_high ps then 2 else Max (severity_rank ` an_severity ` set ps)))"
    unfolding ne by (auto simp: verdict_def Let_def fpr_ok_def calibrate_severity_rank w0)
  moreover have "ve_passed ?ver \<longleftrightarrow> (\<exists>i < length as. vs_persistence_rounds (dc_verify (cx_domain_config cx))
         \<le> prev_rounds cx (wd_states w) (anomaly_key sha (as ! i))
           + int (length (filter (\<lambda>a. anomaly_key sha a = anomaly_key sha (as ! i)) (take (Suc i) as))))"
    unfolding verdict_passed gate_open_def by blast
  moreover have "bumped sha cx as (wd_states w) (wd_states (w\<lparr>wd_states := st'\<rparr>))" using st'(2) by simp
  ultimately show ?thesis using st'(1) by blast
qed

text \<open>C3. A round completes once its signals are collected, its suppressors and its rules do not raise: whatever
  the detectors do, \<open>run_domain\<close> returns. Then, for the tenant and domain of the round, the counter of every key that
  occurred has advanced by its number of occurrences and its misses are zero, every other key has one more miss and
  is otherwise unchanged, and all other tenants and domains are untouched. The records are those
  of the groups at which the persistence gate opened, in their order, one each, and are written in that order.\<close>

theorem run_domain_complete:
  assumes "cx_tenant_id cx \<noteq> []" "cx_seen_keys cx = {}"
    and "l0_suppress (cx\<lparr>cx_round_started_at := Some (cx_now cx)\<rparr>) = Inr cx2" "l1_detect cx2 = Inr cx3"
  shows "\<exists>gs res cx' w'. run_domain sha (cx, w) = Inr (res, cx', w')
     \<and> group_anomalies (cx_anomalies cx3) = Inr gs \<and> mset (concat gs) = mset (cx_anomalies cx3)
     \<and> map_of (wd_states w') = round_state sha cx3 (cx_anomalies cx3) (wd_states w)
     \<and> list_all2 (stands_for sha cx3) (opened sha cx3 (wd_states w) [] gs) (dr_records res)
     \<and> record_writes sha cx3 (dr_records res) w w'"
proof -
  obtain gs where gs: "group_anomalies (cx_anomalies cx3) = Inr gs" "mset (concat gs) = mset (cx_anomalies cx3)"
    using group_anomalies_partition by blast
  from run_domain_spec [OF assms] gs(1) obtain res cx' w' where "run_domain sha (cx, w) = Inr (res, cx', w')"
    "map_of (wd_states w') = round_state sha cx3 (cx_anomalies cx3) (wd_states w)"
    "record_writes sha cx3 (dr_records res) w w'"
    "list_all2 (stands_for sha cx3) (opened sha cx3 (wd_states w) [] gs) (dr_records res)" by fastforce
  with gs show ?thesis by blast
qed

lemma run_domain_views:
  assumes "cx_seen_keys cx = {}" "run_domain sha (cx, w) = Inr (res, cx', w')" "u \<noteq> cx_tenant_id cx"
    and "rec_inv (wd_sequences w, wd_records w)"
  shows "rec_view u (wd_sequences w', wd_records w') = rec_view u (wd_sequences w, wd_records w)
    \<and> ds_view u (wd_states w') = ds_view u (wd_states w) \<and> round_view u (wd_rounds w') = round_view u (wd_rounds w)
    \<and> rec_inv (wd_sequences w', wd_records w') \<and> wd_dynamic w' = wd_dynamic w"
proof -
  let ?cx1 = "cx\<lparr>cx_round_started_at := Some (cx_now cx)\<rparr>"
  obtain cx2 cx3 where l: "l0_suppress ?cx1 = Inr cx2" "l1_detect cx2 = Inr cx3"
    using assms(2) by (auto simp: run_domain_def Let_def)
  have cx3: "cx_tenant_id cx3 = cx_tenant_id cx" using l0_suppress_keeps [OF l(1)] l1_detect_keeps [OF l(2)] by auto
  show ?thesis
  proof (cases "cx_tenant_id cx = []")
    case True
    from assms(2) l obtain gs rs by_svc cx4 w1 st where
      "group_loop sha gs [] [] (cx3, w) = Inr (rs, by_svc, cx4, w1)"
      "ds_sweep (cx_tenant_id cx4) (cx_domain cx4) (cx_seen_keys cx4) (wd_states w1) = Inr st"
      by (auto simp: run_domain_def Let_def)
    with True cx3 group_loop_tenant show ?thesis by (fastforce simp: ds_sweep_def)
  next
    case False
    from run_domain_spec [OF False assms(1) l, of sha w] assms(2)
    have st: "map_of (wd_states w') = round_state sha cx3 (cx_anomalies cx3) (wd_states w)"
      and wr: "record_writes sha cx3 (dr_records res) w w'" by auto
    let ?ops = "map (\<lambda>r. (RWrite r (cx_now cx3), cx_tenant_id cx3)) (dr_records res)"
    have "\<forall>(p, t) \<in> set ?ops. t \<noteq> u" using assms(3) cx3 by auto
    from rec.isolation [OF assms(4) this] rec.inv_run [OF assms(4)] wr
    have "rec_view u (wd_sequences w', wd_records w') = rec_view u (wd_sequences w, wd_records w)"
      "rec_inv (wd_sequences w', wd_records w')" by (auto simp: record_writes_def)
    moreover have "ds_view u (wd_states w') = ds_view u (wd_states w)"
      using assms(3) cx3 st by (auto simp: ds_view_def round_state_def fun_eq_iff)
    ultimately show ?thesis using wr by (simp add: record_writes_def)
  qed
qed

text \<open>A round of one tenant changes nothing another tenant can see: neither its problem records nor its detection
  state nor its round audit; and the record store keeps its invariant.\<close>

theorem run_domain_isolated:
  assumes "cx_seen_keys cx = {}" "run_domain sha (cx, w) = Inr (res, cx', w')" "u \<noteq> cx_tenant_id cx"
    and "rec_inv (wd_sequences w, wd_records w)"
  shows "rec_view u (wd_sequences w', wd_records w') = rec_view u (wd_sequences w, wd_records w)
    \<and> ds_view u (wd_states w') = ds_view u (wd_states w) \<and> round_view u (wd_rounds w') = round_view u (wd_rounds w)
    \<and> rec_inv (wd_sequences w', wd_records w')"
  using run_domain_views [OF assms] by blast

theorem l3_verify_exact_witness:
  "\<exists>ver cx' w'. l3_verify id ''api'' [MetricAnomaly (sample_metric ''api'' ''cpu'' [])] False (demo_ctx 1 [], demo_world)
     = Inr (ver, cx', w') \<and> ve_passed ver"
  using l3_verify_exact [of "demo_ctx 1 []" id "''api''" "[MetricAnomaly (sample_metric ''api'' ''cpu'' [])]" False demo_world]
  by (auto simp: demo_ctx_def demo_config_def prev_rounds_def demo_world_def)

theorem run_domain_complete_witness:
  "\<exists>res cx' w'. run_domain id (demo_ctx 1 demo_signals, demo_world) = Inr (res, cx', w')
     \<and> map_of (wd_states w') (''t1'', ''application'', ''metric|t1|api|cp'') \<noteq> None"
proof -
  let ?cx = "demo_ctx 1 demo_signals" let ?cx1 = "?cx\<lparr>cx_round_started_at := Some (cx_now ?cx)\<rparr>"
  have "map_sum id (\<lambda>cx. map (anomaly_key id) (cx_anomalies cx)) (bind_res (l0_suppress ?cx1) l1_detect)
      = Inr [''metric|t1|api|cp'']" by code_simp
  then obtain cx2 cx3 where run: "l0_suppress ?cx1 = Inr cx2" "l1_detect cx2 = Inr cx3"
    and keys: "map (anomaly_key id) (cx_anomalies cx3) = [''metric|t1|api|cp'']"
    by (cases "l0_suppress ?cx1"; cases "bind_res (l0_suppress ?cx1) l1_detect") auto
  have "cx_tenant_id ?cx \<noteq> []" "cx_seen_keys ?cx = {}" by (simp_all add: demo_ctx_def)
  from run_domain_complete [OF this run, of id demo_world] obtain res cx' w' where
    r: "run_domain id (?cx, demo_world) = Inr (res, cx', w')"
      "map_of (wd_states w') = round_state id cx3 (cx_anomalies cx3) (wd_states demo_world)" by blast
  have cx3: "cx_tenant_id cx3 = ''t1''" "cx_domain cx3 = ''application''"
    using l0_suppress_keeps [OF run(1)] l1_detect_keeps [OF run(2)] by (auto simp: demo_ctx_def)
  have "''metric|t1|api|cp'' \<in> anomaly_key id ` set (cx_anomalies cx3)"
    using arg_cong [OF keys, of set] by simp
  with r cx3 show ?thesis by (auto simp: round_state_def)
qed

theorem run_domain_isolated_witness:
  "\<exists>res cx' w'. run_domain id (demo_ctx 1 demo_signals, demo_world) = Inr (res, cx', w')
     \<and> rec_view ''t2'' (wd_sequences w', wd_records w') = rec_view ''t2'' (wd_sequences demo_world, wd_records demo_world)"
proof -
  let ?cx = "demo_ctx 1 demo_signals" let ?cx1 = "?cx\<lparr>cx_round_started_at := Some (cx_now ?cx)\<rparr>"
  have "map_sum id (\<lambda>cx. length (cx_anomalies cx)) (bind_res (l0_suppress ?cx1) l1_detect) = Inr 1" by code_simp
  then obtain cx2 cx3 where run: "l0_suppress ?cx1 = Inr cx2" "l1_detect cx2 = Inr cx3"
    by (cases "l0_suppress ?cx1"; cases "bind_res (l0_suppress ?cx1) l1_detect") auto
  obtain res cx' w' where r: "run_domain id (?cx, demo_world) = Inr (res, cx', w')"
    using run_domain_spec [OF _ _ run, of id demo_world] by (auto simp: demo_ctx_def)
  have "cx_seen_keys (demo_ctx 1 demo_signals) = {}" "''t2'' \<noteq> cx_tenant_id (demo_ctx 1 demo_signals)"
    "rec_inv (wd_sequences demo_world, wd_records demo_world)"
    by (simp_all add: demo_ctx_def demo_world_def rec_inv_def)
  from run_domain_isolated [OF this(1) r this(2,3)] r show ?thesis by blast
qed

text \<open>Persistence is documented as a number of rounds, but counts occurrences: two samples of one metric in one
  round have the same key and are counted one after the other, so with a threshold of two rounds the incident is opened
  in the very first round.\<close>

theorem persistence_counts_samples:
  "(case l3_verify id ''api'' [MetricAnomaly (sample_metric ''api'' ''cpu'' [])] False (demo_ctx 2 [], demo_world) of
      Inr (ver, _) \<Rightarrow> \<not> ve_passed ver | Inl e \<Rightarrow> False)
   \<and> (case l3_verify id ''api'' [MetricAnomaly (sample_metric ''api'' ''cpu'' []),
         MetricAnomaly (sample_metric ''api'' ''cpu'' [] \<lparr>ma_value := 97\<rparr>)] False (demo_ctx 2 [], demo_world) of
      Inr (ver, _) \<Rightarrow> ve_passed ver | Inl e \<Rightarrow> False)"
  by code_simp

definition fpr_demo :: "string \<Rightarrow> ctx \<times> world" where
  "fpr_demo gk = (demo_ctx 2 [] \<lparr>cx_fpr := [(gk, \<lparr>fp_fpr = 1, fp_total = 100\<rparr>)]\<rparr>,
     demo_world\<lparr>wd_states := [((''t1'', ''application'', rev ''log|t1|api|boom''),
       \<lparr>st_consecutive_rounds = 1, st_miss_rounds = 0, st_first_seen = 0, st_last_seen = 0\<rparr>)]\<rparr>)"

definition fpr_group :: "anomaly list" where
  "fpr_group = [LogAnomaly (sample_log ''api'' ''boom'' []\<lparr>la_severity := ''high''\<rparr>), LogAnomaly (sample_log ''api'' ''xray'' [])]"

text \<open>The false-positive gate reads the rate under the key of the persistent anomalies, while the rates are written under
  the key of the record, which covers all anomalies of the group. When one anomaly of a group has persisted and another
  is new the keys differ: an incident whose key has a rate of one over a hundred judgements still passes with
  severity high, where the same history under the key of the persistent part lowers it to warning.\<close>

theorem fpr_gate_key_mismatch:
  "(case l3_verify rev ''api'' fpr_group False (fpr_demo (group_key rev ''t1'' ''application'' ''api'' fpr_group)) of
      Inr (ver, _) \<Rightarrow> ve_passed ver \<and> ve_final_severity ver = ''high'' | Inl e \<Rightarrow> False)
   \<and> (case l3_verify rev ''api'' fpr_group False (fpr_demo (group_key rev ''t1'' ''application'' ''api'' (take 1 fpr_group))) of
      Inr (ver, _) \<Rightarrow> ve_passed ver \<and> ve_final_severity ver = ''warning'' | Inl e \<Rightarrow> False)"
  by code_simp

end
