(* ===== verification/Apm_Targets.thy ===== *)
theory Apm_Targets
  imports Apm_Stores
begin

text \<open>
  The configuration tables: monitored endpoints (\<open>storage/monitor_targets.py\<close>), detection rules per domain
  (\<open>storage/domain_config.py\<close>) and the raw signal snapshots (\<open>storage/snapshots.py\<close>). Both implementations of
  each store work on lists of rows in insertion order, which is also the order of the \<open>id\<close> column.
\<close>

section \<open>Monitored endpoints\<close>

record target =
  mt_id :: nat
  mt_tenant_id :: string
  mt_target_id :: string
  mt_service :: string
  mt_signal_type :: string
  mt_source_type :: string
  mt_domain :: string
  mt_source_config :: pydict
  mt_schedule :: pydict
  mt_enabled :: bool
  mt_created_at :: time
  mt_deleted :: bool

text \<open>The body of a creation request; \<open>None\<close> where a key is absent.\<close>

record target_spec =
  ts_service :: string
  ts_signal_type :: string
  ts_source_type :: string
  ts_domain :: "string option"
  ts_source_config :: pydict
  ts_schedule :: "pydict option"
  ts_enabled :: "bool option"

record target_change =
  tc_service :: "string option"
  tc_signal_type :: "string option"
  tc_source_type :: "string option"
  tc_domain :: "string option"
  tc_enabled :: "bool option"
  tc_source_config :: "pydict option"
  tc_schedule :: "pydict option"

text \<open>\<open>int(s)\<close> on a string: blanks around it, a sign, digits with single underscores between them.\<close>

definition is_digit :: "char \<Rightarrow> bool" where
  "is_digit c = (let n = (of_char c :: nat) in 48 \<le> n \<and> n \<le> 57)"

fun digit_groups :: "string \<Rightarrow> string option" where
  "digit_groups [] = None"
| "digit_groups [c] = (if is_digit c then Some [c] else None)"
| "digit_groups (c # d # cs) =
     (if \<not> is_digit c then None
      else if d = CHR ''_'' then map_option ((#) c) (digit_groups cs)
      else map_option ((#) c) (digit_groups (d # cs)))"

definition py_int :: "string \<Rightarrow> int option" where
  "py_int s = (case strip s of
       [] \<Rightarrow> None
     | c # cs \<Rightarrow>
         if c = CHR ''-'' then map_option (\<lambda>ds. - int (read_digits 0 ds)) (digit_groups cs)
         else if c = CHR ''+'' then map_option (\<lambda>ds. int (read_digits 0 ds)) (digit_groups cs)
         else map_option (\<lambda>ds. int (read_digits 0 ds)) (digit_groups (c # cs)))"

definition parse_suffix :: "string \<Rightarrow> int" where
  "parse_suffix target_id =
     (case split_on (CHR ''-'') target_id of
        _ # s # _ \<Rightarrow> (case py_int s of Some n \<Rightarrow> n | None \<Rightarrow> 0)
      | _ \<Rightarrow> 0)"

definition mt_format :: "int \<Rightarrow> string" where
  "mt_format n = ''MT-'' @ zfill 4 (show_nat (nat n))"

fun max_suffix :: "string \<Rightarrow> int \<Rightarrow> target list \<Rightarrow> int" where
  "max_suffix tenant_id suffix [] = suffix"
| "max_suffix tenant_id suffix (r # rs) =
     max_suffix tenant_id (if mt_tenant_id r = tenant_id then max suffix (parse_suffix (mt_target_id r)) else suffix) rs"

definition next_target_id :: "string \<Rightarrow> target list \<Rightarrow> string" where
  "next_target_id tenant_id rows = mt_format (max_suffix tenant_id 0 rows + 1)"

definition default_schedule :: pydict where
  "default_schedule = [(''interval_sec'', PInt 60)]"

definition target_of :: "nat \<Rightarrow> string \<Rightarrow> string \<Rightarrow> time \<Rightarrow> target_spec \<Rightarrow> target" where
  "target_of i tenant_id target_id now t =
     \<lparr>mt_id = i, mt_tenant_id = tenant_id, mt_target_id = target_id, mt_service = ts_service t,
      mt_signal_type = ts_signal_type t, mt_source_type = ts_source_type t,
      mt_domain = (case ts_domain t of None \<Rightarrow> ''application'' | Some d \<Rightarrow> d),
      mt_source_config = ts_source_config t,
      mt_schedule = (case ts_schedule t of None \<Rightarrow> default_schedule | Some x \<Rightarrow> x),
      mt_enabled = (case ts_enabled t of None \<Rightarrow> True | Some b \<Rightarrow> b), mt_created_at = now, mt_deleted = False\<rparr>"

record target_store =
  tg_rows :: "target list"
  tg_next_id :: nat

definition mt_create :: "string \<Rightarrow> target_spec \<Rightarrow> time \<Rightarrow> target_store \<Rightarrow> (target \<times> target_store) res" where
  "mt_create tenant_id t now s =
     require_tenant tenant_id (Inr (
       let row = target_of (tg_next_id s) tenant_id (next_target_id tenant_id (tg_rows s)) now t
       in (row, \<lparr>tg_rows = tg_rows s @ [row], tg_next_id = tg_next_id s + 1\<rparr>)))"

text \<open>\<open>list\<close>: newest first, the id breaking ties; a reversed sort on the pair keeps equal elements in order.\<close>

definition mt_order :: "target list \<Rightarrow> target list" where
  "mt_order rows = sort_desc mt_created_at (sort_desc (\<lambda>r. int (mt_id r)) rows)"

definition mt_list :: "string \<Rightarrow> string option \<Rightarrow> string option \<Rightarrow> target list \<Rightarrow> target list res" where
  "mt_list tenant_id service signal_type rows =
     require_tenant tenant_id (Inr (mt_order (filter (\<lambda>r. mt_tenant_id r = tenant_id \<and> \<not> mt_deleted r
       \<and> (case service of None \<Rightarrow> True | Some x \<Rightarrow> mt_service r = x)
       \<and> (case signal_type of None \<Rightarrow> True | Some x \<Rightarrow> mt_signal_type r = x)) rows)))"

definition mt_key :: "string \<Rightarrow> string \<Rightarrow> target \<Rightarrow> bool" where
  "mt_key tenant_id target_id r = (mt_tenant_id r = tenant_id \<and> mt_target_id r = target_id)"

definition mt_get :: "string \<Rightarrow> string \<Rightarrow> target list \<Rightarrow> target option res" where
  "mt_get tenant_id target_id rows = require_tenant tenant_id (Inr (List.find (mt_key tenant_id target_id) rows))"

definition or_old :: "'a option \<Rightarrow> 'a \<Rightarrow> 'a" where
  "or_old v x = (case v of None \<Rightarrow> x | Some y \<Rightarrow> y)"

definition mt_patch :: "target_change \<Rightarrow> target \<Rightarrow> target" where
  "mt_patch p r = r\<lparr>mt_service := or_old (tc_service p) (mt_service r),
     mt_signal_type := or_old (tc_signal_type p) (mt_signal_type r),
     mt_source_type := or_old (tc_source_type p) (mt_source_type r),
     mt_domain := or_old (tc_domain p) (mt_domain r), mt_enabled := or_old (tc_enabled p) (mt_enabled r),
     mt_source_config := or_old (tc_source_config p) (mt_source_config r),
     mt_schedule := or_old (tc_schedule p) (mt_schedule r)\<rparr>"

text \<open>The in-memory loops change the first row that matches.\<close>

fun update_first :: "('a \<Rightarrow> bool) \<Rightarrow> ('a \<Rightarrow> 'a) \<Rightarrow> 'a list \<Rightarrow> 'a list" where
  "update_first P f [] = []"
| "update_first P f (x # xs) = (if P x then f x # xs else x # update_first P f xs)"

definition mt_update :: "string \<Rightarrow> string \<Rightarrow> target_change \<Rightarrow> target_store \<Rightarrow> (target option \<times> target_store) res" where
  "mt_update tenant_id target_id p s =
     require_tenant tenant_id (Inr (map_option (mt_patch p) (List.find (mt_key tenant_id target_id) (tg_rows s)),
       s\<lparr>tg_rows := update_first (mt_key tenant_id target_id) (mt_patch p) (tg_rows s)\<rparr>))"

definition mt_delete :: "string \<Rightarrow> string \<Rightarrow> target_store \<Rightarrow> target_store res" where
  "mt_delete tenant_id target_id s =
     require_tenant tenant_id (Inr (s\<lparr>tg_rows :=
       update_first (mt_key tenant_id target_id) (\<lambda>r. r\<lparr>mt_deleted := True\<rparr>) (tg_rows s)\<rparr>))"

definition load_all_targets :: "string \<Rightarrow> target list \<Rightarrow> target list res" where
  "load_all_targets tenant_id rows =
     require_tenant tenant_id (Inr (filter (\<lambda>r. mt_tenant_id r = tenant_id \<and> mt_enabled r \<and> \<not> mt_deleted r) rows))"

definition mt_list_tenants :: "target list \<Rightarrow> string list" where
  "mt_list_tenants rows = sorted_set (map mt_tenant_id (filter (\<lambda>r. mt_enabled r \<and> \<not> mt_deleted r) rows))"

subsection \<open>The PostgreSQL table\<close>

text \<open>The number comes from the tenant's newest row, read and inserted under an advisory lock.\<close>

definition pg_mt_create :: "string \<Rightarrow> target_spec \<Rightarrow> time \<Rightarrow> target_store \<Rightarrow> (string \<times> target_store) res" where
  "pg_mt_create tenant_id t now s =
     require_tenant tenant_id (
       let own = filter (\<lambda>r. mt_tenant_id r = tenant_id) (tg_rows s);
           target_id = (if own = [] then ''MT-0001'' else mt_format (parse_suffix (mt_target_id (last own)) + 1))
       in if \<exists>r \<in> set (tg_rows s). mt_key tenant_id target_id r then Inl (UniqueViolation ''uk_tenant_target_id'')
          else Inr (target_id, \<lparr>tg_rows = tg_rows s @ [target_of (tg_next_id s) tenant_id target_id now t],
                                tg_next_id = tg_next_id s + 1\<rparr>))"

text \<open>The filters are tested for truth here, so the empty string does not filter.\<close>

definition given :: "string option \<Rightarrow> string \<Rightarrow> bool" where
  "given v x = (case v of Some (c # cs) \<Rightarrow> x = c # cs | _ \<Rightarrow> True)"

definition pg_mt_list :: "string \<Rightarrow> string option \<Rightarrow> string option \<Rightarrow> target list \<Rightarrow> target list res" where
  "pg_mt_list tenant_id service signal_type rows =
     require_tenant tenant_id (Inr (mt_order (filter (\<lambda>r. mt_tenant_id r = tenant_id \<and> \<not> mt_deleted r
       \<and> given service (mt_service r) \<and> given signal_type (mt_signal_type r)) rows)))"

definition pg_mt_update :: "string \<Rightarrow> string \<Rightarrow> target_change \<Rightarrow> target_store \<Rightarrow> (target option \<times> target_store) res" where
  "pg_mt_update tenant_id target_id p s =
     require_tenant tenant_id (
       let rows = update_where (mt_key tenant_id target_id) (mt_patch p) (tg_rows s)
       in Inr (List.find (mt_key tenant_id target_id) rows, s\<lparr>tg_rows := rows\<rparr>))"

definition pg_mt_delete :: "string \<Rightarrow> string \<Rightarrow> target_store \<Rightarrow> target_store res" where
  "pg_mt_delete tenant_id target_id s =
     require_tenant tenant_id (Inr (s\<lparr>tg_rows :=
       update_where (mt_key tenant_id target_id) (\<lambda>r. r\<lparr>mt_deleted := True\<rparr>) (tg_rows s)\<rparr>))"

text \<open>The remaining statements read: \<open>get\<close> the row of a key, \<open>load_all_targets\<close> the enabled rows of a tenant,
  \<open>list_tenants\<close> the distinct tenants, sorted by the caller.\<close>

definition pg_mt_get :: "string \<Rightarrow> string \<Rightarrow> target list \<Rightarrow> target option res" where
  "pg_mt_get tenant_id target_id rows =
     require_tenant tenant_id (Inr (case filter (mt_key tenant_id target_id) rows of [] \<Rightarrow> None | r # _ \<Rightarrow> Some r))"

definition pg_load_all_targets :: "string \<Rightarrow> target list \<Rightarrow> target list res" where
  "pg_load_all_targets tenant_id rows =
     require_tenant tenant_id (Inr (filter (\<lambda>r. mt_tenant_id r = tenant_id \<and> mt_enabled r \<and> \<not> mt_deleted r) rows))"

definition pg_mt_list_tenants :: "target list \<Rightarrow> string list" where
  "pg_mt_list_tenants rows = sort (remdups (map mt_tenant_id (filter (\<lambda>r. mt_enabled r \<and> \<not> mt_deleted r) rows)))"

lemma find_filter: "(case filter P xs of [] \<Rightarrow> None | x # _ \<Rightarrow> Some x) = List.find P xs"
  by (induction xs) auto

lemma given_iff: "v \<noteq> Some [] \<Longrightarrow> given v x \<longleftrightarrow> (case v of None \<Rightarrow> True | Some y \<Rightarrow> x = y)"
  by (auto simp: given_def split: option.split list.split)

text \<open>On the same rows both stores answer every query alike, a filter on the empty string apart.\<close>

lemma pg_target_queries:
  "pg_mt_get u x rows = mt_get u x rows" "pg_load_all_targets u rows = load_all_targets u rows"
  "pg_mt_list_tenants rows = mt_list_tenants rows"
  "svc \<noteq> Some [] \<Longrightarrow> st \<noteq> Some [] \<Longrightarrow> pg_mt_list u svc st rows = mt_list u svc st rows"
  by (simp_all add: pg_mt_get_def mt_get_def find_filter pg_load_all_targets_def load_all_targets_def pg_mt_list_tenants_def
      mt_list_tenants_def sorted_set_def pg_mt_list_def mt_list_def given_iff)

section \<open>Rules per domain\<close>

record domain_row =
  do_tenant_id :: string
  do_domain :: string
  do_config :: pydict
  do_enabled :: bool
  do_version :: int

record seed_item =
  se_id :: string
  se_enabled :: "bool option"
  se_config :: pydict

definition do_key :: "string \<Rightarrow> string \<Rightarrow> domain_row \<Rightarrow> bool" where
  "do_key tenant_id domain r = (do_tenant_id r = tenant_id \<and> do_domain r = domain)"

definition do_load :: "string \<Rightarrow> domain_row list \<Rightarrow> domain_row list res" where
  "do_load tenant_id rows = require_tenant tenant_id (Inr (filter (\<lambda>r. do_tenant_id r = tenant_id \<and> do_enabled r) rows))"

definition do_upsert :: "string \<Rightarrow> string \<Rightarrow> pydict \<Rightarrow> domain_row list \<Rightarrow> (int \<times> domain_row list) res" where
  "do_upsert tenant_id domain cfg rows =
     require_tenant tenant_id (Inr (case List.find (do_key tenant_id domain) rows of
       Some r \<Rightarrow> (do_version r + 1, update_first (do_key tenant_id domain)
         (\<lambda>r. r\<lparr>do_config := cfg, do_enabled := True, do_version := do_version r + 1\<rparr>) rows)
     | None \<Rightarrow> (1, rows @ [\<lparr>do_tenant_id = tenant_id, do_domain = domain, do_config = cfg, do_enabled = True,
         do_version = 1\<rparr>])))"

definition seed_enabled :: "seed_item \<Rightarrow> bool" where
  "seed_enabled x = (case se_enabled x of None \<Rightarrow> True | Some b \<Rightarrow> b)"

definition seed_row :: "string \<Rightarrow> seed_item \<Rightarrow> domain_row" where
  "seed_row tenant_id x = \<lparr>do_tenant_id = tenant_id, do_domain = se_id x, do_config = se_config x,
     do_enabled = seed_enabled x, do_version = 1\<rparr>"

definition do_seed :: "string \<Rightarrow> seed_item list \<Rightarrow> domain_row list \<Rightarrow> domain_row list res" where
  "do_seed tenant_id items rows =
     require_tenant tenant_id (Inr (fold (\<lambda>x rows.
       if \<exists>r \<in> set rows. do_key tenant_id (se_id x) r then rows else rows @ [seed_row tenant_id x]) items rows))"

definition do_delete :: "string \<Rightarrow> string \<Rightarrow> domain_row list \<Rightarrow> domain_row list res" where
  "do_delete tenant_id domain rows =
     require_tenant tenant_id (Inr (filter (\<lambda>r. \<not> do_key tenant_id domain r) rows))"

text \<open>\<open>ON CONFLICT (tenant_id, domain) DO UPDATE\<close>: the old version is read from the table.\<close>

definition pg_do_upsert :: "string \<Rightarrow> string \<Rightarrow> pydict \<Rightarrow> domain_row list \<Rightarrow> (int \<times> domain_row list) res" where
  "pg_do_upsert tenant_id domain cfg rows =
     require_tenant tenant_id (Inr (case List.find (do_key tenant_id domain) rows of
       Some old \<Rightarrow> (do_version old + 1, update_where (do_key tenant_id domain)
         (\<lambda>r. r\<lparr>do_config := cfg, do_enabled := True, do_version := do_version r + 1\<rparr>) rows)
     | None \<Rightarrow> (1, rows @ [\<lparr>do_tenant_id = tenant_id, do_domain = domain, do_config = cfg, do_enabled = True,
         do_version = 1\<rparr>])))"

definition pg_do_seed :: "string \<Rightarrow> seed_item list \<Rightarrow> domain_row list \<Rightarrow> domain_row list res" where
  "pg_do_seed tenant_id items rows =
     require_tenant tenant_id (Inr (fold (\<lambda>x rows.
       if \<exists>r \<in> set rows. do_key tenant_id (se_id x) r
       then update_where (do_key tenant_id (se_id x)) (\<lambda>r. r\<lparr>do_config := se_config x, do_enabled := seed_enabled x\<rparr>) rows
       else rows @ [seed_row tenant_id x]) items rows))"

definition pg_do_load :: "string \<Rightarrow> domain_row list \<Rightarrow> domain_row list res" where
  "pg_do_load tenant_id rows = require_tenant tenant_id (Inr (filter (\<lambda>r. do_tenant_id r = tenant_id \<and> do_enabled r) rows))"

definition pg_do_delete :: "string \<Rightarrow> string \<Rightarrow> domain_row list \<Rightarrow> domain_row list res" where
  "pg_do_delete tenant_id domain rows =
     require_tenant tenant_id (Inr (filter (\<lambda>r. \<not> (do_tenant_id r = tenant_id \<and> do_domain r = domain)) rows))"

section \<open>Snapshots\<close>

record snapshot_row =
  sn_snapshot_ts :: time
  sn_tenant_id :: string
  sn_target_id :: string
  sn_service :: string
  sn_domain :: string
  sn_signal_type :: string
  sn_metric :: "string option"
  sn_value :: "rat option"
  sn_level :: "string option"
  sn_message :: "string option"
  sn_signature :: "string option"
  sn_labels :: "(string \<times> string) list option"

definition signal_row :: "signal \<Rightarrow> string \<Rightarrow> string \<Rightarrow> string \<Rightarrow> time \<Rightarrow> snapshot_row" where
  "signal_row sig tenant_id target_id domain snapshot_ts =
     (let base = \<lparr>sn_snapshot_ts = snapshot_ts, sn_tenant_id = tenant_id, sn_target_id = target_id,
        sn_service = sig_service sig, sn_domain = domain, sn_signal_type = sig_kind sig, sn_metric = None,
        sn_value = None, sn_level = None, sn_message = None, sn_signature = None, sn_labels = None\<rparr>
      in case sig of
        MetricSignal m \<Rightarrow> base\<lparr>sn_metric := Some (ms_metric m), sn_value := Some (ms_value m), sn_labels := Some (ms_labels m)\<rparr>
      | LogSignal l \<Rightarrow> base\<lparr>sn_level := Some (ls_level l), sn_message := Some (ls_message l), sn_signature := ls_signature l\<rparr>
      | ChangeSignal c \<Rightarrow> base)"

definition snapshot_write ::
  "string \<Rightarrow> string \<Rightarrow> signal list \<Rightarrow> string \<Rightarrow> time \<Rightarrow> snapshot_row list \<Rightarrow> (nat \<times> snapshot_row list) res" where
  "snapshot_write tenant_id target_id signals domain snapshot_ts rows =
     require_tenant tenant_id
       (Inr (length signals, rows @ map (\<lambda>s. signal_row s tenant_id target_id domain snapshot_ts) signals))"

definition pg_snapshot_write ::
  "string \<Rightarrow> string \<Rightarrow> signal list \<Rightarrow> string \<Rightarrow> time \<Rightarrow> snapshot_row list \<Rightarrow> (nat \<times> snapshot_row list) res" where
  "pg_snapshot_write tenant_id target_id signals domain snapshot_ts rows =
     require_tenant tenant_id
       (if signals = [] then Inr (0, rows)
        else Inr (length signals,
          fold (\<lambda>s rows. rows @ [signal_row s tenant_id target_id domain snapshot_ts]) signals rows))"

section \<open>Numbering of endpoints\<close>

lemma digit_groups_digits: "s \<noteq> [] \<Longrightarrow> (\<forall>c \<in> set s. is_digit c) \<Longrightarrow> digit_groups s = Some s"
proof (induction s rule: digit_groups.induct)
  case (3 c d cs)
  then have "d \<noteq> CHR ''_''" by (auto simp: is_digit_def)
  with 3 show ?case by simp
qed auto

lemma show_nat_digits: "c \<in> set (show_nat n) \<Longrightarrow> is_digit c"
proof (induction n rule: show_nat.induct)
  case (1 n)
  have dig: "is_digit (char_of (48 + d))" if "d < 10" for d :: nat
    using that by (simp add: is_digit_def Let_def of_char_of)
  show ?case
  proof (cases "n < 10")
    case True
    with 1(2) dig show ?thesis by (simp add: show_nat.simps [of n])
  next
    case False
    with 1(2) have "c \<in> set (show_nat (n div 10)) \<or> c = char_of (48 + n mod 10)"
      by (auto simp: show_nat.simps [of n])
    with 1(1) [OF False] dig [of "n mod 10"] show ?thesis by auto
  qed
qed

lemma zfill_digits: "c \<in> set (zfill w (show_nat n)) \<Longrightarrow> is_digit c"
  by (auto simp: zfill_def is_digit_def dest: show_nat_digits split: if_splits)

lemma show_nat_nonempty [simp]: "show_nat n \<noteq> []"
  by (subst show_nat.simps) simp

lemma py_int_digits:
  assumes "s \<noteq> []" "\<forall>c \<in> set s. is_digit c"
  shows "py_int s = Some (int (read_digits 0 s))"
proof -
  have ns: "\<not> py_space c" "c \<noteq> CHR ''-''" "c \<noteq> CHR ''+''" if "is_digit c" for c
    using that by (auto simp: is_digit_def py_space_def Let_def)
  have "dropWhile py_space t = t" if "\<forall>c \<in> set t. is_digit c" for t
    using that ns by (cases t) auto
  then have "strip s = s" using assms(2) by (simp add: strip_def)
  with assms ns digit_groups_digits [OF assms] show ?thesis by (cases s) (auto simp: py_int_def)
qed

lemma parse_suffix_format: "0 \<le> n \<Longrightarrow> parse_suffix (mt_format n) = n"
proof -
  assume "0 \<le> n"
  let ?z = "zfill 4 (show_nat (nat n))"
  have d: "\<forall>c \<in> set ?z. is_digit c" using zfill_digits by blast
  then have "CHR ''-'' \<notin> set ?z" by (auto simp: is_digit_def)
  then have "split_on (CHR ''-'') (''MT'' @ CHR ''-'' # ?z) = [''MT'', ?z]"
    by (simp add: split_on_append split_on_free)
  moreover have "?z \<noteq> []" by (simp add: zfill_def)
  ultimately show ?thesis
    using py_int_digits [OF _ d] \<open>0 \<le> n\<close> by (simp add: parse_suffix_def mt_format_def read_zfill)
qed

datatype mt_op = MtCreate target_spec time | MtUpdate string target_change | MtDelete string

fun mt_step :: "mt_op \<Rightarrow> string \<Rightarrow> target_store \<Rightarrow> target_store res" where
  "mt_step (MtCreate t now) u s = bind_res (mt_create u t now s) (\<lambda>(_, s'). Inr s')"
| "mt_step (MtUpdate x p) u s = bind_res (mt_update u x p s) (\<lambda>(_, s'). Inr s')"
| "mt_step (MtDelete x) u s = mt_delete u x s"

fun pg_mt_step :: "mt_op \<Rightarrow> string \<Rightarrow> target_store \<Rightarrow> target_store res" where
  "pg_mt_step (MtCreate t now) u s = bind_res (pg_mt_create u t now s) (\<lambda>(_, s'). Inr s')"
| "pg_mt_step (MtUpdate x p) u s = bind_res (pg_mt_update u x p s) (\<lambda>(_, s'). Inr s')"
| "pg_mt_step (MtDelete x) u s = pg_mt_delete u x s"

definition suffixes :: "string \<Rightarrow> target list \<Rightarrow> int list" where
  "suffixes u rows = map (\<lambda>r. parse_suffix (mt_target_id r)) (filter (\<lambda>r. mt_tenant_id r = u) rows)"

text \<open>The numbers of a tenant's endpoints increase.\<close>

definition mt_inv :: "target_store \<Rightarrow> bool" where
  "mt_inv s \<longleftrightarrow> (\<forall>u. sorted_wrt (<) (0 # suffixes u (tg_rows s)))"

lemma max_suffix_Max: "max_suffix u m rows = Max (set (m # suffixes u rows))"
proof (induction rows arbitrary: m)
  case (Cons r rows)
  show ?case
  proof (cases "mt_tenant_id r = u")
    case True
    then have "suffixes u (r # rows) = parse_suffix (mt_target_id r) # suffixes u rows" by (simp add: suffixes_def)
    moreover have "max_suffix u m (r # rows) = Max (set (max m (parse_suffix (mt_target_id r)) # suffixes u rows))"
      using True Cons.IH by simp
    ultimately show ?thesis by (cases "suffixes u rows") (simp_all add: max.assoc)
  next
    case False
    then have "suffixes u (r # rows) = suffixes u rows" by (simp add: suffixes_def)
    with False Cons.IH show ?thesis by simp
  qed
qed (simp add: suffixes_def)

lemma sorted_Max: "sorted_wrt (<) xs \<Longrightarrow> xs \<noteq> [] \<Longrightarrow> Max (set xs) = last (xs :: int list)"
proof (induction xs rule: rev_induct)
  case (snoc x xs)
  then show ?case
    by (cases "xs = []") (auto simp: sorted_wrt_append intro!: Max_eqI dest: less_imp_le)
qed simp

lemma max_suffix_last: "mt_inv s \<Longrightarrow> max_suffix u 0 (tg_rows s) = last (0 # suffixes u (tg_rows s))"
  unfolding max_suffix_Max by (rule sorted_Max) (auto simp: mt_inv_def simp del: sorted_wrt.simps)

lemma mt_targets_distinct:
  assumes "mt_inv s"
  shows "distinct (map mt_target_id (filter (\<lambda>r. mt_tenant_id r = u) (tg_rows s)))"
proof -
  have "sorted_wrt (<) (suffixes u (tg_rows s))" using assms by (simp add: mt_inv_def)
  then have "distinct (suffixes u (tg_rows s))" using strict_sorted_iff by blast
  then have "distinct (map parse_suffix (map mt_target_id (filter (\<lambda>r. mt_tenant_id r = u) (tg_rows s))))"
    by (simp add: suffixes_def comp_def)
  then show ?thesis using distinct_map by blast
qed

lemma update_first_where:
  assumes "\<And>x. Q x \<longleftrightarrow> P x \<and> f x = k"
  shows "distinct (map f (filter P xs)) \<Longrightarrow> update_first Q g xs = update_where Q g xs"
proof (induction xs)
  case (Cons x xs)
  show ?case
  proof (cases "Q x")
    case True
    with Cons.prems have "k \<notin> f ` set (filter P xs)" using assms by simp
    then have "update_where Q g xs = xs" by (intro update_where_none) (auto simp: assms)
    with True show ?thesis by (simp add: update_where_def)
  next
    case False
    have "distinct (map f (filter P xs))" using Cons.prems by (simp split: if_splits)
    with False Cons.IH show ?thesis by (simp add: update_where_def)
  qed
qed (simp add: update_where_def)

lemma update_where_key:
  assumes "mt_inv s"
  shows "update_first (mt_key u x) g (tg_rows s) = update_where (mt_key u x) g (tg_rows s)"
  by (rule update_first_where [where P = "\<lambda>r. mt_tenant_id r = u" and f = mt_target_id, OF _ mt_targets_distinct [OF assms]])
    (simp add: mt_key_def)

lemma mt_format_1: "mt_format 1 = ''MT-0001''"
  by code_simp

lemma pg_next_target_id:
  assumes "mt_inv s"
  shows "(let own = filter (\<lambda>r. mt_tenant_id r = u) (tg_rows s)
     in if own = [] then ''MT-0001'' else mt_format (parse_suffix (mt_target_id (last own)) + 1)) = next_target_id u (tg_rows s)"
  unfolding next_target_id_def max_suffix_last [OF assms]
  by (simp add: Let_def suffixes_def last_map mt_format_1 flip: mt_format_1)

lemma next_target_id_fresh:
  assumes "mt_inv s" "r \<in> set (tg_rows s)"
  shows "\<not> mt_key u (next_target_id u (tg_rows s)) r"
proof
  let ?m = "max_suffix u 0 (tg_rows s)"
  assume k: "mt_key u (next_target_id u (tg_rows s)) r"
  have m: "0 \<le> ?m" by (simp add: max_suffix_Max)
  from k have "parse_suffix (mt_target_id r) = ?m + 1"
    using parse_suffix_format [of "?m + 1"] m by (simp add: mt_key_def next_target_id_def)
  moreover from k assms(2) have "parse_suffix (mt_target_id r) \<in> set (0 # suffixes u (tg_rows s))"
    by (auto simp: suffixes_def mt_key_def image_iff)
  then have "parse_suffix (mt_target_id r) \<le> ?m" unfolding max_suffix_Max by (intro Max_ge) auto
  ultimately show False by simp
qed

lemma pg_mt_step_eq: "mt_inv s \<Longrightarrow> pg_mt_step p u s = mt_step p u s"
proof (cases p)
  case (MtCreate t now)
  assume inv: "mt_inv s"
  have "\<not> (\<exists>r \<in> set (tg_rows s). mt_key u (next_target_id u (tg_rows s)) r)" using next_target_id_fresh [OF inv] by blast
  with MtCreate pg_next_target_id [OF inv, of u] show ?thesis
    by (cases "u = []") (simp_all add: pg_mt_create_def mt_create_def Let_def)
qed (cases "u = []"; simp add: mt_update_def pg_mt_update_def mt_delete_def pg_mt_delete_def update_where_key Let_def)+

lemma suffixes_update_first:
  "(\<And>r. mt_target_id (g r) = mt_target_id r \<and> mt_tenant_id (g r) = mt_tenant_id r) \<Longrightarrow>
     suffixes u (update_first Q g rows) = suffixes u rows"
  by (induction rows) (auto simp: suffixes_def)

lemma mt_step_inv:
  assumes "mt_inv s" "mt_step p u s = Inr s'"
  shows "mt_inv s'"
proof (cases p)
  case (MtCreate t now)
  let ?id = "next_target_id u (tg_rows s)" let ?m = "max_suffix u 0 (tg_rows s)"
  have m: "0 \<le> ?m" by (simp add: max_suffix_Max)
  have s': "tg_rows s' = tg_rows s @ [target_of (tg_next_id s) u ?id now t]"
    using assms(2) MtCreate by (auto simp: mt_create_def Let_def)
  have "suffixes v (tg_rows s') = suffixes v (tg_rows s) @ (if v = u then [?m + 1] else [])" for v
    unfolding s' using parse_suffix_format [of "?m + 1"] m
    by (simp add: suffixes_def target_of_def next_target_id_def)
  moreover have "\<forall>y \<in> set (0 # suffixes u (tg_rows s)). y < ?m + 1"
    unfolding max_suffix_Max using Max_ge [of "set (0 # suffixes u (tg_rows s))"] by fastforce
  ultimately show ?thesis using assms(1) by (auto simp: mt_inv_def sorted_wrt_append)
next
  case (MtUpdate x q)
  then show ?thesis using assms
    by (auto simp: mt_update_def mt_inv_def suffixes_update_first mt_patch_def)
next
  case (MtDelete x)
  then show ?thesis using assms by (auto simp: mt_delete_def mt_inv_def suffixes_update_first)
qed

definition mt_view :: "string \<Rightarrow> target_store \<Rightarrow> target list" where
  "mt_view u s = filter (\<lambda>r. mt_tenant_id r = u) (tg_rows s)"

lemma update_first_view:
  "(\<And>r. mt_tenant_id (g r) = mt_tenant_id r) \<Longrightarrow> u \<noteq> t \<Longrightarrow>
     filter (\<lambda>r. mt_tenant_id r = u) (update_first (mt_key t x) g rows) = filter (\<lambda>r. mt_tenant_id r = u) rows"
  by (induction rows) (auto simp: mt_key_def)

lemma mt_patch_tenant [simp]: "mt_tenant_id (mt_patch p r) = mt_tenant_id r"
  by (simp add: mt_patch_def)

interpretation targets: tenant_store mt_step mt_view mt_inv
proof
  show "mt_step p [] s = Inl (ValueError ''tenant_id is required'')" for p s
    by (cases p) (simp_all add: mt_create_def mt_update_def mt_delete_def)
  show "mt_inv s \<Longrightarrow> mt_step p t s = Inr s' \<Longrightarrow> mt_inv s'" for p t s s' by (rule mt_step_inv)
  show "mt_step p t s = Inr s' \<Longrightarrow> u \<noteq> t \<Longrightarrow> mt_view u s' = mt_view u s" for p t s s' u
    by (cases p) (auto simp: mt_create_def mt_update_def mt_delete_def mt_view_def Let_def target_of_def
        update_first_view)
qed

definition no_targets :: target_store where
  "no_targets = \<lparr>tg_rows = [], tg_next_id = 1\<rparr>"

lemma no_targets_inv: "mt_inv no_targets"
  by (simp add: mt_inv_def no_targets_def suffixes_def)

lemma pg_mt_run_eq: "mt_inv s \<Longrightarrow> run_ops pg_mt_step ops s = run_ops mt_step ops s"
proof (induction ops arbitrary: s)
  case (Cons x ops)
  obtain p t where x: "x = (p, t)" by (cases x)
  have "mt_inv (case mt_step p t s of Inl e \<Rightarrow> s | Inr s' \<Rightarrow> s')"
    using Cons.prems mt_step_inv by (auto split: sum.split)
  with Cons x show ?case by (simp add: pg_mt_step_eq)
qed simp

text \<open>C36. Over every history of creations, changes and deletions of endpoints by any tenants, the PostgreSQL
  store and the in-memory store hold the same rows: taking the number after the tenant's newest row is the same as taking
  the largest, no insertion violates the uniqueness of numbers, and no two endpoints of a tenant ever share
  their number, deleted ones included.\<close>

theorem pg_targets_refine:
  "run_ops pg_mt_step ops no_targets = run_ops mt_step ops no_targets
   \<and> distinct (map (\<lambda>r. (mt_tenant_id r, mt_target_id r)) (tg_rows (run_ops mt_step ops no_targets)))"
proof
  show "run_ops pg_mt_step ops no_targets = run_ops mt_step ops no_targets"
    by (rule pg_mt_run_eq [OF no_targets_inv])
  have inv: "mt_inv (run_ops mt_step ops no_targets)" by (rule targets.inv_run [OF no_targets_inv])
  have "distinct (map (\<lambda>r. (mt_tenant_id r, mt_target_id r)) rows)"
    if "\<forall>u. distinct (map mt_target_id (filter (\<lambda>r. mt_tenant_id r = u) rows))" for rows
    using that
  proof (induction rows)
    case (Cons r rows)
    have "mt_target_id r \<notin> mt_target_id ` set (filter (\<lambda>x. mt_tenant_id x = mt_tenant_id r) rows)"
      using spec [OF Cons.prems, of "mt_tenant_id r"] by simp
    moreover have "\<forall>u. distinct (map mt_target_id (filter (\<lambda>r. mt_tenant_id r = u) rows))"
      using Cons.prems by (metis (mono_tags, lifting) distinct.simps(2) filter.simps(2) list.simps(9))
    ultimately show ?case using Cons.IH by auto
  qed simp
  then show "distinct (map (\<lambda>r. (mt_tenant_id r, mt_target_id r)) (tg_rows (run_ops mt_step ops no_targets)))"
    using mt_targets_distinct [OF inv] by blast
qed

end
