(* ===== verification/Apm_Config.thy ===== *)
theory Apm_Config
  imports Apm_Targets Apm_Plugins
begin

text \<open>
  \<open>config/loader.py\<close> and \<open>config/validator.py\<close>. The loader reads the rules of a tenant, seeds an empty
  table from the packaged file and falls back to the rows it saw last when the store fails. The validator checks the
  parameters of the built-in plugins before a rule set is written.
\<close>

section \<open>Loader\<close>

text \<open>The seed file's entries: a domain keeps the four known sections that are present.\<close>

definition seed_sections :: "string list" where
  "seed_sections = [''detectors'', ''suppressors'', ''correlation'', ''verify'']"

definition yaml_item :: "pydict \<Rightarrow> seed_item res" where
  "yaml_item d =
     bind_res (key_index d ''id'') (\<lambda>i. case i of
        PStr name \<Rightarrow> Inr \<lparr>se_id = name, se_enabled = Some (truthy (py_get_or d ''enabled'' (PBool True))),
          se_config = concat (map (\<lambda>k. case map_of d k of None \<Rightarrow> [] | Some v \<Rightarrow> [(k, v)]) seed_sections)\<rparr>
      | _ \<Rightarrow> Inl (ValidationError ''id''))"

definition load_yaml_seed :: "pydict list \<Rightarrow> seed_item list res" where
  "load_yaml_seed domains = mapM yaml_item domains"

text \<open>A store as the loader sees it: \<open>seed\<close> is the in-memory or the PostgreSQL version; \<open>outage\<close> is the error
  every call to it raises while the database is down.\<close>

type_synonym seed_fn = "string \<Rightarrow> seed_item list \<Rightarrow> domain_row list \<Rightarrow> domain_row list res"

definition up :: "error option \<Rightarrow> 'a res \<Rightarrow> 'a res" where
  "up outage r = (case outage of None \<Rightarrow> r | Some e \<Rightarrow> Inl e)"

record loader =
  lo_cache :: "domain_row list option"

definition loader_fetch ::
  "seed_fn \<Rightarrow> pydict list \<Rightarrow> error option \<Rightarrow> string \<Rightarrow> domain_row list \<Rightarrow> (domain_row list \<times> domain_row list) res" where
  "loader_fetch seed yaml outage tenant_id tbl =
     bind_res (up outage (do_load tenant_id tbl)) (\<lambda>rows.
       if rows \<noteq> [] then Inr (rows, tbl)
       else bind_res (load_yaml_seed yaml) (\<lambda>items.
            bind_res (up outage (seed tenant_id items tbl)) (\<lambda>tbl'.
            bind_res (up outage (do_load tenant_id tbl')) (\<lambda>rows'. Inr (rows', tbl')))))"

definition loader_load ::
  "seed_fn \<Rightarrow> pydict list \<Rightarrow> error option \<Rightarrow> string \<Rightarrow> loader \<times> domain_row list
   \<Rightarrow> domain_row list res \<times> loader \<times> domain_row list" where
  "loader_load seed yaml outage tenant_id = (\<lambda>(lo, tbl).
     case loader_fetch seed yaml outage tenant_id tbl of
       Inr (rows, tbl') \<Rightarrow> (Inr rows, lo\<lparr>lo_cache := Some rows\<rparr>, tbl')
     | Inl e \<Rightarrow> (case lo_cache lo of Some rows \<Rightarrow> (Inr rows, lo, tbl) | None \<Rightarrow> (Inl e, lo, tbl)))"

definition loader_reload ::
  "seed_fn \<Rightarrow> pydict list \<Rightarrow> error option \<Rightarrow> string \<Rightarrow> loader \<times> domain_row list
   \<Rightarrow> domain_row list res \<times> loader \<times> domain_row list" where
  "loader_reload seed yaml outage tenant_id = (\<lambda>(lo, tbl).
     loader_load seed yaml outage tenant_id (lo\<lparr>lo_cache := None\<rparr>, tbl))"

section \<open>Validator\<close>

definition ConfigValidationError :: "string \<Rightarrow> error" where
  "ConfigValidationError reason = AppException CONFIG_ERROR reason"

definition require_numeric :: "pydict \<Rightarrow> string \<Rightarrow> bool \<Rightarrow> unit res" where
  "require_numeric params key positive =
     (case map_of params key of
        None \<Rightarrow> Inr ()
      | Some v \<Rightarrow>
          (case v of
             PInt i \<Rightarrow> if positive \<and> i \<le> 0 then Inl (ConfigValidationError ''must be positive'') else Inr ()
           | PFloat r \<Rightarrow> if positive \<and> r \<le> 0 then Inl (ConfigValidationError ''must be positive'') else Inr ()
           | _ \<Rightarrow> Inl (ConfigValidationError ''must be a number'')))"

definition require_nonempty_str :: "pydict \<Rightarrow> string \<Rightarrow> unit res" where
  "require_nonempty_str params key =
     (case map_of params key of
        None \<Rightarrow> Inr ()
      | Some v \<Rightarrow> (case v of PStr s \<Rightarrow> if strip s = [] then Inl (ConfigValidationError ''must be a non-empty string'') else Inr ()
           | _ \<Rightarrow> Inl (ConfigValidationError ''must be a non-empty string'')))"

definition validate_static_threshold :: "pydict \<Rightarrow> unit res" where
  "validate_static_threshold params =
     (if map_of params ''threshold'' = None then Inl (ConfigValidationError ''requires param threshold'')
      else require_numeric params ''threshold'' False)"

definition validate_simple_compare :: "pydict \<Rightarrow> unit res" where
  "validate_simple_compare params =
     (if params = [] then Inl (ConfigValidationError ''requires param baseline or ratio'')
      else if map_of params ''baseline'' = None \<and> map_of params ''ratio'' = None
      then Inl (ConfigValidationError ''requires param baseline or ratio'')
      else bind_res (require_numeric params ''baseline'' False) (\<lambda>_. require_numeric params ''ratio'' True))"

definition validate_signature_aggregate :: "pydict \<Rightarrow> unit res" where
  "validate_signature_aggregate params =
     bind_res (require_numeric params ''min_count'' True) (\<lambda>_. require_numeric params ''n_frames'' True)"

definition validate_maintenance_window :: "pydict \<Rightarrow> unit res" where
  "validate_maintenance_window params = require_numeric params ''duration_minutes'' True"

definition validate_blacklist :: "pydict \<Rightarrow> unit res" where
  "validate_blacklist params = require_nonempty_str params ''pattern''"

definition detector_check :: "string \<Rightarrow> pydict \<Rightarrow> unit res" where
  "detector_check name params =
     (if name = ''static_threshold'' then validate_static_threshold params
      else if name = ''simple_compare'' then validate_simple_compare params
      else if name = ''signature_aggregate'' then validate_signature_aggregate params
      else Inr ())"

definition suppressor_check :: "string \<Rightarrow> pydict \<Rightarrow> unit res" where
  "suppressor_check name params =
     (if name = ''maintenance_window'' then validate_maintenance_window params
      else if name = ''blacklist'' then validate_blacklist params
      else Inr ())"

fun plugin_name :: "plugin \<Rightarrow> string" where
  "plugin_name (DetectorPlugin d) = det_name d"
| "plugin_name (SuppressorPlugin p) = sup_name p"
| "plugin_name (CollectorPlugin n) = n"

definition wrap_missing :: "string \<Rightarrow> 'a res \<Rightarrow> 'a res" where
  "wrap_missing msg r = (case r of Inl (AppException c m) \<Rightarrow> Inl (ConfigValidationError msg) | _ \<Rightarrow> r)"

fun each :: "('a \<Rightarrow> unit res) \<Rightarrow> 'a list \<Rightarrow> unit res" where
  "each f [] = Inr ()"
| "each f (x # xs) = bind_res (f x) (\<lambda>_. each f xs)"

definition validate_domain_config :: "domain_config \<Rightarrow> registry \<Rightarrow> unit res" where
  "validate_domain_config cfg reg =
     bind_res (each (\<lambda>spec.
       bind_res (wrap_missing (''detector plugin not found: '' @ ds_plugin spec) (registry_get reg ''detector'' (ds_plugin spec)))
         (\<lambda>plugin. detector_check (plugin_name plugin) (ds_params spec))) (dc_detectors cfg)) (\<lambda>_.
     each (\<lambda>spec.
       bind_res (wrap_missing (''suppressor plugin not found: '' @ ss_name spec) (registry_get reg ''suppressor'' (ss_name spec)))
         (\<lambda>plugin. suppressor_check (plugin_name plugin) (ss_params spec))) (dc_suppressors cfg))"

section \<open>What validation guarantees\<close>

lemma each_Inr [simp]: "each f xs = Inr u \<longleftrightarrow> (\<forall>x \<in> set xs. f x = Inr ())"
  by (induction xs) auto

lemma wrap_missing_Inr [simp]: "wrap_missing m r = Inr x \<longleftrightarrow> r = Inr x"
  by (auto simp: wrap_missing_def split: sum.splits error.splits)

lemma require_numeric_py_num:
  "require_numeric params key pos = Inr () \<Longrightarrow> map_of params key = Some v \<Longrightarrow> \<exists>n. py_num v = Some n \<and> (pos \<longrightarrow> 0 < n)"
  by (auto simp: require_numeric_def split: pyval.splits if_splits)

lemma metric_loop_total: "(\<And>m. \<exists>r. f m = Inr r) \<Longrightarrow> \<exists>as. metric_loop f ss = Inr as"
proof (induction f ss rule: metric_loop.induct)
  case (2 f m ss)
  then obtain r as where "f m = Inr r" "metric_loop f ss = Inr as" by blast
  then show ?case by simp
qed auto

text \<open>A comparison operator that needs no interval, or none at all.\<close>

definition plain_operator :: "pydict \<Rightarrow> bool" where
  "plain_operator ps = (py_get_or ps ''operator'' (PStr ''gt'') \<in> {PStr ''gt'', PStr ''gte'', PStr ''lt'', PStr ''lte''})"

lemma static_threshold_total:
  assumes "validate_static_threshold ps = Inr ()" "plain_operator ps" "severity_param ps = Inr sev"
  shows "\<exists>as. static_threshold_detect ss ps = Inr as"
proof -
  obtain v where v: "map_of ps ''threshold'' = Some v" "require_numeric ps ''threshold'' False = Inr ()"
    using assms(1) by (auto simp: validate_static_threshold_def split: if_splits)
  from require_numeric_py_num [OF v(2,1)] obtain n where n: "py_num v = Some n" by blast
  obtain oper where oper: "Operator (py_get_or ps ''operator'' (PStr ''gt'')) = Inr oper" "oper \<noteq> RANGE"
    using assms(2) by (auto simp: plain_operator_def Operator_def)
  have "\<exists>r. bind_res (threshold_hit oper v ps (ms_value s)) (\<lambda>hit.
           if hit then bind_res (severity_param ps) (\<lambda>severity.
             Inr (Some (metric_anomaly_of s None ''static_threshold'' severity (ms_labels s))))
           else Inr None) = Inr r" for s
  proof -
    have "\<exists>b. threshold_hit oper v ps (ms_value s) = Inr b" using oper(2) n by (cases oper) (simp_all add: num_op_def)
    then obtain b where "threshold_hit oper v ps (ms_value s) = Inr b" by blast
    with assms(3) show ?thesis by (cases b) simp_all
  qed
  from metric_loop_total [of "\<lambda>s. bind_res (threshold_hit oper v ps (ms_value s)) (\<lambda>hit.
           if hit then bind_res (severity_param ps) (\<lambda>severity.
             Inr (Some (metric_anomaly_of s None ''static_threshold'' severity (ms_labels s))))
           else Inr None)", OF this] v(1) oper(1) show ?thesis
    by (simp add: static_threshold_detect_def key_index_def)
qed

lemma require_numeric_or:
  "require_numeric ps k pos = Inr () \<Longrightarrow> py_num d = Some n \<Longrightarrow> \<exists>m. py_num (py_get_or ps k d) = Some m"
  by (cases "map_of ps k") (auto simp: py_get_or_def dest: require_numeric_py_num)

lemma py_mul_total: "py_num v = Some a \<Longrightarrow> py_num w = Some b \<Longrightarrow> \<exists>x n. py_mul v w = Inr x \<and> py_num x = Some n"
  by (auto simp: py_mul_def split: option.split)

lemma simple_compare_total:
  assumes "validate_simple_compare ps = Inr ()" "severity_param ps = Inr sev"
  shows "\<exists>as. simple_compare_detect ss ps = Inr as"
proof -
  let ?ratio = "py_get_or ps ''ratio'' (PFloat (3 / 2))" and ?base = "py_get ps ''baseline''"
  have req: "require_numeric ps ''baseline'' False = Inr ()" "require_numeric ps ''ratio'' True = Inr ()"
    using assms(1) by (auto simp: validate_simple_compare_def split: if_splits)
  obtain r where r: "py_num ?ratio = Some r" using require_numeric_or [OF req(2), of "PFloat (3 / 2)" "3 / 2"] by auto
  let ?f = "\<lambda>s. if ?base = PNone then Inr None
        else bind_res (py_mul ?base ?ratio) (\<lambda>limit.
             bind_res (num_op (>) (PFloat (ms_value s)) limit) (\<lambda>hit.
               if hit then bind_res (severity_param ps) (\<lambda>severity.
                 Inr (Some (metric_anomaly_of s (map_option fl (py_num ?base)) ''simple_compare'' severity [])))
               else Inr None))"
  have "\<exists>x. ?f s = Inr x" for s
  proof (cases "map_of ps ''baseline''")
    case None
    then show ?thesis by (simp add: py_get_def)
  next
    case (Some v)
    obtain b where "py_num v = Some b" using require_numeric_py_num [OF req(1) Some] by blast
    with py_mul_total [OF this r] obtain x n where "py_mul v ?ratio = Inr x" "py_num x = Some n" by blast
    with Some assms(2) show ?thesis by (simp add: py_get_def num_op_def)
  qed
  from metric_loop_total [of ?f, OF this] show ?thesis by (simp add: simple_compare_detect_def Let_def)
qed

definition whole_frames :: "pydict \<Rightarrow> bool" where
  "whole_frames ps = (py_index (py_get_or ps ''n_frames'' (PInt 3)) \<noteq> None)"

lemma aggregate_emit_total:
  "py_num mc = Some c \<Longrightarrow> severity_param ps = Inr sev \<Longrightarrow> \<exists>as. aggregate_emit mc ps g = Inr as"
  using aggregate_emit_anoms by blast

lemma signature_aggregate_total:
  assumes "validate_signature_aggregate ps = Inr ()" "whole_frames ps" "severity_param ps = Inr sev"
  shows "\<exists>as. signature_aggregate_detect ss ps = Inr as"
proof -
  have "require_numeric ps ''min_count'' True = Inr ()" using assms(1) by (auto simp: validate_signature_aggregate_def)
  then obtain c where c: "py_num (py_get_or ps ''min_count'' (PInt 5)) = Some c" using require_numeric_or [of ps "''min_count''" True "PInt 5" 5] by auto
  obtain i where "py_index (py_get_or ps ''n_frames'' (PInt 3)) = Some i" using assms(2) by (auto simp: whole_frames_def)
  from aggregate_total [OF this] obtain g where g: "aggregate (py_get_or ps ''n_frames'' (PInt 3)) ss [] = Inr g" by blast
  with aggregate_emit_total [OF c assms(3)] show ?thesis by (simp add: signature_aggregate_detect_def Let_def)
qed

text \<open>C37. Validation of a rule set does what the detectors need. A rule set that passes names only plugins the registry
  has, and every rule of a built-in detector then runs without an exception on every list of signals, provided
  its operator, if given, is one of the four comparisons, its frame count, if given, is an integer and its severity
  a string, the three parameters the validator does not look at.\<close>

theorem validated_rules_run:
  assumes "validate_domain_config cfg reg = Inr ()" "spec \<in> set (dc_detectors cfg)"
    and "plain_operator (ds_params spec)" "whole_frames (ds_params spec)" "severity_param (ds_params spec) = Inr sev"
  shows "\<exists>p. registry_get reg ''detector'' (ds_plugin spec) = Inr p
    \<and> (p \<in> DetectorPlugin ` {static_threshold, simple_compare, signature_aggregate} \<longrightarrow>
       (\<exists>d as. p = DetectorPlugin d \<and> det_detect d ss (ds_params spec) = Inr as))"
proof -
  from assms(1,2) obtain p where p: "registry_get reg ''detector'' (ds_plugin spec) = Inr p"
    "detector_check (plugin_name p) (ds_params spec) = Inr ()"
    by (fastforce simp: validate_domain_config_def)
  have "\<exists>d as. p = DetectorPlugin d \<and> det_detect d ss (ds_params spec) = Inr as"
    if "p \<in> DetectorPlugin ` {static_threshold, simple_compare, signature_aggregate}"
  proof -
    from that consider "p = DetectorPlugin static_threshold" | "p = DetectorPlugin simple_compare"
      | "p = DetectorPlugin signature_aggregate" by blast
    then show ?thesis
    proof cases
      case 1
      then show ?thesis using p(2) static_threshold_total [OF _ assms(3,5)]
        by (simp add: static_threshold_def detector_check_def)
    next
      case 2
      then show ?thesis using p(2) simple_compare_total [OF _ assms(5)]
        by (simp add: simple_compare_def detector_check_def)
    next
      case 3
      then show ?thesis using p(2) signature_aggregate_total [OF _ assms(4,5)]
        by (simp add: signature_aggregate_def detector_check_def)
    qed
  qed
  with p(1) show ?thesis by blast
qed

definition rule_with :: "pydict \<Rightarrow> domain_config" where
  "rule_with ps = \<lparr>dc_detectors = [\<lparr>ds_signal = PStr ''cpu'', ds_plugin = ''static_threshold'', ds_params = ps, ds_severity = ''high''\<rparr>],
     dc_suppressors = [], dc_correlation = \<lparr>cp_metric_log_window_sec = 60, cp_change_window_sec = 300\<rparr>,
     dc_verify = \<lparr>vs_persistence_rounds = 1, vs_false_positive_threshold = 1, vs_min_samples = 1\<rparr>\<rparr>"

theorem validated_rules_run_witness:
  "\<exists>as. static_threshold_detect [MetricSignal (sample_cpu 95)] [(''threshold'', PInt 90)] = Inr as"
proof -
  let ?ps = "[(''threshold'', PInt 90)]" let ?reg = "registry_load builtin_entry_points"
  let ?spec = "hd (dc_detectors (rule_with ?ps))"
  have "validate_domain_config (rule_with ?ps) ?reg = Inr ()" "plain_operator ?ps" "whole_frames ?ps" "severity_param ?ps = Inr ''warning''"
    by code_simp+
  moreover have "?spec \<in> set (dc_detectors (rule_with ?ps))" "ds_params ?spec = ?ps" "ds_plugin ?spec = ''static_threshold''"
    by (simp_all add: rule_with_def)
  moreover have "registry_get ?reg ''detector'' ''static_threshold'' = Inr (DetectorPlugin static_threshold)"
    by (simp add: registry_get_def registry_load_def builtin_entry_points_def GROUPS_def
        static_threshold_def simple_compare_def signature_aggregate_def)
  ultimately show ?thesis
    using validated_rules_run [of "rule_with ?ps" ?reg ?spec "''warning''" "[MetricSignal (sample_cpu 95)]"]
    by (auto simp: static_threshold_def)
qed

text \<open>Those parameters matter: a rule set whose operator is the symbol \<open>>\<close> instead of the name \<open>gt\<close> passes
  validation, and its detector raises on every list of signals, so the rule never reports anything.\<close>

theorem validated_rule_never_fires:
  "validate_domain_config (rule_with [(''threshold'', PInt 90), (''operator'', PStr ''>'')]) (registry_load builtin_entry_points) = Inr ()
   \<and> static_threshold_detect ss [(''threshold'', PInt 90), (''operator'', PStr ''>'')] = Inl (ValueError ''is not a valid Operator'')"
proof
  show "validate_domain_config (rule_with [(''threshold'', PInt 90), (''operator'', PStr ''>'')]) (registry_load builtin_entry_points) = Inr ()"
    by code_simp
  show "static_threshold_detect ss [(''threshold'', PInt 90), (''operator'', PStr ''>'')] = Inl (ValueError ''is not a valid Operator'')"
    by (simp add: static_threshold_detect_def key_index_def py_get_or_def Operator_def)
qed

section \<open>Seeding\<close>

lemma seed_fresh:
  assumes "t \<noteq> []" "\<forall>r \<in> set rows. do_tenant_id r = t \<longrightarrow> do_domain r \<notin> set (map se_id items)" "distinct (map se_id items)"
  shows "do_seed t items rows = Inr (rows @ map (seed_row t) items)"
    and "pg_do_seed t items rows = Inr (rows @ map (seed_row t) items)"
proof -
  have "fold (\<lambda>x rows. if \<exists>r \<in> set rows. do_key t (se_id x) r then g x rows else rows @ [seed_row t x]) items rows
      = rows @ map (seed_row t) items" for g :: "seed_item \<Rightarrow> domain_row list \<Rightarrow> domain_row list"
    using assms(2,3)
  proof (induction items arbitrary: rows)
    case (Cons x items)
    have "\<not> (\<exists>r \<in> set rows. do_key t (se_id x) r)" using Cons.prems(1) by (auto simp: do_key_def)
    moreover have "\<forall>r \<in> set (rows @ [seed_row t x]). do_tenant_id r = t \<longrightarrow> do_domain r \<notin> set (map se_id items)"
      using Cons.prems by (auto simp: seed_row_def)
    ultimately show ?case using Cons by simp
  qed simp
  from this [of "\<lambda>x rows. rows"] this [of "\<lambda>x rows. update_where (do_key t (se_id x))
      (\<lambda>r. r\<lparr>do_config := se_config x, do_enabled := seed_enabled x\<rparr>) rows"]
  show "do_seed t items rows = Inr (rows @ map (seed_row t) items)"
    "pg_do_seed t items rows = Inr (rows @ map (seed_row t) items)"
    using assms(1) by (simp_all add: do_seed_def pg_do_seed_def)
qed

text \<open>A tenant cannot delete its last rule set: when the last domain of a tenant is deleted, the next load finds the
  table empty and, with either store, puts back every domain of the packaged file, and hands out the enabled ones,
  the deleted one among them if the file has it.\<close>

theorem last_delete_reseeds:
  assumes "do_delete t d tbl = Inr tbl'" "\<forall>r \<in> set tbl. do_tenant_id r = t \<longrightarrow> do_domain r = d"
    and "load_yaml_seed yaml = Inr items" "distinct (map se_id items)" "seed \<in> {do_seed, pg_do_seed}"
  shows "fst (loader_load seed yaml None t (lo, tbl')) = Inr (map (seed_row t) (filter seed_enabled items))"
proof -
  have t: "t \<noteq> []" and tbl': "tbl' = filter (\<lambda>r. \<not> do_key t d r) tbl" using assms(1) by (auto simp: do_delete_def)
  have none: "\<forall>r \<in> set tbl'. do_tenant_id r \<noteq> t" using assms(2) tbl' by (auto simp: do_key_def)
  have load0: "do_load t tbl' = Inr []" using none t by (simp add: do_load_def filter_empty_conv)
  have s: "seed t items tbl' = Inr (tbl' @ map (seed_row t) items)"
    using assms(5) seed_fresh [OF t _ assms(4), of tbl'] none by auto
  have "do_load t (tbl' @ map (seed_row t) items) = Inr (filter do_enabled (map (seed_row t) items))"
    using none t by (auto simp: do_load_def seed_row_def filter_empty_conv intro!: filter_cong)
  also have "filter do_enabled (map (seed_row t) items) = map (seed_row t) (filter seed_enabled items)"
    by (simp add: filter_map seed_row_def comp_def)
  finally show ?thesis using load0 s assms(3) by (simp add: loader_load_def loader_fetch_def up_def)
qed

definition app_yaml :: "pydict list" where
  "app_yaml = [[(''id'', PStr ''application''), (''detectors'', PList [])], [(''id'', PStr ''infra''), (''enabled'', PBool False)]]"

definition edited_row :: "bool \<Rightarrow> domain_row" where
  "edited_row b = \<lparr>do_tenant_id = ''t'', do_domain = ''application'', do_config = [(''verify'', PInt 1)], do_enabled = b, do_version = 7\<rparr>"

theorem last_delete_reseeds_witness:
  "\<exists>tbl'. do_delete ''t'' ''application'' [edited_row True] = Inr tbl'
     \<and> map_sum id (map do_domain) (fst (loader_load pg_do_seed app_yaml None ''t'' (\<lparr>lo_cache = None\<rparr>, tbl'))) = Inr [''application'']"
proof -
  obtain items where items: "load_yaml_seed app_yaml = Inr items" "map se_id items = [''application'', ''infra'']"
      "map seed_enabled items = [True, False]"
    by (auto simp: load_yaml_seed_def app_yaml_def yaml_item_def key_index_def seed_enabled_def py_get_or_def)
  have del: "do_delete ''t'' ''application'' [edited_row True] = Inr []" by (simp add: do_delete_def do_key_def edited_row_def)
  have "distinct (map se_id items)" unfolding items(2) by simp
  from last_delete_reseeds [OF del _ items(1) this, of pg_do_seed "\<lparr>lo_cache = None\<rparr>"]
  have "fst (loader_load pg_do_seed app_yaml None ''t'' (\<lparr>lo_cache = None\<rparr>, [])) = Inr (map (seed_row ''t'') (filter seed_enabled items))"
    by (simp add: edited_row_def)
  moreover have "map do_domain (map (seed_row ''t'') (filter seed_enabled items)) = [''application'']"
    using items(2,3) by (cases items rule: remdups_adj.cases) (auto simp: seed_row_def)
  ultimately show ?thesis using del by simp
qed

text \<open>The stores seed differently. For a tenant whose only rule set is disabled the loader seeds too; the in-memory
  store leaves the existing row alone and the tenant has no rules, the PostgreSQL store replaces the tenant's
  own configuration by the packaged one and enables it again.\<close>

theorem seed_backends_differ:
  "map_sum id (map do_config) (fst (loader_load do_seed app_yaml None ''t'' (\<lparr>lo_cache = None\<rparr>, [edited_row False]))) = Inr []
   \<and> map_sum id (map do_config) (fst (loader_load pg_do_seed app_yaml None ''t'' (\<lparr>lo_cache = None\<rparr>, [edited_row False])))
     = Inr [[(''detectors'', PList [])]]"
  by code_simp

end
