(* ===== verification/Apm_Scheduler.thy ===== *)
theory Apm_Scheduler
  imports Apm_Funnel Apm_Targets
begin

text \<open>
  The loops around a detection round: \<open>poller.py\<close> (collection, funnel and audit of one round), \<open>scheduler.py\<close> (which
  targets are due, orphan recovery, the single-scheduler lease) and \<open>reconcile.py\<close> (automatic closing).

  A target is collected by a parameter, \<open>collect\<close>: given tenant, target, trigger time and watermarks it yields the new
  watermarks, the request parameters it recorded and either its signals or the text of its error.
  Collections and groups run one after the other here; the code runs them concurrently, each on its own target
  or group. Clock readings are arguments. Metrics and audit logging have no effect on the stores. When the funnel raises
  it does so before its first write (a suppressor or the context raised), so the stores are those of before the funnel.
\<close>

section \<open>Reconciler\<close>

definition record_anomalies :: "problem_row \<Rightarrow> anomaly list" where
  "record_anomalies r = record_anoms (pr_metric_anomalies r) (pr_log_anomalies r)"

definition record_anomaly_keys :: "(string \<Rightarrow> string) \<Rightarrow> problem_row \<Rightarrow> string list" where
  "record_anomaly_keys sha r = map (anomaly_key sha) (record_anomalies r)"

definition miss_of :: "(string \<times> det_state) list \<Rightarrow> string \<Rightarrow> int" where
  "miss_of by_domain k = (case map_of by_domain k of None \<Rightarrow> 0 | Some st \<Rightarrow> st_miss_rounds st)"

definition stale :: "(string \<Rightarrow> string) \<Rightarrow> int \<Rightarrow> det_store \<Rightarrow> string \<Rightarrow> problem_row \<Rightarrow> bool res" where
  "stale sha resolve_after states tenant r =
     bind_res (ds_list_by_domain tenant (pr_domain r) states) (\<lambda>by_domain.
       Inr (\<forall>k \<in> set (record_anomaly_keys sha r). resolve_after \<le> miss_of by_domain k))"

fun reconcile_records ::
  "(string \<Rightarrow> string) \<Rightarrow> int \<Rightarrow> det_store \<Rightarrow> time \<Rightarrow> string \<Rightarrow> problem_row list \<Rightarrow> nat \<times> records \<Rightarrow> (nat \<times> records) res" where
  "reconcile_records sha n states now tenant [] acc = Inr acc"
| "reconcile_records sha n states now tenant (r # rs) (resolved, rows) =
     (if record_anomaly_keys sha r = [] then reconcile_records sha n states now tenant rs (resolved, rows)
      else bind_res (stale sha n states tenant r) (\<lambda>st.
        if st then bind_res (rec_resolve tenant (pr_record_id r) ''auto'' now rows) (\<lambda>rows'.
          reconcile_records sha n states now tenant rs (resolved + 1, rows'))
        else reconcile_records sha n states now tenant rs (resolved, rows)))"

fun reconcile_tenants ::
  "(string \<Rightarrow> string) \<Rightarrow> int \<Rightarrow> det_store \<Rightarrow> time \<Rightarrow> string list \<Rightarrow> nat \<times> records \<Rightarrow> (nat \<times> records) res" where
  "reconcile_tenants sha n states now [] acc = Inr acc"
| "reconcile_tenants sha n states now (t # ts) (resolved, rows) =
     bind_res (rec_list t None None None 10000 rows) (\<lambda>listed.
     bind_res (reconcile_records sha n states now t (filter is_open listed) (resolved, rows)) (\<lambda>acc.
       reconcile_tenants sha n states now ts acc))"

definition reconcile_once :: "(string \<Rightarrow> string) \<Rightarrow> int \<Rightarrow> time \<Rightarrow> world \<Rightarrow> (nat \<times> world) res" where
  "reconcile_once sha resolve_after now w =
     bind_res (reconcile_tenants sha resolve_after (wd_states w) now (list_tenants (wd_records w)) (0, wd_records w))
       (\<lambda>(resolved, rows). Inr (resolved, w\<lparr>wd_records := rows\<rparr>))"

section \<open>Poller\<close>

record collected =
  co_target_id :: string
  co_request_params :: "pydict option"
  co_outcome :: "string + signal list"

type_synonym collect_fn =
  "string \<Rightarrow> target \<Rightarrow> time \<Rightarrow> watermarks \<Rightarrow> watermarks \<times> pydict option \<times> (string + signal list)"

fun collect_all :: "collect_fn \<Rightarrow> string \<Rightarrow> time \<Rightarrow> target list \<Rightarrow> watermarks \<Rightarrow> collected list \<times> watermarks" where
  "collect_all collect tenant now [] wm = ([], wm)"
| "collect_all collect tenant now (t # ts) wm =
     (let (wm', rp, res) = collect tenant t now wm; (cs, wm'') = collect_all collect tenant now ts wm'
      in (\<lparr>co_target_id = mt_target_id t, co_request_params = rp, co_outcome = res\<rparr> # cs, wm''))"

fun foldM :: "('a \<Rightarrow> 's \<Rightarrow> 's res) \<Rightarrow> 'a list \<Rightarrow> 's \<Rightarrow> 's res" where
  "foldM f [] s = Inr s"
| "foldM f (x # xs) s = bind_res (f x s) (foldM f xs)"

definition open_round :: "string \<Rightarrow> string \<Rightarrow> string \<Rightarrow> time \<Rightarrow> target list \<Rightarrow> round_store \<Rightarrow> round_store res" where
  "open_round tenant trace domain now targets rs =
     bind_res (create_round tenant trace domain now ''running'' (map mt_target_id targets) [] rs)
       (foldM (\<lambda>t. create_target tenant trace (mt_target_id t) now) targets)"

definition collect_patch :: "time \<Rightarrow> collected \<Rightarrow> target_patch" where
  "collect_patch ended c =
     (case co_outcome c of
        Inr batch \<Rightarrow> no_target_patch\<lparr>tu_status := Some ''ok'', tu_finished_at := Some ended,
          tu_signals_count := Some (int (length batch)), tu_request_params := co_request_params c\<rparr>
      | Inl e \<Rightarrow> no_target_patch\<lparr>tu_status := Some ''failed'', tu_finished_at := Some ended,
          tu_signals_count := Some 0, tu_error := Some e, tu_request_params := co_request_params c\<rparr>)"

definition close_collection :: "string \<Rightarrow> string \<Rightarrow> time \<Rightarrow> collected list \<Rightarrow> round_store \<Rightarrow> round_store res" where
  "close_collection tenant trace ended cs rs =
     foldM (\<lambda>c. update_target_status tenant trace (co_target_id c) (collect_patch ended c)) cs rs"

definition failed_ids :: "collected list \<Rightarrow> string list" where
  "failed_ids cs = map co_target_id (filter (\<lambda>c. isl (co_outcome c)) cs)"

definition batch_of :: "collected \<Rightarrow> signal list" where
  "batch_of c = (case co_outcome c of Inr b \<Rightarrow> b | Inl e \<Rightarrow> [])"

definition attribution_patch :: "domain_result \<Rightarrow> target \<Rightarrow> target_patch" where
  "attribution_patch res t = no_target_patch\<lparr>
     tu_anomaly_count := Some (int (count_of (dr_anomalies_by_service res) (mt_service t))),
     tu_record_count := Some (int (count_of (dr_records_by_service res) (mt_service t))),
     tu_suppressed_count := Some (int (count_of (dr_suppressed_by_service res) (mt_service t)))\<rparr>"

definition attribute :: "string \<Rightarrow> string \<Rightarrow> domain_result \<Rightarrow> string list \<Rightarrow> target list \<Rightarrow> round_store \<Rightarrow> round_store res" where
  "attribute tenant trace res failed targets rs =
     foldM (\<lambda>t rs. if mt_target_id t \<in> set failed then Inr rs
        else update_target_status tenant trace (mt_target_id t) (attribution_patch res t) rs) targets rs"

definition success_patch :: "domain_result \<Rightarrow> nat \<Rightarrow> string list \<Rightarrow> round_patch" where
  "success_patch res n degraded =
     \<lparr>ru_timeline = Some (map PDict (dr_timeline res)), ru_signals_count = Some (int n),
      ru_anomaly_count = Some (int (dr_anomaly_count res)), ru_record_count = Some (int (length (dr_records res))),
      ru_suppressed_count = Some (int (dr_suppressed_count res)), ru_degraded_sources = Some degraded\<rparr>"

text \<open>\<open>run_round\<close>: the result or the exception, and the stores as they are afterwards in both cases. \<open>funnel\<close> is
  \<open>build_context\<close> followed by \<open>run_domain\<close>.\<close>

definition funnel ::
  "(string \<Rightarrow> string) \<Rightarrow> registry \<Rightarrow> string \<Rightarrow> string \<Rightarrow> time \<Rightarrow> string \<Rightarrow> (string \<times> domain_config res) list res
   \<Rightarrow> signal list \<Rightarrow> string list \<Rightarrow> world \<Rightarrow> (domain_result \<times> world) res" where
  "funnel sha registry tenant domain now trace rows signals degraded w =
     bind_res (build_context tenant domain registry now (Some trace) trace (enumerate 0 signals) None degraded None rows None w)
       (\<lambda>cx. bind_res (run_domain sha (cx, w)) (\<lambda>(res, _, w'). Inr (res, w')))"

definition run_round ::
  "(string \<Rightarrow> string) \<Rightarrow> collect_fn \<Rightarrow> registry \<Rightarrow> (string \<times> domain_config res) list res \<Rightarrow> string \<Rightarrow> string \<Rightarrow> string
   \<Rightarrow> target list \<Rightarrow> time \<Rightarrow> time \<Rightarrow> time \<Rightarrow> world \<times> watermarks \<Rightarrow> domain_result res \<times> world \<times> watermarks" where
  "run_round sha collect registry rows trace tenant domain targets now collect_ended ended = (\<lambda>(w, wm).
     case open_round tenant trace domain now targets (wd_rounds w) of
       Inl e \<Rightarrow> (Inl e, w, wm)
     | Inr rs \<Rightarrow>
         let (cs, wm') = collect_all collect tenant now targets wm;
             degraded = failed_ids cs; signals = concat (map batch_of cs) in
         (case close_collection tenant trace collect_ended cs rs of
            Inl e \<Rightarrow> (Inl e, w\<lparr>wd_rounds := rs\<rparr>, wm')
          | Inr rs1 \<Rightarrow>
              let w1 = w\<lparr>wd_rounds := rs1\<rparr> in
              (case funnel sha registry tenant domain now trace rows signals degraded w1 of
                 Inl e \<Rightarrow>
                   (case update_status tenant trace ''failed'' ended
                       (no_round_patch\<lparr>ru_degraded_sources := Some degraded\<rparr>) rs1 of
                      Inl e' \<Rightarrow> (Inl e', w1, wm')
                    | Inr rs2 \<Rightarrow> (Inl e, w1\<lparr>wd_rounds := rs2\<rparr>, wm'))
               | Inr (res, w2) \<Rightarrow>
                   (case bind_res (attribute tenant trace res degraded targets (wd_rounds w2))
                       (update_status tenant trace (if degraded = [] then ''success'' else ''partial'') ended
                         (success_patch res (length signals) degraded)) of
                      Inl e' \<Rightarrow> (Inl e', w2, wm')
                    | Inr rs2 \<Rightarrow> (Inr res, w2\<lparr>wd_rounds := rs2\<rparr>, wm')))))"

section \<open>Scheduler\<close>

text \<open>\<open>timedelta(seconds=x)\<close> of a float: whole seconds exactly, the fraction rounded to microseconds.\<close>

definition timedelta_us :: "rat \<Rightarrow> time" where
  "timedelta_us x = (let sec = \<lfloor>x\<rfloor> in sec * 1000000 + round_even (fl ((x - of_int sec) * 1000000)))"

definition interval_of :: "target \<Rightarrow> rat res" where
  "interval_of t = (case py_num (py_get_or (mt_schedule t) ''interval_sec'' (PInt 60)) of
     Some x \<Rightarrow> Inr (fl x) | None \<Rightarrow> Inl (TypeError ''float''))"

type_synonym next_run = "((string \<times> string) \<times> time) list"

fun due_loop :: "time \<Rightarrow> string \<Rightarrow> target list \<Rightarrow> next_run \<Rightarrow> (target list \<times> next_run) res" where
  "due_loop now tenant [] nr = Inr ([], nr)"
| "due_loop now tenant (t # ts) nr =
     bind_res (interval_of t) (\<lambda>interval.
     let key = (tenant, mt_target_id t);
         nr' = (if map_of nr key = None then AList.update key (now + timedelta_us interval) nr else nr) in
     bind_res (due_loop now tenant ts nr') (\<lambda>(due, nr'').
       Inr (if the (map_of nr' key) \<le> now then t # due else due, nr'')))"

fun due_tenants :: "time \<Rightarrow> target list \<Rightarrow> string list \<Rightarrow> next_run \<Rightarrow> ((string \<times> target) list \<times> next_run) res" where
  "due_tenants now rows [] nr = Inr ([], nr)"
| "due_tenants now rows (u # us) nr =
     bind_res (load_all_targets u rows) (\<lambda>ts.
     bind_res (due_loop now u ts nr) (\<lambda>(due, nr').
     bind_res (due_tenants now rows us nr') (\<lambda>(due', nr'').
       Inr (map (Pair u) due @ due', nr''))))"

definition due_targets :: "time \<Rightarrow> target list \<Rightarrow> next_run \<Rightarrow> ((string \<times> target) list \<times> next_run) res" where
  "due_targets now rows nr = due_tenants now rows (mt_list_tenants rows) nr"

text \<open>\<open>groups[key].append(t)\<close> for the targets that are not in flight.\<close>

fun group_due :: "(string \<times> string) set \<Rightarrow> (string \<times> target) list \<Rightarrow> ((string \<times> string) \<times> target list) list
    \<Rightarrow> ((string \<times> string) \<times> target list) list" where
  "group_due in_flight [] groups = groups"
| "group_due in_flight ((u, t) # due) groups =
     (let key = (u, mt_domain t) in
      if key \<in> in_flight then group_due in_flight due groups
      else group_due in_flight due (AList.update key
        ((case map_of groups key of None \<Rightarrow> [] | Some ts \<Rightarrow> ts) @ [t]) groups))"

definition recover_orphan :: "string \<Rightarrow> string \<Rightarrow> time \<Rightarrow> world \<times> watermarks \<Rightarrow> (world \<times> watermarks) res" where
  "recover_orphan tenant target_id now = (\<lambda>(w, wm).
     bind_res (latest_target tenant target_id (Some ''running'') (wd_rounds w)) (\<lambda>orphan.
       case orphan of
         None \<Rightarrow> Inr (w, wm)
       | Some o_row \<Rightarrow>
           bind_res (update_target_status tenant (rt_round_id o_row) target_id
             (no_target_patch\<lparr>tu_status := Some ''interrupted'', tu_finished_at := Some now, tu_error := Some ''orphan recovery''\<rparr>)
             (wd_rounds w)) (\<lambda>rs1.
           bind_res (get_round tenant (rt_round_id o_row) rs1) (\<lambda>round_row.
           bind_res (case round_row of
               Some r \<Rightarrow> if rd_status r = ''running''
                 then update_status tenant (rt_round_id o_row) ''interrupted'' now no_round_patch rs1 else Inr rs1
             | None \<Rightarrow> Inr rs1) (\<lambda>rs2.
           bind_res (latest_target tenant target_id (Some ''ok'') rs2) (\<lambda>ok.
           bind_res (case ok of
               Some r \<Rightarrow> (case rt_finished_at r of Some f \<Rightarrow> wm_update tenant target_id f wm | None \<Rightarrow> Inr wm)
             | None \<Rightarrow> Inr wm) (\<lambda>wm'. Inr (w\<lparr>wd_rounds := rs2\<rparr>, wm'))))))))"

record scheduler =
  sh_next_run :: next_run
  sh_in_flight :: "(string \<times> string) set"

record system =
  sy_world :: world
  sy_watermarks :: watermarks
  sy_leases :: leases
  sy_targets :: "target list"
  sy_sched :: scheduler

text \<open>\<open>run_round_fn\<close> is injected, as in the code: it returns or raises and changes stores in both cases.\<close>

type_synonym round_fn = "string \<Rightarrow> string \<Rightarrow> target list \<Rightarrow> time \<Rightarrow> world \<times> watermarks \<Rightarrow> domain_result res \<times> world \<times> watermarks"

fun recover_all :: "string \<Rightarrow> target list \<Rightarrow> time \<Rightarrow> world \<times> watermarks \<Rightarrow> world \<times> watermarks" where
  "recover_all tenant [] now s = s"
| "recover_all tenant (t # ts) now s =
     recover_all tenant ts now (case recover_orphan tenant (mt_target_id t) now s of Inl e \<Rightarrow> s | Inr s' \<Rightarrow> s')"

fun reschedule :: "(rat \<Rightarrow> rat) \<Rightarrow> string \<Rightarrow> target list \<Rightarrow> time \<Rightarrow> next_run \<Rightarrow> next_run res" where
  "reschedule jitter tenant [] now nr = Inr nr"
| "reschedule jitter tenant (t # ts) now nr =
     bind_res (interval_of t) (\<lambda>interval.
       reschedule jitter tenant ts now
         (AList.update (tenant, mt_target_id t) (now + timedelta_us (fl (interval + jitter interval))) nr))"

definition run_group ::
  "round_fn \<Rightarrow> (rat \<Rightarrow> rat) \<Rightarrow> (string \<times> string) \<times> target list \<Rightarrow> time \<Rightarrow> system \<Rightarrow> system res" where
  "run_group run jitter = (\<lambda>(key, targets) now s.
     if key \<in> sh_in_flight (sy_sched s) then Inr s
     else
       let (tenant, domain) = key;
           st = recover_all tenant targets now (sy_world s, sy_watermarks s);
           (_, w, wm) = run tenant domain targets now st in
       bind_res (reschedule jitter tenant targets now (sh_next_run (sy_sched s))) (\<lambda>nr.
         Inr (s\<lparr>sy_world := w, sy_watermarks := wm, sy_sched := (sy_sched s)\<lparr>sh_next_run := nr\<rparr>\<rparr>)))"

definition tick ::
  "round_fn \<Rightarrow> (rat \<Rightarrow> rat) \<Rightarrow> string \<Rightarrow> time \<Rightarrow> time \<Rightarrow> system \<Rightarrow> (nat \<times> system) res" where
  "tick run jitter holder ttl now s =
     (let (got, ls) = lease_try_acquire ''scheduler'' holder ttl now (sy_leases s) in
      if \<not> got then Inr (0, s\<lparr>sy_leases := ls\<rparr>)
      else
        bind_res (due_targets now (sy_targets s) (sh_next_run (sy_sched s))) (\<lambda>(due, nr).
        let s1 = s\<lparr>sy_leases := ls, sy_sched := (sy_sched s)\<lparr>sh_next_run := nr\<rparr>\<rparr>;
            groups = group_due (sh_in_flight (sy_sched s)) due [] in
        bind_res (foldM (\<lambda>g. run_group run jitter g now) groups s1) (\<lambda>s2.
        let (_, ls') = lease_renew ''scheduler'' holder ttl now (sy_leases s2) in
        Inr (length groups, s2\<lparr>sy_leases := ls'\<rparr>))))"

section \<open>What the reconciler closes\<close>

definition misses :: "det_store \<Rightarrow> string \<Rightarrow> string \<Rightarrow> string \<Rightarrow> int" where
  "misses states t d k = (case map_of states (t, d, k) of None \<Rightarrow> 0 | Some st \<Rightarrow> st_miss_rounds st)"

definition overdue :: "(string \<Rightarrow> string) \<Rightarrow> int \<Rightarrow> det_store \<Rightarrow> problem_row \<Rightarrow> bool" where
  "overdue sha n states row \<longleftrightarrow> is_open row \<and> record_anomalies row \<noteq> []
     \<and> (\<forall>a \<in> set (record_anomalies row). n \<le> misses states (pr_tenant_id row) (pr_domain row) (anomaly_key sha a))"

definition auto_resolved :: "time \<Rightarrow> problem_row \<Rightarrow> problem_row" where
  "auto_resolved now row = row\<lparr>pr_state := ''resolved'', pr_resolved_at := Some now, pr_resolve_reason := Some ''auto''\<rparr>"

lemma auto_resolved_sel [simp]:
  "pr_tenant_id (auto_resolved now row) = pr_tenant_id row" "auto_resolved now (auto_resolved now row) = auto_resolved now row"
  by (simp_all add: auto_resolved_def)

lemma map_of_by_domain:
  "map_of (map (\<lambda>((t, d, k), row). (k, row)) (filter (\<lambda>((t, d, k), row). t = u \<and> d = e) states)) k = map_of states (u, e, k)"
  by (induction states) (auto split: prod.splits)

lemma stale_iff:
  "u \<noteq> [] \<Longrightarrow> stale sha n states u r = Inr (\<forall>a \<in> set (record_anomalies r). n \<le> misses states u (pr_domain r) (anomaly_key sha a))"
  by (simp add: stale_def ds_list_by_domain_def miss_of_def misses_def map_of_by_domain record_anomaly_keys_def)

lemma rec_resolve_owned:
  "u \<noteq> [] \<Longrightarrow> owned_row u rid rows \<noteq> None \<Longrightarrow> rec_resolve u rid ''auto'' now rows = Inr (update_row rid (auto_resolved now) rows)"
  by (auto simp: rec_resolve_def set_terminal_state_def auto_resolved_def [abs_def] fun_eq_iff)

lemma owned_row_update:
  "owned_row u k (update_row rid (auto_resolved now) rows) \<noteq> None \<longleftrightarrow> owned_row u k rows \<noteq> None"
  by (auto simp: owned_row_def map_of_update_row split: option.splits)

lemma reconcile_records_spec:
  assumes "u \<noteq> []" "\<forall>r \<in> set rs. owned_row u (pr_record_id r) rows \<noteq> None \<and> pr_tenant_id r = u \<and> is_open r"
  shows "reconcile_records sha n states now u rs (c, rows)
    = Inr (c + length (filter (overdue sha n states) rs),
        map_vals (\<lambda>k row. if k \<in> pr_record_id ` set (filter (overdue sha n states) rs) then auto_resolved now row else row) rows)"
  using assms(2)
proof (induction rs arbitrary: c rows)
  case Nil
  show ?case by (simp add: map_vals_def case_prod_beta)
next
  case (Cons r rs)
  let ?P = "overdue sha n states"
  have own: "owned_row u (pr_record_id r) rows \<noteq> None" and r: "pr_tenant_id r = u" "is_open r" using Cons.prems by auto
  have P: "?P r \<longleftrightarrow> record_anomalies r \<noteq> [] \<and> (\<forall>a \<in> set (record_anomalies r). n \<le> misses states u (pr_domain r) (anomaly_key sha a))"
    using r by (simp add: overdue_def)
  show ?case
  proof (cases "?P r")
    case True
    let ?rows = "update_row (pr_record_id r) (auto_resolved now) rows"
    have "\<forall>x \<in> set rs. owned_row u (pr_record_id x) ?rows \<noteq> None \<and> pr_tenant_id x = u \<and> is_open x"
      using Cons.prems by (simp only: owned_row_update) auto
    note ih = Cons.IH [OF this, of "c + 1"]
    have "reconcile_records sha n states now u (r # rs) (c, rows) = reconcile_records sha n states now u rs (c + 1, ?rows)"
      using True P assms(1) own by (simp add: stale_iff rec_resolve_owned record_anomaly_keys_def)
    also note ih
    also have "map_vals (\<lambda>k row. if k \<in> pr_record_id ` set (filter ?P rs) then auto_resolved now row else row) ?rows
       = map_vals (\<lambda>k row. if k \<in> pr_record_id ` set (filter ?P (r # rs)) then auto_resolved now row else row) rows"
      using True by (auto simp: map_vals_def update_row_def)
    finally show ?thesis using True by simp
  next
    case False
    with P assms(1) Cons show ?thesis by (auto simp: stale_iff record_anomaly_keys_def)
  qed
qed

text \<open>The rows of one tenant as the listing returns them.\<close>

definition resolve_tenants :: "(problem_row \<Rightarrow> bool) \<Rightarrow> time \<Rightarrow> string set \<Rightarrow> records \<Rightarrow> records" where
  "resolve_tenants P now T rows = map_vals (\<lambda>k row. if pr_tenant_id row \<in> T \<and> P row then auto_resolved now row else row) rows"

lemma tenant_rows_resolve:
  "u \<notin> T \<Longrightarrow> filter (\<lambda>r. pr_tenant_id r = u) (map snd (resolve_tenants P now T rows)) = filter (\<lambda>r. pr_tenant_id r = u) (map snd rows)"
  by (induction rows) (auto simp: resolve_tenants_def map_vals_def)

lemma length_filter_sort_desc: "length (filter P (sort_desc f xs)) = length (filter P xs)"
  by (metis mset_filter size_mset sort_desc_props(2))

definition keyed_records :: "records \<Rightarrow> bool" where
  "keyed_records rows \<longleftrightarrow> distinct (map fst rows) \<and> (\<forall>(k, row) \<in> set rows. pr_record_id row = k)"

text \<open>The listing the reconciler reads holds the 10000 records of the tenant that were detected last.\<close>

definition of_tenant :: "records \<Rightarrow> string \<Rightarrow> problem_row list" where
  "of_tenant rows u = filter (\<lambda>r. pr_tenant_id r = u) (map snd rows)"

definition examined :: "records \<Rightarrow> problem_row \<Rightarrow> bool" where
  "examined rows row \<longleftrightarrow> row \<in> set (take 10000 (sort_desc pr_detected_at (of_tenant rows (pr_tenant_id row))))"

lemma examined_all:
  assumes "row \<in> snd ` set rows" "length (of_tenant rows (pr_tenant_id row)) \<le> 10000"
  shows "examined rows row"
proof -
  have "length (sort_desc pr_detected_at (of_tenant rows (pr_tenant_id row))) \<le> 10000"
    using assms(2) length_filter_sort_desc [of "\<lambda>_. True"] by simp
  then show ?thesis using assms(1) sort_desc_props(1) [of pr_detected_at]
    by (auto simp: examined_def of_tenant_def)
qed

text \<open>A record with 10000 later ones of its tenant is out of the listing.\<close>

lemma examined_newest:
  assumes "10000 \<le> length (filter (\<lambda>r. pr_detected_at row < pr_detected_at r) (of_tenant rows (pr_tenant_id row)))"
  shows "\<not> examined rows row"
proof
  let ?xs = "sort_desc pr_detected_at (of_tenant rows (pr_tenant_id row))"
  let ?later = "\<lambda>r. pr_detected_at row < pr_detected_at r"
  assume "examined rows row"
  then obtain i where i: "i < length ?xs" "i < 10000" "?xs ! i = row" by (auto simp: examined_def in_set_conv_nth)
  have sorted: "pr_detected_at (?xs ! k) \<le> pr_detected_at (?xs ! j)" if "j \<le> k" "k < length ?xs" for j k
    using sorted_wrt_nth_less [OF sort_desc_sorted, of j k pr_detected_at "of_tenant rows (pr_tenant_id row)"] that
    by (cases "j = k") auto
  have "filter ?later (drop i ?xs) = []"
  proof -
    have "\<not> ?later r" if r: "r \<in> set (drop i ?xs)" for r
    proof -
      from r obtain n where "n < length (drop i ?xs)" "drop i ?xs ! n = r" unfolding in_set_conv_nth by blast
      with sorted [of i "i + n"] i(1,3) show ?thesis by (auto simp: not_less)
    qed
    then show ?thesis by (simp add: filter_empty_conv)
  qed
  then have "length (filter ?later ?xs) = length (filter ?later (take i ?xs))"
    by (metis append_Nil2 append_take_drop_id filter_append)
  also have "\<dots> \<le> i" by (rule order_trans [OF length_filter_le]) simp
  finally have "length (filter ?later ?xs) \<le> i" .
  with assms i(2) show False by (simp add: length_filter_sort_desc)
qed


lemma distinct_length_eq: "distinct xs \<Longrightarrow> distinct ys \<Longrightarrow> set xs = set ys \<Longrightarrow> length xs = length ys"
  by (metis distinct_card)

lemma reconcile_tenants_spec:
  fixes rows sha n states
  defines "Q \<equiv> \<lambda>r. overdue sha n states r \<and> examined rows r"
  assumes "keyed_records rows" "distinct us" "[] \<notin> set us" "set us \<inter> T = {}"
  shows "reconcile_tenants sha n states now us (c, resolve_tenants Q now T rows)
    = Inr (c + length (filter (\<lambda>r. pr_tenant_id r \<in> set us \<and> Q r) (map snd rows)), resolve_tenants Q now (set us \<union> T) rows)"
  using assms(3-)
proof (induction us arbitrary: c T)
  case Nil
  then show ?case by simp
next
  case (Cons u us)
  let ?P = "overdue sha n states" let ?rows = "resolve_tenants Q now T rows"
  let ?own = "of_tenant rows u"
  let ?l = "take 10000 (sort_desc pr_detected_at ?own)"
  let ?rs = "filter is_open ?l"
  have u: "u \<noteq> []" "u \<notin> T" "u \<notin> set us" using Cons.prems by auto
  have listed: "rec_list u None None None 10000 ?rows = Inr ?l"
    using u by (simp add: rec_list_def tenant_rows_resolve slice_to_def of_tenant_def)
  have id: "pr_record_id r = k" if "(k, r) \<in> set rows" for k r using assms(2) that by (auto simp: keyed_records_def)
  have of_row: "map_of rows (pr_record_id r) = Some r" if "r \<in> set (map snd rows)" for r
  proof -
    from that obtain k where k: "(k, r) \<in> set rows" by auto
    then have "map_of rows k = Some r" using assms(2) by (simp add: keyed_records_def)
    with id [OF k] show ?thesis by simp
  qed
  have mem: "r \<in> set (map snd rows) \<and> pr_tenant_id r = u" if "r \<in> set ?l" for r
    using in_set_takeD [OF that] by (auto simp: of_tenant_def)
  have own: "\<forall>r \<in> set ?rs. owned_row u (pr_record_id r) ?rows \<noteq> None \<and> pr_tenant_id r = u \<and> is_open r"
  proof
    fix r assume r: "r \<in> set ?rs"
    then have "map_of rows (pr_record_id r) = Some r" "pr_tenant_id r = u" using mem of_row by auto
    with r show "owned_row u (pr_record_id r) ?rows \<noteq> None \<and> pr_tenant_id r = u \<and> is_open r"
      by (auto simp: owned_row_def resolve_tenants_def map_of_map_vals)
  qed
  have rs: "r \<in> set (filter ?P ?rs) \<longleftrightarrow> r \<in> set (map snd rows) \<and> pr_tenant_id r = u \<and> Q r" for r
    using mem by (auto simp: Q_def examined_def overdue_def)
  have keys: "k \<in> pr_record_id ` set (filter ?P ?rs) \<longleftrightarrow> pr_tenant_id row = u \<and> Q row" if kr: "(k, row) \<in> set rows" for k row
  proof -
    have "r = row" if "r \<in> set (map snd rows)" "pr_record_id r = k" for r
      using of_row [OF that(1)] that(2) kr assms(2) by (simp add: keyed_records_def)
    moreover have "row \<in> set (map snd rows)" using kr by force
    ultimately show ?thesis using id [OF kr] unfolding image_iff Bex_def rs by blast
  qed
  have step: "map_vals (\<lambda>k row. if k \<in> pr_record_id ` set (filter ?P ?rs) then auto_resolved now row else row) ?rows
      = resolve_tenants Q now (insert u T) rows"
    using keys u(2) by (auto simp: resolve_tenants_def map_vals_def)
  have d: "distinct (map snd rows)"
  proof -
    have "map pr_record_id (map snd rows) = map fst rows" using id by auto
    moreover have "distinct (map fst rows)" using assms(2) by (simp add: keyed_records_def)
    ultimately have "distinct (map pr_record_id (map snd rows))" by (simp only:)
    then show ?thesis by (rule distinct_map [THEN iffD1, THEN conjunct1])
  qed
  have "distinct (sort_desc pr_detected_at ?own)"
    using d by (metis of_tenant_def distinct_filter mset_eq_imp_distinct_iff sort_desc_props(2))
  then have "length (filter ?P ?rs) = length (filter (\<lambda>r. pr_tenant_id r = u \<and> Q r) (map snd rows))"
    using d rs by (intro distinct_length_eq distinct_filter distinct_take) auto
  note cnt = this
  have sum: "length (filter (\<lambda>r. pr_tenant_id r \<in> set (u # us) \<and> Q r) rs)
      = length (filter (\<lambda>r. pr_tenant_id r = u \<and> Q r) rs) + length (filter (\<lambda>r. pr_tenant_id r \<in> set us \<and> Q r) rs)" for rs
    using u(3) by (induction rs) auto
  have "reconcile_tenants sha n states now (u # us) (c, ?rows)
      = reconcile_tenants sha n states now us (c + length (filter ?P ?rs), resolve_tenants Q now (insert u T) rows)"
    by (simp only: reconcile_tenants.simps listed bind_res.simps reconcile_records_spec [OF u(1) own] step)
  also have "\<dots> = Inr (c + length (filter ?P ?rs) + length (filter (\<lambda>r. pr_tenant_id r \<in> set us \<and> Q r) (map snd rows)),
      resolve_tenants Q now (set us \<union> insert u T) rows)"
    using Cons.prems u by (intro Cons.IH) auto
  also have "set us \<union> insert u T = set (u # us) \<union> T" by simp
  finally show ?case by (simp only: cnt sum add.assoc)
qed

text \<open>C34. What one pass of the reconciler closes. For a store whose rows have their own ids as keys and a tenant each, a pass never
  fails, marks \<open>resolved\<close> with reason \<open>auto\<close> exactly the overdue records among the 10000 of each tenant that were detected last,
  leaves every other row and every other store alone and returns the number of records it closed. Overdue is an open record with at
  least one anomaly all of whose anomalies have been missing for the configured number of rounds. A tenant with at most 10000
  records has all of them examined; a record with 10000 later ones is never examined, so it stays open however stale it is.\<close>

theorem reconcile_exact:
  assumes "keyed_records (wd_records w)" "\<forall>r \<in> snd ` set (wd_records w). pr_tenant_id r \<noteq> []"
  shows "(let closes = (\<lambda>row. overdue sha n (wd_states w) row \<and> examined (wd_records w) row) in
      reconcile_once sha n now w = Inr (length (filter closes (map snd (wd_records w))),
        w\<lparr>wd_records := map (\<lambda>(k, row). (k, if closes row
          then row\<lparr>pr_state := ''resolved'', pr_resolved_at := Some now, pr_resolve_reason := Some ''auto''\<rparr> else row)) (wd_records w)\<rparr>))
    \<and> (\<forall>row \<in> snd ` set (wd_records w).
        (length (of_tenant (wd_records w) (pr_tenant_id row)) \<le> 10000 \<longrightarrow> examined (wd_records w) row)
        \<and> (10000 \<le> length (filter (\<lambda>r. pr_detected_at row < pr_detected_at r) (of_tenant (wd_records w) (pr_tenant_id row)))
          \<longrightarrow> \<not> examined (wd_records w) row))"
proof -
  let ?us = "list_tenants (wd_records w)" let ?Q = "\<lambda>row. overdue sha n (wd_states w) row \<and> examined (wd_records w) row"
  have us: "set ?us = pr_tenant_id ` snd ` set (wd_records w)" by (auto simp: list_tenants_def image_image)
  then have "[] \<notin> set ?us" "distinct ?us" using assms(2) by (auto simp: list_tenants_def)
  from reconcile_tenants_spec [OF assms(1) this(2,1), of "{}" sha n "wd_states w" now 0]
  have "reconcile_tenants sha n (wd_states w) now ?us (0, wd_records w) = Inr
      (length (filter (\<lambda>r. pr_tenant_id r \<in> set ?us \<and> ?Q r) (map snd (wd_records w))), resolve_tenants ?Q now (set ?us) (wd_records w))"
    by (simp add: resolve_tenants_def map_vals_def case_prod_beta)
  moreover have "filter (\<lambda>r. pr_tenant_id r \<in> set ?us \<and> ?Q r) (map snd (wd_records w)) = filter ?Q (map snd (wd_records w))"
    using us by (intro filter_cong) auto
  moreover have "resolve_tenants ?Q now (set ?us) (wd_records w)
      = map (\<lambda>(k, row). (k, if ?Q row then auto_resolved now row else row)) (wd_records w)"
    using us by (force simp: resolve_tenants_def map_vals_def)
  ultimately have "reconcile_once sha n now w = Inr (length (filter ?Q (map snd (wd_records w))),
      w\<lparr>wd_records := map (\<lambda>(k, row). (k, if ?Q row then auto_resolved now row else row)) (wd_records w)\<rparr>)"
    by (simp add: reconcile_once_def)
  then show ?thesis using examined_all examined_newest by (auto simp: Let_def auto_resolved_def cong: if_cong)
qed

definition quiet_rows :: records where
  "quiet_rows = map (\<lambda>(k, m). (k, row_of id ((sample_record ''api'' [sample_metric ''api'' m []])\<lparr>pr_record_id := k, pr_tenant_id := ''t''\<rparr>)))
     [(''REC-1'', ''cpu''), (''REC-2'', ''mem'')]"

definition quiet_states :: "int \<Rightarrow> int \<Rightarrow> det_store" where
  "quiet_states i j = map (\<lambda>((k, row), n). ((''t'', pr_domain row, hd (record_anomaly_keys id row)),
      \<lparr>st_consecutive_rounds = 1, st_miss_rounds = n, st_first_seen = 0, st_last_seen = 0\<rparr>)) (zip quiet_rows [i, j])"

theorem reconcile_exact_witness:
  "\<exists>w'. reconcile_once id 5 7 (demo_world\<lparr>wd_records := quiet_rows, wd_states := quiet_states 5 4\<rparr>) = Inr (1, w')
     \<and> map (pr_state \<circ> snd) (wd_records w') = [''resolved'', ''pending'']"
proof -
  let ?w = "demo_world\<lparr>wd_records := quiet_rows, wd_states := quiet_states 5 4\<rparr>"
  let ?f = "\<lambda>(k, row). (k, if overdue id 5 (wd_states ?w) row
       then row\<lparr>pr_state := ''resolved'', pr_resolved_at := Some 7, pr_resolve_reason := Some ''auto''\<rparr> else row)"
  have ok: "keyed_records (wd_records ?w)" "\<forall>r \<in> snd ` set (wd_records ?w). pr_tenant_id r \<noteq> []"
    by code_simp+
  have "length (of_tenant (wd_records ?w) u) \<le> 10000" for u
    unfolding of_tenant_def by (rule order_trans [OF length_filter_le]) (simp add: quiet_rows_def)
  then have all: "examined (wd_records ?w) row" if "row \<in> snd ` set (wd_records ?w)" for row
    using reconcile_exact [OF ok, THEN conjunct2] that by blast
  let ?P = "\<lambda>row. overdue id 5 (wd_states ?w) row \<and> examined (wd_records ?w) row"
  have run: "reconcile_once id 5 7 ?w = Inr (length (filter ?P (map snd (wd_records ?w))), ?w\<lparr>wd_records := map (\<lambda>(k, row). (k, if ?P row
      then row\<lparr>pr_state := ''resolved'', pr_resolved_at := Some 7, pr_resolve_reason := Some ''auto''\<rparr> else row)) (wd_records ?w)\<rparr>)"
    using reconcile_exact [OF ok, THEN conjunct1] by (simp add: Let_def)
  have same: "filter ?P (map snd (wd_records ?w)) = filter (overdue id 5 (wd_states ?w)) (map snd (wd_records ?w))"
    using all by (intro filter_cong) auto
  have rows: "map (\<lambda>(k, row). (k, if ?P row
      then row\<lparr>pr_state := ''resolved'', pr_resolved_at := Some 7, pr_resolve_reason := Some ''auto''\<rparr> else row)) (wd_records ?w)
      = map ?f (wd_records ?w)"
    using all by (intro map_cong) force+
  have out: "length (filter (overdue id 5 (wd_states ?w)) (map snd (wd_records ?w))) = 1"
    "map (pr_state \<circ> snd) (map ?f (wd_records ?w)) = [''resolved'', ''pending'']"
    by code_simp+
  from run have "reconcile_once id 5 7 ?w = Inr (1, ?w\<lparr>wd_records := map ?f (wd_records ?w)\<rparr>)" unfolding same rows out(1) .
  with out(2) show ?thesis by (intro exI [of _ "?w\<lparr>wd_records := map ?f (wd_records ?w)\<rparr>"]) simp
qed

section \<open>How a round ends\<close>

lemma funnel_rounds:
  assumes "tenant \<noteq> []" "funnel sha registry tenant domain now trace rows signals degraded w = Inr (res, w')"
  shows "wd_rounds w' = wd_rounds w"
proof -
  obtain cx cx' where cx: "build_context tenant domain registry now (Some trace) trace (enumerate 0 signals) None degraded None rows None w = Inr cx"
    and run: "run_domain sha (cx, w) = Inr (res, cx', w')" using assms(2) by (auto simp: funnel_def)
  have "cx_tenant_id cx \<noteq> []" "cx_seen_keys cx = {}" using cx assms(1) by (auto simp: build_context_def Let_def)
  moreover obtain cx2 cx3 where "l0_suppress (cx\<lparr>cx_round_started_at := Some (cx_now cx)\<rparr>) = Inr cx2" "l1_detect cx2 = Inr cx3"
    using run by (auto simp: run_domain_def Let_def)
  ultimately obtain res1 cx1 w1 where "run_domain sha (cx, w) = Inr (res1, cx1, w1)" "record_writes sha cx3 (dr_records res1) w w1"
    using run_domain_spec [of cx cx2 cx3 sha w] by blast
  with run show ?thesis by (simp add: record_writes_def)
qed

text \<open>A loop of target updates, some targets skipped: every target named gets its own patch, nothing else changes.\<close>

lemma foldM_targets:
  assumes "tenant \<noteq> []" "distinct (map key xs)"
  shows "\<exists>s'. foldM (\<lambda>x s. if skip x then Inr s else update_target_status tenant r (key x) (p x) s) xs s = Inr s'
    \<and> rs_rows s' = rs_rows s
    \<and> (\<forall>x \<in> set xs. map_of (rs_target_rows s') (tenant, r, key x)
         = map_option (if skip x then id else patch_target (p x)) (map_of (rs_target_rows s) (tenant, r, key x)))
    \<and> (\<forall>k. k \<notin> (\<lambda>x. (tenant, r, key x)) ` set xs \<longrightarrow> map_of (rs_target_rows s') k = map_of (rs_target_rows s) k)"
  using assms(2)
proof (induction xs arbitrary: s)
  case (Cons x xs)
  define s1 where "s1 = (if skip x then s else case map_of (rs_target_rows s) (tenant, r, key x) of None \<Rightarrow> s
     | Some row \<Rightarrow> s\<lparr>rs_target_rows := AList.update (tenant, r, key x) (patch_target (p x) row) (rs_target_rows s)\<rparr>)"
  have s1: "(if skip x then Inr s else update_target_status tenant r (key x) (p x) s) = Inr s1"
    using assms(1) by (simp add: update_target_status_def s1_def)
  have rows: "rs_rows s1 = rs_rows s" by (simp add: s1_def split: option.split)
  have upd: "map_of (rs_target_rows s1) k = (if k = (tenant, r, key x)
      then map_option (if skip x then id else patch_target (p x)) (map_of (rs_target_rows s) k) else map_of (rs_target_rows s) k)" for k
    by (auto simp: s1_def map_of_update option.map_id split: option.split)
  have d: "distinct (map key xs)" "key x \<notin> key ` set xs" using Cons.prems by auto
  from Cons.IH [OF d(1), of s1] obtain s' where s': "foldM (\<lambda>x s. if skip x then Inr s else update_target_status tenant r (key x) (p x) s) xs s1 = Inr s'"
    "rs_rows s' = rs_rows s1"
    "\<forall>x \<in> set xs. map_of (rs_target_rows s') (tenant, r, key x)
         = map_option (if skip x then id else patch_target (p x)) (map_of (rs_target_rows s1) (tenant, r, key x))"
    "\<forall>k. k \<notin> (\<lambda>x. (tenant, r, key x)) ` set xs \<longrightarrow> map_of (rs_target_rows s') k = map_of (rs_target_rows s1) k"
    by blast
  have "map_of (rs_target_rows s') (tenant, r, key y)
     = map_option (if skip y then id else patch_target (p y)) (map_of (rs_target_rows s) (tenant, r, key y))" if "y \<in> set (x # xs)" for y
  proof (cases "y = x")
    case True
    with d(2) have "(tenant, r, key y) \<notin> (\<lambda>x. (tenant, r, key x)) ` set xs" by auto
    with s'(4) upd True show ?thesis by simp
  next
    case False
    with that have "y \<in> set xs" by simp
    moreover from this d(2) have "key y \<noteq> key x" by (metis imageI)
    ultimately show ?thesis using s'(3) upd by simp
  qed
  moreover have "map_of (rs_target_rows s') k = map_of (rs_target_rows s) k" if "k \<notin> (\<lambda>x. (tenant, r, key x)) ` set (x # xs)" for k
    using that s'(4) upd by (simp del: split_paired_All)
  moreover have "foldM (\<lambda>x s. if skip x then Inr s else update_target_status tenant r (key x) (p x) s) (x # xs) s = Inr s'"
    using s1 s'(1) by simp
  ultimately show ?case using s'(2) rows by (intro exI [of _ s'] conjI ballI allI impI) simp_all
qed simp

lemma foldM_create:
  assumes "tenant \<noteq> []"
  shows "\<exists>s'. foldM (\<lambda>t. create_target tenant r (mt_target_id t) now) ts s = Inr s' \<and> rs_rows s' = rs_rows s
    \<and> (\<forall>k. k \<notin> (\<lambda>t. (tenant, r, mt_target_id t)) ` set ts \<longrightarrow> map_of (rs_target_rows s') k = map_of (rs_target_rows s) k)
    \<and> (\<forall>k \<in> (\<lambda>t. (tenant, r, mt_target_id t)) ` set ts. \<exists>row. map_of (rs_target_rows s') k = Some row \<and> rt_error row = None)"
proof (induction ts arbitrary: s)
  case (Cons t ts)
  let ?K = "(\<lambda>t. (tenant, r, mt_target_id t)) ` set ts"
  obtain s1 where s1: "create_target tenant r (mt_target_id t) now s = Inr s1" using assms by (simp add: create_target_def)
  from Cons [of s1] obtain s' where s': "foldM (\<lambda>t. create_target tenant r (mt_target_id t) now) ts s1 = Inr s'" "rs_rows s' = rs_rows s1"
    "\<forall>k. k \<notin> ?K \<longrightarrow> map_of (rs_target_rows s') k = map_of (rs_target_rows s1) k"
    "\<forall>k \<in> ?K. \<exists>row. map_of (rs_target_rows s') k = Some row \<and> rt_error row = None" by blast
  have rows: "rs_rows s1 = rs_rows s" and new: "\<exists>row. map_of (rs_target_rows s1) (tenant, r, mt_target_id t) = Some row \<and> rt_error row = None"
    and old: "k \<noteq> (tenant, r, mt_target_id t) \<Longrightarrow> map_of (rs_target_rows s1) k = map_of (rs_target_rows s) k" for k
    using s1 assms by (auto simp: create_target_def map_of_update)
  have "\<exists>row. map_of (rs_target_rows s') k = Some row \<and> rt_error row = None" if "k \<in> insert (tenant, r, mt_target_id t) ?K" for k
    using that new s'(3,4) by (cases "k \<in> ?K") auto
  moreover have "map_of (rs_target_rows s') k = map_of (rs_target_rows s) k" if "k \<notin> insert (tenant, r, mt_target_id t) ?K" for k
    using that s'(3) old by (simp del: split_paired_All)
  moreover have "foldM (\<lambda>t. create_target tenant r (mt_target_id t) now) (t # ts) s = Inr s'" using s1 s'(1) by simp
  ultimately show ?case using s'(2) rows by (intro exI [of _ s']) (simp del: split_paired_All)
qed simp

lemma collect_all_ids: "map co_target_id (fst (collect_all collect tenant now ts wm)) = map mt_target_id ts"
  by (induction ts arbitrary: wm) (simp_all add: Let_def case_prod_beta)

lemma collect_patch_sel [simp]:
  "rt_finished_at (patch_target (collect_patch ended c) row) = Some ended"
  "rt_status (patch_target (collect_patch ended c) row) = (case co_outcome c of Inl _ \<Rightarrow> ''failed'' | Inr _ \<Rightarrow> ''ok'')"
  by (simp_all add: collect_patch_def patch_target_def Let_def if_given_def no_target_patch_def split: sum.split option.split)

lemma attribution_patch_sel [simp]:
  "rt_finished_at (patch_target (attribution_patch res t) row) = rt_finished_at row"
  "rt_status (patch_target (attribution_patch res t) row) = rt_status row"
  by (simp_all add: attribution_patch_def patch_target_def if_given_def no_target_patch_def)

lemma if_given_sel:
  "(\<And>x r. rd_status (f x r) = rd_status r) \<Longrightarrow> rd_status (if_given f v row) = rd_status row"
  "(\<And>x r. rd_finished_at (f x r) = rd_finished_at r) \<Longrightarrow> rd_finished_at (if_given f v row) = rd_finished_at row"
  "(\<And>x r. rd_degraded_sources (f x r) = rd_degraded_sources r) \<Longrightarrow> rd_degraded_sources (if_given f v row) = rd_degraded_sources row"
  "rd_degraded_sources (if_given (\<lambda>x row. row\<lparr>rd_degraded_sources := Some x\<rparr>) w row)
     = (case w of None \<Rightarrow> rd_degraded_sources row | Some x \<Rightarrow> Some x)"
  by (simp_all add: if_given_def split: option.split)

lemma patch_round_sel [simp]:
  "rd_status (patch_round st ended p row) = st" "rd_finished_at (patch_round st ended p row) = Some ended"
  "rd_degraded_sources (patch_round st ended p row) = (case ru_degraded_sources p of None \<Rightarrow> rd_degraded_sources row | Some x \<Rightarrow> Some x)"
  by (simp_all add: patch_round_def Let_def if_given_sel cong: option.case_cong)

lemma failed_ids_iff:
  assumes "distinct (map co_target_id cs)" "c \<in> set cs"
  shows "co_target_id c \<in> set (failed_ids cs) \<longleftrightarrow> isl (co_outcome c)"
proof -
  have "inj_on co_target_id (set cs)" using assms(1) by (simp add: distinct_map)
  then have "c' = c" if "c' \<in> set cs" "co_target_id c = co_target_id c'" for c'
    using that assms(2) by (auto dest: inj_onD)
  with assms(2) show ?thesis unfolding failed_ids_def set_map set_filter by blast
qed

definition round_frame :: "string \<Rightarrow> string \<Rightarrow> round_store \<Rightarrow> round_store \<Rightarrow> bool" where
  "round_frame tenant trace s s' \<longleftrightarrow> (\<forall>k. k \<noteq> (tenant, trace) \<longrightarrow> map_of (rs_rows s') k = map_of (rs_rows s) k)
     \<and> (\<forall>u r x. (u, r) \<noteq> (tenant, trace) \<longrightarrow> map_of (rs_target_rows s') (u, r, x) = map_of (rs_target_rows s) (u, r, x))"

lemma round_frame_trans: "round_frame t r a b \<Longrightarrow> round_frame t r b c \<Longrightarrow> round_frame t r a c"
  by (simp add: round_frame_def)

lemma update_status_spec:
  assumes "tenant \<noteq> []" "map_of (rs_rows s) (tenant, r) = Some row"
  shows "\<exists>s'. update_status tenant r st ended p s = Inr s' \<and> map_of (rs_rows s') (tenant, r) = Some (patch_round st ended p row)
    \<and> rs_target_rows s' = rs_target_rows s \<and> round_frame tenant r s s'"
  using assms by (auto simp: update_status_def map_of_update round_frame_def)

definition collected_rows :: "string \<Rightarrow> string \<Rightarrow> time \<Rightarrow> string list \<Rightarrow> target list \<Rightarrow> round_store \<Rightarrow> bool" where
  "collected_rows tenant trace ended failed ts s \<longleftrightarrow> (\<forall>t \<in> set ts. \<exists>row.
     map_of (rs_target_rows s) (tenant, trace, mt_target_id t) = Some row \<and> rt_finished_at row = Some ended
     \<and> rt_status row = (if mt_target_id t \<in> set failed then ''failed'' else ''ok''))"

lemma close_collection_spec:
  assumes "tenant \<noteq> []" "distinct (map co_target_id cs)" "map co_target_id cs = map mt_target_id ts"
    and "\<forall>t \<in> set ts. map_of (rs_target_rows s) (tenant, trace, mt_target_id t) \<noteq> None"
  shows "\<exists>s'. close_collection tenant trace ended cs s = Inr s' \<and> rs_rows s' = rs_rows s \<and> round_frame tenant trace s s'
    \<and> collected_rows tenant trace ended (failed_ids cs) ts s'"
proof -
  from foldM_targets [OF assms(1,2), of "\<lambda>c. False" trace "collect_patch ended" s] obtain s' where s':
    "close_collection tenant trace ended cs s = Inr s'" "rs_rows s' = rs_rows s"
    "\<forall>c \<in> set cs. map_of (rs_target_rows s') (tenant, trace, co_target_id c)
       = map_option (patch_target (collect_patch ended c)) (map_of (rs_target_rows s) (tenant, trace, co_target_id c))"
    "\<forall>k. k \<notin> (\<lambda>c. (tenant, trace, co_target_id c)) ` set cs \<longrightarrow> map_of (rs_target_rows s') k = map_of (rs_target_rows s) k"
    unfolding close_collection_def by auto
  have "\<exists>row. map_of (rs_target_rows s') (tenant, trace, mt_target_id t) = Some row \<and> rt_finished_at row = Some ended
     \<and> rt_status row = (if mt_target_id t \<in> set (failed_ids cs) then ''failed'' else ''ok'')" if t: "t \<in> set ts" for t
  proof -
    from t have "mt_target_id t \<in> set (map co_target_id cs)" unfolding assms(3) by simp
    then obtain c where c: "c \<in> set cs" "co_target_id c = mt_target_id t" by auto
    from assms(4) t obtain row where "map_of (rs_target_rows s) (tenant, trace, mt_target_id t) = Some row" by blast
    with s'(3) c have "map_of (rs_target_rows s') (tenant, trace, mt_target_id t) = Some (patch_target (collect_patch ended c) row)"
      by force
    with failed_ids_iff [OF assms(2) c(1)] c(2) show ?thesis by (cases "co_outcome c") simp_all
  qed
  moreover have "round_frame tenant trace s s'" using s'(2,4) by (auto simp: round_frame_def)
  ultimately show ?thesis using s'(1,2) by (auto simp: collected_rows_def)
qed

lemma attribute_spec:
  assumes "tenant \<noteq> []" "distinct (map mt_target_id ts)" "collected_rows tenant trace ended failed ts s"
  shows "\<exists>s'. attribute tenant trace res failed ts s = Inr s' \<and> rs_rows s' = rs_rows s \<and> round_frame tenant trace s s'
    \<and> collected_rows tenant trace ended failed ts s'"
proof -
  from foldM_targets [OF assms(1,2), of "\<lambda>t. mt_target_id t \<in> set failed" trace "attribution_patch res" s] obtain s' where s':
    "attribute tenant trace res failed ts s = Inr s'" "rs_rows s' = rs_rows s"
    "\<forall>t \<in> set ts. map_of (rs_target_rows s') (tenant, trace, mt_target_id t)
       = map_option (if mt_target_id t \<in> set failed then id else patch_target (attribution_patch res t))
           (map_of (rs_target_rows s) (tenant, trace, mt_target_id t))"
    "\<forall>k. k \<notin> (\<lambda>t. (tenant, trace, mt_target_id t)) ` set ts \<longrightarrow> map_of (rs_target_rows s') k = map_of (rs_target_rows s) k"
    unfolding attribute_def by auto
  have "collected_rows tenant trace ended failed ts s'" using assms(3) s'(3) unfolding collected_rows_def by force
  moreover have "round_frame tenant trace s s'" using s'(2,4) by (auto simp: round_frame_def)
  ultimately show ?thesis using s'(1,2) by blast
qed

lemma open_round_spec:
  assumes "tenant \<noteq> []"
  shows "\<exists>s' row. open_round tenant trace domain now ts s = Inr s' \<and> map_of (rs_rows s') (tenant, trace) = Some row
    \<and> round_frame tenant trace s s' \<and> (\<forall>t \<in> set ts. map_of (rs_target_rows s') (tenant, trace, mt_target_id t) \<noteq> None)"
proof -
  obtain s1 row where s1: "create_round tenant trace domain now ''running'' (map mt_target_id ts) [] s = Inr s1"
    "map_of (rs_rows s1) (tenant, trace) = Some row" "round_frame tenant trace s s1"
    using assms by (auto simp: create_round_def map_of_update round_frame_def)
  from foldM_create [OF assms, of trace now ts s1] obtain s' where s':
    "foldM (\<lambda>t. create_target tenant trace (mt_target_id t) now) ts s1 = Inr s'" "rs_rows s' = rs_rows s1"
    "\<forall>k. k \<notin> (\<lambda>t. (tenant, trace, mt_target_id t)) ` set ts \<longrightarrow> map_of (rs_target_rows s') k = map_of (rs_target_rows s1) k"
    "\<forall>k \<in> (\<lambda>t. (tenant, trace, mt_target_id t)) ` set ts. \<exists>row. map_of (rs_target_rows s') k = Some row \<and> rt_error row = None"
    by blast
  have "round_frame tenant trace s1 s'" using s'(2,3) by (auto simp: round_frame_def)
  with s1(3) have "round_frame tenant trace s s'" by (rule round_frame_trans)
  moreover have "open_round tenant trace domain now ts s = Inr s'" using s1(1) s'(1) by (simp add: open_round_def)
  moreover have "\<forall>t \<in> set ts. map_of (rs_target_rows s') (tenant, trace, mt_target_id t) \<noteq> None" using s'(4) by auto
  ultimately show ?thesis using s1(2) s'(2) by (intro exI [of _ s'] exI [of _ row]) simp
qed

lemma collected_rows_cong: "rs_target_rows s' = rs_target_rows s \<Longrightarrow> collected_rows t r ce failed ts s' = collected_rows t r ce failed ts s"
  by (simp add: collected_rows_def)

lemma final_status:
  assumes "tenant \<noteq> []" "map_of (rs_rows s) (tenant, trace) = Some row" "collected_rows tenant trace ce failed ts s"
    and "ru_degraded_sources p = Some failed"
  shows "\<exists>s' row'. update_status tenant trace st ended p s = Inr s' \<and> round_frame tenant trace s s'
    \<and> collected_rows tenant trace ce failed ts s' \<and> get_round tenant trace s' = Inr (Some row')
    \<and> rd_status row' = st \<and> rd_finished_at row' = Some ended \<and> rd_degraded_sources row' = Some failed"
proof -
  obtain s' where s': "update_status tenant trace st ended p s = Inr s'" "map_of (rs_rows s') (tenant, trace) = Some (patch_round st ended p row)"
    "rs_target_rows s' = rs_target_rows s" "round_frame tenant trace s s'" using update_status_spec [OF assms(1,2)] by blast
  have "collected_rows tenant trace ce failed ts s'" using collected_rows_cong [OF s'(3)] assms(3) by blast
  with s' assms(1,4) show ?thesis by (intro exI [of _ s'] exI [of _ "patch_round st ended p row"]) (simp add: get_round_def)
qed

text \<open>C33. A round is always closed. For a tenant and targets with different ids, whatever the collectors return, whichever
  of them fail and whether or not the funnel raises, the round's row ends with its end time, the failed targets as degraded
  sources, and the status \<open>failed\<close> exactly if the round raised, otherwise \<open>partial\<close> if some target failed and
  \<open>success\<close> if none did; every target's row ends as \<open>failed\<close> or \<open>ok\<close> accordingly, so none stays \<open>running\<close>; and
  no row of another round or tenant changes.\<close>

theorem round_always_closed:
  assumes "tenant \<noteq> []" "distinct (map mt_target_id targets)"
    and "run_round sha collect registry rows trace tenant domain targets now collect_ended ended (w, wm) = (out, w', wm')"
    and "failed = failed_ids (fst (collect_all collect tenant now targets wm))"
  shows "(\<exists>row. get_round tenant trace (wd_rounds w') = Inr (Some row) \<and> rd_finished_at row = Some ended
      \<and> rd_degraded_sources row = Some failed
      \<and> rd_status row = (case out of Inl _ \<Rightarrow> ''failed'' | Inr _ \<Rightarrow> if failed = [] then ''success'' else ''partial''))
    \<and> (\<forall>t \<in> set targets. \<exists>row. map_of (rs_target_rows (wd_rounds w')) (tenant, trace, mt_target_id t) = Some row
      \<and> rt_finished_at row = Some collect_ended \<and> rt_status row = (if mt_target_id t \<in> set failed then ''failed'' else ''ok''))
    \<and> round_frame tenant trace (wd_rounds w) (wd_rounds w')"
proof -
  obtain cs wm1 where cs: "collect_all collect tenant now targets wm = (cs, wm1)" by fastforce
  have failed: "failed = failed_ids cs" using assms(4) cs by simp
  have ids: "map co_target_id cs = map mt_target_id targets" using collect_all_ids [of collect tenant now targets wm] cs by simp
  from open_round_spec [OF assms(1), of trace domain now targets "wd_rounds w"] obtain rs row where
    op: "open_round tenant trace domain now targets (wd_rounds w) = Inr rs" "map_of (rs_rows rs) (tenant, trace) = Some row"
      "round_frame tenant trace (wd_rounds w) rs" "\<forall>t \<in> set targets. map_of (rs_target_rows rs) (tenant, trace, mt_target_id t) \<noteq> None"
    by blast
  from close_collection_spec [OF assms(1) _ ids op(4)] assms(2) obtain rs1 where
    cl: "close_collection tenant trace collect_ended cs rs = Inr rs1" "rs_rows rs1 = rs_rows rs" "round_frame tenant trace rs rs1"
      "collected_rows tenant trace collect_ended failed targets rs1"
    unfolding ids failed by blast
  let ?w1 = "w\<lparr>wd_rounds := rs1\<rparr>"
  have frame1: "round_frame tenant trace (wd_rounds w) rs1" using op(3) cl(3) by (rule round_frame_trans)
  have row1: "map_of (rs_rows rs1) (tenant, trace) = Some row" using op(2) cl(2) by simp
  note run = assms(3) [unfolded run_round_def case_prod_conv op(1) sum.case cs Let_def cl(1), folded failed]
  show ?thesis
  proof (cases "funnel sha registry tenant domain now trace rows (concat (map batch_of cs)) failed ?w1")
    case (Inl e)
    from final_status [OF assms(1) row1 cl(4), of "no_round_patch\<lparr>ru_degraded_sources := Some failed\<rparr>" "''failed''" ended]
    obtain rs2 row' where u: "update_status tenant trace ''failed'' ended (no_round_patch\<lparr>ru_degraded_sources := Some failed\<rparr>) rs1 = Inr rs2"
      "round_frame tenant trace rs1 rs2" "collected_rows tenant trace collect_ended failed targets rs2"
      "get_round tenant trace rs2 = Inr (Some row')" "rd_status row' = ''failed''" "rd_finished_at row' = Some ended"
      "rd_degraded_sources row' = Some failed" by auto
    with run Inl have "out = Inl e" "wd_rounds w' = rs2" by auto
    with u round_frame_trans [OF frame1 u(2)] show ?thesis unfolding collected_rows_def by simp
  next
    case (Inr rw)
    obtain res w2 where rw: "rw = (res, w2)" by fastforce
    have w2: "wd_rounds w2 = rs1" using funnel_rounds [OF assms(1) Inr [unfolded rw]] by simp
    let ?st = "if failed = [] then ''success'' else ''partial''" let ?p = "success_patch res (length (concat (map batch_of cs))) failed"
    from attribute_spec [OF assms(1,2) cl(4), of res] obtain rs2 where at: "attribute tenant trace res failed targets rs1 = Inr rs2"
      "rs_rows rs2 = rs_rows rs1" "round_frame tenant trace rs1 rs2" "collected_rows tenant trace collect_ended failed targets rs2" by blast
    from final_status [OF assms(1) _ at(4), of row ?p ?st ended] row1 at(2) obtain rs3 row' where
      u: "update_status tenant trace ?st ended ?p rs2 = Inr rs3"
      "round_frame tenant trace rs2 rs3" "collected_rows tenant trace collect_ended failed targets rs3"
      "get_round tenant trace rs3 = Inr (Some row')" "rd_status row' = ?st" "rd_finished_at row' = Some ended"
      "rd_degraded_sources row' = Some failed" by (auto simp: success_patch_def)
    with run Inr rw w2 at(1) have "out = Inr res" "wd_rounds w' = rs3" by auto
    moreover have "round_frame tenant trace (wd_rounds w) rs3" using frame1 at(3) u(2) by (blast intro: round_frame_trans)
    ultimately show ?thesis using u unfolding collected_rows_def by simp
  qed
qed

definition demo_target :: "string \<Rightarrow> target" where
  "demo_target tid = \<lparr>mt_id = 1, mt_tenant_id = ''t1'', mt_target_id = tid, mt_service = ''api'', mt_signal_type = ''metric'',
     mt_source_type = ''mock'', mt_domain = ''application'', mt_source_config = [], mt_schedule = [(''interval_sec'', PInt 60)],
     mt_enabled = True, mt_created_at = 0, mt_deleted = False\<rparr>"

definition demo_collect :: collect_fn where
  "demo_collect tenant t now wm =
     (wm, None, if mt_target_id t = ''MT-0001'' then Inr [] else Inl ''ConnectError: refused'')"

theorem round_always_closed_witness:
  "\<exists>row. get_round ''t1'' ''trace-1'' (wd_rounds (fst (snd (run_round id demo_collect [] (Inr [(''application'', Inr (demo_config 1))])
      ''trace-1'' ''t1'' ''application'' [demo_target ''MT-0001'', demo_target ''MT-0002''] 10 20 30 (demo_world, []))))) = Inr (Some row)
     \<and> rd_status row \<in> {''failed'', ''partial''} \<and> rd_finished_at row = Some 30 \<and> rd_degraded_sources row = Some [''MT-0002'']"
proof -
  let ?ts = "[demo_target ''MT-0001'', demo_target ''MT-0002'']"
  obtain out w' wm' where run: "run_round id demo_collect [] (Inr [(''application'', Inr (demo_config 1))])
      ''trace-1'' ''t1'' ''application'' ?ts 10 20 30 (demo_world, []) = (out, w', wm')" by (metis prod.exhaust)
  have "distinct (map mt_target_id ?ts)" "[''MT-0002''] = failed_ids (fst (collect_all demo_collect ''t1'' 10 ?ts []))"
    by code_simp+
  from round_always_closed [OF _ this(1) run this(2)] obtain row where
    "get_round ''t1'' ''trace-1'' (wd_rounds w') = Inr (Some row)" "rd_finished_at row = Some 30"
    "rd_degraded_sources row = Some [''MT-0002'']" "rd_status row = (case out of Inl _ \<Rightarrow> ''failed'' | Inr _ \<Rightarrow> ''partial'')"
    by auto
  with run show ?thesis by (cases out) simp_all
qed

section \<open>Orphan recovery\<close>

definition crashed_rounds :: round_store where
  "crashed_rounds = \<lparr>rs_rows = [], rs_target_rows =
     map (\<lambda>(r, st, a, f). ((''t'', r, ''MT-0001''), \<lparr>rt_round_id = r, rt_tenant_id = ''t'', rt_target_id = ''MT-0001'', rt_status = st,
       rt_signals_count = 0, rt_anomaly_count = 0, rt_record_count = 0, rt_suppressed_count = 0, rt_error = None,
       rt_request_params = None, rt_started_at = a, rt_finished_at = f\<rparr>))
     [(''r1'', ''ok'', 100, Some 130), (''r2'', ''running'', 160, None)]\<rparr>"

text \<open>Orphan recovery can lose data. The endpoint was collected at 100 and the collection ended at 130, so its watermark is 100;
  the next round, started at 160, crashed before collecting. Recovery sets the watermark to 130, the end time of the
  last successful collection: it moves forward, and what the source logged between 100 and 130 is never asked for,
  although the function is documented to roll the watermark back without losing data.\<close>

theorem orphan_recovery_skips_logs:
  "wm_get ''t'' ''MT-0001'' [((''t'', ''MT-0001''), 100)] = Inr (Some 100)
   \<and> map_sum id (wm_get ''t'' ''MT-0001'' \<circ> snd)
       (recover_orphan ''t'' ''MT-0001'' 220 (demo_world\<lparr>wd_rounds := crashed_rounds\<rparr>, [((''t'', ''MT-0001''), 100)])) = Inr (Inr (Some 130))"
  by code_simp

section \<open>When a target runs next\<close>

definition next_time :: "(rat \<Rightarrow> rat) \<Rightarrow> time \<Rightarrow> target \<Rightarrow> time" where
  "next_time jitter now t = (case interval_of t of Inr i \<Rightarrow> now + timedelta_us (fl (i + jitter i)) | Inl _ \<Rightarrow> now)"

definition first_time :: "time \<Rightarrow> target \<Rightarrow> time" where
  "first_time now t = (case interval_of t of Inr i \<Rightarrow> now + timedelta_us i | Inl _ \<Rightarrow> now)"

text \<open>From \<open>nr\<close> to \<open>nr'\<close> exactly the pairs of tenant and target in \<open>D\<close> were rescheduled.\<close>

definition resets :: "(rat \<Rightarrow> rat) \<Rightarrow> time \<Rightarrow> (string \<times> target) set \<Rightarrow> next_run \<Rightarrow> next_run \<Rightarrow> bool" where
  "resets jitter now D nr nr' \<longleftrightarrow> (\<forall>k. (map_of nr' k = map_of nr k \<and> (\<forall>(u, t) \<in> D. k \<noteq> (u, mt_target_id t)))
     \<or> (\<exists>(u, t) \<in> D. k = (u, mt_target_id t) \<and> map_of nr' k = Some (next_time jitter now t)))"

lemma resets_refl [simp]: "resets jitter now {} nr nr"
  by (simp add: resets_def)

lemma resets_trans:
  assumes "resets jitter now D a b" "resets jitter now E b c"
  shows "resets jitter now (D \<union> E) a c"
  unfolding resets_def
proof
  fix k
  from assms(2) have "(map_of c k = map_of b k \<and> (\<forall>(u, t) \<in> E. k \<noteq> (u, mt_target_id t)))
     \<or> (\<exists>(u, t) \<in> E. k = (u, mt_target_id t) \<and> map_of c k = Some (next_time jitter now t))" unfolding resets_def by blast
  moreover from assms(1) have "(map_of b k = map_of a k \<and> (\<forall>(u, t) \<in> D. k \<noteq> (u, mt_target_id t)))
     \<or> (\<exists>(u, t) \<in> D. k = (u, mt_target_id t) \<and> map_of b k = Some (next_time jitter now t))" unfolding resets_def by blast
  ultimately show "(map_of c k = map_of a k \<and> (\<forall>(u, t) \<in> D \<union> E. k \<noteq> (u, mt_target_id t)))
     \<or> (\<exists>(u, t) \<in> D \<union> E. k = (u, mt_target_id t) \<and> map_of c k = Some (next_time jitter now t))" by (elim disjE) auto
qed

lemma reschedule_resets: "reschedule jitter u ts now nr = Inr nr' \<Longrightarrow> resets jitter now ((Pair u) ` set ts) nr nr'"
proof (induction ts arbitrary: nr)
  case (Cons t ts)
  then obtain i where i: "interval_of t = Inr i" and r: "reschedule jitter u ts now
      (AList.update (u, mt_target_id t) (now + timedelta_us (fl (i + jitter i))) nr) = Inr nr'" by auto
  have "resets jitter now {(u, t)} nr (AList.update (u, mt_target_id t) (now + timedelta_us (fl (i + jitter i))) nr)"
    using i by (simp add: resets_def map_of_update next_time_def)
  from resets_trans [OF this Cons.IH [OF r]] show ?case by simp
qed simp

definition grouped :: "((string \<times> string) \<times> target list) list \<Rightarrow> (string \<times> target) set" where
  "grouped gs = (\<Union>(key, ts) \<in> set gs. Pair (fst key) ` set ts)"

lemma run_group_resets:
  assumes "run_group run jitter (key, ts) now s = Inr s'" "sh_in_flight (sy_sched s) = {}"
  shows "sh_in_flight (sy_sched s') = {} \<and> sy_leases s' = sy_leases s
    \<and> resets jitter now (Pair (fst key) ` set ts) (sh_next_run (sy_sched s)) (sh_next_run (sy_sched s'))"
  using assms reschedule_resets by (cases key) (auto simp: run_group_def Let_def case_prod_beta)

lemma foldM_run_group:
  assumes "foldM (\<lambda>g. run_group run jitter g now) gs s = Inr s'" "sh_in_flight (sy_sched s) = {}"
  shows "sh_in_flight (sy_sched s') = {} \<and> sy_leases s' = sy_leases s
    \<and> resets jitter now (grouped gs) (sh_next_run (sy_sched s)) (sh_next_run (sy_sched s'))"
  using assms
proof (induction gs arbitrary: s)
  case (Cons g gs)
  obtain key ts where g: "g = (key, ts)" by fastforce
  from Cons.prems g obtain s1 where s1: "run_group run jitter (key, ts) now s = Inr s1"
    "foldM (\<lambda>g. run_group run jitter g now) gs s1 = Inr s'" by auto
  note one = run_group_resets [OF s1(1) Cons.prems(2)]
  with Cons.IH [OF s1(2)] have "sh_in_flight (sy_sched s') = {}" "sy_leases s' = sy_leases s"
    "resets jitter now (grouped gs) (sh_next_run (sy_sched s1)) (sh_next_run (sy_sched s'))" by auto
  moreover from this(3) one have "resets jitter now (grouped (g # gs)) (sh_next_run (sy_sched s)) (sh_next_run (sy_sched s'))"
    using resets_trans g by (auto simp: grouped_def)
  ultimately show ?case by blast
qed (simp add: grouped_def)

lemma grouped_update:
  assumes "distinct (map fst gs)"
  shows "grouped (AList.update k ((case map_of gs k of None \<Rightarrow> [] | Some ts \<Rightarrow> ts) @ [t]) gs) = insert (fst k, t) (grouped gs)"
  using assms
proof (induction gs)
  case (Cons g gs)
  show ?case
  proof (cases "fst g = k")
    case True
    then show ?thesis by (cases g) (auto simp: grouped_def)
  next
    case False
    with Cons show ?thesis by (cases g) (auto simp: grouped_def)
  qed
qed (simp add: grouped_def)

lemma group_due_grouped:
  "distinct (map fst gs) \<Longrightarrow> grouped (group_due {} due gs) = set due \<union> grouped gs \<and> distinct (map fst (group_due {} due gs))"
proof (induction "{} :: (string \<times> string) set" due gs rule: group_due.induct)
  case (2 u t due gs)
  then show ?case by (simp add: Let_def grouped_update distinct_keys_update)
qed simp

definition planned :: "time \<Rightarrow> next_run \<Rightarrow> string \<Rightarrow> target \<Rightarrow> time" where
  "planned now nr u t = (case map_of nr (u, mt_target_id t) of None \<Rightarrow> first_time now t | Some x \<Rightarrow> x)"

lemma due_loop_spec:
  assumes "due_loop now u ts nr = Inr (due, nr')" "distinct (map mt_target_id ts)"
  shows "set due = {t \<in> set ts. planned now nr u t \<le> now}
    \<and> (\<forall>t \<in> set ts. map_of nr' (u, mt_target_id t) = Some (planned now nr u t))
    \<and> (\<forall>k. k \<notin> (\<lambda>t. (u, mt_target_id t)) ` set ts \<longrightarrow> map_of nr' k = map_of nr k)"
  using assms
proof (induction ts arbitrary: nr due)
  case (Cons t ts)
  let ?key = "(u, mt_target_id t)"
  from Cons.prems(1) obtain i due1 where i: "interval_of t = Inr i"
    and r: "due_loop now u ts (if map_of nr ?key = None then AList.update ?key (now + timedelta_us i) nr else nr) = Inr (due1, nr')"
    and due: "due = (if the (map_of (if map_of nr ?key = None then AList.update ?key (now + timedelta_us i) nr else nr) ?key) \<le> now
      then t # due1 else due1)"
    by (auto simp: Let_def split: prod.splits)
  define nr1 where "nr1 = (if map_of nr ?key = None then AList.update ?key (now + timedelta_us i) nr else nr)"
  have nr1: "map_of nr1 ?key = Some (planned now nr u t)" "\<And>k. k \<noteq> ?key \<Longrightarrow> map_of nr1 k = map_of nr k"
    using i by (auto simp: nr1_def planned_def first_time_def map_of_update)
  have d: "distinct (map mt_target_id ts)" "\<And>x. x \<in> set ts \<Longrightarrow> mt_target_id x \<noteq> mt_target_id t"
    using Cons.prems(2) by (auto simp: image_iff)
  note ih = Cons.IH [OF r [folded nr1_def] d(1)]
  have same: "planned now nr1 u x = planned now nr u x" if "x \<in> set ts" for x
    using d(2) [OF that] nr1(2) [of "(u, mt_target_id x)"] by (simp add: planned_def)
  have head: "map_of nr' ?key = Some (planned now nr u t)"
  proof -
    have "?key \<notin> (\<lambda>t. (u, mt_target_id t)) ` set ts" using d(2) by (metis (no_types, lifting) imageE prod.inject)
    with ih nr1(1) show ?thesis by metis
  qed
  have "set due = {x \<in> set (t # ts). planned now nr u x \<le> now}"
    using due [folded nr1_def] nr1(1) ih same by auto
  moreover have "map_of nr' (u, mt_target_id x) = Some (planned now nr u x)" if "x \<in> set (t # ts)" for x
    using that head ih same by auto
  moreover have "map_of nr' k = map_of nr k" if "k \<notin> (\<lambda>t. (u, mt_target_id t)) ` set (t # ts)" for k
    using that ih nr1(2) by (cases k) auto
  ultimately show ?case by blast
qed simp

definition active :: "target \<Rightarrow> bool" where
  "active t \<longleftrightarrow> mt_enabled t \<and> \<not> mt_deleted t"

lemma due_tenants_spec:
  assumes "due_tenants now rows us nr = Inr (due, nr')" "distinct us"
    and "distinct (map (\<lambda>t. (mt_tenant_id t, mt_target_id t)) rows)"
  shows "set due = {(u, t). u \<in> set us \<and> t \<in> set rows \<and> mt_tenant_id t = u \<and> active t \<and> planned now nr u t \<le> now}
    \<and> (\<forall>t \<in> set rows. active t \<and> mt_tenant_id t \<in> set us \<longrightarrow>
         map_of nr' (mt_tenant_id t, mt_target_id t) = Some (planned now nr (mt_tenant_id t) t))
    \<and> (\<forall>k. fst k \<notin> set us \<longrightarrow> map_of nr' k = map_of nr k)"
  using assms(1,2)
proof (induction us arbitrary: nr due)
  case (Cons u us)
  let ?ts = "filter (\<lambda>r. mt_tenant_id r = u \<and> mt_enabled r \<and> \<not> mt_deleted r) rows"
  from Cons.prems(1) obtain due1 nr1 due2 where l: "due_loop now u ?ts nr = Inr (due1, nr1)"
    and r: "due_tenants now rows us nr1 = Inr (due2, nr')" and due: "due = map (Pair u) due1 @ due2"
    by (auto simp: load_all_targets_def)
  have "distinct (map mt_target_id (filter (\<lambda>r. mt_tenant_id r = u \<and> P r) rows))" for P
    using assms(3) by (induction rows) (auto simp: image_iff)
  from due_loop_spec [OF l this] have one: "set due1 = {t \<in> set ?ts. planned now nr u t \<le> now}"
    "\<And>t. t \<in> set ?ts \<Longrightarrow> map_of nr1 (u, mt_target_id t) = Some (planned now nr u t)"
    "\<And>k. fst k \<noteq> u \<Longrightarrow> map_of nr1 k = map_of nr k" by (blast, blast, metis (no_types, lifting) fst_conv imageE)
  have us: "u \<notin> set us" "distinct us" using Cons.prems(2) by auto
  note ih = Cons.IH [OF r us(2)]
  have same: "planned now nr1 v t = planned now nr v t" if "v \<in> set us" for v t
    using one(3) [of "(v, mt_target_id t)"] that us(1) by (cases "v = u") (simp_all add: planned_def)
  have "set due = {(v, t). v \<in> set (u # us) \<and> t \<in> set rows \<and> mt_tenant_id t = v \<and> active t \<and> planned now nr v t \<le> now}"
    using due one(1) ih same by (auto simp: active_def)
  moreover have "map_of nr' (mt_tenant_id t, mt_target_id t) = Some (planned now nr (mt_tenant_id t) t)"
    if "t \<in> set rows" "active t" "mt_tenant_id t \<in> set (u # us)" for t
    using that ih one(2) [of t] us(1) same by (cases "mt_tenant_id t = u") (auto simp: active_def)
  moreover have "map_of nr' k = map_of nr k" if "fst k \<notin> set (u # us)" for k
    using that ih one(3) by (cases k) auto
  ultimately show ?case by blast
qed simp

text \<open>C35. One scheduler, on time. A replica that does not get the lease runs nothing and changes nothing but its view of the
  lease. A replica that gets it, with no round in flight, leaves every enabled target with a next run: a target never seen
  before is planned one interval ahead, so a start does not run everything at once; a target that was due has run and
  is planned one interval plus jitter after this tick; a target that was not due keeps its time.\<close>

theorem tick_schedule:
  assumes "tick run jitter holder ttl now s = Inr (n, s')" "sh_in_flight (sy_sched s) = {}"
    and "distinct (map (\<lambda>t. (mt_tenant_id t, mt_target_id t)) (sy_targets s))"
  shows "if \<not> fst (lease_try_acquire ''scheduler'' holder ttl now (sy_leases s))
    then n = 0 \<and> s' = s\<lparr>sy_leases := snd (lease_try_acquire ''scheduler'' holder ttl now (sy_leases s))\<rparr>
    else sh_in_flight (sy_sched s') = {} \<and> (\<forall>t \<in> set (sy_targets s). mt_enabled t \<and> \<not> mt_deleted t \<longrightarrow>
      map_of (sh_next_run (sy_sched s')) (mt_tenant_id t, mt_target_id t) = Some (
        case map_of (sh_next_run (sy_sched s)) (mt_tenant_id t, mt_target_id t) of
          Some x \<Rightarrow> if x \<le> now then next_time jitter now t else x
        | None \<Rightarrow> if first_time now t \<le> now then next_time jitter now t else first_time now t))"
proof (cases "fst (lease_try_acquire ''scheduler'' holder ttl now (sy_leases s))")
  case False
  with assms(1) show ?thesis by (auto simp: tick_def case_prod_beta)
next
  case True
  let ?nr = "sh_next_run (sy_sched s)" let ?us = "mt_list_tenants (sy_targets s)"
  from assms(1,2) True obtain ls due nr1 s2 where d: "due_targets now (sy_targets s) ?nr = Inr (due, nr1)"
    and f: "foldM (\<lambda>g. run_group run jitter g now) (group_due {} due [])
        (s\<lparr>sy_leases := ls, sy_sched := (sy_sched s)\<lparr>sh_next_run := nr1\<rparr>\<rparr>) = Inr s2" and s': "sy_sched s' = sy_sched s2"
    by (auto simp: tick_def case_prod_beta Let_def)
  note due = due_tenants_spec [OF d [unfolded due_targets_def] _ assms(3)]
  have us: "set ?us = mt_tenant_id ` {t \<in> set (sy_targets s). active t}" "distinct ?us"
    by (auto simp: mt_list_tenants_def active_def)
  from foldM_run_group [OF f] assms(2) have run: "sh_in_flight (sy_sched s') = {}"
    "resets jitter now (set due) nr1 (sh_next_run (sy_sched s'))"
    using group_due_grouped [of "[]" due] s' by (simp_all add: grouped_def)
  have "map_of (sh_next_run (sy_sched s')) (mt_tenant_id t, mt_target_id t)
      = Some (if planned now ?nr (mt_tenant_id t) t \<le> now then next_time jitter now t else planned now ?nr (mt_tenant_id t) t)"
    if t: "t \<in> set (sy_targets s)" "active t" for t
  proof -
    let ?u = "mt_tenant_id t" and ?k = "(mt_tenant_id t, mt_target_id t)"
    have mem: "?u \<in> set ?us" using t us(1) by auto
    have old: "map_of nr1 ?k = Some (planned now ?nr ?u t)" using due [OF us(2)] t mem by blast
    have only: "x = t" if "(v, x) \<in> set due" "?k = (v, mt_target_id x)" for v x
    proof -
      have "x \<in> set (sy_targets s)" "mt_tenant_id x = v" using due [OF us(2)] that(1) by auto
      with t(1) that(2) assms(3) show ?thesis by (auto simp: distinct_map dest: inj_onD)
    qed
    have is_due: "(?u, t) \<in> set due \<longleftrightarrow> planned now ?nr ?u t \<le> now" using due [OF us(2)] t mem by auto
    from run(2) consider "map_of (sh_next_run (sy_sched s')) ?k = map_of nr1 ?k" "\<forall>(v, x) \<in> set due. ?k \<noteq> (v, mt_target_id x)"
      | v x where "(v, x) \<in> set due" "?k = (v, mt_target_id x)" "map_of (sh_next_run (sy_sched s')) ?k = Some (next_time jitter now x)"
      unfolding resets_def by blast
    then show ?thesis
    proof cases
      case 1
      then have "(?u, t) \<notin> set due" by auto
      with 1 old is_due show ?thesis by simp
    next
      case 2
      with only have "x = t" "v = ?u" by auto
      with 2 is_due show ?thesis by simp
    qed
  qed
  with True run(1) show ?thesis unfolding active_def planned_def by (auto split: option.split)
qed

definition demo_system :: "next_run \<Rightarrow> system" where
  "demo_system nr = \<lparr>sy_world = demo_world, sy_watermarks = [], sy_leases = [], sy_targets = [demo_target ''MT-0001''],
     sy_sched = \<lparr>sh_next_run = nr, sh_in_flight = {}\<rparr>\<rparr>"

definition failing_round :: round_fn where
  "failing_round tenant domain targets now = (\<lambda>(w, wm). (Inl (ValueError ''down''), w, wm))"

theorem tick_schedule_witness:
  "\<exists>n s'. tick failing_round (\<lambda>i. i / 10) ''a'' 30 1000 (demo_system [((''t1'', ''MT-0001''), 900)]) = Inr (n, s')
     \<and> map_of (sh_next_run (sy_sched s')) (''t1'', ''MT-0001'') = Some (1000 + 66 * 1000000)"
proof -
  let ?s = "demo_system [((''t1'', ''MT-0001''), 900)]" and ?t = "demo_target ''MT-0001''"
  have ok: "\<not> isl (tick failing_round (\<lambda>i. i / 10) ''a'' 30 1000 ?s)" "fst (lease_try_acquire ''scheduler'' ''a'' 30 1000 (sy_leases ?s))"
    "next_time (\<lambda>i. i / 10) 1000 ?t = 1000 + 66 * 1000000"
    by code_simp+
  then obtain n s' where t: "tick failing_round (\<lambda>i. i / 10) ''a'' 30 1000 ?s = Inr (n, s')"
    by (cases "tick failing_round (\<lambda>i. i / 10) ''a'' 30 1000 ?s") auto
  from tick_schedule [OF t] ok have "map_of (sh_next_run (sy_sched s')) (''t1'', ''MT-0001'') = Some (1000 + 66 * 1000000)"
    by (simp add: demo_system_def demo_target_def)
  with t show ?thesis by blast
qed

end
