(* ===== verification/Apm_Gateway.thy ===== *)
theory Apm_Gateway
  imports Apm_Targets "HOL-Library.Word"
begin

unbundle bit_operations_syntax

text \<open>
  \<open>collectors/_gateway.py\<close>: the gate every outgoing request passes. What it uses of the standard library is written
  out: \<open>urllib.parse.urlsplit\<close> as far as scheme and host name go, and \<open>ipaddress\<close> with addresses as machine words.
  Name resolution is a parameter, \<open>dns\<close>: \<open>None\<close> where \<open>getaddrinfo\<close> raises. Audit lines are not kept.
\<close>

section \<open>Characters\<close>

definition char_in :: "nat \<Rightarrow> nat \<Rightarrow> char \<Rightarrow> bool" where
  "char_in a b c = (let n = (of_char c :: nat) in a \<le> n \<and> n \<le> b)"

definition ascii_alpha :: "char \<Rightarrow> bool" where
  "ascii_alpha c = (char_in 65 90 c \<or> char_in 97 122 c)"

definition alnum :: "char \<Rightarrow> bool" where
  "alnum c = (ascii_alpha c \<or> is_digit c)"

text \<open>\<open>str.lower\<close> on characters below 256.\<close>

definition lower_char :: "char \<Rightarrow> char" where
  "lower_char c = (if char_in 65 90 c \<or> (char_in 192 222 c \<and> (of_char c :: nat) \<noteq> 215)
     then char_of ((of_char c :: nat) + 32) else c)"

definition lower :: "string \<Rightarrow> string" where
  "lower s = map lower_char s"

text \<open>\<open>s.partition(c)\<close> and \<open>s.rpartition(c)[2]\<close>\<close>

definition before :: "char \<Rightarrow> string \<Rightarrow> string" where
  "before c s = takeWhile (\<lambda>x. x \<noteq> c) s"

definition after_last :: "char \<Rightarrow> string \<Rightarrow> string" where
  "after_last c s = rev (takeWhile (\<lambda>x. x \<noteq> c) (rev s))"

section \<open>Addresses\<close>

datatype ip = V4 "32 word" | V6 "128 word"

definition parse_octet :: "string \<Rightarrow> int option" where
  "parse_octet s =
     (if s = [] \<or> \<not> list_all is_digit s \<or> 3 < length s \<or> (s \<noteq> ''0'' \<and> hd s = CHR ''0'') \<or> 255 < read_digits 0 s then None
      else Some (int (read_digits 0 s)))"

fun mapO :: "('a \<Rightarrow> 'b option) \<Rightarrow> 'a list \<Rightarrow> 'b list option" where
  "mapO f [] = Some []"
| "mapO f (x # xs) = (case f x of None \<Rightarrow> None | Some y \<Rightarrow> map_option ((#) y) (mapO f xs))"

text \<open>The digits of a number in base \<open>b\<close>, most significant first.\<close>

definition from_digits :: "int \<Rightarrow> int list \<Rightarrow> int" where
  "from_digits b ds = fold (\<lambda>d n. n * b + d) ds 0"

definition IPv4Address :: "string \<Rightarrow> 32 word option" where
  "IPv4Address s =
     (let octets = split_on (CHR ''.'') s in
      if CHR ''/'' \<in> set s \<or> length octets \<noteq> 4 then None
      else map_option (word_of_int \<circ> from_digits 256) (mapO parse_octet octets))"

definition hex_digit :: "char \<Rightarrow> int option" where
  "hex_digit c = (let n = of_char c in
     if is_digit c then Some (n - 48) else if char_in 97 102 c then Some (n - 87)
     else if char_in 65 70 c then Some (n - 55) else None)"

definition parse_hextet :: "string \<Rightarrow> int option" where
  "parse_hextet s = (if s = [] \<or> 4 < length s then None else map_option (from_digits 16) (mapO hex_digit s))"

text \<open>A part between colons: text, or one of the two hextets a dotted suffix stands for.\<close>

datatype part = Txt string | Num int

fun part_value :: "part \<Rightarrow> int option" where
  "part_value (Txt s) = parse_hextet s"
| "part_value (Num n) = Some n"

definition ipv6_parts :: "string \<Rightarrow> part list option" where
  "ipv6_parts s =
     (let ps = split_on (CHR '':'') s in
      if length ps < 3 then None
      else if CHR ''.'' \<in> set (last ps)
      then (case IPv4Address (last ps) of None \<Rightarrow> None
            | Some a \<Rightarrow> Some (map Txt (butlast ps) @ [Num (uint a div 65536), Num (uint a mod 65536)]))
      else Some (map Txt ps))"

text \<open>The indices of empty parts other than the first and last.\<close>

definition inner_empty :: "part list \<Rightarrow> nat list" where
  "inner_empty ps = filter (\<lambda>i. ps ! i = Txt []) [1 ..< length ps - 1]"

definition ipv6_hextets :: "part list \<Rightarrow> int list option" where
  "ipv6_hextets ps =
     (if 9 < length ps then None
      else case inner_empty ps of
        [] \<Rightarrow>
          if length ps \<noteq> 8 \<or> hd ps = Txt [] \<or> last ps = Txt [] then None else mapO part_value ps
      | [skip] \<Rightarrow>
          let hi = (if hd ps = Txt [] then skip - 1 else skip);
              lo0 = length ps - skip - 1; lo = (if last ps = Txt [] then lo0 - 1 else lo0) in
          if (hd ps = Txt [] \<and> hi \<noteq> 0) \<or> (last ps = Txt [] \<and> lo \<noteq> 0) \<or> 8 < hi + lo + 1 then None
          else (case (mapO part_value (take hi ps), mapO part_value (drop (length ps - lo) ps)) of
                  (Some a, Some b) \<Rightarrow> Some (a @ replicate (8 - (hi + lo)) 0 @ b)
                | _ \<Rightarrow> None)
      | _ \<Rightarrow> None)"

definition IPv6Address :: "string \<Rightarrow> 128 word option" where
  "IPv6Address s =
     (let addr = before (CHR ''%'') s; scope = after_first (CHR ''%'') s in
      if CHR ''/'' \<in> set s \<or> (CHR ''%'' \<in> set s \<and> (scope = [] \<or> CHR ''%'' \<in> set scope)) then None
      else (case ipv6_parts addr of None \<Rightarrow> None
            | Some ps \<Rightarrow> map_option (word_of_int \<circ> from_digits 65536) (ipv6_hextets ps)))"

definition ip_address :: "string \<Rightarrow> ip option" where
  "ip_address s = (case IPv4Address s of Some a \<Rightarrow> Some (V4 a) | None \<Rightarrow> map_option V6 (IPv6Address s))"

text \<open>A network: its address and the number of host bits. \<open>a in net\<close> compares the masked address.\<close>

datatype network = Net4 "32 word" nat | Net6 "128 word" nat

fun in_network :: "ip \<Rightarrow> network \<Rightarrow> bool" where
  "in_network (V4 a) (Net4 n k) = (a AND NOT (mask k) = n)"
| "in_network (V6 a) (Net6 n k) = (a AND NOT (mask k) = n)"
| "in_network _ _ = False"

definition quad :: "int \<Rightarrow> int \<Rightarrow> int \<Rightarrow> int \<Rightarrow> 32 word" where
  "quad a b c d = word_of_int (from_digits 256 [a, b, c, d])"

definition LOOPBACK_NETWORKS :: "network list" where
  "LOOPBACK_NETWORKS = [Net4 (quad 127 0 0 0) 24, Net6 1 0]"

definition BLOCKED_NETWORKS :: "network list" where
  "BLOCKED_NETWORKS = [Net4 (quad 127 0 0 0) 24, Net4 (quad 10 0 0 0) 24, Net4 (quad 172 16 0 0) 20,
     Net4 (quad 192 168 0 0) 16, Net4 (quad 169 254 0 0) 16, Net6 1 0]"

definition effective_blocked :: "bool \<Rightarrow> network list" where
  "effective_blocked allow_loopback =
     (if \<not> allow_loopback then BLOCKED_NETWORKS
      else filter (\<lambda>n. n \<notin> set LOOPBACK_NETWORKS) BLOCKED_NETWORKS)"

section \<open>URLs\<close>

definition scheme_char :: "char \<Rightarrow> bool" where
  "scheme_char c = (alnum c \<or> c \<in> {CHR ''+'', CHR ''-'', CHR ''.''})"

text \<open>The part of \<open>urlsplit\<close> that yields scheme and authority: leading blanks and controls are dropped, tabs and line
  ends removed everywhere.\<close>

definition clean_url :: "string \<Rightarrow> string" where
  "clean_url url = filter (\<lambda>c. (of_char c :: nat) \<notin> {9, 10, 13}) (dropWhile (char_in 0 32) url)"

definition split_scheme :: "string \<Rightarrow> string \<times> string" where
  "split_scheme url =
     (if CHR '':'' \<in> set url \<and> before (CHR '':'') url \<noteq> [] \<and> ascii_alpha (hd url)
         \<and> list_all scheme_char (before (CHR '':'') url)
      then (lower (before (CHR '':'') url), after_first (CHR '':'') url)
      else ([], url))"

definition netloc_of :: "string \<Rightarrow> string" where
  "netloc_of rest = (if take 2 rest = ''//'' then takeWhile (\<lambda>c. c \<notin> {CHR ''/'', CHR ''?'', CHR ''#''}) (drop 2 rest) else [])"

text \<open>\<open>_check_bracketed_host\<close>: an IPv6 address, or \<open>v\<close>, hexadecimal digits, a dot and something.\<close>

definition bracketed_ok :: "string \<Rightarrow> bool" where
  "bracketed_ok h =
     (case h of c # cs \<Rightarrow> if c = CHR ''v''
          then (let hex = takeWhile (\<lambda>x. hex_digit x \<noteq> None) cs; r = drop (length hex) cs
                in hex \<noteq> [] \<and> r \<noteq> [] \<and> hd r = CHR ''.'' \<and> length r \<ge> 2 \<and> CHR 0x0A \<notin> set r)
          else IPv4Address h = None \<and> IPv6Address h \<noteq> None
      | [] \<Rightarrow> False)"

record parsed_url =
  pu_scheme :: string
  pu_hostname :: "string option"

definition urlparse :: "string \<Rightarrow> parsed_url res" where
  "urlparse url =
     (let (scheme, rest) = split_scheme (clean_url url); netloc = netloc_of rest;
          open_br = CHR ''['' \<in> set netloc; close_br = CHR '']'' \<in> set netloc in
      if open_br \<noteq> close_br then Inl (ValueError ''Invalid IPv6 URL'')
      else if open_br \<and> \<not> bracketed_ok (before (CHR '']'') (after_first (CHR ''['') netloc))
      then Inl (ValueError ''Invalid IPv6 URL'')
      else
        let hostinfo = after_last (CHR ''@'') netloc;
            host = (if CHR ''['' \<in> set hostinfo then before (CHR '']'') (after_first (CHR ''['') hostinfo)
                    else before (CHR '':'') hostinfo) in
        Inr \<lparr>pu_scheme = scheme,
             pu_hostname = (if host = [] then None
               else Some (lower (before (CHR ''%'') host) @ drop (length (before (CHR ''%'') host)) host))\<rparr>)"

definition ALLOWED_SCHEMES :: "string list" where
  "ALLOWED_SCHEMES = [''http'', ''https'']"

type_synonym dns = "string \<Rightarrow> string list option"

definition resolve_ips :: "dns \<Rightarrow> string \<Rightarrow> string list option" where
  "resolve_ips dns host = map_option (\<lambda>infos. dedup infos {}) (dns host)"

definition check_blocked :: "bool \<Rightarrow> ip list \<Rightarrow> unit res" where
  "check_blocked allow_loopback ips =
     (if \<exists>a \<in> set ips. \<exists>n \<in> set (effective_blocked allow_loopback). in_network a n
      then Inl (AppException VALIDATION ''blocked network'') else Inr ())"

definition validate_url :: "dns \<Rightarrow> bool \<Rightarrow> string \<Rightarrow> string res" where
  "validate_url dns allow_loopback url =
     bind_res (urlparse url) (\<lambda>parsed.
       if pu_scheme parsed \<notin> set ALLOWED_SCHEMES then Inl (AppException VALIDATION ''scheme not allowed'')
       else case pu_hostname parsed of
         None \<Rightarrow> Inl (AppException VALIDATION ''missing host'')
       | Some hostname \<Rightarrow>
           bind_res
             (case ip_address hostname of
                Some a \<Rightarrow> check_blocked allow_loopback [a]
              | None \<Rightarrow>
                  (case resolve_ips dns hostname of
                     None \<Rightarrow> Inl (AppException VALIDATION ''dns resolution failed'')
                   | Some ips \<Rightarrow> check_blocked allow_loopback (List.map_filter ip_address ips)))
             (\<lambda>_. Inr url))"

section \<open>Headers and secrets\<close>

definition prefix_ci :: "string \<Rightarrow> string \<Rightarrow> bool" where
  "prefix_ci p s = (lower p = lower (take (length p) s))"

text \<open>\<open>PLAINTEXT_CRED_PATTERN\<close> at the head of a string; case is ignored. Blanks are no token characters, so the
  greedy match of \<open>Bearer\\s+[...]+\<close> needs no backtracking.\<close>

definition token_char :: "char \<Rightarrow> bool" where
  "token_char c = (alnum c \<or> c \<in> {CHR ''-'', CHR ''_'', CHR ''.''})"

definition runs :: "nat \<Rightarrow> string \<Rightarrow> bool" where
  "runs n s = (n \<le> length (takeWhile alnum s))"

definition cred_at :: "string \<Rightarrow> bool" where
  "cred_at s =
     ((prefix_ci ''bearer'' s \<and> (let r = drop 6 s; r' = dropWhile py_space r in
        r' \<noteq> r \<and> r' \<noteq> [] \<and> token_char (hd r')))
      \<or> (prefix_ci ''akia'' s \<and> runs 16 (drop 4 s)) \<or> (prefix_ci ''ghp_'' s \<and> runs 36 (drop 4 s))
      \<or> (prefix_ci ''sk-'' s \<and> runs 20 (drop 3 s)))"

fun found :: "(string \<Rightarrow> bool) \<Rightarrow> string \<Rightarrow> bool" where
  "found P [] = P []"
| "found P (c # cs) = (P (c # cs) \<or> found P cs)"

text \<open>\<open>${env:KEY}\<close> or \<open>${vault:KEY}\<close> at the head of a string: the backend, the key and what follows.\<close>

definition ref_key :: "string \<Rightarrow> (string \<times> string) option" where
  "ref_key r = (let key = before (CHR ''}'') r in
     if key = [] \<or> length key = length r then None else Some (key, drop (length key + 1) r))"

definition secret_ref :: "string \<Rightarrow> (string \<times> string \<times> string) option" where
  "secret_ref s =
     (if take 6 s = ''${env:'' then map_option (\<lambda>(k, r). (''env'', k, r)) (ref_key (drop 6 s))
      else if take 8 s = ''${vault:'' then map_option (\<lambda>(k, r). (''vault'', k, r)) (ref_key (drop 8 s))
      else None)"

definition SECRET_HEADERS :: "string list" where
  "SECRET_HEADERS = [''authorization'', ''x-api-key'']"

definition header_error :: "string \<times> pyval \<Rightarrow> error option" where
  "header_error = (\<lambda>(k, v). case v of
      PStr s \<Rightarrow>
        if found cred_at s then Some (AppException VALIDATION ''plaintext credential in header'')
        else if lower k \<in> set SECRET_HEADERS \<and> \<not> found (\<lambda>r. secret_ref r \<noteq> None) s
        then Some (AppException VALIDATION ''header must use secret reference'')
        else None
    | _ \<Rightarrow> None)"

fun validate_headers :: "pydict \<Rightarrow> unit res" where
  "validate_headers [] = Inr ()"
| "validate_headers (h # hs) = (case header_error h of Some e \<Rightarrow> Inl e | None \<Rightarrow> validate_headers hs)"

type_synonym environ = "(string \<times> string) list"

definition resolve_ref :: "environ \<Rightarrow> string \<Rightarrow> string \<Rightarrow> string" where
  "resolve_ref env backend key =
     (if backend = ''env'' then (case map_of env key of None \<Rightarrow> [] | Some v \<Rightarrow> v) else [])"

lemma secret_ref_shorter: "secret_ref s = Some (b, k, r) \<Longrightarrow> length r < length s"
  by (cases s) (auto simp: secret_ref_def ref_key_def Let_def split: if_splits)

function resolve_str :: "environ \<Rightarrow> string \<Rightarrow> string" where
  "resolve_str env s =
     (case s of [] \<Rightarrow> []
      | c # cs \<Rightarrow> (case secret_ref s of
            Some (backend, key, r) \<Rightarrow> resolve_ref env backend key @ resolve_str env r
          | None \<Rightarrow> c # resolve_str env cs))"
  by auto
termination by (relation "measure (length \<circ> snd)") (auto dest: secret_ref_shorter)

declare resolve_str.simps [simp del]

definition resolve_secret :: "environ \<Rightarrow> pyval \<Rightarrow> pyval" where
  "resolve_secret env ref = (case ref of PStr s \<Rightarrow> PStr (resolve_str env s) | v \<Rightarrow> v)"

section \<open>What passes\<close>

text \<open>The networks of the list, read off the octets of an address.\<close>

definition octet :: "nat \<Rightarrow> 32 word \<Rightarrow> int" where
  "octet i a = uint a div 256 ^ (3 - i) mod 256"

fun loopback :: "ip \<Rightarrow> bool" where
  "loopback (V4 a) \<longleftrightarrow> octet 0 a = 127"
| "loopback (V6 a) \<longleftrightarrow> a = 1"

fun internal :: "ip \<Rightarrow> bool" where
  "internal (V4 a) \<longleftrightarrow> octet 0 a = 10 \<or> (octet 0 a = 172 \<and> 16 \<le> octet 1 a \<and> octet 1 a \<le> 31)
     \<or> (octet 0 a = 192 \<and> octet 1 a = 168) \<or> (octet 0 a = 169 \<and> octet 1 a = 254)"
| "internal (V6 a) \<longleftrightarrow> False"

lemma and_not_mask: "a AND NOT (mask k) = push_bit k (drop_bit k a)" for a :: "'a::len word"
  by (auto intro!: bit_word_eqI simp: bit_simps)

lemma uint_and_not_mask: "uint (a AND NOT (mask k)) = uint a div 2 ^ k * 2 ^ k" for a :: "'a::len word"
proof -
  have "uint (drop_bit k a) = uint a div 2 ^ k"
    unfolding unsigned_drop_bit_eq by (simp add: drop_bit_eq_div take_bit_int_eq_self)
  then have "uint (push_bit k (drop_bit k a)) = take_bit LENGTH('a) (uint a div 2 ^ k * 2 ^ k)"
    unfolding unsigned_push_bit_eq by (simp add: push_bit_eq_mult)
  moreover have "uint a div 2 ^ k * 2 ^ k \<le> uint a" "0 \<le> uint a div 2 ^ k * 2 ^ k"
    using pos_mod_sign [of "2 ^ k" "uint a"] by (simp_all add: minus_mod_eq_div_mult [symmetric] pos_imp_zdiv_nonneg_iff zmod_le_nonneg_dividend)
  moreover have "uint a < 2 ^ LENGTH('a)" by (rule unsigned_less)
  ultimately show ?thesis by (simp add: and_not_mask take_bit_int_eq_self [OF _ le_less_trans])
qed

lemma in_block: "uint n = m * 2 ^ k \<Longrightarrow> a AND NOT (mask k) = n \<longleftrightarrow> uint a div 2 ^ k = m" for a n :: "'a::len word"
  by (subst word_uint_eq_iff) (simp add: uint_and_not_mask)

lemma uint_quad:
  assumes "0 \<le> a" "a < 256" "0 \<le> b" "b < 256"
  shows "uint (quad a b 0 0) = (a * 256 + b) * 2 ^ 16"
proof -
  have "(a * 256 + b) * 2 ^ 16 < 2 ^ 32" using assms by simp
  then show ?thesis using assms unfolding quad_def uint_word_of_int_eq by (simp add: from_digits_def take_bit_int_eq_self)
qed

lemma octets_div: "octet 0 a = uint a div 2 ^ 24" "octet 1 a = uint a div 2 ^ 16 mod 256"
proof -
  have "uint a < 256 * 2 ^ 24" using unsigned_less [of a] by simp
  then have "uint a div 2 ^ 24 < 256" "0 \<le> uint a div 2 ^ 24"
    by (simp_all add: div_less_iff_less_mult pos_imp_zdiv_nonneg_iff)
  then show "octet 0 a = uint a div 2 ^ 24" by (simp add: octet_def)
  show "octet 1 a = uint a div 2 ^ 16 mod 256" by (simp add: octet_def)
qed

lemma div_16_24: "n div 2 ^ 24 = n div 2 ^ 16 div 256" "n div 2 ^ 20 = n div 2 ^ 16 div 16" for n :: int
  by (simp_all flip: zdiv_zmult2_eq)

lemma pair_of_16: "x div 256 = p \<and> x mod 256 = q \<longleftrightarrow> x = p * 256 + q" if "0 \<le> q" "q < 256" for x p q :: int
  using that div_mult_mod_eq [of x 256] by auto

lemma twelve_bits: "x div 16 = 2753 \<longleftrightarrow> x div 256 = 172 \<and> 16 \<le> x mod 256 \<and> x mod 256 \<le> 31" for x :: int
proof -
  have x: "x = 256 * (x div 256) + x mod 256" and m: "x mod 256 < 256" "0 \<le> x mod 256" by simp_all
  have "(16 * (16 * p) + q) div 16 = 16 * p + q div 16" for p q :: int by (subst div_mult_self4) simp_all
  from this [of "x div 256" "x mod 256"] x have e: "x div 16 = 16 * (x div 256) + x mod 256 div 16" by simp
  have b: "0 \<le> x mod 256 div 16" "x mod 256 div 16 < 16" "x mod 256 div 16 = 1 \<longleftrightarrow> 16 \<le> x mod 256 \<and> x mod 256 \<le> 31"
    using m by auto
  have "16 * p + q = 2753 \<longleftrightarrow> p = 172 \<and> q = 1" if "0 \<le> q" "q < 16" for p q :: int using that by presburger
  from this [OF b(1,2), of "x div 256"] e b(3) show ?thesis by simp
qed

lemma blocked_v4:
  "0 \<le> p \<Longrightarrow> p < 256 \<Longrightarrow> in_network (V4 a) (Net4 (quad p 0 0 0) 24) \<longleftrightarrow> octet 0 a = p"
  "0 \<le> p \<Longrightarrow> p < 256 \<Longrightarrow> 0 \<le> q \<Longrightarrow> q < 256 \<Longrightarrow> in_network (V4 a) (Net4 (quad p q 0 0) 16) \<longleftrightarrow> octet 0 a = p \<and> octet 1 a = q"
  "in_network (V4 a) (Net4 (quad 172 16 0 0) 20) \<longleftrightarrow> octet 0 a = 172 \<and> 16 \<le> octet 1 a \<and> octet 1 a \<le> 31"
proof -
  show "in_network (V4 a) (Net4 (quad p 0 0 0) 24) \<longleftrightarrow> octet 0 a = p" if "0 \<le> p" "p < 256"
    using in_block [of "quad p 0 0 0" p 24 a] uint_quad [of p 0] that by (simp add: octets_div)
  show "in_network (V4 a) (Net4 (quad p q 0 0) 16) \<longleftrightarrow> octet 0 a = p \<and> octet 1 a = q" if "0 \<le> p" "p < 256" "0 \<le> q" "q < 256"
    using in_block [of "quad p q 0 0" "p * 256 + q" 16 a] uint_quad [of p q] that pair_of_16 [of q "uint a div 2 ^ 16" p]
    unfolding octets_div div_16_24 by simp
  show "in_network (V4 a) (Net4 (quad 172 16 0 0) 20) \<longleftrightarrow> octet 0 a = 172 \<and> 16 \<le> octet 1 a \<and> octet 1 a \<le> 31"
    using in_block [of "quad 172 16 0 0" 2753 20 a] uint_quad [of 172 16] twelve_bits [of "uint a div 2 ^ 16"]
    unfolding octets_div div_16_24 by simp
qed

lemma effective_blocked_list:
  "effective_blocked False = [Net4 (quad 127 0 0 0) 24, Net4 (quad 10 0 0 0) 24, Net4 (quad 172 16 0 0) 20,
     Net4 (quad 192 168 0 0) 16, Net4 (quad 169 254 0 0) 16, Net6 1 0]"
  "effective_blocked True = [Net4 (quad 10 0 0 0) 24, Net4 (quad 172 16 0 0) 20,
     Net4 (quad 192 168 0 0) 16, Net4 (quad 169 254 0 0) 16]"
  by code_simp+

lemma blocked_iff:
  "(\<exists>n \<in> set (effective_blocked allow). in_network a n) \<longleftrightarrow> internal a \<or> (\<not> allow \<and> loopback a)"
proof (cases a)
  case (V4 w)
  have "in_network (V4 w) (Net6 1 0) = False" by simp
  with V4 show ?thesis
    by (cases allow) (simp_all only: effective_blocked_list blocked_v4 list.set bex_simps internal.simps loopback.simps, auto)
next
  case (V6 w)
  then show ?thesis by (cases allow) (simp_all add: effective_blocked_list)
qed

text \<open>The addresses a host name stands for: itself, or what it resolves to.\<close>

definition addresses :: "dns \<Rightarrow> string \<Rightarrow> ip list" where
  "addresses dns host = (case ip_address host of Some a \<Rightarrow> [a]
     | None \<Rightarrow> (case dns host of None \<Rightarrow> [] | Some ss \<Rightarrow> List.map_filter ip_address ss))"

lemma check_blocked_Inr: "check_blocked allow ips = Inr u \<longleftrightarrow> (\<forall>a \<in> set ips. \<not> internal a \<and> (loopback a \<longrightarrow> allow))"
  using blocked_iff by (auto simp: check_blocked_def)

lemma set_map_filter: "set (List.map_filter f xs) = {y. \<exists>x \<in> set xs. f x = Some y}"
  by (induction xs) (auto simp: List.map_filter_def)

text \<open>C40. The outbound gate. A URL passes, unchanged, exactly when it parses to scheme \<open>http\<close> or \<open>https\<close> with a host that is an
  address or resolves, and no address of that host is in 10.0.0.0/8, 172.16.0.0/12, 192.168.0.0/16 or 169.254.0.0/16 (told by
  its octets), nor, unless loopback is allowed, in 127.0.0.0/8 or \<open>::1\<close>. In particular a name that does not resolve
  is refused.\<close>

theorem validate_url_exact:
  "validate_url dns allow url = Inr out \<longleftrightarrow> out = url \<and> (\<exists>parsed host. urlparse url = Inr parsed
     \<and> pu_scheme parsed \<in> {''http'', ''https''} \<and> pu_hostname parsed = Some host
     \<and> (ip_address host = None \<longrightarrow> dns host \<noteq> None)
     \<and> (\<forall>a \<in> set (addresses dns host). \<not> internal a \<and> (loopback a \<longrightarrow> allow)))"
proof (cases "urlparse url")
  case (Inr parsed)
  show ?thesis
  proof (cases "pu_scheme parsed \<in> set ALLOWED_SCHEMES \<and> pu_hostname parsed \<noteq> None")
    case True
    then obtain host where host: "pu_hostname parsed = Some host" by auto
    have addrs: "set (List.map_filter ip_address (dedup ss {})) = set (List.map_filter ip_address ss)" for ss
      by (simp add: set_map_filter set_dedup)
    show ?thesis
      using Inr True host by (cases "ip_address host"; cases "dns host")
        (auto simp: validate_url_def check_blocked_Inr addresses_def resolve_ips_def addrs ALLOWED_SCHEMES_def)
  next
    case False
    with Inr show ?thesis by (auto simp: validate_url_def ALLOWED_SCHEMES_def split: option.splits)
  qed
qed (simp add: validate_url_def)

theorem validate_url_exact_witness:
  "validate_url (\<lambda>h. Some [''93.184.216.34'']) False ''https://example.org:8443/api'' = Inr ''https://example.org:8443/api''
   \<and> (\<forall>out. validate_url (\<lambda>h. Some [''93.184.216.34'', ''10.1.2.3'']) False ''https://example.org/'' \<noteq> Inr out)"
proof
  let ?u = "''https://example.org:8443/api''" and ?d = "\<lambda>h :: string. Some [''93.184.216.34'']"
  have "\<exists>parsed host. urlparse ?u = Inr parsed \<and> pu_scheme parsed \<in> {''http'', ''https''} \<and> pu_hostname parsed = Some host
     \<and> (ip_address host = None \<longrightarrow> ?d host \<noteq> None) \<and> (\<forall>a \<in> set (addresses ?d host). \<not> internal a \<and> (loopback a \<longrightarrow> False))"
    by (intro exI [of _ "\<lparr>pu_scheme = ''https'', pu_hostname = Some ''example.org''\<rparr>"] exI [of _ "''example.org''"]) code_simp
  then show "validate_url ?d False ?u = Inr ?u" using validate_url_exact [of ?d False ?u ?u] by blast
  let ?v = "''https://example.org/''" and ?e = "\<lambda>h :: string. Some [''93.184.216.34'', ''10.1.2.3'']"
  have p: "urlparse ?v = Inr \<lparr>pu_scheme = ''https'', pu_hostname = Some ''example.org''\<rparr>" "V4 (quad 10 1 2 3) \<in> set (addresses ?e ''example.org'')"
    "internal (V4 (quad 10 1 2 3))" by code_simp+
  show "\<forall>out. validate_url ?e False ?v \<noteq> Inr out"
  proof (intro allI notI)
    fix out assume "validate_url ?e False ?v = Inr out"
    then obtain parsed host where h: "urlparse ?v = Inr parsed" "pu_hostname parsed = Some host"
      "\<forall>a \<in> set (addresses ?e host). \<not> internal a" using validate_url_exact [of ?e False ?v out] by blast
    have "host = ''example.org''" using h(1,2) p(1) by auto
    with h(3) p(2,3) show False by blast
  qed
qed

text \<open>The list of networks leaves gaps: the cloud metadata address written as an IPv4-mapped IPv6 address, the
  unspecified address 0.0.0.0, which reaches the local host, and the private IPv6 ranges pass the gate.\<close>

theorem gateway_gaps:
  "validate_url dns False ''http://[::ffff:169.254.169.254]/latest/meta-data/'' = Inr ''http://[::ffff:169.254.169.254]/latest/meta-data/''
   \<and> validate_url dns False ''http://0.0.0.0:8080/'' = Inr ''http://0.0.0.0:8080/''
   \<and> validate_url dns False ''http://[fd00::1]/'' = Inr ''http://[fd00::1]/''
   \<and> validate_url dns False ''http://[fe80::1]/'' = Inr ''http://[fe80::1]/''"
  by (intro conjI; code_simp)

section \<open>Secrets\<close>

lemma resolve_str_plain: "\<not> found (\<lambda>r. secret_ref r \<noteq> None) s \<Longrightarrow> resolve_str env s = s"
  by (induction s) (subst resolve_str.simps, simp split: option.split)+

text \<open>Text without a reference is left alone, a reference is replaced by the variable's value.\<close>

lemma resolve_str_ref:
  "s \<noteq> [] \<Longrightarrow> secret_ref s = Some (''env'', k, r) \<Longrightarrow> map_of env k = Some v \<Longrightarrow> resolve_str env s = v @ resolve_str env r"
  by (cases s; subst resolve_str.simps) (simp_all add: resolve_ref_def)

end
