(* ===== verification/Apm_Http.thy ===== *)
theory Apm_Http
  imports Apm_Pipeline Apm_Gateway
begin

text \<open>
  What the request handlers of \<open>router/\<close> share. A handler is an action: it starts from the stores and the requests sent so
  far, and ends with a result or an exception and the stores and requests as they are then; what was written before an
  exception stays written. The remote services are a parameter that answers a request in the light of the requests before it.
  Reasons of exceptions are abbreviated; the clock is read once per handler.
\<close>

section \<open>Actions\<close>

record http_request =
  rq_method :: string
  rq_url :: string
  rq_json :: pydict
  rq_tenant :: "string option"

text \<open>\<open>httpx\<close> raises a timeout or another transport error; the shared client raises on a body beyond its limit. A response
  has its status, its text, and the JSON value of the text if it is JSON.\<close>

datatype http_response = TimeoutError string | HttpError string | TooLarge | Response int string "pyval option"

record api =
  ap_world :: world
  ap_log :: "http_request list"

type_synonym 'a act = "api \<Rightarrow> 'a res \<times> api"

definition ret :: "'a \<Rightarrow> 'a act" where
  "ret x = (\<lambda>s. (Inr x, s))"

definition raise :: "error \<Rightarrow> 'a act" where
  "raise e = (\<lambda>s. (Inl e, s))"

definition andthen :: "'a act \<Rightarrow> ('a \<Rightarrow> 'b act) \<Rightarrow> 'b act" where
  "andthen m f = (\<lambda>s. case m s of (Inl e, s') \<Rightarrow> (Inl e, s') | (Inr x, s') \<Rightarrow> f x s')"

definition app_error :: "error_code \<Rightarrow> string \<Rightarrow> 'a act" where
  "app_error code reason = raise (AppException code reason)"

text \<open>\<open>if cond: raise ...\<close>\<close>

definition refuse :: "bool \<Rightarrow> error_code \<Rightarrow> string \<Rightarrow> 'a act \<Rightarrow> 'a act" where
  "refuse cond code reason m = (if cond then app_error code reason else m)"

definition lift_res :: "'a res \<Rightarrow> 'a act" where
  "lift_res r = (\<lambda>s. (r, s))"

definition ask :: "(world \<Rightarrow> 'a res) \<Rightarrow> 'a act" where
  "ask f = (\<lambda>s. (f (ap_world s), s))"

definition on_records :: "(records \<Rightarrow> ('a \<times> records) res) \<Rightarrow> 'a act" where
  "on_records f = (\<lambda>s. case f (wd_records (ap_world s)) of
     Inl e \<Rightarrow> (Inl e, s)
   | Inr (x, rows) \<Rightarrow> (Inr x, s\<lparr>ap_world := (ap_world s)\<lparr>wd_records := rows\<rparr>\<rparr>))"

definition on_dynamic :: "(dyn_config \<Rightarrow> dyn_config res) \<Rightarrow> unit act" where
  "on_dynamic f = (\<lambda>s. case f (wd_dynamic (ap_world s)) of
     Inl e \<Rightarrow> (Inl e, s) | Inr dc \<Rightarrow> (Inr (), s\<lparr>ap_world := (ap_world s)\<lparr>wd_dynamic := dc\<rparr>\<rparr>))"

definition ticket_number :: "time \<Rightarrow> string act" where
  "ticket_number now = (\<lambda>s. let (n, sq) = next_ticket_number now (wd_sequences (ap_world s))
     in (Inr n, s\<lparr>ap_world := (ap_world s)\<lparr>wd_sequences := sq\<rparr>\<rparr>))"

section \<open>The outbound client\<close>

record env =
  en_bug_solve_base_url :: string
  en_diagnose_base_url :: string
  en_agentflow_tenant :: string
  en_diagnose_repo :: string
  en_dns :: dns
  en_allow_loopback :: bool
  en_remote :: "http_request list \<Rightarrow> http_request \<Rightarrow> http_response"
  en_now :: time

definition send :: "env \<Rightarrow> http_request \<Rightarrow> http_response act" where
  "send en rq = (\<lambda>s.
     (case en_remote en (ap_log s) rq of TooLarge \<Rightarrow> Inl (AppException VALIDATION ''response too large'') | r \<Rightarrow> Inr r,
      s\<lparr>ap_log := ap_log s @ [rq]\<rparr>))"

definition guarded_send :: "env \<Rightarrow> http_request \<Rightarrow> http_response act" where
  "guarded_send en rq =
     andthen (lift_res (validate_url (en_dns en) (en_allow_loopback en) (rq_url rq))) (\<lambda>_. send en rq)"

definition rstrip_slash :: "string \<Rightarrow> string" where
  "rstrip_slash s = rev (dropWhile (\<lambda>c. c = CHR ''/'') (rev s))"

definition post :: "env \<Rightarrow> string \<Rightarrow> pydict \<Rightarrow> string option \<Rightarrow> http_response act" where
  "post en url json tenant = guarded_send en \<lparr>rq_method = ''POST'', rq_url = url, rq_json = json, rq_tenant = tenant\<rparr>"

definition http_get :: "env \<Rightarrow> string \<Rightarrow> string option \<Rightarrow> http_response act" where
  "http_get en url tenant = guarded_send en \<lparr>rq_method = ''GET'', rq_url = url, rq_json = [], rq_tenant = tenant\<rparr>"

text \<open>\<open>settings.agentflow_tenant or tenant\<close>\<close>

definition agentflow_tenant :: "env \<Rightarrow> string \<Rightarrow> string" where
  "agentflow_tenant en tenant = (if en_agentflow_tenant en = [] then tenant else en_agentflow_tenant en)"

section \<open>Values\<close>

definition py_or :: "pyval \<Rightarrow> pyval \<Rightarrow> pyval" where
  "py_or a b = (if truthy a then a else b)"

text \<open>\<open>str(v or "")\<close>\<close>

definition str_or :: "pyval \<Rightarrow> string" where
  "str_or v = (if truthy v then py_str v else [])"

definition is_type :: "string \<Rightarrow> pydict \<Rightarrow> bool" where
  "is_type ty e = (py_get e ''type'' = PStr ty)"

text \<open>\<open>str((resp.json() or {}).get(k) or "")\<close>; \<open>None\<close> where decoding raises or the value is no object.\<close>

definition body_field :: "http_response \<Rightarrow> string \<Rightarrow> string option" where
  "body_field resp k = (case resp of Response st tx (Some v) \<Rightarrow>
      (if \<not> truthy v then Some [] else case v of PDict d \<Rightarrow> Some (str_or (py_get d k)) | _ \<Rightarrow> None)
    | _ \<Rightarrow> None)"

definition body_object :: "http_response \<Rightarrow> pydict option" where
  "body_object resp = (case resp of Response st tx (Some (PDict d)) \<Rightarrow> Some d | _ \<Rightarrow> None)"

text \<open>\<open>resp.json() or {}\<close>, used with \<open>.get\<close> afterwards: a falsy value is the empty object, another value that is no
  object makes \<open>.get\<close> raise.\<close>

definition body_or_empty :: "http_response \<Rightarrow> pyval option" where
  "body_or_empty resp = (case resp of Response st tx (Some v) \<Rightarrow> Some (if truthy v then v else PDict []) | _ \<Rightarrow> None)"

definition ok_status :: "http_response \<Rightarrow> bool" where
  "ok_status resp = (case resp of Response st tx b \<Rightarrow> st < 300 | _ \<Rightarrow> False)"

section \<open>Reading from agentflow (\<open>diagnosis/from_agentflow.py\<close>)\<close>

definition af_get :: "env \<Rightarrow> string \<Rightarrow> string \<Rightarrow> http_response option act" where
  "af_get en path tenant =
     andthen (http_get en (rstrip_slash (en_bug_solve_base_url en) @ path) (Some (agentflow_tenant en tenant)))
       (\<lambda>resp. ret (if ok_status resp then Some resp else None))"

definition fetch_run :: "env \<Rightarrow> string \<Rightarrow> string \<Rightarrow> pydict option act" where
  "fetch_run en tenant run_id =
     andthen (af_get en (''/runs/'' @ run_id) tenant)
       (\<lambda>r. ret (case r of None \<Rightarrow> None | Some resp \<Rightarrow> body_object resp))"

definition objects :: "pyval list \<Rightarrow> pydict list" where
  "objects xs = List.map_filter (\<lambda>v. case v of PDict d \<Rightarrow> Some d | _ \<Rightarrow> None) xs"

definition fetch_traces :: "env \<Rightarrow> string \<Rightarrow> string \<Rightarrow> pydict list act" where
  "fetch_traces en tenant run_id =
     andthen (af_get en (''/runs/'' @ run_id @ ''/traces?limit=200'') tenant)
       (\<lambda>r. ret (case r of Some (Response st tx (Some (PList xs))) \<Rightarrow> objects xs | _ \<Rightarrow> []))"

definition fetch_workflows :: "env \<Rightarrow> string \<Rightarrow> pydict list option act" where
  "fetch_workflows en tenant =
     andthen (af_get en ''/workflows'' tenant)
       (\<lambda>r. ret (case r of
            Some (Response st tx (Some v)) \<Rightarrow>
              (case (case v of PDict d \<Rightarrow> py_get d ''items'' | _ \<Rightarrow> v) of PList xs \<Rightarrow> Some (objects xs) | _ \<Rightarrow> None)
          | _ \<Rightarrow> None))"

end
