(* ===== verification/Apm_Diagnosis.thy ===== *)
theory Apm_Diagnosis
  imports Apm_Http
begin

text \<open>
  The package \<open>diagnosis/\<close>: the view of a diagnosis that the user interface shows, built from a run of the agentflow engine
  (\<open>from_agentflow.py\<close>) or from a session of the older diagnosis service (\<open>from_spike.py\<close>), both in the shape of
  \<open>viewmodel.py\<close>. What the services send is any JSON value; a value of an unexpected type takes the branch the
  source gives it, or raises. Labels that are not ASCII in the source are rendered in English.
\<close>

section \<open>Values\<close>

text \<open>\<open>for x in (v or []):\<close> iterates over lists, characters of strings and keys of objects.\<close>

definition iter_or :: "pyval \<Rightarrow> pyval list res" where
  "iter_or v = (if \<not> truthy v then Inr [] else case v of
       PList xs \<Rightarrow> Inr xs | PStr s \<Rightarrow> Inr (map (\<lambda>c. PStr [c]) s) | PDict d \<Rightarrow> Inr (map (\<lambda>e. PStr (fst e)) d)
     | _ \<Rightarrow> Inl (TypeError ''object is not iterable''))"

definition as_dict :: "pyval \<Rightarrow> pydict" where
  "as_dict v = (case v of PDict d \<Rightarrow> d | _ \<Rightarrow> [])"

definition get_str :: "pydict \<Rightarrow> string \<Rightarrow> string" where
  "get_str d k = str_or (py_get d k)"

text \<open>\<open>float(v)\<close>: the decimal notation with underscores between digits, \<open>inf\<close>, \<open>infinity\<close> and \<open>nan\<close>.\<close>

datatype pyfloat = Finite rat | PosInf | NegInf | NaN

definition digitpart :: "string \<Rightarrow> string option" where
  "digitpart s = (let ps = split_on (CHR ''_'') s in
     if list_all (\<lambda>p. p \<noteq> [] \<and> list_all is_digit p) ps then Some (concat ps) else None)"

definition split_sign :: "string \<Rightarrow> bool \<times> string" where
  "split_sign s = (case s of c # r \<Rightarrow> if c = CHR ''-'' then (True, r) else if c = CHR ''+'' then (False, r) else (False, s)
     | [] \<Rightarrow> (False, []))"

definition digits_value :: "string \<Rightarrow> int" where
  "digits_value s = from_digits 10 (map (\<lambda>c. of_char c - 48) s)"

text \<open>The digits before and after the point; one of the two may be missing.\<close>

definition mantissa :: "string \<Rightarrow> (string \<times> string) option" where
  "mantissa s = (case split_on (CHR ''.'') s of
       [i] \<Rightarrow> map_option (\<lambda>a. (a, [])) (digitpart i)
     | [i, f] \<Rightarrow> if i = [] \<and> f = [] then None
         else if i = [] then map_option (\<lambda>b. ([], b)) (digitpart f)
         else if f = [] then map_option (\<lambda>a. (a, [])) (digitpart i)
         else (case (digitpart i, digitpart f) of (Some a, Some b) \<Rightarrow> Some (a, b) | _ \<Rightarrow> None)
     | _ \<Rightarrow> None)"

definition exponent_part :: "string \<Rightarrow> int option" where
  "exponent_part s = (let (neg, r) = split_sign s in
     map_option (\<lambda>ds. if neg then - digits_value ds else digits_value ds) (digitpart r))"

definition decimal :: "string \<Rightarrow> rat option" where
  "decimal s = (case split_on (CHR ''e'') s of
       [m] \<Rightarrow> map_option (\<lambda>(a, b). of_int (digits_value (a @ b)) * pow10 (- int (length b))) (mantissa m)
     | [m, x] \<Rightarrow> (case (mantissa m, exponent_part x) of
           (Some (a, b), Some e) \<Rightarrow> Some (of_int (digits_value (a @ b)) * pow10 (e - int (length b))) | _ \<Rightarrow> None)
     | _ \<Rightarrow> None)"

definition float_of_str :: "string \<Rightarrow> pyfloat option" where
  "float_of_str s0 = (let (neg, s) = split_sign (lower (strip s0)) in
     if s = ''inf'' \<or> s = ''infinity'' then Some (if neg then NegInf else PosInf)
     else if s = ''nan'' then Some NaN
     else map_option (\<lambda>r. Finite (fl (if neg then - r else r))) (decimal s))"

definition py_float :: "pyval \<Rightarrow> pyfloat option" where
  "py_float v = (case v of PBool b \<Rightarrow> Some (Finite (if b then 1 else 0)) | PInt i \<Rightarrow> Some (Finite (fl (of_int i)))
     | PFloat r \<Rightarrow> Some (Finite r) | PStr s \<Rightarrow> float_of_str s | _ \<Rightarrow> None)"

definition float_ge :: "pyfloat \<Rightarrow> rat \<Rightarrow> bool" where
  "float_ge x c = (case x of Finite r \<Rightarrow> c \<le> r | PosInf \<Rightarrow> True | NegInf \<Rightarrow> False | NaN \<Rightarrow> False)"

section \<open>The shared shape\<close>

definition STATUS_ANALYZING :: string where "STATUS_ANALYZING = ''analyzing''"
definition STATUS_COMPLETED :: string where "STATUS_COMPLETED = ''completed''"
definition STATUS_FAILED :: string where "STATUS_FAILED = ''failed''"
definition STATUS_APPROVED :: string where "STATUS_APPROVED = ''approved''"
definition STATUS_CLOSED_MANUAL :: string where "STATUS_CLOSED_MANUAL = ''closed_manual''"
definition STATUS_DISMISSED :: string where "STATUS_DISMISSED = ''dismissed''"

definition AGENTFLOW_STATUS :: "(string \<times> string) list" where
  "AGENTFLOW_STATUS = [(''queued'', STATUS_ANALYZING), (''running'', STATUS_ANALYZING), (''paused'', STATUS_ANALYZING),
     (''waiting_approval'', STATUS_COMPLETED), (''success'', STATUS_COMPLETED), (''failed'', STATUS_FAILED),
     (''cancelled'', STATUS_CLOSED_MANUAL)]"

definition lookup_or :: "(string \<times> string) list \<Rightarrow> string \<Rightarrow> string \<Rightarrow> string" where
  "lookup_or d k x = (case map_of d k of None \<Rightarrow> x | Some v \<Rightarrow> v)"

definition agentflow_status :: "pyval \<Rightarrow> string res" where
  "agentflow_status v = (if \<not> truthy v then Inr (lookup_or AGENTFLOW_STATUS [] STATUS_ANALYZING)
     else case v of PStr s \<Rightarrow> Inr (lookup_or AGENTFLOW_STATUS (strip s) STATUS_ANALYZING) | _ \<Rightarrow> Inl (AttributeError ''strip''))"

record approval =
  av_available :: bool
  av_state :: string
  av_node_id :: string
  av_approver :: string
  av_comment :: string

record viewmodel =
  vm_engine :: string
  vm_status :: string
  vm_ref :: string
  vm_ref_kind :: string
  vm_session_id :: string
  vm_trigger :: string
  vm_created_at :: pyval
  vm_updated_at :: pyval
  vm_issue_title :: string
  vm_error :: pyval
  vm_conclusion :: "pydict option"
  vm_tasks :: "pydict list"
  vm_tool_calls :: "pydict list"
  vm_approval :: approval
  vm_executions :: "pydict list"

definition no_approval :: approval where
  "no_approval = \<lparr>av_available = False, av_state = ''none'', av_node_id = [], av_approver = [], av_comment = []\<rparr>"

definition empty_viewmodel :: "string \<Rightarrow> string \<Rightarrow> viewmodel" where
  "empty_viewmodel engine issue_title =
     \<lparr>vm_engine = engine, vm_status = STATUS_ANALYZING, vm_ref = [],
      vm_ref_kind = (if engine = ''agentflow'' then ''run'' else ''session''), vm_session_id = [], vm_trigger = [],
      vm_created_at = PNone, vm_updated_at = PNone, vm_issue_title = issue_title, vm_error = PNone, vm_conclusion = None,
      vm_tasks = [], vm_tool_calls = [], vm_approval = no_approval, vm_executions = []\<rparr>"

section \<open>From a run of agentflow\<close>

definition NODE_RCA :: string where "NODE_RCA = ''rca''"
definition NODE_PLAN :: string where "NODE_PLAN = ''plan''"
definition NODE_APPROVAL :: string where "NODE_APPROVAL = ''diagnose-output''"
definition MAX_TOOL_CALLS :: nat where "MAX_TOOL_CALLS = 200"
definition UNNAMED :: string where "UNNAMED = ''(unnamed plan)''"

definition iso_value :: "pyval \<Rightarrow> pyval" where
  "iso_value v = (case v of PNone \<Rightarrow> PNone | PTime t \<Rightarrow> PStr (iso_time (CHR ''T'') t) | _ \<Rightarrow> PStr (py_str v))"

definition confidence_chip :: "pyval \<Rightarrow> string" where
  "confidence_chip v =
     (let low = (case v of PStr s \<Rightarrow> lower (strip s) | _ \<Rightarrow> []) in
      if low \<in> {''high'', ''medium'', ''low''} then low
      else case py_float v of None \<Rightarrow> ''medium''
        | Some num \<Rightarrow> if float_ge num (fl (8 / 10)) then ''high'' else if float_ge num (1 / 2) then ''medium'' else ''low'')"

definition confidence_score :: "pyval \<Rightarrow> int option" where
  "confidence_score v = (case v of PBool b \<Rightarrow> None | _ \<Rightarrow>
     (case py_float v of
        Some (Finite num) \<Rightarrow>
          let num = (if 0 \<le> num \<and> num \<le> 1 then fl (num * 100) else num) in
          if \<not> (0 \<le> num \<and> num \<le> 100) then None else Some (round_even num)
      | _ \<Rightarrow> None))"

definition node_output :: "pydict \<Rightarrow> string \<Rightarrow> pydict" where
  "node_output run node_id = (case py_get run ''nodes'' of
      PDict nodes \<Rightarrow> (case py_get nodes node_id of PDict node \<Rightarrow> as_dict (py_get node ''output'') | _ \<Rightarrow> [])
    | _ \<Rightarrow> [])"

definition plan_payload :: "pydict \<Rightarrow> pydict" where
  "plan_payload plan_out = (case py_get plan_out ''plan'' of PDict d \<Rightarrow> d | _ \<Rightarrow> plan_out)"

definition primary_root_cause :: "pydict \<Rightarrow> string res" where
  "primary_root_cause rca = bind_res (iter_or (py_get rca ''hypotheses'')) (\<lambda>hs.
     case filter (\<lambda>h. h \<noteq> []) (map (\<lambda>h. strip (py_str h)) hs) of
       h # _ \<Rightarrow> Inr h | [] \<Rightarrow> Inr (strip (get_str rca ''root_cause_type'')))"

definition map_step :: "pydict \<Rightarrow> pyval" where
  "map_step step = PDict [(''action'', PStr (get_str step ''action'')), (''target'', PStr (get_str step ''target'')),
     (''type'', PStr (get_str step ''type'')), (''risk'', PStr (get_str step ''risk'')),
     (''phase'', PStr (get_str step ''phase'')), (''scope'', PStr (get_str step ''scope'')),
     (''change'', PStr (get_str step ''change'')),
     (''expected_effect'', PStr (str_or (py_or (py_get step ''expected'') (py_get step ''expected_effect'')))),
     (''verification'', PStr (get_str step ''verification'')), (''rollback'', PStr (get_str step ''rollback'')),
     (''requires_approval'', PBool (truthy (py_get step ''requires_approval''))), (''suggested_diff'', PStr [])]"

definition map_steps :: "pyval \<Rightarrow> pyval list res" where
  "map_steps v = bind_res (iter_or v) (\<lambda>xs. Inr (map map_step (objects xs)))"

text \<open>The non-blank texts of a list.\<close>

definition texts :: "pyval \<Rightarrow> string list res" where
  "texts v = bind_res (iter_or v) (\<lambda>xs. Inr (filter (\<lambda>s. strip s \<noteq> []) (map py_str xs)))"

definition reason_of :: "pydict \<Rightarrow> string list \<Rightarrow> string list \<Rightarrow> string" where
  "reason_of opt pros cons = join '' '' (filter (\<lambda>p. p \<noteq> []) ([strip (get_str opt ''description'')]
     @ (if pros \<noteq> [] then [''pros: '' @ join ''; '' pros] else []) @ (if cons \<noteq> [] then [''cons: '' @ join ''; '' cons] else [])))"

definition map_option_entry :: "bool \<Rightarrow> pydict \<Rightarrow> pyval list \<Rightarrow> pydict \<Rightarrow> pydict res" where
  "map_option_entry multi decision steps opt =
     (let question = strip (get_str decision ''question''); recommended_id = get_str decision ''recommended'';
          title0 = str_or (py_or (py_get opt ''title'') (PStr UNNAMED));
          title = (if multi \<and> question \<noteq> [] then question @ '' - '' @ title0 else title0) in
      bind_res (texts (py_get opt ''pros'')) (\<lambda>pros.
      bind_res (texts (py_get opt ''cons'')) (\<lambda>cons.
      bind_res (map_steps (py_get opt ''steps'')) (\<lambda>option_steps.
      Inr [(''title'', PStr title), (''recommended'', PBool (recommended_id \<noteq> [] \<and> get_str opt ''id'' = recommended_id)),
           (''applies_when'', PStr (get_str decision ''accept_criteria'')), (''reason'', PStr (reason_of opt pros cons)),
           (''steps'', PList (if option_steps = [] then steps else option_steps))]))))"

definition decision_options :: "bool \<Rightarrow> pyval list \<Rightarrow> pydict \<Rightarrow> pydict list res" where
  "decision_options multi steps decision = bind_res (iter_or (py_get decision ''options'')) (\<lambda>opts.
     mapM (map_option_entry multi decision steps) (objects opts))"

definition build_options :: "pydict \<Rightarrow> pydict list res" where
  "build_options plan =
     bind_res (map_steps (py_get plan ''steps'')) (\<lambda>steps.
     bind_res (iter_or (py_get plan ''decisions'')) (\<lambda>ds.
     let decisions = objects ds in
     if decisions = [] then Inr (if steps = [] then [] else
       [[(''title'', PStr (str_or (py_or (py_get plan ''summary'') (PStr UNNAMED)))), (''recommended'', PBool True),
         (''applies_when'', PStr []), (''reason'', PStr []), (''steps'', PList steps)]])
     else bind_res (mapM (decision_options (1 < length decisions) steps) decisions) (\<lambda>os. Inr (concat os))))"

definition build_conclusion :: "pydict \<Rightarrow> pydict \<Rightarrow> pydict list \<Rightarrow> pydict option res" where
  "build_conclusion rca plan evidence =
     bind_res (primary_root_cause rca) (\<lambda>root_cause.
     let summary = strip (get_str plan ''summary'') in
     bind_res (build_options plan) (\<lambda>options.
     if root_cause = [] \<and> summary = [] \<and> options = [] then Inr None
     else let ref = as_dict (py_get plan ''root_cause_ref'') in
       Inr (Some [(''root_cause'', PStr (if root_cause \<noteq> [] then root_cause else str_or (py_or (py_get ref ''summary'') (PStr ''-'')))),
         (''confidence'', PStr (confidence_chip (py_get rca ''confidence''))),
         (''confidence_score'', case confidence_score (py_get rca ''confidence'') of None \<Rightarrow> PNone | Some n \<Rightarrow> PInt n),
         (''deployed_commit'', PStr []), (''base_commit'', PStr []), (''already_fixed_by'', PStr []), (''base_note'', PStr []),
         (''summary'', PStr summary), (''evidence'', PList (map PDict evidence)),
         (''recommended_fix'', PList (map PDict options))])))"

definition conclusion_digest :: "pydict \<Rightarrow> pydict res" where
  "conclusion_digest run =
     bind_res (build_conclusion (node_output run NODE_RCA) (plan_payload (node_output run NODE_PLAN)) []) (\<lambda>c.
       Inr (case c of None \<Rightarrow> []
         | Some d \<Rightarrow> map (\<lambda>k. (k, py_get d k)) [''root_cause'', ''confidence'', ''summary'', ''recommended_fix'']))"

definition TASK_STATUS :: "(string \<times> string) list" where
  "TASK_STATUS = [(''done'', ''done''), (''running'', ''in_progress''), (''pending'', ''todo''), (''waiting_approval'', ''in_progress''),
     (''failed'', ''failed''), (''skipped'', ''cancelled''), (''rejected'', ''cancelled''), (''rejected-canceled'', ''cancelled'')]"

definition EVIDENCE_NODES :: "(string \<times> string) list" where
  "EVIDENCE_NODES = [(''logs'', ''log evidence''), (''locate'', ''code location'')]"

definition NODE_LABELS :: "(string \<times> string) list" where
  "NODE_LABELS = [(''triage'', ''symptom triage''), (''logs'', ''log evidence''), (''locate'', ''code location''),
     (''rca'', ''root cause analysis''), (''plan'', ''repair plan''), (''diagnose-output'', ''diagnosis output''),
     (''create-ticket'', ''create ticket''), (''halt'', ''halted'')]"

text \<open>The nodes of a run that are objects.\<close>

definition dict_items :: "pydict \<Rightarrow> (string \<times> pydict) list" where
  "dict_items d = List.map_filter (\<lambda>(k, v). case v of PDict n \<Rightarrow> Some (k, n) | _ \<Rightarrow> None) d"

definition build_tasks :: "pydict \<Rightarrow> pydict list" where
  "build_tasks run = map (\<lambda>(node_id, node).
     [(''title'', PStr (if truthy (py_get node ''name'') then get_str node ''name'' else lookup_or NODE_LABELS node_id node_id)),
      (''status'', PStr (lookup_or TASK_STATUS (get_str node ''status'') ''todo'')), (''derived'', PBool False)])
     (dict_items (as_dict (py_get run ''nodes'')))"

definition TOOL_STATE :: "(string \<times> string) list" where
  "TOOL_STATE = [(''success'', ''ok''), (''ok'', ''ok''), (''error'', ''error''), (''failed'', ''error'')]"

definition tool_call :: "pydict \<Rightarrow> pydict" where
  "tool_call t = (let payload = as_dict (py_get t ''payload'') in
     [(''tool'', PStr (get_str t ''name'')), (''node_id'', PStr (get_str t ''node_id'')),
      (''status'', PStr (lookup_or TOOL_STATE (get_str payload ''result_state'') ''run'')),
      (''args'', PDict (as_dict (py_get payload ''input''))), (''result_summary'', PStr (take 500 (get_str payload ''result'')))])"

definition build_tool_calls :: "pydict list \<Rightarrow> pydict list" where
  "build_tool_calls traces = take MAX_TOOL_CALLS (map tool_call (filter (\<lambda>t. get_str t ''kind'' = ''tool_call'') traces))"

definition node_evidence :: "pydict \<Rightarrow> string \<times> string \<Rightarrow> pydict option" where
  "node_evidence run nl = (let out = node_output run (fst nl);
       txt = strip (str_or (py_or (py_get out ''summary'') (py_get out ''conclusion''))) in
     if out = [] \<or> txt = [] then None
     else Some [(''source'', PStr (snd nl)), (''query'', PStr (fst nl)), (''finding'', PStr (take 2000 txt)), (''supporting_text'', PStr [])])"

definition build_evidence :: "pydict \<Rightarrow> pydict list" where
  "build_evidence run = List.map_filter (node_evidence run) EVIDENCE_NODES"

definition build_approval :: "pydict \<Rightarrow> approval res" where
  "build_approval run =
     bind_res (iter_or (py_get run ''pending_approvals'')) (\<lambda>ps.
     let pending = objects ps;
         node_id = (if \<exists>p \<in> set pending. get_str p ''node_id'' = NODE_APPROVAL then NODE_APPROVAL
                    else case pending of [] \<Rightarrow> [] | p # _ \<Rightarrow> get_str p ''node_id'');
         output = node_output run NODE_APPROVAL;
         state = (if node_id \<noteq> [] then ''pending''
                  else if output = [] then ''none''
                  else case py_get output ''approved'' of PBool b \<Rightarrow> if b then ''approved'' else ''rejected'' | _ \<Rightarrow> ''none'')
     in Inr \<lparr>av_available = (node_id \<noteq> []), av_state = state, av_node_id = node_id, av_approver = get_str output ''approver'',
          av_comment = get_str output ''comment''\<rparr>)"

text \<open>\<open>(run.get("nodes") or {}).values()\<close>\<close>

definition node_errors :: "pydict \<Rightarrow> string list res" where
  "node_errors run = (let v = py_get run ''nodes'' in
     if \<not> truthy v then Inr []
     else case v of
       PDict d \<Rightarrow> Inr (map (\<lambda>(k, n). py_str (py_get n ''error'')) (filter (\<lambda>(k, n). truthy (py_get n ''error'')) (dict_items d)))
     | _ \<Rightarrow> Inl (AttributeError ''values''))"

definition af_build :: "pydict \<Rightarrow> pydict list \<Rightarrow> pydict list \<Rightarrow> string \<Rightarrow> viewmodel res" where
  "af_build run traces executions issue_title =
     (let run_id = get_str run ''run_id'' in
      bind_res (agentflow_status (py_get run ''status'')) (\<lambda>status.
      bind_res (node_errors run) (\<lambda>errors.
      bind_res (build_conclusion (node_output run NODE_RCA) (plan_payload (node_output run NODE_PLAN)) (build_evidence run)) (\<lambda>conclusion.
      bind_res (build_approval run) (\<lambda>approval.
      Inr ((empty_viewmodel ''agentflow'' issue_title)
        \<lparr>vm_executions := executions, vm_ref := run_id, vm_ref_kind := ''run'', vm_session_id := run_id,
         vm_trigger := get_str run ''workflow'', vm_status := status, vm_created_at := iso_value (py_get run ''created_at''),
         vm_updated_at := iso_value (py_get run ''updated_at''),
         vm_error := (case errors of [] \<Rightarrow> PNone | e # _ \<Rightarrow> PStr (take 2000 e)),
         vm_tasks := build_tasks run, vm_tool_calls := build_tool_calls traces, vm_conclusion := conclusion,
         vm_approval := approval\<rparr>))))))"

definition build_unavailable :: "string \<Rightarrow> string \<Rightarrow> viewmodel" where
  "build_unavailable issue_title error = (empty_viewmodel ''agentflow'' issue_title)
     \<lparr>vm_status := STATUS_ANALYZING, vm_error := PStr (if error \<noteq> [] then error else ''run information unavailable'')\<rparr>"

text \<open>One entry per run of the record with its current status; the requests, concurrent in the source, are made in order.\<close>

definition fetch_execution :: "env \<Rightarrow> string \<Rightarrow> pydict \<Rightarrow> pydict act" where
  "fetch_execution en tenant entry =
     (let run_id = get_str entry ''run_id'';
          item = (\<lambda>raw vm ended. [(''run_id'', PStr run_id), (''status'', PStr raw), (''vm_status'', PStr vm),
            (''workflow_id'', py_or (py_get entry ''workflow_id'') (PStr [])), (''started_at'', iso_value (py_get entry ''started_at'')),
            (''ended_at'', ended), (''is_current'', PBool False)]) in
      if run_id = [] then ret (item [] [] PNone)
      else andthen (fetch_run en tenant run_id) (\<lambda>run. case run of
        Some (x # xs) \<Rightarrow> let raw = get_str (x # xs) ''status'' in
          andthen (lift_res (agentflow_status (PStr raw))) (\<lambda>vm.
            ret (item raw vm (iso_value (py_get (x # xs) ''updated_at''))))
      | _ \<Rightarrow> ret (item [] [] PNone)))"

fun each_act :: "('a \<Rightarrow> 'b act) \<Rightarrow> 'a list \<Rightarrow> 'b list act" where
  "each_act f [] = ret []"
| "each_act f (x # xs) = andthen (f x) (\<lambda>y. andthen (each_act f xs) (\<lambda>ys. ret (y # ys)))"

definition mark_current :: "pydict list \<Rightarrow> pydict list" where
  "mark_current items = (if items = [] then [] else butlast items @ [AList.update ''is_current'' (PBool True) (last items)])"

definition fetch_executions :: "env \<Rightarrow> string \<Rightarrow> pydict list \<Rightarrow> pydict list act" where
  "fetch_executions en tenant entries = andthen (each_act (fetch_execution en tenant) entries) (\<lambda>items. ret (mark_current items))"

section \<open>From a session of the diagnosis service\<close>

definition SPIKE_STATUS :: "(string \<times> string) list" where
  "SPIKE_STATUS = [(''analyzing'', STATUS_ANALYZING), (''completed'', STATUS_COMPLETED), (''failed'', STATUS_FAILED),
     (''approved'', STATUS_APPROVED), (''closed_manual'', STATUS_CLOSED_MANUAL), (''dismissed'', STATUS_DISMISSED)]"

definition REMEDIATION_STATE :: "(string \<times> string) list" where
  "REMEDIATION_STATE = [(''pending_review'', ''pending''), (''approved'', ''approved''), (''rejected'', ''rejected''), (''closed_manual'', ''closed'')]"

definition spike_approval :: "pydict \<Rightarrow> approval" where
  "spike_approval snap =
     (let raw = get_str (as_dict (py_get snap ''remediation'')) ''status'';
          state = lookup_or REMEDIATION_STATE raw (if raw = [] then ''none'' else raw)
      in no_approval\<lparr>av_available := (state = ''pending''), av_state := state\<rparr>)"

definition spike_build :: "pydict \<Rightarrow> pydict list \<Rightarrow> string \<Rightarrow> viewmodel res" where
  "spike_build snap executions issue_title =
     (let session_id = get_str snap ''session_id''; raw_status = strip (get_str snap ''status'') in
      bind_res (iter_or (py_get snap ''tasks'')) (\<lambda>tasks.
      bind_res (iter_or (py_get snap ''tool_calls'')) (\<lambda>calls.
      Inr ((empty_viewmodel ''spike'' issue_title)
        \<lparr>vm_executions := executions, vm_ref := session_id, vm_ref_kind := ''session'', vm_session_id := session_id,
         vm_trigger := get_str snap ''trigger'', vm_created_at := py_get snap ''created_at'', vm_updated_at := py_get snap ''updated_at'',
         vm_issue_title := str_or (py_or (py_get snap ''issue_title'') (PStr issue_title)), vm_error := py_get snap ''error'',
         vm_status := lookup_or SPIKE_STATUS raw_status (if raw_status = [] then STATUS_ANALYZING else raw_status),
         vm_conclusion := (case py_get snap ''conclusion'' of PDict d \<Rightarrow> Some d | _ \<Rightarrow> None),
         vm_tasks := objects tasks, vm_tool_calls := objects calls, vm_approval := spike_approval snap\<rparr>))))"

section \<open>The view is well formed\<close>

lemma round_even_bounds: "0 \<le> x \<Longrightarrow> x \<le> of_int n \<Longrightarrow> 0 \<le> round_even x \<and> round_even x \<le> n"
proof -
  assume x: "0 \<le> x" "x \<le> of_int n"
  then have f: "\<lfloor>x\<rfloor> \<le> n" by (simp add: floor_le_iff le_less_trans)
  show ?thesis
  proof (cases "\<lfloor>x\<rfloor> = n")
    case True
    with x have "x = of_int n" using of_int_floor_le [of x] by simp
    with round_even_nonneg [OF x(1)] True show ?thesis by (simp add: round_even_def Let_def)
  next
    case False
    with f have "\<lfloor>x\<rfloor> + 1 \<le> n" by simp
    with round_even_nonneg [OF x(1)] f show ?thesis by (simp add: round_even_def Let_def)
  qed
qed

lemma confidence_score_bounds: "confidence_score v = Some n \<Longrightarrow> 0 \<le> n \<and> n \<le> 100"
  using round_even_bounds [of _ 100]
  by (auto simp: confidence_score_def Let_def split: pyval.splits option.splits pyfloat.splits if_splits)

lemma confidence_chip_cases: "confidence_chip v \<in> {''high'', ''medium'', ''low''}"
  by (simp add: confidence_chip_def Let_def split: option.split)

lemma lookup_or_range: "lookup_or d k x \<in> insert x (snd ` set d)"
  by (cases "map_of d k") (force simp: lookup_or_def dest: map_of_SomeD)+

lemma agentflow_status_range:
  assumes "agentflow_status v = Inr st"
  shows "st \<in> {''analyzing'', ''completed'', ''failed'', ''closed_manual''}"
proof -
  from assms obtain k where "st = lookup_or AGENTFLOW_STATUS k STATUS_ANALYZING"
    by (auto simp: agentflow_status_def split: if_splits pyval.splits)
  with lookup_or_range [of AGENTFLOW_STATUS k STATUS_ANALYZING] show ?thesis
    by (auto simp: AGENTFLOW_STATUS_def STATUS_ANALYZING_def STATUS_COMPLETED_def STATUS_FAILED_def STATUS_CLOSED_MANUAL_def)
qed

lemma build_approval_gate:
  assumes "build_approval run = Inr a"
  shows "av_available a \<longleftrightarrow> av_state a = ''pending''" "av_available a \<longleftrightarrow> av_node_id a \<noteq> []"
proof -
  from assms obtain n out where a: "av_available a = (n \<noteq> [])" "av_node_id a = n" "av_state a = (if n \<noteq> [] then ''pending''
      else if out = [] then ''none'' else case py_get out ''approved'' of PBool b \<Rightarrow> if b then ''approved'' else ''rejected'' | _ \<Rightarrow> ''none'')"
    unfolding build_approval_def Let_def by force
  have "(case v of PBool b \<Rightarrow> if b then ''approved'' else ''rejected'' | _ \<Rightarrow> ''none'') \<noteq> ''pending''" for v by (cases v) simp_all
  with a show "av_available a \<longleftrightarrow> av_state a = ''pending''" "av_available a \<longleftrightarrow> av_node_id a \<noteq> []" by simp_all
qed

lemma build_conclusion_confidence:
  assumes "build_conclusion rca plan evidence = Inr (Some c)"
  shows "py_get c ''confidence'' = PStr (confidence_chip (py_get rca ''confidence''))"
    and "py_get c ''confidence_score'' = (case confidence_score (py_get rca ''confidence'') of None \<Rightarrow> PNone | Some n \<Rightarrow> PInt n)"
  using assms by (auto simp: build_conclusion_def Let_def py_get_def split: if_splits)

lemma build_tasks_status: "task \<in> set (build_tasks run) \<Longrightarrow> py_get task ''status'' \<in> PStr ` {''done'', ''in_progress'', ''todo'', ''failed'', ''cancelled''}"
  using lookup_or_range [of TASK_STATUS _ "''todo''"] by (fastforce simp: build_tasks_def py_get_def TASK_STATUS_def)

text \<open>C19. Whatever JSON the engine sends, a view built from it is well formed: its status is one the user interface knows, the
  approval is available exactly when its state is pending and then names its node, there are at most 200 tool calls, every task
  has a known status, and a conclusion has one of the three confidence grades and no score or one from 0 to 100.\<close>

theorem viewmodel_well_formed:
  assumes "af_build run traces executions issue_title = Inr vm"
  shows "vm_status vm \<in> {''analyzing'', ''completed'', ''failed'', ''closed_manual''}
    \<and> (av_available (vm_approval vm) \<longleftrightarrow> av_state (vm_approval vm) = ''pending'')
    \<and> (av_available (vm_approval vm) \<longleftrightarrow> av_node_id (vm_approval vm) \<noteq> [])
    \<and> length (vm_tool_calls vm) \<le> 200
    \<and> (\<forall>task \<in> set (vm_tasks vm). py_get task ''status'' \<in> PStr ` {''done'', ''in_progress'', ''todo'', ''failed'', ''cancelled''})
    \<and> (\<forall>c. vm_conclusion vm = Some c \<longrightarrow> py_get c ''confidence'' \<in> PStr ` {''high'', ''medium'', ''low''}
         \<and> (py_get c ''confidence_score'' = PNone \<or> (\<exists>n. py_get c ''confidence_score'' = PInt n \<and> 0 \<le> n \<and> n \<le> 100)))"
proof -
  from assms obtain status errors conclusion approval where parts: "agentflow_status (py_get run ''status'') = Inr status"
    "build_conclusion (node_output run NODE_RCA) (plan_payload (node_output run NODE_PLAN)) (build_evidence run) = Inr conclusion"
    "build_approval run = Inr approval"
    and vm: "vm_status vm = status" "vm_approval vm = approval" "vm_conclusion vm = conclusion" "vm_tasks vm = build_tasks run"
      "vm_tool_calls vm = build_tool_calls traces"
    by (auto simp: af_build_def Let_def)
  have "py_get c ''confidence'' \<in> PStr ` {''high'', ''medium'', ''low''}
      \<and> (py_get c ''confidence_score'' = PNone \<or> (\<exists>n. py_get c ''confidence_score'' = PInt n \<and> 0 \<le> n \<and> n \<le> 100))"
    if "conclusion = Some c" for c
    using build_conclusion_confidence(1,2) [OF parts(2) [unfolded that]] confidence_chip_cases confidence_score_bounds
    by (auto split: option.split)
  with agentflow_status_range [OF parts(1)] build_approval_gate [OF parts(3)] build_tasks_status show ?thesis
    unfolding vm by (simp add: build_tool_calls_def MAX_TOOL_CALLS_def)
qed

theorem viewmodel_well_formed_witness:
  "\<exists>vm. af_build [(''run_id'', PStr ''R1''), (''status'', PStr ''waiting_approval''), (''pending_approvals'', PList [PDict [(''node_id'', PStr ''gate'')]]),
       (''nodes'', PDict [(''rca'', PDict [(''status'', PStr ''done''),
         (''output'', PDict [(''hypotheses'', PList [PStr ''pool exhausted'']), (''confidence'', PStr ''1'')])])])] [] [] ''t'' = Inr vm
     \<and> av_node_id (vm_approval vm) = ''gate'' \<and> av_state (vm_approval vm) = ''pending''"
proof -
  let ?run = "[(''run_id'', PStr ''R1''), (''status'', PStr ''waiting_approval''), (''pending_approvals'', PList [PDict [(''node_id'', PStr ''gate'')]]),
       (''nodes'', PDict [(''rca'', PDict [(''status'', PStr ''done''),
         (''output'', PDict [(''hypotheses'', PList [PStr ''pool exhausted'']), (''confidence'', PStr ''1'')])])])]"
  have "\<not> isl (af_build ?run [] [] ''t'')" by code_simp
  then obtain vm where vm: "af_build ?run [] [] ''t'' = Inr vm" by (cases "af_build ?run [] [] ''t''") auto
  have "case af_build ?run [] [] ''t'' of Inl e \<Rightarrow> False | Inr vm \<Rightarrow> av_node_id (vm_approval vm) = ''gate''" by code_simp
  with vm have "av_node_id (vm_approval vm) = ''gate''" by simp
  with vm viewmodel_well_formed [OF vm] show ?thesis by auto
qed

end
