(* ===== verification/Apm_Problems.thy ===== *)
theory Apm_Problems
  imports Apm_Diagnosis
begin

text \<open>
  \<open>router/problems.py\<close>: queries and life cycle of the problem records as the HTTP API offers them, the dispatch of repair
  tickets, the runs of the agentflow engine and the sessions of the diagnosis service, and the human decisions on them.
  \<open>tenant\<close> is the tenant of the request header. A body is a record of its validated fields.
\<close>

section \<open>Reading a record\<close>

definition SEV_MAP :: "string \<Rightarrow> string \<times> string \<times> string" where
  "SEV_MAP s = (if s = ''critical'' then (''1'', ''1'', ''1'') else if s = ''high'' then (''2'', ''2'', ''2'') else (''3'', ''3'', ''3''))"

definition TERMINAL_STATES :: "string list" where
  "TERMINAL_STATES = [''resolved'', ''closed'', ''archived'', ''escalated'']"

definition is_terminal :: "problem_row \<Rightarrow> bool" where
  "is_terminal r = ((if pr_state r = [] then ''pending'' else pr_state r) \<in> set TERMINAL_STATES)"

definition primary_service :: "problem_row \<Rightarrow> string" where
  "primary_service r = hd (split_on (CHR '','') (pr_service r))"

definition detection_type :: "problem_row \<Rightarrow> string" where
  "detection_type r =
     (let has_metric = pr_metric_anomalies r \<noteq> []; has_log = pr_log_anomalies r \<noteq> [] in
      if has_metric \<and> has_log then ''combined'' else if has_log then ''log'' else if has_metric then ''metric'' else ''unknown'')"

definition strip_decision_snapshots :: "problem_row \<Rightarrow> problem_row" where
  "strip_decision_snapshots r =
     (if filter (is_type ''diagnose_decision'') (pr_evidence r) = [] then r
      else r\<lparr>pr_evidence := map (\<lambda>e. if is_type ''diagnose_decision'' e
          then filter (\<lambda>(k, v). k \<noteq> ''snapshot'') e else e) (pr_evidence r)\<rparr>)"

definition list_problems ::
  "string \<Rightarrow> string option \<Rightarrow> string option \<Rightarrow> string option \<Rightarrow> int \<Rightarrow> (problem_row \<times> string) list act" where
  "list_problems tenant state service severity limit =
     andthen (ask (\<lambda>w. rec_list tenant state service severity limit (wd_records w))) (\<lambda>items.
       ret (map (\<lambda>r. (strip_decision_snapshots r, detection_type r)) items))"

definition the_record :: "string \<Rightarrow> string \<Rightarrow> problem_row act" where
  "the_record tenant rid =
     andthen (ask (\<lambda>w. rec_get tenant rid (wd_records w))) (\<lambda>rec. case rec of
        None \<Rightarrow> app_error NOT_FOUND ''problem record not found'' | Some r \<Rightarrow> ret r)"

definition get_problem :: "string \<Rightarrow> string \<Rightarrow> (problem_row \<times> string) act" where
  "get_problem tenant rid = andthen (the_record tenant rid) (\<lambda>r. ret (r, detection_type r))"

definition created_ticket :: "problem_row \<Rightarrow> pydict option" where
  "created_ticket r = find (\<lambda>e. is_type ''diagnose_decision'' e \<and> py_get e ''decision'' = PStr ''escalate''
     \<and> truthy (py_get e ''ticket_id'')) (pr_evidence r)"

definition latest_diagnose_session :: "problem_row \<Rightarrow> pydict option" where
  "latest_diagnose_session r =
     (case rev (filter (\<lambda>e. is_type ''diagnose_session'' e \<and> truthy (py_get e ''session_id'')) (pr_evidence r)) of
        [] \<Rightarrow> None | e # _ \<Rightarrow> Some e)"

definition text_of :: "pyval \<Rightarrow> string" where
  "text_of v = (case v of PStr s \<Rightarrow> s | _ \<Rightarrow> [])"

definition latest_reject_feedback :: "problem_row \<Rightarrow> string" where
  "latest_reject_feedback r = fold (\<lambda>e latest.
     if is_type ''diagnose_decision'' e \<and> py_get e ''decision'' = PStr ''reject'' \<and> strip (text_of (py_get e ''feedback'')) \<noteq> []
     then strip (text_of (py_get e ''feedback'')) else latest) (pr_evidence r) []"

definition agent_run_entries :: "problem_row \<Rightarrow> pydict list" where
  "agent_run_entries r = filter (\<lambda>e. is_type ''agent_run'' e \<and> truthy (py_get e ''run_id'')) (pr_evidence r)"

definition latest_agent_run :: "problem_row \<Rightarrow> pydict option" where
  "latest_agent_run r = (case rev (agent_run_entries r) of [] \<Rightarrow> None | e # _ \<Rightarrow> Some e)"

definition run_decisions :: "problem_row \<Rightarrow> pydict list" where
  "run_decisions r = filter (is_type ''run_decision'') (pr_evidence r)"

definition diagnose_decisions :: "problem_row \<Rightarrow> pydict list" where
  "diagnose_decisions r = filter (is_type ''diagnose_decision'') (pr_evidence r)"

definition list_diagnosis_decisions :: "string \<Rightarrow> string \<Rightarrow> pydict list act" where
  "list_diagnosis_decisions tenant rid = andthen (the_record tenant rid) (\<lambda>r. ret (diagnose_decisions r))"

section \<open>Manual closing\<close>

definition record_fpr :: "string \<Rightarrow> problem_row \<Rightarrow> bool \<Rightarrow> bool act" where
  "record_fpr tenant r false_positive =
     (if row_group_key r = [] then ret False
      else andthen (on_dynamic (write_fpr tenant (row_group_key r) false_positive)) (\<lambda>_.
           andthen (ask (\<lambda>w. load_fpr tenant (wd_dynamic w))) (\<lambda>_. ret True)))"

definition do_resolve :: "env \<Rightarrow> string \<Rightarrow> string \<Rightarrow> string \<Rightarrow> unit act" where
  "do_resolve en tenant rid reason = on_records (\<lambda>rows. bind_res (rec_resolve tenant rid reason (en_now en) rows) (\<lambda>rows'. Inr ((), rows')))"

definition do_close :: "env \<Rightarrow> string \<Rightarrow> string \<Rightarrow> string \<Rightarrow> unit act" where
  "do_close en tenant rid reason = on_records (\<lambda>rows. bind_res (rec_close tenant rid reason (en_now en) rows) (\<lambda>rows'. Inr ((), rows')))"

definition do_escalate :: "env \<Rightarrow> string \<Rightarrow> string \<Rightarrow> string \<Rightarrow> unit act" where
  "do_escalate en tenant rid reason = on_records (\<lambda>rows. bind_res (mark_escalated tenant rid reason (en_now en) rows) (\<lambda>rows'. Inr ((), rows')))"

definition do_evidence :: "string \<Rightarrow> string \<Rightarrow> pydict \<Rightarrow> bool act" where
  "do_evidence tenant rid entry = on_records (append_evidence tenant rid entry)"

definition do_in_progress :: "env \<Rightarrow> string \<Rightarrow> string \<Rightarrow> string \<Rightarrow> string \<Rightarrow> bool act" where
  "do_in_progress en tenant rid run_id workflow_id = on_records (mark_in_progress tenant rid run_id workflow_id (en_now en))"

definition resolve_problem :: "env \<Rightarrow> string \<Rightarrow> string \<Rightarrow> pydict option \<Rightarrow> pydict act" where
  "resolve_problem en tenant rid body =
     (let false_positive = truthy (py_get_or (case body of None \<Rightarrow> [] | Some b \<Rightarrow> b) ''false_positive'' (PBool False)) in
      andthen (the_record tenant rid) (\<lambda>r.
      andthen (record_fpr tenant r false_positive) (\<lambda>recorded.
      andthen (do_resolve en tenant rid ''manual'') (\<lambda>_.
        ret [(''record_id'', PStr rid), (''state'', PStr ''resolved''), (''false_positive_recorded'', PBool recorded)]))))"

definition ignore_problem :: "env \<Rightarrow> string \<Rightarrow> string \<Rightarrow> pydict act" where
  "ignore_problem en tenant rid =
     andthen (the_record tenant rid) (\<lambda>r.
     andthen (do_close en tenant rid ''ignored'') (\<lambda>_.
       ret [(''record_id'', PStr rid), (''state'', PStr ''closed'')]))"

section \<open>Ticket status\<close>

record ticket_status_body =
  ts_ticket_id :: string
  ts_status :: string
  ts_description :: string

definition ticket_entry :: "time \<Rightarrow> string \<Rightarrow> ticket_status_body \<Rightarrow> pydict" where
  "ticket_entry now ticket b = [(''type'', PStr ''ticket_status''), (''ticket_id'', PStr ticket), (''status'', PStr (ts_status b)),
     (''description'', PStr (ts_description b)), (''reported_at'', PTime now)]"

definition same_ticket_status :: "pydict \<Rightarrow> pydict \<Rightarrow> bool" where
  "same_ticket_status entry incoming = (is_type ''ticket_status'' entry \<and> py_get entry ''ticket_id'' = py_get incoming ''ticket_id''
     \<and> py_get entry ''status'' = py_get incoming ''status'' \<and> py_get entry ''description'' = py_get incoming ''description'')"

text \<open>The note of the answer, in English.\<close>

definition ticket_note :: "ticket_status_body \<Rightarrow> problem_row \<Rightarrow> string" where
  "ticket_note b r = (if ts_status b = ''resolved'' \<and> pr_state r = ''escalated'' then ''fixed, problem resolved''
     else if ts_status b = ''resolved'' then ''problem is already '' @ pr_state r @ '', evidence only''
     else ''not fixed, problem stays escalated'')"

definition report_ticket_status :: "env \<Rightarrow> string \<Rightarrow> ticket_status_body \<Rightarrow> pydict act" where
  "report_ticket_status en tenant b =
     (let ticket = strip (ts_ticket_id b) in
      refuse (ticket = []) VALIDATION ''ticket_id is empty'' (
      andthen (ask (\<lambda>w. find_by_ticket tenant ticket (wd_records w))) (\<lambda>rec. case rec of
        None \<Rightarrow> app_error NOT_FOUND ''no problem holds the ticket''
      | Some r \<Rightarrow>
          let rid = pr_record_id r; entry = ticket_entry (en_now en) ticket b in
          if \<exists>e \<in> set (pr_evidence r). same_ticket_status e entry
          then ret [(''ok'', PBool True), (''duplicate'', PBool True), (''record_id'', PStr rid), (''state'', PStr (pr_state r)),
                    (''state_changed'', PBool False)]
          else andthen (do_evidence tenant rid entry) (\<lambda>_.
            let state_changed = (ts_status b = ''resolved'' \<and> pr_state r = ''escalated'') in
            andthen (if state_changed then do_resolve en tenant rid (''agentflow:resolved:'' @ ticket) else ret ()) (\<lambda>_.
            ret [(''ok'', PBool True), (''duplicate'', PBool False), (''record_id'', PStr rid), (''ticket_id'', PStr ticket),
                 (''status'', PStr (ts_status b)), (''state'', PStr (if state_changed then ''resolved'' else pr_state r)),
                 (''state_changed'', PBool state_changed), (''note'', PStr (ticket_note b r))])))))"

section \<open>Tickets and inputs of a run\<close>

definition summary_of :: "problem_row \<Rightarrow> pyval" where
  "summary_of r = py_get (pr_symptom r) ''summary''"

definition ticket_title :: "problem_row \<Rightarrow> string" where
  "ticket_title r =
     (if truthy (summary_of r) then take 200 (text_of (summary_of r))
      else case pr_metric_anomalies r of
        m # _ \<Rightarrow> take 200 (pr_service r @ '' '' @ ma_metric m @ '' = '' @ float_repr (ma_value m))
      | [] \<Rightarrow>
          (case pr_log_anomalies r of
             l # _ \<Rightarrow> take 200 (if la_signature l \<noteq> [] then la_signature l else if la_pattern l \<noteq> [] then la_pattern l else ''log anomaly'')
           | [] \<Rightarrow> pr_service r @ '' anomaly''))"

definition opt_line :: "string \<Rightarrow> string option \<Rightarrow> string list" where
  "opt_line key v = (case v of Some (c # cs) \<Rightarrow> [key @ ''='' @ c # cs] | _ \<Rightarrow> [])"

definition metric_line :: "metric_anomaly \<Rightarrow> string" where
  "metric_line m = ''metric '' @ ma_metric m @ ''='' @ float_repr (ma_value m)
     @ (case ma_baseline m of None \<Rightarrow> [] | Some b \<Rightarrow> '' (baseline='' @ float_repr b @ '')'')"

definition log_line :: "log_anomaly \<Rightarrow> string" where
  "log_line l = ''log['' @ la_level l @ ''] '' @ la_signature l @ '' x'' @ show_int (la_count l)"

definition ticket_description :: "problem_row \<Rightarrow> string" where
  "ticket_description r = join [CHR 0x0A] (
     [''service='' @ pr_service r, ''domain='' @ pr_domain r]
     @ opt_line ''instance'' (pr_instance r)
     @ [''severity='' @ pr_severity r, ''detected_at='' @ iso_time (CHR '' '') (pr_detected_at r),
        ''occurrence_count='' @ show_int (pr_occurrence_count r)]
     @ opt_line ''trace_id'' (pr_trace_id r)
     @ (if truthy (summary_of r) then [''summary='' @ py_str (summary_of r)] else [])
     @ map metric_line (pr_metric_anomalies r) @ map log_line (pr_log_anomalies r))"

definition first_log_chain_id :: "problem_row \<Rightarrow> string option" where
  "first_log_chain_id r =
     (case List.map_filter (\<lambda>e. if is_type ''log_trace_ids'' e
        then (case py_get e ''trace_ids'' of PList (x # _) \<Rightarrow> Some (py_str x) | _ \<Rightarrow> None) else None) (pr_evidence r) of
        [] \<Rightarrow> None | x # _ \<Rightarrow> Some x)"

definition opt_field :: "string \<Rightarrow> string option \<Rightarrow> pydict" where
  "opt_field key v = (case v of Some (c # cs) \<Rightarrow> [(key, PStr (c # cs))] | _ \<Rightarrow> [])"

definition build_ticket :: "problem_row \<Rightarrow> pydict" where
  "build_ticket r =
     (let (impact, urgency, priority) = SEV_MAP (lower (if pr_severity r = [] then ''warning'' else pr_severity r));
          cmdb_ci = [(''name'', PStr (primary_service r))] @ opt_field ''service'' (Some (pr_domain r))
            @ opt_field ''namespace'' (pr_instance r)
      in [(''number'', PStr (pr_record_id r)), (''short_description'', PStr (ticket_title r)),
          (''description'', PStr (ticket_description r)),
          (''category'', PStr (if pr_domain r = [] then ''application'' else pr_domain r)),
          (''subcategory'', PStr (if pr_source r = [] then ''apm-alert'' else pr_source r)),
          (''impact'', PStr impact), (''urgency'', PStr urgency), (''priority'', PStr priority), (''state'', PStr ''New''),
          (''cmdb_ci'', PDict cmdb_ci),
          (''symptom'', PDict (if pr_symptom r = [] then [(''summary'', PStr [])] else pr_symptom r)),
          (''severity'', PStr (pr_severity r))]
         @ opt_field ''requestId'' (first_log_chain_id r))"

definition WINDOW_PAD :: time where "WINDOW_PAD = 10 * 60 * 1000000"
definition WINDOW_MIN :: time where "WINDOW_MIN = 30 * 60 * 1000000"
definition WINDOW_MAX :: time where "WINDOW_MAX = 24 * 3600 * 1000000"

definition analysis_window :: "time \<Rightarrow> problem_row \<Rightarrow> time \<times> time" where
  "analysis_window now r =
     (let detected = pr_detected_at r;
          start = (case pr_first_seen_at r of None \<Rightarrow> detected | Some t \<Rightarrow> t) - WINDOW_PAD;
          stop = (case pr_last_seen_at r of None \<Rightarrow> detected | Some t \<Rightarrow> t) + WINDOW_PAD;
          stop = (if now < stop then now else stop);
          start = (if stop < start then stop - WINDOW_MIN else start);
          start = (if stop - start < WINDOW_MIN then stop - WINDOW_MIN else start);
          start = (if WINDOW_MAX < stop - start then stop - WINDOW_MAX else start)
      in (start, stop))"

definition build_analysis_inputs :: "time \<Rightarrow> problem_row \<Rightarrow> pydict" where
  "build_analysis_inputs now r =
     (let (start, stop) = analysis_window now r in
      [(''bug_report'', PDict (build_ticket r)), (''window_start'', PStr (iso_time (CHR ''T'') start)),
       (''window_end'', PStr (iso_time (CHR ''T'') stop)), (''review_feedback'', PStr (latest_reject_feedback r))])"

section \<open>Dispatching a ticket\<close>

definition create_ticket_payload :: "env \<Rightarrow> string \<Rightarrow> problem_row \<Rightarrow> pydict \<Rightarrow> string \<Rightarrow> string \<Rightarrow> pydict" where
  "create_ticket_payload en tenant r digest number workflow_id =
     (let bug_report = build_ticket r @ (if digest = [] then [] else [(''diagnosis'', PDict digest)]);
          (start, stop) = analysis_window (en_now en) r
      in [(''title'', PStr (take 200 (ticket_title r))), (''bug_report'', PDict bug_report), (''number'', PStr number),
          (''service'', PStr (primary_service r)), (''namespace'', case pr_instance r of None \<Rightarrow> PNone | Some i \<Rightarrow> PStr i),
          (''severity'', PStr (pr_severity r)), (''window_start'', PStr (iso_time (CHR ''T'') start)),
          (''window_end'', PStr (iso_time (CHR ''T'') stop))]
         @ opt_field ''workflow_id'' (Some workflow_id) @ [(''tenant_id'', PStr (agentflow_tenant en tenant))])"

definition upstream_failed :: "http_response \<Rightarrow> bool" where
  "upstream_failed resp = (\<not> ok_status resp)"

text \<open>\<open>resp.json() or {}\<close> where decoding errors are mapped and \<open>.get\<close> on another value raises.\<close>

definition json_body :: "http_response \<Rightarrow> string \<Rightarrow> pydict act" where
  "json_body resp reason = (case body_or_empty resp of
       None \<Rightarrow> app_error UPSTREAM reason | Some (PDict d) \<Rightarrow> ret d | Some v \<Rightarrow> raise (AttributeError ''get''))"

definition agentflow_create_ticket :: "env \<Rightarrow> string \<Rightarrow> problem_row \<Rightarrow> pydict \<Rightarrow> string \<Rightarrow> (string \<times> string) act" where
  "agentflow_create_ticket en tenant r run workflow_id =
     andthen (lift_res (conclusion_digest run)) (\<lambda>digest.
     andthen (ticket_number (en_now en)) (\<lambda>number.
     andthen (post en (rstrip_slash (en_bug_solve_base_url en) @ ''/tickets'')
         (create_ticket_payload en tenant r digest number workflow_id) (Some (agentflow_tenant en tenant))) (\<lambda>resp.
     refuse (upstream_failed resp) UPSTREAM ''create ticket failed'' (
     andthen (json_body resp ''create ticket returned invalid body'') (\<lambda>row.
     let ticket_id = str_or (py_get row ''id'') in
     refuse (ticket_id = []) UPSTREAM ''create ticket returned no id''
       (ret (ticket_id, str_or (py_get row ''number''))))))))"

definition apply_escalated_state :: "env \<Rightarrow> string \<Rightarrow> string \<Rightarrow> string \<Rightarrow> pydict \<Rightarrow> unit act" where
  "apply_escalated_state en tenant rid decision recorded =
     (if decision \<noteq> ''escalate'' then ret ()
      else let number = py_or (py_get recorded ''ticket_number'') (PStr []) in
        do_escalate en tenant rid (if truthy number then ''escalated:'' @ py_str number else ''escalated''))"

definition resolve_workflow_id :: "env \<Rightarrow> string \<Rightarrow> string \<Rightarrow> string act" where
  "resolve_workflow_id en tenant name0 =
     (let name = strip name0 in
      if name = [] then ret []
      else andthen (fetch_workflows en tenant) (\<lambda>items. case items of
          None \<Rightarrow> app_error UPSTREAM ''list workflows failed''
        | Some ws \<Rightarrow>
            let hits = filter (\<lambda>w. str_or (py_get w ''name'') = name \<and> truthy (py_get w ''id'')) ws in
            (case rev (sort_key (\<lambda>w. str_or (py_get w ''created_at'')) (rev hits)) of
               [] \<Rightarrow> app_error NOT_FOUND ''workflow not found''
             | w # _ \<Rightarrow> ret (py_str (py_get w ''id'')))))"

definition manual_escalation :: "time \<Rightarrow> string \<times> string \<Rightarrow> string \<Rightarrow> pydict" where
  "manual_escalation now ticket name =
     [(''type'', PStr ''diagnose_decision''), (''decision'', PStr ''escalate''), (''engine'', PStr ''manual''),
      (''ticket_id'', PStr (fst ticket)), (''ticket_number'', PStr (snd ticket)),
      (''workflow_name'', if name = [] then PNone else PStr name), (''decided_at'', PTime now)]"

definition escalate_problem :: "env \<Rightarrow> string \<Rightarrow> string \<Rightarrow> string option \<Rightarrow> pydict act" where
  "escalate_problem en tenant rid body =
     andthen (the_record tenant rid) (\<lambda>r.
     refuse (created_ticket r \<noteq> None) CONFLICT ''already holds a ticket'' (
     refuse (is_terminal r) CONFLICT ''escalate not allowed'' (
     let name = strip (case body of None \<Rightarrow> [] | Some n \<Rightarrow> n) in
     andthen (resolve_workflow_id en tenant name) (\<lambda>workflow_id.
     andthen (agentflow_create_ticket en tenant r [] workflow_id) (\<lambda>created.
     let recorded = manual_escalation (en_now en) created name in
     andthen (do_evidence tenant rid recorded) (\<lambda>_.
     andthen (apply_escalated_state en tenant rid ''escalate'' recorded) (\<lambda>_.
       ret [(''record_id'', PStr rid), (''state'', PStr ''escalated''), (''ticket_id'', PStr (fst created)),
            (''ticket_number'', PStr (snd created)), (''workflow_name'', PStr name)])))))))"

section \<open>Starting a run\<close>

record analyze_body =
  ab_workflow_id :: string
  ab_rerun :: bool

definition agent_run_evidence :: "time \<Rightarrow> string \<Rightarrow> string \<Rightarrow> pydict" where
  "agent_run_evidence now run_id workflow_id = agent_run_entry run_id workflow_id now"

definition run_request :: "env \<Rightarrow> string \<Rightarrow> string \<Rightarrow> pydict \<Rightarrow> http_response act" where
  "run_request en tenant workflow_id inputs =
     post en (rstrip_slash (en_bug_solve_base_url en) @ ''/run'')
       [(''workflow_id'', PStr workflow_id), (''ticket'', PDict inputs), (''tenant_id'', PStr (agentflow_tenant en tenant))]
       (Some (agentflow_tenant en tenant))"

definition timed_out :: "http_response \<Rightarrow> bool" where
  "timed_out resp = (case resp of TimeoutError e \<Rightarrow> True | _ \<Rightarrow> False)"

text \<open>\<open>POST /run\<close> and the run id of its answer; the same code in \<open>analyze_problem\<close> and in the rerun of a rejected plan.\<close>

definition start_run :: "env \<Rightarrow> string \<Rightarrow> string \<Rightarrow> pydict \<Rightarrow> string act" where
  "start_run en tenant workflow_id inputs =
     andthen (run_request en tenant workflow_id inputs) (\<lambda>resp.
     refuse (timed_out resp) UPSTREAM ''run start timed out'' (
     refuse (upstream_failed resp) UPSTREAM ''run start failed'' (
       case body_field resp ''run_id'' of
         None \<Rightarrow> app_error UPSTREAM ''run start returned invalid body''
       | Some run_id \<Rightarrow> refuse (run_id = []) UPSTREAM ''run start returned no run_id'' (ret run_id))))"

definition analyze_problem :: "env \<Rightarrow> string \<Rightarrow> string \<Rightarrow> analyze_body \<Rightarrow> pydict act" where
  "analyze_problem en tenant rid b =
     (let workflow_id = strip (ab_workflow_id b) in
      refuse (workflow_id = []) VALIDATION ''workflow_id is required'' (
      andthen (the_record tenant rid) (\<lambda>r.
      let state = (if pr_state r = [] then ''pending'' else pr_state r) in
      refuse (is_terminal r) CONFLICT ''analysis not allowed'' (
      refuse (state \<noteq> ''pending'' \<and> \<not> ab_rerun b) CONFLICT ''is not pending'' (
      refuse (primary_service r = []) VALIDATION ''no service available for analysis'' (
      andthen (start_run en tenant workflow_id (build_analysis_inputs (en_now en) r)) (\<lambda>run_id.
      andthen (if state = ''pending'' then do_in_progress en tenant rid run_id workflow_id
               else do_evidence tenant rid (agent_run_evidence (en_now en) run_id workflow_id)) (\<lambda>done.
      refuse (\<not> done) CONFLICT ''concurrently moved'' (
        ret [(''record_id'', PStr rid), (''state'', PStr ''in_progress''), (''run_id'', PStr run_id)])))))))))"

section \<open>Decisions on a run\<close>

record run_decision_body =
  rb_run_id :: string
  rb_node_id :: string
  rb_approved :: bool
  rb_by :: string
  rb_comment :: string

definition run_decision_result :: "string \<Rightarrow> string \<Rightarrow> string \<Rightarrow> bool \<Rightarrow> bool \<Rightarrow> pydict" where
  "run_decision_result rid run_id node_id approved recorded =
     [(''record_id'', PStr rid), (''run_id'', PStr run_id), (''node_id'', PStr node_id), (''approved'', PBool approved),
      (''recorded'', PBool recorded), (''duplicate'', PBool (\<not> recorded))]"

definition record_run_decision :: "env \<Rightarrow> string \<Rightarrow> string \<Rightarrow> run_decision_body \<Rightarrow> pydict act" where
  "record_run_decision en tenant rid b =
     andthen (the_record tenant rid) (\<lambda>r.
     let run_id = strip (rb_run_id b); node_id = (if strip (rb_node_id b) = [] then ''approve-plan'' else strip (rb_node_id b)) in
     refuse (run_id = []) VALIDATION ''run_id is required'' (
     case find (\<lambda>e. py_get e ''run_id'' = PStr run_id \<and> py_get e ''node_id'' = PStr node_id) (run_decisions r) of
       Some e \<Rightarrow> ret (run_decision_result rid run_id node_id (truthy (py_get e ''approved'')) False)
     | None \<Rightarrow>
         andthen (do_evidence tenant rid
            [(''type'', PStr ''run_decision''), (''run_id'', PStr run_id), (''node_id'', PStr node_id),
             (''approved'', PBool (rb_approved b)), (''by'', PStr (rb_by b)), (''comment'', PStr (rb_comment b)),
             (''decided_at'', PTime (en_now en))]) (\<lambda>found.
         refuse (\<not> found) CONFLICT ''vanished before recording''
           (ret (run_decision_result rid run_id node_id (rb_approved b) True)))))"

section \<open>Diagnosis sessions\<close>

record diagnose_body =
  dg_app :: "string option"
  dg_repo :: "string option"
  dg_log_excerpt :: "string option"
  dg_trace_id :: "string option"
  dg_environment :: "string option"
  dg_time_window :: "string option"

definition or_str :: "string option \<Rightarrow> string \<Rightarrow> string" where
  "or_str v x = (case v of Some (c # cs) \<Rightarrow> c # cs | _ \<Rightarrow> x)"

definition first_log_excerpt :: "problem_row \<Rightarrow> string" where
  "first_log_excerpt r =
     (case filter (\<lambda>x. x \<noteq> []) (map (\<lambda>l. if la_signature l \<noteq> [] then la_signature l else la_pattern l) (pr_log_anomalies r)) of
        x # _ \<Rightarrow> x | [] \<Rightarrow> str_or (summary_of r))"

definition build_diagnose_body :: "env \<Rightarrow> problem_row \<Rightarrow> diagnose_body \<Rightarrow> pydict" where
  "build_diagnose_body en r b =
     [(''app'', PStr (or_str (dg_app b) (primary_service r))),
      (''repo'', PStr (or_str (dg_repo b) (or_str (Some (en_diagnose_repo en)) (primary_service r))))]
     @ opt_field ''trace_id'' (Some (or_str (dg_trace_id b) (case first_log_chain_id r of None \<Rightarrow> [] | Some x \<Rightarrow> x)))
     @ opt_field ''environment'' (dg_environment b) @ opt_field ''time_window'' (dg_time_window b)
     @ [(''log_excerpt'', PStr (strip (or_str (dg_log_excerpt b) (first_log_excerpt r))))]"

definition diagnose_problem :: "env \<Rightarrow> string \<Rightarrow> string \<Rightarrow> diagnose_body \<Rightarrow> pydict act" where
  "diagnose_problem en tenant rid b =
     andthen (the_record tenant rid) (\<lambda>r.
     refuse (is_terminal r) CONFLICT ''diagnosis not allowed'' (
     refuse (latest_diagnose_session r \<noteq> None) CONFLICT ''already has a diagnosis'' (
     let payload = build_diagnose_body en r b in
     refuse (\<not> truthy (py_get payload ''log_excerpt'')) VALIDATION ''no log excerpt'' (
     refuse (\<not> truthy (py_get payload ''app'')) VALIDATION ''no app'' (
     andthen (post en (rstrip_slash (en_diagnose_base_url en) @ ''/diagnose/logs'') payload None) (\<lambda>resp.
     refuse (upstream_failed resp) UPSTREAM ''diagnosis start failed'' (
     case body_field resp ''session_id'' of
       None \<Rightarrow> app_error UPSTREAM ''diagnosis start returned invalid body''
     | Some sid \<Rightarrow>
         refuse (sid = []) UPSTREAM ''diagnosis start returned no session_id'' (
         andthen (do_evidence tenant rid
           [(''type'', PStr ''diagnose_session''), (''session_id'', PStr sid), (''status'', PStr ''analyzing''),
            (''app'', py_get payload ''app''), (''repo'', py_get payload ''repo''), (''trace_id'', py_get payload ''trace_id''),
            (''started_at'', PTime (en_now en))]) (\<lambda>found.
         refuse (\<not> found) CONFLICT ''vanished before binding'' (
           ret [(''record_id'', PStr rid), (''session_id'', PStr sid), (''status'', PStr ''analyzing'')]))))))))))"

definition spike_post :: "env \<Rightarrow> string \<Rightarrow> pydict \<Rightarrow> http_response act" where
  "spike_post en path payload =
     andthen (post en (rstrip_slash (en_diagnose_base_url en) @ path) payload None) (\<lambda>resp. case resp of
        Response st tx v \<Rightarrow> ret resp | _ \<Rightarrow> app_error UPSTREAM ''diagnosis service call failed'')"

definition spike_get :: "env \<Rightarrow> string \<Rightarrow> http_response act" where
  "spike_get en path =
     andthen (http_get en (rstrip_slash (en_diagnose_base_url en) @ path) None) (\<lambda>resp. case resp of
        Response st tx v \<Rightarrow> ret resp | _ \<Rightarrow> app_error UPSTREAM ''diagnosis service call failed'')"

text \<open>\<open>try: ... except AppException: return None\<close>\<close>

definition catch_app :: "'a act \<Rightarrow> 'a \<Rightarrow> 'a act" where
  "catch_app m x = (\<lambda>s. case m s of (Inl (AppException c e), s') \<Rightarrow> (Inr x, s') | other \<Rightarrow> other)"

definition fetch_snapshot :: "env \<Rightarrow> string \<Rightarrow> pydict option act" where
  "fetch_snapshot en sid =
     catch_app (andthen (spike_get en (''/status/'' @ sid)) (\<lambda>resp.
       ret (if ok_status resp then body_object resp else None))) None"

text \<open>\<open>len(json.dumps(v, default=str))\<close>\<close>

definition json_char :: "char \<Rightarrow> nat" where
  "json_char c = (let n = (of_char c :: nat) in
     if n \<in> {34, 92, 8, 9, 10, 12, 13} then 2 else if n < 32 \<or> 126 < n then 6 else 1)"

definition json_str_len :: "string \<Rightarrow> nat" where
  "json_str_len s = 2 + sum_list (map json_char s)"

fun json_len :: "pyval \<Rightarrow> nat" where
  "json_len PNone = 4"
| "json_len (PBool b) = (if b then 4 else 5)"
| "json_len (PInt i) = length (show_int i)"
| "json_len (PFloat r) = length (float_repr r)"
| "json_len (PStr s) = json_str_len s"
| "json_len (PTime t) = json_str_len (iso_time (CHR '' '') t)"
| "json_len (PList xs) = 2 + sum_list (map json_len xs) + 2 * (length xs - 1)"
| "json_len (PDict d) = 2 + sum_list (map (\<lambda>(k, v). json_str_len k + 2 + json_len v) d) + 2 * (length d - 1)"

definition MAX_SUPPORTING_TEXT :: nat where "MAX_SUPPORTING_TEXT = 4000"
definition MAX_SNAPSHOT_BYTES :: nat where "MAX_SNAPSHOT_BYTES = 128 * 1024"

definition bound_item :: "pyval \<Rightarrow> pyval" where
  "bound_item v = (case v of PDict d \<Rightarrow>
       (case py_get d ''supporting_text'' of
          PStr s \<Rightarrow> if MAX_SUPPORTING_TEXT < length s
            then PDict (AList.update ''supporting_text'' (PStr (take MAX_SUPPORTING_TEXT s)) d) else v
        | _ \<Rightarrow> v)
     | _ \<Rightarrow> v)"

definition bound_texts :: "pydict \<Rightarrow> pydict" where
  "bound_texts snap = (case py_get snap ''conclusion'' of
       PDict c \<Rightarrow> (case py_get c ''evidence'' of
          PList items \<Rightarrow> AList.update ''conclusion'' (PDict (AList.update ''evidence'' (PList (map bound_item items)) c)) snap
        | _ \<Rightarrow> snap)
     | _ \<Rightarrow> snap)"

definition bounded_snapshot :: "pydict \<Rightarrow> pydict" where
  "bounded_snapshot snap0 =
     (let snap = bound_texts snap0 in
      if MAX_SNAPSHOT_BYTES < json_len (PDict snap) then filter (\<lambda>(k, v). k \<noteq> ''tool_calls'') snap else snap)"

definition get_problem_diagnosis :: "env \<Rightarrow> string \<Rightarrow> string \<Rightarrow> viewmodel act" where
  "get_problem_diagnosis en tenant rid =
     andthen (the_record tenant rid) (\<lambda>r.
     andthen (fetch_executions en tenant (agent_run_entries r)) (\<lambda>executions.
     case latest_agent_run r of
       Some entry \<Rightarrow>
         let run_id = py_str (py_get entry ''run_id'') in
         andthen (fetch_run en tenant run_id) (\<lambda>run. case run of
           None \<Rightarrow> ret (build_unavailable (ticket_title r) [])
         | Some d \<Rightarrow> andthen (fetch_traces en tenant run_id) (\<lambda>traces.
             lift_res (af_build d traces executions (ticket_title r))))
     | None \<Rightarrow>
         (case latest_diagnose_session r of
            None \<Rightarrow> app_error NOT_FOUND ''no diagnosis bound''
          | Some entry \<Rightarrow>
              andthen (http_get en (rstrip_slash (en_diagnose_base_url en) @ ''/status/'' @ py_str (py_get entry ''session_id'')) None) (\<lambda>resp.
              refuse (upstream_failed resp) UPSTREAM ''diagnosis status fetch failed'' (
              case body_object resp of
                None \<Rightarrow> app_error UPSTREAM ''diagnosis status returned invalid body''
              | Some snap \<Rightarrow> lift_res (spike_build snap executions (ticket_title r)))))))"

section \<open>The approval gate and the ticket of a run\<close>

datatype decision = Reject | Ignore | Escalate | False_positive

fun decision_str :: "decision \<Rightarrow> string" where
  "decision_str Reject = ''reject''"
| "decision_str Ignore = ''ignore''"
| "decision_str Escalate = ''escalate''"
| "decision_str False_positive = ''false_positive''"

record decision_body =
  db_decision :: decision
  db_feedback :: string
  db_option_index :: "int option"

definition resp_detail :: "http_response \<Rightarrow> string" where
  "resp_detail resp = (case resp of
       Response st tx (Some (PDict d)) \<Rightarrow> str_or (py_or (py_get d ''detail'') (py_get d ''reason''))
     | Response st tx b \<Rightarrow> take 200 tx | _ \<Rightarrow> [])"

text \<open>The two functions below have the same body but for the verb of the URL and the word for success.\<close>

definition answer_gate :: "env \<Rightarrow> string \<Rightarrow> string \<Rightarrow> string \<Rightarrow> string \<Rightarrow> string \<Rightarrow> string \<Rightarrow> string \<Rightarrow> string act" where
  "answer_gate en tenant verb outcome run_id node_id who comment =
     andthen (post en (rstrip_slash (en_bug_solve_base_url en) @ ''/runs/'' @ run_id @ ''/'' @ verb)
       [(''node_id'', PStr node_id), (''by'', PStr who), (''comment'', PStr comment)] (Some (agentflow_tenant en tenant))) (\<lambda>resp.
     ret (case resp of
         TimeoutError e \<Rightarrow> ''unreachable: '' @ e
       | HttpError e \<Rightarrow> ''unreachable: '' @ e
       | Response st tx b \<Rightarrow> if 300 \<le> st then ''failed: HTTP '' @ show_int st @ '' '' @ resp_detail resp else outcome
       | TooLarge \<Rightarrow> []))"

definition agentflow_reject_node :: "env \<Rightarrow> string \<Rightarrow> string \<Rightarrow> string \<Rightarrow> string \<Rightarrow> string \<Rightarrow> string act" where
  "agentflow_reject_node en tenant = answer_gate en tenant ''reject'' ''rejected''"

definition agentflow_approve_node :: "env \<Rightarrow> string \<Rightarrow> string \<Rightarrow> string \<Rightarrow> string \<Rightarrow> string \<Rightarrow> string act" where
  "agentflow_approve_node en tenant = answer_gate en tenant ''approve'' ''approved''"

definition agentflow_gate_node :: "pydict option \<Rightarrow> string option res" where
  "agentflow_gate_node run =
     bind_res (iter_or (py_get (case run of None \<Rightarrow> [] | Some d \<Rightarrow> d) ''pending_approvals'')) (\<lambda>pending.
     Inr (case filter truthy (map (\<lambda>d. py_get d ''node_id'') (objects pending)) of [] \<Rightarrow> None | v # _ \<Rightarrow> Some (py_str v)))"

definition ticket_node_id :: "pydict \<Rightarrow> string option res" where
  "ticket_node_id run = (case py_get run ''graph'' of
       PDict graph \<Rightarrow> bind_res (iter_or (py_get graph ''nodes'')) (\<lambda>ns.
         Inr (case filter (\<lambda>n. py_get n ''kind'' = PStr ''ticket'') (objects ns) of
             [] \<Rightarrow> None | n # _ \<Rightarrow> if get_str n ''id'' = [] then None else Some (get_str n ''id'')))
     | _ \<Rightarrow> Inr None)"

definition TICKET_POLL_ATTEMPTS :: nat where "TICKET_POLL_ATTEMPTS = 15"
definition RUN_TERMINAL :: "string list" where "RUN_TERMINAL = [''success'', ''failed'', ''cancelled'']"

text \<open>One look at the run: \<open>Some\<close> the ticket, an exception, or \<open>None\<close> to look again.\<close>

definition ticket_of_run :: "pydict \<Rightarrow> pydict option res" where
  "ticket_of_run run =
     bind_res (ticket_node_id run) (\<lambda>node_id.
     let node = (case (node_id, py_get run ''nodes'') of (Some n, PDict nodes) \<Rightarrow> as_dict (py_get nodes n) | _ \<Rightarrow> []);
         status = py_get node ''status''; out = as_dict (py_get node ''output'') in
     if status = PStr ''done'' then
       (if truthy (py_get out ''ticket_id'') then Inr (Some out) else Inl (AppException UPSTREAM ''no ticket number''))
     else if status = PStr ''failed'' then Inl (AppException UPSTREAM ''ticket node failed'')
     else if py_get run ''status'' \<in> PStr ` set RUN_TERMINAL then Inl (AppException UPSTREAM ''ticket node not executed'')
     else Inr None)"

fun poll_ticket :: "env \<Rightarrow> string \<Rightarrow> string \<Rightarrow> nat \<Rightarrow> pydict act" where
  "poll_ticket en tenant run_id 0 = app_error UPSTREAM ''ticket is being created''"
| "poll_ticket en tenant run_id (Suc n) =
     andthen (fetch_run en tenant run_id) (\<lambda>run. case run of
       None \<Rightarrow> poll_ticket en tenant run_id n
     | Some d \<Rightarrow> andthen (lift_res (ticket_of_run d)) (\<lambda>found. case found of
           Some ticket \<Rightarrow> ret ticket | None \<Rightarrow> poll_ticket en tenant run_id n))"

definition read_escalation_ticket :: "env \<Rightarrow> string \<Rightarrow> string \<Rightarrow> pydict act" where
  "read_escalation_ticket en tenant run_id = poll_ticket en tenant run_id TICKET_POLL_ATTEMPTS"

section \<open>Decisions on a diagnosis\<close>

definition put :: "string \<Rightarrow> pyval \<Rightarrow> pydict \<Rightarrow> pydict" where
  "put k v d = AList.update k v d"

definition opt_int :: "int option \<Rightarrow> pyval" where
  "opt_int v = (case v of None \<Rightarrow> PNone | Some i \<Rightarrow> PInt i)"

definition new_decision :: "time \<Rightarrow> pydict \<Rightarrow> string \<Rightarrow> pyval \<Rightarrow> decision_body \<Rightarrow> pydict" where
  "new_decision now engine sid option_index b =
     [(''type'', PStr ''diagnose_decision''), (''decision'', PStr (decision_str (db_decision b)))] @ engine
     @ [(''session_id'', PStr sid), (''option_index'', option_index), (''option_title'', PNone), (''steps'', PNone),
        (''feedback'', PStr (db_feedback b)), (''session_status'', PNone), (''remediation_status'', PNone),
        (''reanalyze_count'', PNone), (''max_reanalyze'', PNone), (''snapshot'', PNone), (''ticket_id'', PNone),
        (''ticket_number'', PNone), (''decided_at'', PTime now)]"

definition put_ticket :: "pydict \<Rightarrow> pydict \<Rightarrow> pydict" where
  "put_ticket ticket recorded = put ''ticket_number'' (py_get ticket ''ticket_number'') (put ''ticket_id'' (py_get ticket ''ticket_id'') recorded)"

text \<open>The end of both decision handlers: record the decision, then the escalated state, and answer with the record's state.\<close>

definition finish_decision :: "env \<Rightarrow> string \<Rightarrow> problem_row \<Rightarrow> string \<Rightarrow> string \<Rightarrow> decision \<Rightarrow> pydict \<Rightarrow> pydict act" where
  "finish_decision en tenant r rid sid dec recorded =
     andthen (do_evidence tenant rid recorded) (\<lambda>found.
     refuse (\<not> found) CONFLICT ''vanished before recording'' (
     andthen (apply_escalated_state en tenant rid (decision_str dec) recorded) (\<lambda>_.
     andthen (ask (\<lambda>w. rec_get tenant rid (wd_records w))) (\<lambda>fresh.
     ret ([(''record_id'', PStr rid), (''decision'', PStr (decision_str dec)), (''session_id'', PStr sid)]
       @ map (\<lambda>k. (k, py_get recorded k)) [''session_status'', ''remediation_status'', ''reanalyze_count'', ''max_reanalyze'',
           ''ticket_id'', ''ticket_number'']
       @ [(''record_state'', PStr (pr_state (case fresh of None \<Rightarrow> r | Some f \<Rightarrow> f)))])))))"

text \<open>Closing a record for \<open>ignore\<close> and \<open>false_positive\<close>.\<close>

definition dismiss_record :: "env \<Rightarrow> string \<Rightarrow> problem_row \<Rightarrow> string \<Rightarrow> decision \<Rightarrow> unit act" where
  "dismiss_record en tenant r rid dec =
     (if dec = False_positive
      then andthen (record_fpr tenant r True) (\<lambda>_. do_resolve en tenant rid ''false_positive'')
      else do_close en tenant rid ''ignored'')"

definition gate_outcome :: "string option \<Rightarrow> (string \<Rightarrow> string act) \<Rightarrow> pydict \<Rightarrow> pydict act" where
  "gate_outcome node_id answer recorded = (case node_id of
       None \<Rightarrow> ret (put ''remediation_status'' (PStr ''no_pending_gate'') recorded)
     | Some n \<Rightarrow> andthen (answer n) (\<lambda>s. ret (put ''remediation_status'' (PStr s) recorded)))"

definition agentflow_escalate :: "env \<Rightarrow> string \<Rightarrow> problem_row \<Rightarrow> string \<Rightarrow> string option \<Rightarrow> pydict \<Rightarrow> pydict act" where
  "agentflow_escalate en tenant r run_id node_id recorded =
     andthen (case created_ticket r of
         Some e \<Rightarrow> ret (e, put ''remediation_status'' (PStr ''already_escalated'') recorded)
       | None \<Rightarrow>
           andthen (gate_outcome node_id (\<lambda>n. agentflow_approve_node en tenant run_id n ''problem-center'' []) recorded) (\<lambda>recorded.
           andthen (read_escalation_ticket en tenant run_id) (\<lambda>ticket. ret (ticket, recorded)))) (\<lambda>(existing, recorded).
     ret (put ''session_status'' (PStr ''escalated'') (put_ticket existing recorded)))"

definition agentflow_rerun ::
  "env \<Rightarrow> string \<Rightarrow> problem_row \<Rightarrow> string \<Rightarrow> string \<Rightarrow> string \<Rightarrow> string option \<Rightarrow> string \<Rightarrow> pydict \<Rightarrow> pydict act" where
  "agentflow_rerun en tenant r rid run_id workflow_id node_id feedback recorded =
     andthen (gate_outcome node_id (\<lambda>n. agentflow_reject_node en tenant run_id n ''problem-center'' feedback) recorded) (\<lambda>recorded.
     refuse (workflow_id = []) CONFLICT ''no workflow_id bound'' (
     let inputs0 = build_analysis_inputs (en_now en) r;
         inputs = put ''review_feedback'' (py_or (PStr feedback) (py_get inputs0 ''review_feedback'')) inputs0 in
     andthen (start_run en tenant workflow_id inputs) (\<lambda>new_run_id.
     andthen (do_evidence tenant rid (agent_run_evidence (en_now en) new_run_id workflow_id)) (\<lambda>_.
     ret (put ''session_status'' (PStr ''running'') recorded)))))"

definition agentflow_dismiss :: "env \<Rightarrow> string \<Rightarrow> problem_row \<Rightarrow> string \<Rightarrow> string \<Rightarrow> string option \<Rightarrow> decision \<Rightarrow> pydict \<Rightarrow> pydict act" where
  "agentflow_dismiss en tenant r rid run_id node_id dec recorded =
     andthen (gate_outcome node_id (\<lambda>n. agentflow_reject_node en tenant run_id n ''problem-center'' (decision_str dec)) recorded) (\<lambda>recorded.
     andthen (dismiss_record en tenant r rid dec) (\<lambda>_. ret (put ''session_status'' (PStr ''dismissed'') recorded)))"

definition decide_agentflow :: "env \<Rightarrow> string \<Rightarrow> problem_row \<Rightarrow> string \<Rightarrow> pydict \<Rightarrow> decision_body \<Rightarrow> pydict act" where
  "decide_agentflow en tenant r rid run_entry b =
     (let run_id = py_str (py_get run_entry ''run_id''); workflow_id = get_str run_entry ''workflow_id'';
          dec = db_decision b; feedback = strip (db_feedback b) in
      andthen (fetch_run en tenant run_id) (\<lambda>run.
      andthen (lift_res (agentflow_gate_node run)) (\<lambda>node_id.
      andthen (if dec = Reject \<and> feedback = []
               then lift_res (conclusion_digest (case run of None \<Rightarrow> [] | Some d \<Rightarrow> d)) else ret []) (\<lambda>digest.
      refuse (truthy (py_get digest ''recommended_fix'')) VALIDATION ''feedback is required'' (
      let recorded = new_decision (en_now en) [(''engine'', PStr ''agentflow'')] run_id (opt_int (db_option_index b)) b in
      andthen (case dec of
          Escalate \<Rightarrow> agentflow_escalate en tenant r run_id node_id recorded
        | Reject \<Rightarrow> agentflow_rerun en tenant r rid run_id workflow_id node_id feedback recorded
        | _ \<Rightarrow> agentflow_dismiss en tenant r rid run_id node_id dec recorded) (\<lambda>recorded.
      finish_decision en tenant r rid run_id dec recorded))))))"

definition status_of :: "http_response \<Rightarrow> int" where
  "status_of resp = (case resp of Response st tx b \<Rightarrow> st | _ \<Rightarrow> 0)"

definition copy_keys :: "string list \<Rightarrow> pydict \<Rightarrow> pydict \<Rightarrow> pydict" where
  "copy_keys ks from recorded = fold (\<lambda>k. put k (py_get from k)) ks recorded"

definition spike_reject :: "env \<Rightarrow> string \<Rightarrow> decision_body \<Rightarrow> pydict \<Rightarrow> pydict act" where
  "spike_reject en sid b recorded =
     andthen (spike_post en (''/remediate/'' @ sid)
       (case db_option_index b of None \<Rightarrow> [] | Some i \<Rightarrow> [(''option_index'', PInt i)])) (\<lambda>resp.
     refuse (status_of resp = 404) CONFLICT ''diagnosis session expired'' (
     refuse (300 \<le> status_of resp) UPSTREAM ''diagnosis remediate failed'' (
     andthen (json_body resp ''diagnosis remediate returned invalid body'') (\<lambda>rem.
     andthen (spike_post en (''/approve/'' @ sid) [(''decision'', PStr ''reject''), (''feedback'', PStr (strip (db_feedback b)))]) (\<lambda>resp2.
     refuse (300 \<le> status_of resp2) UPSTREAM ''diagnosis reject failed'' (
     andthen (json_body resp2 ''diagnosis reject returned invalid body'') (\<lambda>appr.
     ret (copy_keys [''session_status'', ''remediation_status'', ''reanalyze_count'', ''max_reanalyze''] appr
       (copy_keys [''option_index'', ''option_title'', ''steps''] rem recorded)))))))))"

definition spike_escalate :: "env \<Rightarrow> string \<Rightarrow> problem_row \<Rightarrow> string \<Rightarrow> pydict \<Rightarrow> pydict act" where
  "spike_escalate en tenant r sid recorded =
     andthen (spike_post en (''/dismiss/'' @ sid) [(''reason'', PStr ''escalated'')]) (\<lambda>resp.
     let st = status_of resp;
         recorded = put ''session_status'' (PStr (if st = 404 then ''expired''
           else if 300 \<le> st then ''dismiss_failed: HTTP '' @ show_int st else ''dismissed'')) recorded in
     andthen (case created_ticket r of
         Some e \<Rightarrow> ret e
       | None \<Rightarrow> andthen (agentflow_create_ticket en tenant r [] []) (\<lambda>t.
           ret [(''ticket_id'', PStr (fst t)), (''ticket_number'', PStr (snd t))])) (\<lambda>existing.
     ret (put_ticket existing recorded)))"

definition spike_dismiss :: "env \<Rightarrow> string \<Rightarrow> problem_row \<Rightarrow> string \<Rightarrow> string \<Rightarrow> decision \<Rightarrow> pydict \<Rightarrow> pydict act" where
  "spike_dismiss en tenant r rid sid dec recorded =
     andthen (spike_post en (''/dismiss/'' @ sid) [(''reason'', PStr (if dec = Ignore then ''ignored'' else ''false_positive''))]) (\<lambda>resp.
     let st = status_of resp in
     refuse (st \<noteq> 404 \<and> 300 \<le> st) UPSTREAM ''diagnosis dismiss failed'' (
     andthen (dismiss_record en tenant r rid dec) (\<lambda>_.
     ret (put ''session_status'' (PStr (if st = 404 then ''expired'' else ''dismissed'')) recorded))))"

definition decide_spike :: "env \<Rightarrow> string \<Rightarrow> problem_row \<Rightarrow> string \<Rightarrow> pydict \<Rightarrow> decision_body \<Rightarrow> pydict act" where
  "decide_spike en tenant r rid entry b =
     (let sid = py_str (py_get entry ''session_id''); dec = db_decision b; recorded = new_decision (en_now en) [] sid PNone b in
      refuse (dec = Reject \<and> strip (db_feedback b) = []) VALIDATION ''feedback is required'' (
      andthen (fetch_snapshot en sid) (\<lambda>snap.
      let recorded = (case snap of None \<Rightarrow> recorded | Some d \<Rightarrow> put ''snapshot'' (PDict (bounded_snapshot d)) recorded) in
      andthen (case dec of
          Reject \<Rightarrow> spike_reject en sid b recorded
        | Escalate \<Rightarrow> spike_escalate en tenant r sid recorded
        | _ \<Rightarrow> spike_dismiss en tenant r rid sid dec recorded) (\<lambda>recorded.
      finish_decision en tenant r rid sid dec recorded))))"

definition decide_problem_diagnosis :: "env \<Rightarrow> string \<Rightarrow> string \<Rightarrow> decision_body \<Rightarrow> pydict act" where
  "decide_problem_diagnosis en tenant rid b =
     andthen (the_record tenant rid) (\<lambda>r.
     refuse (is_terminal r) CONFLICT ''decision not allowed'' (
     case latest_agent_run r of
       Some run_entry \<Rightarrow> decide_agentflow en tenant r rid run_entry b
     | None \<Rightarrow>
         (case latest_diagnose_session r of
            None \<Rightarrow> app_error CONFLICT ''no diagnosis bound''
          | Some entry \<Rightarrow> decide_spike en tenant r rid entry b)))"

end
