(* ===== verification/Apm_Lifecycle.thy ===== *)
theory Apm_Lifecycle
  imports Apm_Problems
begin

text \<open>
  What the handlers of \<open>router/problems.py\<close> guarantee together. A handler logic, a locale over an invariant and a
  relation between the state before and after, gives one rule per way of composing actions; its interpretation says that a
  request of one tenant changes only that tenant's records and rates, and that whatever it sends has passed the
  outbound gate; and what each action does on a record in a terminal state.
\<close>

section \<open>Requests\<close>

text \<open>The routes, as the dispatcher sees them.\<close>

datatype call =
    ListProblems "string option" "string option" "string option" int
  | GetProblem string
  | ResolveProblem string "pydict option"
  | IgnoreProblem string
  | EscalateProblem string "string option"
  | ReportTicketStatus ticket_status_body
  | AnalyzeProblem string analyze_body
  | RecordRunDecision string run_decision_body
  | DiagnoseProblem string diagnose_body
  | GetProblemDiagnosis string
  | DecideProblemDiagnosis string decision_body
  | ListDiagnosisDecisions string

fun serve :: "env \<Rightarrow> string \<Rightarrow> call \<Rightarrow> api \<Rightarrow> api" where
  "serve en t (ListProblems st sv sev limit) s = snd (list_problems t st sv sev limit s)"
| "serve en t (GetProblem rid) s = snd (get_problem t rid s)"
| "serve en t (ResolveProblem rid body) s = snd (resolve_problem en t rid body s)"
| "serve en t (IgnoreProblem rid) s = snd (ignore_problem en t rid s)"
| "serve en t (EscalateProblem rid body) s = snd (escalate_problem en t rid body s)"
| "serve en t (ReportTicketStatus b) s = snd (report_ticket_status en t b s)"
| "serve en t (AnalyzeProblem rid b) s = snd (analyze_problem en t rid b s)"
| "serve en t (RecordRunDecision rid b) s = snd (record_run_decision en t rid b s)"
| "serve en t (DiagnoseProblem rid b) s = snd (diagnose_problem en t rid b s)"
| "serve en t (GetProblemDiagnosis rid) s = snd (get_problem_diagnosis en t rid s)"
| "serve en t (DecideProblemDiagnosis rid b) s = snd (decide_problem_diagnosis en t rid b s)"
| "serve en t (ListDiagnosisDecisions rid) s = snd (list_diagnosis_decisions t rid s)"

section \<open>A logic of handlers\<close>

definition keeps :: "(api \<Rightarrow> bool) \<Rightarrow> (api \<Rightarrow> api \<Rightarrow> bool) \<Rightarrow> 'a act \<Rightarrow> bool" where
  "keeps I R m \<longleftrightarrow> (\<forall>s. I s \<longrightarrow> R s (snd (m s)))"

lemma keepsI: "(\<And>s. I s \<Longrightarrow> R s (snd (m s))) \<Longrightarrow> keeps I R m"
  by (simp add: keeps_def)

lemma keepsD: "keeps I R m \<Longrightarrow> I s \<Longrightarrow> R s (snd (m s))"
  by (simp add: keeps_def)

named_theorems keeps_intros "rules of the handler logic"

lemma keeps_if [keeps_intros]: "(c \<Longrightarrow> keeps I R m) \<Longrightarrow> (\<not> c \<Longrightarrow> keeps I R n) \<Longrightarrow> keeps I R (if c then m else n)"
  by simp

lemma keeps_Let [keeps_intros]: "keeps I R (f x) \<Longrightarrow> keeps I R (Let x f)"
  by simp

lemma keeps_option [keeps_intros]:
  "(v = None \<Longrightarrow> keeps I R m) \<Longrightarrow> (\<And>x. v = Some x \<Longrightarrow> keeps I R (f x)) \<Longrightarrow> keeps I R (case v of None \<Rightarrow> m | Some x \<Rightarrow> f x)"
  by (cases v) auto

lemma keeps_list [keeps_intros]:
  "(v = [] \<Longrightarrow> keeps I R m) \<Longrightarrow> (\<And>x xs. v = x # xs \<Longrightarrow> keeps I R (f x xs)) \<Longrightarrow> keeps I R (case v of [] \<Rightarrow> m | x # xs \<Rightarrow> f x xs)"
  by (cases v) auto

lemma keeps_prod [keeps_intros]: "(\<And>x y. v = (x, y) \<Longrightarrow> keeps I R (f x y)) \<Longrightarrow> keeps I R (case v of (x, y) \<Rightarrow> f x y)"
  by (cases v) auto

lemma keeps_decision [keeps_intros]:
  "keeps I R a \<Longrightarrow> keeps I R b \<Longrightarrow> keeps I R c \<Longrightarrow> keeps I R d
   \<Longrightarrow> keeps I R (case v of Reject \<Rightarrow> a | Ignore \<Rightarrow> b | Escalate \<Rightarrow> c | False_positive \<Rightarrow> d)"
  by (cases v) auto

lemma keeps_response [keeps_intros]:
  "(\<And>e. keeps I R (a e)) \<Longrightarrow> (\<And>e. keeps I R (b e)) \<Longrightarrow> keeps I R c \<Longrightarrow> (\<And>st tx v. keeps I R (d st tx v))
   \<Longrightarrow> keeps I R (case r of TimeoutError e \<Rightarrow> a e | HttpError e \<Rightarrow> b e | TooLarge \<Rightarrow> c | Response st tx v \<Rightarrow> d st tx v)"
  by (cases r) auto

lemma keeps_pyval [keeps_intros]:
  "keeps I R a \<Longrightarrow> (\<And>x. keeps I R (b x)) \<Longrightarrow> (\<And>x. keeps I R (c x)) \<Longrightarrow> (\<And>x. keeps I R (d x)) \<Longrightarrow> (\<And>x. keeps I R (e x))
   \<Longrightarrow> (\<And>x. keeps I R (f x)) \<Longrightarrow> (\<And>x. keeps I R (g x)) \<Longrightarrow> (\<And>x. keeps I R (h x))
   \<Longrightarrow> keeps I R (case v of PNone \<Rightarrow> a | PBool x \<Rightarrow> b x | PInt x \<Rightarrow> c x | PFloat x \<Rightarrow> d x | PStr x \<Rightarrow> e x | PTime x \<Rightarrow> f x
        | PList x \<Rightarrow> g x | PDict x \<Rightarrow> h x)"
  by (cases v) auto

lemma snd_catch_app: "snd (catch_app m x s) = snd (m s)"
  by (cases "m s") (simp add: catch_app_def split: sum.split error.split)

locale handler_logic =
  fixes I :: "api \<Rightarrow> bool" and R :: "api \<Rightarrow> api \<Rightarrow> bool"
  assumes rel_refl: "R s s"
    and rel_trans: "R a b \<Longrightarrow> R b c \<Longrightarrow> R a c"
    and rel_inv: "I s \<Longrightarrow> R s u \<Longrightarrow> I u"
begin

lemma keeps_ret: "keeps I R (ret x)"
  by (simp add: keeps_def ret_def rel_refl)

lemma keeps_raise: "keeps I R (raise e)" "keeps I R (app_error code reason)"
  by (simp_all add: keeps_def raise_def app_error_def rel_refl)

lemma keeps_lift: "keeps I R (lift_res r)" "keeps I R (ask f)"
  by (simp_all add: keeps_def lift_res_def ask_def rel_refl)

lemma keeps_andthen:
  assumes m: "keeps I R m" and f: "\<And>x. keeps I R (f x)"
  shows "keeps I R (andthen m f)"
proof (rule keepsI)
  fix s assume s: "I s"
  obtain r s' where ms: "m s = (r, s')" by (cases "m s")
  with keepsD [OF m s] have ok: "R s s'" "I s'" using rel_inv [OF s] by auto
  show "R s (snd (andthen m f s))"
    using ms ok rel_trans [OF ok(1) keepsD [OF f ok(2)]] by (cases r) (simp_all add: andthen_def)
qed

lemma keeps_refuse: "(\<not> c \<Longrightarrow> keeps I R m) \<Longrightarrow> keeps I R (refuse c code reason m)"
  by (cases c) (simp_all add: refuse_def keeps_raise)

lemma keeps_catch: "keeps I R m \<Longrightarrow> keeps I R (catch_app m x)"
  by (simp add: keeps_def snd_catch_app)

lemma keeps_each: "(\<And>x. keeps I R (f x)) \<Longrightarrow> keeps I R (each_act f xs)"
  by (induction xs) (auto intro!: keeps_ret keeps_andthen)

lemmas basic = keeps_ret keeps_raise keeps_lift keeps_andthen keeps_refuse keeps_catch keeps_each

end

section \<open>Confinement\<close>

text \<open>What a request of tenant \<open>t\<close> may change: rows of \<open>t\<close> evolve and no row is added or removed, record numbers stay issued,
  other tenants' false-positive rates and all other tables stay as they are, and only requests that satisfy \<open>gate\<close> are sent.\<close>

abbreviation recs :: "api \<Rightarrow> records" where
  "recs s \<equiv> wd_records (ap_world s)"

abbreviation seqs :: "api \<Rightarrow> sequences" where
  "seqs s \<equiv> wd_sequences (ap_world s)"

abbreviation dyn :: "api \<Rightarrow> dyn_config" where
  "dyn s \<equiv> wd_dynamic (ap_world s)"

definition other_tables :: "dyn_config \<Rightarrow> dyn_config" where
  "other_tables dc = dc\<lparr>dy_fpr := []\<rparr>"

definition api_inv :: "api \<Rightarrow> bool" where
  "api_inv s = rec_inv (seqs s, recs s)"

definition confined :: "string \<Rightarrow> (http_request \<Rightarrow> bool) \<Rightarrow> api \<Rightarrow> api \<Rightarrow> bool" where
  "confined t gate s s' \<longleftrightarrow> (\<forall>sha. pointwise sha t (recs s) (recs s')) \<and> (\<forall>k. issued (seqs s) k \<longrightarrow> issued (seqs s') k)
     \<and> (\<forall>u. u \<noteq> t \<longrightarrow> tenant_rows (dy_fpr (dyn s')) u = tenant_rows (dy_fpr (dyn s)) u)
     \<and> other_tables (dyn s') = other_tables (dyn s)
     \<and> wd_states (ap_world s') = wd_states (ap_world s) \<and> wd_rounds (ap_world s') = wd_rounds (ap_world s)
     \<and> (\<exists>new. ap_log s' = ap_log s @ new \<and> (\<forall>q \<in> set new. gate q))"

lemma pointwise_dom: "pointwise sha t rows rows' \<Longrightarrow> dom (map_of rows') = dom (map_of rows)"
proof -
  assume "pointwise sha t rows rows'"
  then have "set (map fst rows') = set (map fst rows)" by (simp add: pointwise_def)
  then show ?thesis by (simp add: dom_map_of_conv_image_fst)
qed

lemma pointwise_trans: "pointwise sha t a b \<Longrightarrow> pointwise sha t b c \<Longrightarrow> pointwise sha t a c"
proof -
  assume ab: "pointwise sha t a b" and bc: "pointwise sha t b c"
  have "\<exists>z. map_of c k = Some z \<and> evolves sha x z \<and> (pr_tenant_id x \<noteq> t \<longrightarrow> z = x)" if k: "map_of a k = Some x" for k x
  proof -
    from ab k obtain y where y: "map_of b k = Some y" "evolves sha x y" "pr_tenant_id x \<noteq> t \<longrightarrow> y = x"
      unfolding pointwise_def by blast
    with bc obtain z where z: "map_of c k = Some z" "evolves sha y z" "pr_tenant_id y \<noteq> t \<longrightarrow> z = y"
      unfolding pointwise_def by blast
    with y show ?thesis using evolves_trans by blast
  qed
  with ab bc show ?thesis by (simp add: pointwise_def)
qed

lemma confined_refl: "confined t gate s s"
  by (simp add: confined_def pointwise_refl)

lemma confined_trans: "confined t gate a b \<Longrightarrow> confined t gate b c \<Longrightarrow> confined t gate a c"
proof -
  assume ab: "confined t gate a b" and bc: "confined t gate b c"
  have "pointwise sha t (recs a) (recs c)" for sha
  proof (rule pointwise_trans)
    show "pointwise sha t (recs a) (recs b)" "pointwise sha t (recs b) (recs c)" using ab bc by (simp_all add: confined_def)
  qed
  with ab bc show ?thesis unfolding confined_def by (auto simp: ball_Un)
qed

lemma confined_inv: "api_inv s \<Longrightarrow> confined t gate s s' \<Longrightarrow> api_inv s'"
proof -
  assume inv: "api_inv s" and c: "confined t gate s s'"
  have pw: "pointwise id t (recs s) (recs s')" and iss: "\<And>k. issued (seqs s) k \<Longrightarrow> issued (seqs s') k"
    using c by (auto simp: confined_def)
  have "pr_record_id row' = k \<and> issued (seqs s') k" if row': "map_of (recs s') k = Some row'" for k row'
  proof -
    from pointwise_dom [OF pw] row' obtain row where row: "map_of (recs s) k = Some row" by auto
    with pw row' have "evolves id row row'" unfolding pointwise_def by fastforce
    with inv row iss show ?thesis by (auto simp: api_inv_def rec_inv_def evolves_def simp del: map_of_eq_Some_iff)
  qed
  with inv pw show ?thesis by (auto simp: api_inv_def rec_inv_def pointwise_def)
qed

interpretation hl: handler_logic api_inv "confined t gate" for t gate
  by unfold_locales (rule confined_refl, erule (1) confined_trans, erule (1) confined_inv)

lemmas [keeps_intros] = hl.basic

lemma confined_records:
  assumes "\<And>sha. pointwise sha t (recs s) rows"
  shows "confined t gate s (s\<lparr>ap_world := (ap_world s)\<lparr>wd_records := rows\<rparr>\<rparr>)"
  using assms by (simp add: confined_def)

lemma keeps_terminal [keeps_intros]:
  "keeps api_inv (confined t gate) (do_resolve en t rid reason)" "keeps api_inv (confined t gate) (do_close en t rid reason)"
  "keeps api_inv (confined t gate) (do_escalate en t rid reason)"
proof -
  have pw: "pointwise sha t (recs s) rows'" if "api_inv s" "set_terminal_state t rid st reason now (recs s) = Inr rows'"
    "st \<in> {''resolved'', ''closed'', ''escalated''}" for s sha st now rows'
    using that terminal_pointwise [of "recs s" t rid st] by (auto simp: api_inv_def rec_inv_def stage_def)
  note defs = do_resolve_def do_close_def do_escalate_def on_records_def rec_resolve_def rec_close_def mark_escalated_def
  show "keeps api_inv (confined t gate) (do_resolve en t rid reason)" "keeps api_inv (confined t gate) (do_close en t rid reason)"
    "keeps api_inv (confined t gate) (do_escalate en t rid reason)"
    by (rule keepsI, auto simp: defs hl.rel_refl intro!: confined_records pw split: sum.split)+
qed

lemma keeps_evidence [keeps_intros]: "keeps api_inv (confined t gate) (do_evidence t rid entry)"
proof (rule keepsI)
  fix s assume "api_inv s"
  then show "confined t gate s (snd (do_evidence t rid entry s))"
    by (auto simp: do_evidence_def on_records_def append_evidence_def require_tenant_def api_inv_def rec_inv_def owned_row_Some
        hl.rel_refl evolves_def pointwise_refl intro!: confined_records pointwise_update_row split: option.split)
qed

lemma keeps_in_progress [keeps_intros]: "keeps api_inv (confined t gate) (do_in_progress en t rid run_id wid)"
proof (rule keepsI)
  fix s assume "api_inv s"
  then show "confined t gate s (snd (do_in_progress en t rid run_id wid s))"
    by (auto simp: do_in_progress_def on_records_def mark_in_progress_def require_tenant_def api_inv_def rec_inv_def owned_row_Some
        hl.rel_refl evolves_def pointwise_refl stage_def intro!: confined_records pointwise_update_row split: option.split)
qed

lemma tenant_rows_other: "u \<noteq> t \<Longrightarrow> tenant_rows (AList.update t x d) u = tenant_rows d u"
  by (simp add: tenant_rows_def map_of_update)

lemma keeps_fpr [keeps_intros]: "keeps api_inv (confined t gate) (on_dynamic (write_fpr t gk fp))"
  by (rule keepsI) (auto simp: on_dynamic_def write_fpr_def require_tenant_def Let_def confined_def pointwise_refl other_tables_def
      tenant_rows_other split: sum.split)

lemma keeps_ticket_number [keeps_intros]: "keeps api_inv (confined t gate) (ticket_number now)"
proof (rule keepsI)
  fix s
  have ne: "RECORD_PREFIX \<noteq> TICKET_PREFIX" by (simp add: RECORD_PREFIX_def TICKET_PREFIX_def)
  have "issued (snd (next_ticket_number now nxt)) k" if "issued nxt k" for nxt k
  proof -
    obtain e where "snd (next_ticket_number now nxt) = AList.update (TICKET_PREFIX, e) (count_of nxt (TICKET_PREFIX, e) + 1) nxt"
      by (simp add: next_ticket_number_def seq_number_format)
    with that ne show ?thesis by (simp add: issued_def count_of_def map_of_update)
  qed
  then show "confined t gate s (snd (ticket_number now s))"
    by (auto simp: ticket_number_def confined_def pointwise_refl split: prod.split) (metis snd_conv)
qed

lemma validate_url_same: "validate_url dns allow url = Inr u \<Longrightarrow> u = url"
  by (auto simp: validate_url_def check_blocked_def split: option.splits if_splits sum.splits)

lemma keeps_guarded_send:
  assumes "validate_url (en_dns en) (en_allow_loopback en) (rq_url rq) = Inr (rq_url rq) \<Longrightarrow> gate rq"
  shows "keeps api_inv (confined t gate) (guarded_send en rq)"
proof (rule keepsI)
  fix s
  show "confined t gate s (snd (guarded_send en rq s))"
  proof (cases "validate_url (en_dns en) (en_allow_loopback en) (rq_url rq)")
    case (Inr u)
    with assms have "gate rq" by (simp add: validate_url_same [OF Inr])
    with Inr show ?thesis by (simp add: guarded_send_def andthen_def lift_res_def send_def confined_def pointwise_refl)
  qed (simp add: guarded_send_def andthen_def lift_res_def confined_refl)
qed

text \<open>What every request of the router for tenant \<open>t\<close> satisfies: the gateway let its URL pass, and it goes to the
  diagnosis service without a tenant or to agentflow with the tenant configured there.\<close>

definition passed_gate :: "env \<Rightarrow> string \<Rightarrow> http_request \<Rightarrow> bool" where
  "passed_gate en t q \<longleftrightarrow> validate_url (en_dns en) (en_allow_loopback en) (rq_url q) = Inr (rq_url q)
     \<and> (\<exists>path. rq_url q = rstrip_slash (en_diagnose_base_url en) @ path \<and> rq_tenant q = None
          \<or> rq_url q = rstrip_slash (en_bug_solve_base_url en) @ path \<and> rq_tenant q = Some (agentflow_tenant en t))"

abbreviation obeys :: "env \<Rightarrow> string \<Rightarrow> 'a act \<Rightarrow> bool" where
  "obeys en t m \<equiv> keeps api_inv (confined t (passed_gate en t)) m"

lemma obeys_agentflow [keeps_intros]:
  "obeys en t (post en (rstrip_slash (en_bug_solve_base_url en) @ path) json (Some (agentflow_tenant en t)))"
  "obeys en t (http_get en (rstrip_slash (en_bug_solve_base_url en) @ path) (Some (agentflow_tenant en t)))"
  by (auto simp: post_def http_get_def passed_gate_def intro!: keeps_guarded_send)

lemma obeys_diagnose [keeps_intros]:
  "obeys en t (post en (rstrip_slash (en_diagnose_base_url en) @ path) json None)"
  "obeys en t (http_get en (rstrip_slash (en_diagnose_base_url en) @ path) None)"
  by (auto simp: post_def http_get_def passed_gate_def intro!: keeps_guarded_send)

lemma obeys_fetch [keeps_intros]:
  "obeys en t (fetch_run en t run_id)" "obeys en t (fetch_traces en t run_id)" "obeys en t (fetch_workflows en t)"
  "obeys en t (fetch_execution en t entry)" "obeys en t (fetch_executions en t entries)"
  unfolding fetch_run_def fetch_traces_def fetch_workflows_def fetch_execution_def fetch_executions_def af_get_def
  by (intro keeps_intros)+

lemma obeys_reads [keeps_intros]:
  "obeys en t (the_record t rid)" "obeys en t (list_problems t st sv sev limit)" "obeys en t (get_problem t rid)"
  "obeys en t (list_diagnosis_decisions t rid)" "obeys en t (get_problem_diagnosis en t rid)"
  unfolding the_record_def list_problems_def get_problem_def list_diagnosis_decisions_def get_problem_diagnosis_def
  by (intro keeps_intros)+

lemma obeys_closing [keeps_intros]:
  "obeys en t (record_fpr t r fp)" "obeys en t (dismiss_record en t r rid dec)" "obeys en t (apply_escalated_state en t rid d recorded)"
  "obeys en t (finish_decision en t r rid sid dec recorded)"
  unfolding record_fpr_def dismiss_record_def apply_escalated_state_def finish_decision_def
  by (intro keeps_intros)+

lemma keeps_json_body [keeps_intros]: "keeps api_inv (confined t gate) (json_body resp reason)"
  unfolding json_body_def by (intro keeps_intros)

lemma obeys_tickets [keeps_intros]:
  "obeys en t (agentflow_create_ticket en t r run wid)" "obeys en t (resolve_workflow_id en t name)" "obeys en t (start_run en t wid inputs)"
  unfolding agentflow_create_ticket_def resolve_workflow_id_def start_run_def run_request_def
  by (intro keeps_intros)+

lemma obeys_gate [keeps_intros]:
  "obeys en t (gate_outcome node_id (\<lambda>n. agentflow_reject_node en t run_id n who comment) recorded)"
  "obeys en t (gate_outcome node_id (\<lambda>n. agentflow_approve_node en t run_id n who comment) recorded)"
  unfolding gate_outcome_def agentflow_reject_node_def agentflow_approve_node_def answer_gate_def
  by (intro keeps_intros)+

lemma obeys_poll [keeps_intros]: "obeys en t (poll_ticket en t run_id n)"
  by (induction n) (auto intro!: keeps_intros)

lemma obeys_spike [keeps_intros]:
  "obeys en t (spike_post en path payload)" "obeys en t (fetch_snapshot en sid)"
  unfolding spike_post_def fetch_snapshot_def spike_get_def
  by (intro keeps_intros)+

lemma obeys_decisions [keeps_intros]:
  "obeys en t (agentflow_escalate en t r run_id node_id recorded)"
  "obeys en t (agentflow_rerun en t r rid run_id wid node_id feedback recorded)"
  "obeys en t (agentflow_dismiss en t r rid run_id node_id dec recorded)"
  "obeys en t (spike_reject en sid b recorded)" "obeys en t (spike_escalate en t r sid recorded)"
  "obeys en t (spike_dismiss en t r rid sid dec recorded)"
  unfolding agentflow_escalate_def agentflow_rerun_def agentflow_dismiss_def spike_reject_def spike_escalate_def spike_dismiss_def
    read_escalation_ticket_def
  by (intro keeps_intros)+

lemma obeys_handlers [keeps_intros]:
  "obeys en t (resolve_problem en t rid body)" "obeys en t (ignore_problem en t rid)" "obeys en t (escalate_problem en t rid name)"
  "obeys en t (report_ticket_status en t tb)" "obeys en t (analyze_problem en t rid ab)" "obeys en t (record_run_decision en t rid rb)"
  "obeys en t (diagnose_problem en t rid dg)" "obeys en t (decide_problem_diagnosis en t rid db)"
  unfolding resolve_problem_def ignore_problem_def escalate_problem_def report_ticket_status_def analyze_problem_def
    record_run_decision_def diagnose_problem_def decide_problem_diagnosis_def decide_agentflow_def decide_spike_def
  by (intro keeps_intros)+

lemma serve_confined: "api_inv s \<Longrightarrow> confined t (passed_gate en t) s (serve en t c s)"
  by (cases c) (auto intro: keepsD intro!: keeps_intros)

section \<open>Histories of requests\<close>

fun serve_all :: "(env \<times> string \<times> call) list \<Rightarrow> api \<Rightarrow> api" where
  "serve_all [] s = s"
| "serve_all ((en, t, c) # reqs) s = serve_all reqs (serve en t c s)"

definition gated_by :: "(env \<times> string \<times> call) list \<Rightarrow> http_request \<Rightarrow> bool" where
  "gated_by reqs q \<longleftrightarrow> (\<exists>(en, t, c) \<in> set reqs. passed_gate en t q)"

lemma serve_all_inv: "api_inv s \<Longrightarrow> api_inv (serve_all reqs s)"
  by (induction reqs s rule: serve_all.induct) (auto intro: confined_inv serve_confined)

lemma pointwise_row:
  "pointwise sha t rows rows' \<Longrightarrow> map_of rows k = Some row \<Longrightarrow> \<exists>row'. map_of rows' k = Some row' \<and> evolves sha row row'"
  unfolding pointwise_def by blast

lemma serve_all_evolves:
  "api_inv s \<Longrightarrow> map_of (recs s) k = Some row \<Longrightarrow> \<exists>row'. map_of (recs (serve_all reqs s)) k = Some row' \<and> evolves sha row row'"
proof (induction reqs s arbitrary: row rule: serve_all.induct)
  case (2 en t c reqs s)
  have c: "confined t (passed_gate en t) s (serve en t c s)" by (rule serve_confined [OF "2.prems"(1)])
  then have "pointwise sha t (recs s) (recs (serve en t c s))" by (simp add: confined_def)
  from pointwise_row [OF this "2.prems"(2)] obtain r1 where r1: "map_of (recs (serve en t c s)) k = Some r1" "evolves sha row r1"
    by blast
  from "2.IH" [OF confined_inv [OF "2.prems"(1) c] r1(1)] r1(2) show ?case by (auto intro: evolves_trans)
qed simp

lemma pointwise_owned:
  assumes "pointwise sha t rows rows'" "u \<noteq> t" shows "owned_row u k rows' = owned_row u k rows"
proof (cases "map_of rows k")
  case None
  with pointwise_dom [OF assms(1)] have "map_of rows' k = None" by (metis domIff)
  with None show ?thesis by (simp add: owned_row_def)
next
  case (Some row)
  with assms(1) obtain row' where "map_of rows' k = Some row'" "evolves sha row row'" "pr_tenant_id row \<noteq> t \<longrightarrow> row' = row"
    unfolding pointwise_def by blast
  with Some assms(2) show ?thesis by (auto simp: owned_row_def evolves_def)
qed

lemma serve_all_log: "api_inv s \<Longrightarrow> \<exists>new. ap_log (serve_all reqs s) = ap_log s @ new \<and> (\<forall>q \<in> set new. gated_by reqs q)"
proof (induction reqs s rule: serve_all.induct)
  case (2 en t c reqs s)
  have c: "confined t (passed_gate en t) s (serve en t c s)" by (rule serve_confined [OF "2.prems"])
  then obtain n1 where "ap_log (serve en t c s) = ap_log s @ n1" "\<forall>q \<in> set n1. passed_gate en t q" by (auto simp: confined_def)
  moreover from "2.IH" [OF confined_inv [OF "2.prems" c]] obtain n2 where
    "ap_log (serve_all reqs (serve en t c s)) = ap_log (serve en t c s) @ n2" "\<forall>q \<in> set n2. gated_by reqs q" by blast
  ultimately show ?case by (intro exI [of _ "n1 @ n2"]) (auto simp: gated_by_def)
qed (simp add: gated_by_def)

lemma serve_all_view:
  "api_inv s \<Longrightarrow> \<forall>(en, t, c) \<in> set reqs. t \<noteq> u \<Longrightarrow> owned_row u k (recs (serve_all reqs s)) = owned_row u k (recs s)
     \<and> tenant_rows (dy_fpr (dyn (serve_all reqs s))) u = tenant_rows (dy_fpr (dyn s)) u"
proof (induction reqs s rule: serve_all.induct)
  case (2 en t c reqs s)
  have c: "confined t (passed_gate en t) s (serve en t c s)" by (rule serve_confined [OF "2.prems"(1)])
  have ut: "u \<noteq> t" using "2.prems"(2) by auto
  from c have "pointwise id t (recs s) (recs (serve en t c s))" by (simp add: confined_def)
  from pointwise_owned [OF this ut] have "owned_row u k (recs (serve en t c s)) = owned_row u k (recs s)" .
  moreover have "tenant_rows (dy_fpr (dyn (serve en t c s))) u = tenant_rows (dy_fpr (dyn s)) u"
    using c ut by (simp add: confined_def)
  ultimately show ?case using "2.IH" [OF confined_inv [OF "2.prems"(1) c]] "2.prems"(2) by simp
qed simp

text \<open>C12. Whatever sequence of requests the router serves, each with its own settings, clock and answers of the remote services:
  a record is never lost and only evolves (evidence grows, the state moves forward), a tenant that made none of the
  requests sees its records and false-positive rates unchanged, and everything sent has passed the outbound
  gate for the settings of a request that was made and carries no other tenant than the one configured for it.\<close>

theorem router_confined:
  assumes "api_inv s"
  shows "(\<forall>k row. map_of (recs s) k = Some row \<longrightarrow> (\<exists>row'. map_of (recs (serve_all reqs s)) k = Some row' \<and> evolves sha row row'))
    \<and> (\<forall>u. (\<forall>(en, t, c) \<in> set reqs. t \<noteq> u) \<longrightarrow>
        (\<forall>k. owned_row u k (recs (serve_all reqs s)) = owned_row u k (recs s))
        \<and> tenant_rows (dy_fpr (dyn (serve_all reqs s))) u = tenant_rows (dy_fpr (dyn s)) u)
    \<and> (\<exists>new. ap_log (serve_all reqs s) = ap_log s @ new \<and> (\<forall>q \<in> set new. \<exists>(en, t, c) \<in> set reqs. passed_gate en t q))"
  using serve_all_evolves [OF assms] serve_all_view [OF assms] serve_all_log [OF assms, of reqs, unfolded gated_by_def] by blast

text \<open>A store with one pending record, and services that answer every request alike.\<close>

definition demo_row :: problem_row where
  "demo_row = row_of id (sample_record ''api'' [] \<lparr>pr_record_id := ''PR-1-0001''\<rparr>)"

definition demo_api :: api where
  "demo_api = \<lparr>ap_world = \<lparr>wd_records = [(''PR-1-0001'', demo_row)], wd_states = [], wd_sequences = [((''PR'', ''1''), 1)],
     wd_rounds = empty_rounds, wd_dynamic = \<lparr>dy_maintenance_windows = [], dy_blacklist = [], dy_fpr = [], dy_changes = []\<rparr>\<rparr>,
     ap_log = []\<rparr>"

definition demo_env :: env where
  "demo_env = \<lparr>en_bug_solve_base_url = ''http://93.184.216.34/'', en_diagnose_base_url = ''http://93.184.216.34/d'',
     en_agentflow_tenant = [], en_diagnose_repo = [], en_dns = (\<lambda>h. None), en_allow_loopback = False,
     en_remote = (\<lambda>log q. Response 200 [] (Some (PDict [(''id'', PStr ''T1''), (''number'', PStr ''INC-1''), (''run_id'', PStr ''R1'')]))),
     en_now = 86400000000\<rparr>"

lemma demo_inv: "api_inv demo_api"
proof -
  have "issued [((''PR'', ''1''), 1)] ''PR-1-0001''"
    unfolding issued_def
  proof (intro exI [of _ "''1''"] exI [of _ "1 :: nat"] conjI)
    show "''PR-1-0001'' = seq_format RECORD_PREFIX ''1'' 1" by code_simp
  qed (simp_all add: RECORD_PREFIX_def count_of_def)
  then show ?thesis by (simp add: api_inv_def rec_inv_def demo_api_def demo_row_def row_of_sel)
qed

theorem router_confined_witness:
  "\<exists>row'. map_of (recs (serve_all [(demo_env, ''t1'', AnalyzeProblem ''PR-1-0001'' \<lparr>ab_workflow_id = ''w'', ab_rerun = False\<rparr>),
       (demo_env, ''t1'', IgnoreProblem ''PR-1-0001'')] demo_api)) ''PR-1-0001'' = Some row' \<and> evolves id demo_row row'"
proof -
  have "map_of (recs demo_api) ''PR-1-0001'' = Some demo_row" by (simp add: demo_api_def)
  with router_confined [OF demo_inv, where sha = id] show ?thesis by blast
qed

section \<open>Guards\<close>

lemma rec_get_owned: "t \<noteq> [] \<Longrightarrow> rec_get t rid rows = Inr (owned_row t rid rows)"
  by (simp add: rec_get_def)

lemma the_record_owned: "t \<noteq> [] \<Longrightarrow> owned_row t rid (recs s) = Some r \<Longrightarrow> the_record t rid s = (Inr r, s)"
  by (simp add: the_record_def andthen_def ask_def rec_get_owned ret_def)

lemma andthen_record: "t \<noteq> [] \<Longrightarrow> owned_row t rid (recs s) = Some r \<Longrightarrow> andthen (the_record t rid) f s = f r s"
  by (simp add: andthen_def the_record_owned)

lemma refuse_eq: "refuse c code reason m s = (if c then (Inl (AppException code reason), s) else m s)"
  by (simp add: refuse_def app_error_def raise_def)

definition stamp :: "string \<Rightarrow> string \<Rightarrow> time \<Rightarrow> problem_row \<Rightarrow> problem_row" where
  "stamp state reason now row = row\<lparr>pr_state := state, pr_resolved_at := Some now, pr_resolve_reason := Some reason\<rparr>"

definition with_records :: "(records \<Rightarrow> records) \<Rightarrow> api \<Rightarrow> api" where
  "with_records f s = s\<lparr>ap_world := (ap_world s)\<lparr>wd_records := f (recs s)\<rparr>\<rparr>"

lemma with_records_sel [simp]: "ap_log (with_records f s) = ap_log s" "recs (with_records f s) = f (recs s)"
  by (simp_all add: with_records_def)

lemma do_stamp:
  assumes "t \<noteq> []" "owned_row t rid (recs s) \<noteq> None"
  shows "do_resolve en t rid reason s = (Inr (), with_records (update_row rid (stamp ''resolved'' reason (en_now en))) s)"
    "do_close en t rid reason s = (Inr (), with_records (update_row rid (stamp ''closed'' reason (en_now en))) s)"
  using assms by (auto simp: do_resolve_def do_close_def on_records_def rec_resolve_def rec_close_def set_terminal_state_def
      with_records_def stamp_def [abs_def])

lemma record_fpr_runs:
  assumes "t \<noteq> []"
  obtains b s' where "record_fpr t r fp s = (Inr b, s')" "ap_log s' = ap_log s" "recs s' = recs s"
  using assms that by (cases "row_group_key r = []")
    (auto simp: record_fpr_def ret_def andthen_def on_dynamic_def write_fpr_def ask_def load_fpr_def Let_def)

lemma do_evidence_runs:
  assumes "t \<noteq> []" "owned_row t rid (recs s) \<noteq> None"
  shows "do_evidence t rid e s = (Inr True, with_records (update_row rid (\<lambda>row. row\<lparr>pr_evidence := pr_evidence row @ [e]\<rparr>)) s)"
  using assms by (auto simp: do_evidence_def on_records_def append_evidence_def with_records_def)

lemma run_decision_outcome:
  assumes "t \<noteq> []" "owned_row t rid (recs s) = Some r"
  shows "snd (record_run_decision en t rid rb s) = s \<or> (\<exists>e. is_type ''run_decision'' e
    \<and> snd (record_run_decision en t rid rb s) = with_records (update_row rid (\<lambda>row. row\<lparr>pr_evidence := pr_evidence row @ [e]\<rparr>)) s)"
proof -
  let ?run = "strip (rb_run_id rb)" let ?node = "if strip (rb_node_id rb) = [] then ''approve-plan'' else strip (rb_node_id rb)"
  let ?found = "find (\<lambda>e. py_get e ''run_id'' = PStr ?run \<and> py_get e ''node_id'' = PStr ?node) (run_decisions r)"
  have ty: "is_type ''run_decision'' ((''type'', PStr ''run_decision'') # es)" for es by (simp add: is_type_def py_get_def)
  have own: "owned_row t rid (recs s) \<noteq> None" using assms(2) by simp
  show ?thesis
  proof (cases "?run = [] \<or> ?found \<noteq> None")
    case True
    then have "snd (record_run_decision en t rid rb s) = s"
      by (auto simp: record_run_decision_def andthen_record [OF assms] refuse_eq Let_def ret_def)
    then show ?thesis ..
  next
    case False
    then have "snd (record_run_decision en t rid rb s) = with_records (update_row rid (\<lambda>row. row\<lparr>pr_evidence := pr_evidence row
        @ [(''type'', PStr ''run_decision'') # [(''run_id'', PStr ?run), (''node_id'', PStr ?node), (''approved'', PBool (rb_approved rb)),
          (''by'', PStr (rb_by rb)), (''comment'', PStr (rb_comment rb)), (''decided_at'', PTime (en_now en))]]\<rparr>)) s"
      by (simp only: record_run_decision_def andthen_record [OF assms] refuse_eq Let_def option.case simp_thms if_False not_not)
        (simp add: andthen_def do_evidence_runs [OF assms(1) own] refuse_eq ret_def)
    then show ?thesis using ty by blast
  qed
qed

text \<open>C16. What an operator can still do with a record in a terminal state. Escalation, analysis, diagnosis and every decision
  on a diagnosis are refused, write to no store and send no request: with a conflict, or, for an analysis without a
  workflow, as invalid. Resolving and ignoring are not guarded: they move the record from any terminal state into theirs and
  replace time and reason of the earlier transition. A decision on a run adds at most one piece of evidence and
  keeps the state. None of the seven sends anything or touches another record.\<close>

theorem terminal_record_actions:
  assumes "t \<noteq> []" and "owned_row t rid (recs s) = Some r" and "pr_state r \<in> {''resolved'', ''closed'', ''archived'', ''escalated''}"
  shows "(\<exists>m. escalate_problem en t rid name s = (Inl (AppException CONFLICT m), s))
    \<and> (\<exists>m. analyze_problem en t rid ab s = (Inl (AppException (if strip (ab_workflow_id ab) = [] then VALIDATION else CONFLICT) m), s))
    \<and> (\<exists>m. diagnose_problem en t rid dg s = (Inl (AppException CONFLICT m), s))
    \<and> (\<exists>m. decide_problem_diagnosis en t rid db s = (Inl (AppException CONFLICT m), s))
    \<and> (\<exists>a s'. resolve_problem en t rid body s = (Inr a, s') \<and> ap_log s' = ap_log s \<and> recs s' = update_row rid (\<lambda>row.
        row\<lparr>pr_state := ''resolved'', pr_resolved_at := Some (en_now en), pr_resolve_reason := Some ''manual''\<rparr>) (recs s))
    \<and> (\<exists>a s'. ignore_problem en t rid s = (Inr a, s') \<and> ap_log s' = ap_log s \<and> recs s' = update_row rid (\<lambda>row.
        row\<lparr>pr_state := ''closed'', pr_resolved_at := Some (en_now en), pr_resolve_reason := Some ''ignored''\<rparr>) (recs s))
    \<and> (\<exists>a s'. record_run_decision en t rid rb s = (a, s') \<and> ap_log s' = ap_log s \<and> (recs s' = recs s
        \<or> (\<exists>e. is_type ''run_decision'' e \<and> recs s' = update_row rid (\<lambda>row. row\<lparr>pr_evidence := pr_evidence row @ [e]\<rparr>) (recs s))))"
proof (intro conjI)
  have own: "owned_row t rid (recs s) \<noteq> None" using assms(2) by simp
  have term': "is_terminal r" using assms(3) by (auto simp: is_terminal_def TERMINAL_STATES_def)
  note guarded = andthen_record [OF assms(1,2)] refuse_eq Let_def term'
  show "\<exists>m. escalate_problem en t rid name s = (Inl (AppException CONFLICT m), s)"
    "\<exists>m. analyze_problem en t rid ab s = (Inl (AppException (if strip (ab_workflow_id ab) = [] then VALIDATION else CONFLICT) m), s)"
    "\<exists>m. diagnose_problem en t rid dg s = (Inl (AppException CONFLICT m), s)"
    "\<exists>m. decide_problem_diagnosis en t rid db s = (Inl (AppException CONFLICT m), s)"
    by (simp_all add: escalate_problem_def analyze_problem_def diagnose_problem_def decide_problem_diagnosis_def guarded)
  show "\<exists>a s'. resolve_problem en t rid body s = (Inr a, s') \<and> ap_log s' = ap_log s \<and> recs s' = update_row rid (\<lambda>row.
        row\<lparr>pr_state := ''resolved'', pr_resolved_at := Some (en_now en), pr_resolve_reason := Some ''manual''\<rparr>) (recs s)"
  proof -
    let ?fp = "truthy (py_get_or (case body of None \<Rightarrow> [] | Some b \<Rightarrow> b) ''false_positive'' (PBool False))"
    obtain b s1 where f: "record_fpr t r ?fp s = (Inr b, s1)" "ap_log s1 = ap_log s" "recs s1 = recs s"
      by (rule record_fpr_runs [OF assms(1)])
    have "owned_row t rid (recs s1) \<noteq> None" using own f(3) by simp
    from do_stamp(1) [OF assms(1) this, of en "''manual''"] f show ?thesis
      by (simp add: resolve_problem_def guarded) (simp add: andthen_def ret_def stamp_def [abs_def])
  qed
  show "\<exists>a s'. ignore_problem en t rid s = (Inr a, s') \<and> ap_log s' = ap_log s \<and> recs s' = update_row rid (\<lambda>row.
        row\<lparr>pr_state := ''closed'', pr_resolved_at := Some (en_now en), pr_resolve_reason := Some ''ignored''\<rparr>) (recs s)"
    using do_stamp(2) [OF assms(1) own, of en "''ignored''"]
    by (simp add: ignore_problem_def guarded) (simp add: andthen_def ret_def stamp_def [abs_def])
  show "\<exists>a s'. record_run_decision en t rid rb s = (a, s') \<and> ap_log s' = ap_log s \<and> (recs s' = recs s
        \<or> (\<exists>e. is_type ''run_decision'' e \<and> recs s' = update_row rid (\<lambda>row. row\<lparr>pr_evidence := pr_evidence row @ [e]\<rparr>) (recs s)))"
    using run_decision_outcome [OF assms(1,2), of en rb] by (cases "record_run_decision en t rid rb s") auto
qed

theorem terminal_record_actions_witness:
  "fst (decide_problem_diagnosis demo_env ''t1'' ''PR-1-0001'' \<lparr>db_decision = Escalate, db_feedback = [], db_option_index = None\<rparr>
     (demo_api\<lparr>ap_world := (ap_world demo_api)\<lparr>wd_records := [(''PR-1-0001'', demo_row\<lparr>pr_state := ''escalated''\<rparr>)]\<rparr>\<rparr>))
     \<in> range (\<lambda>m. Inl (AppException CONFLICT m))
   \<and> map (\<lambda>(k, row). (k, pr_state row)) (recs (snd (resolve_problem demo_env ''t1'' ''PR-1-0001'' None
     (demo_api\<lparr>ap_world := (ap_world demo_api)\<lparr>wd_records := [(''PR-1-0001'', demo_row\<lparr>pr_state := ''escalated''\<rparr>)]\<rparr>\<rparr>))))
     = [(''PR-1-0001'', ''resolved'')]"
proof -
  let ?s = "demo_api\<lparr>ap_world := (ap_world demo_api)\<lparr>wd_records := [(''PR-1-0001'', demo_row\<lparr>pr_state := ''escalated''\<rparr>)]\<rparr>\<rparr>"
  let ?b = "\<lparr>db_decision = Escalate, db_feedback = [], db_option_index = None\<rparr>"
  have o: "owned_row ''t1'' ''PR-1-0001'' (recs ?s) = Some (demo_row\<lparr>pr_state := ''escalated''\<rparr>)"
    by (simp add: owned_row_def demo_row_def row_of_sel sample_record_def)
  have st: "pr_state (demo_row\<lparr>pr_state := ''escalated''\<rparr>) \<in> {''resolved'', ''closed'', ''archived'', ''escalated''}" by simp
  have t: "''t1'' \<noteq> []" by simp
  note all = terminal_record_actions [OF t o st, where en = demo_env and db = ?b and body = None]
  from all have "\<exists>m. decide_problem_diagnosis demo_env ''t1'' ''PR-1-0001'' ?b ?s = (Inl (AppException CONFLICT m), ?s)" by blast
  moreover from all obtain a s' where "resolve_problem demo_env ''t1'' ''PR-1-0001'' None ?s = (Inr a, s')"
    "recs s' = update_row ''PR-1-0001'' (\<lambda>row. row\<lparr>pr_state := ''resolved'', pr_resolved_at := Some (en_now demo_env),
      pr_resolve_reason := Some ''manual''\<rparr>) (recs ?s)" by blast
  ultimately show ?thesis by (auto simp: update_row_def map_vals_def)
qed

end
