(* ===== verification/Apm_Ticketing.thy ===== *)
theory Apm_Ticketing
  imports Apm_Lifecycle
begin

text \<open>
  Properties of single flows of \<open>router/problems.py\<close>, over the handler logic: a record gets one ticket, reporting a ticket's
  status twice changes nothing, the analysis window is bounded, waiting for the ticket of a run ends, and the rerun of a
  rejected diagnosis carries the comment of the rejection.
\<close>

section \<open>Tickets\<close>

text \<open>A request that creates a ticket carries a bug report.\<close>

definition creates_ticket :: "http_request \<Rightarrow> bool" where
  "creates_ticket q \<longleftrightarrow> ''bug_report'' \<in> fst ` set (rq_json q)"

abbreviation quiet :: "string \<Rightarrow> 'a act \<Rightarrow> bool" where
  "quiet t m \<equiv> keeps api_inv (confined t (\<lambda>q. \<not> creates_ticket q)) m"

lemma quiet_requests [keeps_intros]:
  "''bug_report'' \<notin> fst ` set json \<Longrightarrow> quiet t (post en url json tenant)" "quiet t (http_get en url tenant)"
  by (auto simp: post_def http_get_def creates_ticket_def intro!: keeps_guarded_send)

lemma quiet_reads [keeps_intros]:
  "quiet t (the_record t' rid)" "quiet t (fetch_run en t' run_id)" "quiet t (fetch_workflows en t')" "quiet t (poll_ticket en t' run_id n)"
  "quiet t (resolve_workflow_id en t' name)" "quiet t (fetch_snapshot en sid)"
proof -
  show r: "quiet t (the_record t' rid)" "quiet t (fetch_run en t' run_id)" "quiet t (fetch_workflows en t')" for run_id
    unfolding the_record_def fetch_run_def fetch_workflows_def af_get_def by (intro keeps_intros)+
  show "quiet t (poll_ticket en t' run_id n)" by (induction n) (auto intro!: r keeps_intros)
  show "quiet t (resolve_workflow_id en t' name)" "quiet t (fetch_snapshot en sid)"
    unfolding resolve_workflow_id_def fetch_snapshot_def spike_get_def by (intro r keeps_intros)+
qed

lemma quiet_spike_post [keeps_intros]: "''bug_report'' \<notin> fst ` set json \<Longrightarrow> quiet t (spike_post en path json)"
  unfolding spike_post_def by (intro keeps_intros)

lemma quiet_start_run [keeps_intros]: "quiet t (start_run en t' wid inputs)"
  unfolding start_run_def run_request_def by (intro keeps_intros) simp_all

lemma quiet_gate [keeps_intros]:
  "quiet t (gate_outcome node_id (\<lambda>n. agentflow_reject_node en t' run_id n who comment) recorded)"
  "quiet t (gate_outcome node_id (\<lambda>n. agentflow_approve_node en t' run_id n who comment) recorded)"
  unfolding gate_outcome_def agentflow_reject_node_def agentflow_approve_node_def answer_gate_def
  by (intro keeps_intros; simp)+

lemma quiet_closing [keeps_intros]:
  "quiet t (dismiss_record en t r rid dec)" "quiet t (apply_escalated_state en t rid d recorded)"
  "quiet t (finish_decision en t r rid sid dec recorded)"
  unfolding record_fpr_def dismiss_record_def apply_escalated_state_def finish_decision_def
  by (intro keeps_intros)+

lemma quiet_agentflow: "quiet t (decide_agentflow en t r rid entry b)"
  unfolding decide_agentflow_def agentflow_escalate_def agentflow_rerun_def agentflow_dismiss_def read_escalation_ticket_def
  by (intro keeps_intros)

lemma quiet_spike: "created_ticket r \<noteq> None \<Longrightarrow> quiet t (decide_spike en t r rid entry b)"
  unfolding decide_spike_def spike_reject_def spike_escalate_def spike_dismiss_def
  by (intro keeps_intros) (auto split: option.splits)

lemma andthen_Inr: "andthen m f s = (Inr y, s') \<longleftrightarrow> (\<exists>x s1. m s = (Inr x, s1) \<and> f x s1 = (Inr y, s'))"
  by (cases "m s") (auto simp: andthen_def split: sum.split)

lemma refuse_Inr: "refuse c code reason m s = (Inr y, s') \<longleftrightarrow> \<not> c \<and> m s = (Inr y, s')"
  by (simp add: refuse_eq)

lemma ret_Inr: "ret x s = (Inr y, s') \<longleftrightarrow> y = x \<and> s' = s"
  by (auto simp: ret_def)

lemma error_Inr [simp]: "app_error code reason s \<noteq> (Inr y, s')" "raise e s \<noteq> (Inr y, s')"
  by (simp_all add: app_error_def raise_def)

lemma the_record_Inr: "the_record t rid s = (Inr r, s') \<longleftrightarrow> t \<noteq> [] \<and> owned_row t rid (recs s) = Some r \<and> s' = s"
  by (auto simp: the_record_def andthen_def ask_def rec_get_def ret_def require_tenant_def app_error_def raise_def split: option.split)

lemmas act_Inr = andthen_Inr refuse_Inr ret_Inr the_record_Inr

lemma owned_update: "owned_row t rid rows = Some r \<Longrightarrow> pr_tenant_id (f r) = pr_tenant_id r \<Longrightarrow> owned_row t rid (update_row rid f rows) = Some (f r)"
  by (auto simp: owned_row_def map_of_update_row split: option.splits if_splits)

lemma do_evidence_row:
  assumes "do_evidence t rid e s = (Inr ok, s')" and "owned_row t rid (recs s) = Some r"
  shows "owned_row t rid (recs s') = Some (r\<lparr>pr_evidence := pr_evidence r @ [e]\<rparr>)" "ap_log s' = ap_log s" "ok"
  using assms owned_update [OF assms(2), of "\<lambda>row. row\<lparr>pr_evidence := pr_evidence row @ [e]\<rparr>"]
  by (auto simp: do_evidence_def on_records_def append_evidence_def require_tenant_def split: if_splits)

lemma do_escalate_row:
  assumes "do_escalate en t rid reason s = (Inr u, s')" and "owned_row t rid (recs s) = Some r"
  shows "owned_row t rid (recs s') = Some (r\<lparr>pr_state := ''escalated'', pr_resolved_at := Some (en_now en), pr_resolve_reason := Some reason\<rparr>)"
    "ap_log s' = ap_log s"
  using assms owned_update [OF assms(2), of "\<lambda>row. row\<lparr>pr_state := ''escalated'', pr_resolved_at := Some (en_now en), pr_resolve_reason := Some reason\<rparr>"]
  by (auto simp: do_escalate_def on_records_def mark_escalated_def set_terminal_state_def require_tenant_def split: if_splits)

lemma post_log:
  assumes "post en url json tenant s = (Inr resp, s')"
  shows "ap_log s' = ap_log s @ [\<lparr>rq_method = ''POST'', rq_url = url, rq_json = json, rq_tenant = tenant\<rparr>]" "ap_world s' = ap_world s"
  using assms by (auto simp: post_def guarded_send_def andthen_Inr lift_res_def send_def split: http_response.splits)

lemma create_ticket_log:
  assumes "agentflow_create_ticket en t r run wid s = (Inr ticket, s')"
  shows "fst ticket \<noteq> []" "\<exists>q. ap_log s' = ap_log s @ [q] \<and> creates_ticket q" "recs s' = recs s"
proof -
  from assms obtain digest num s1 resp s2 row s3 where num: "ticket_number (en_now en) s = (Inr num, s1)"
    and p: "post en (rstrip_slash (en_bug_solve_base_url en) @ ''/tickets'') (create_ticket_payload en t r digest num wid)
         (Some (agentflow_tenant en t)) s1 = (Inr resp, s2)"
    and row: "json_body resp ''create ticket returned invalid body'' s2 = (Inr row, s3)" "s' = s3" "fst ticket \<noteq> []"
    by (auto simp: agentflow_create_ticket_def act_Inr lift_res_def Let_def)
  have rest: "s' = s2" using row(1,2) by (auto simp: json_body_def ret_Inr split: option.splits pyval.splits)
  have n: "ap_log s1 = ap_log s" "recs s1 = recs s" using num by (auto simp: ticket_number_def split: prod.splits)
  show "fst ticket \<noteq> []" by (rule row(3))
  show "recs s' = recs s" using rest post_log [OF p] n by simp
  have "''bug_report'' \<in> fst ` set (create_ticket_payload en t r digest num wid)"
    by (cases "analysis_window (en_now en) r") (simp add: create_ticket_payload_def)
  then show "\<exists>q. ap_log s' = ap_log s @ [q] \<and> creates_ticket q"
    using rest post_log [OF p] n by (simp add: creates_ticket_def)
qed

lemma created_ticket_iff:
  "created_ticket r \<noteq> None \<longleftrightarrow> (\<exists>e \<in> set (pr_evidence r). is_type ''diagnose_decision'' e
     \<and> py_get e ''decision'' = PStr ''escalate'' \<and> truthy (py_get e ''ticket_id''))"
  by (auto simp: created_ticket_def find_None_iff)

lemma created_ticket_evolves: "created_ticket r \<noteq> None \<Longrightarrow> evolves sha r r' \<Longrightarrow> created_ticket r' \<noteq> None"
  unfolding created_ticket_iff evolves_def by auto

lemma manual_escalation_ticket: "fst ticket \<noteq> [] \<Longrightarrow> created_ticket (r\<lparr>pr_evidence := ev @ [manual_escalation now ticket name]\<rparr>) \<noteq> None"
  unfolding created_ticket_iff by (rule bexI [of _ "manual_escalation now ticket name"])
    (simp_all add: manual_escalation_def is_type_def py_get_def)

lemma confined_row:
  assumes "confined t gate s s'" and "owned_row t rid (recs s) = Some r"
  shows "\<exists>r'. owned_row t rid (recs s') = Some r' \<and> evolves sha r r'"
proof -
  from assms(1) have "pointwise sha t (recs s) (recs s')" by (simp add: confined_def)
  moreover from assms(2) have "map_of (recs s) rid = Some r" "pr_tenant_id r = t" by (simp_all add: owned_row_Some)
  ultimately show ?thesis using pointwise_row by (fastforce simp: owned_row_Some evolves_def)
qed

lemma confined_log: "confined t gate s s' \<Longrightarrow> \<exists>new. ap_log s' = ap_log s @ new \<and> (\<forall>q \<in> set new. gate q)"
  by (simp add: confined_def)

lemma escalate_problem_row:
  assumes "api_inv s" and "escalate_problem en t rid name s = (Inr out, s')"
  obtains r where "owned_row t rid (recs s') = Some r" "pr_state r = ''escalated''" "created_ticket r \<noteq> None"
    "\<exists>new. ap_log s' = ap_log s @ new \<and> length (filter creates_ticket new) = 1"
proof -
  let ?name = "strip (case name of None \<Rightarrow> [] | Some n \<Rightarrow> n)"
  from assms(2) obtain r wid s1 ticket s2 ok s3 u where r: "owned_row t rid (recs s) = Some r"
    and wf: "resolve_workflow_id en t ?name s = (Inr wid, s1)"
    and ticket: "agentflow_create_ticket en t r [] wid s1 = (Inr ticket, s2)"
    and ev: "do_evidence t rid (manual_escalation (en_now en) ticket ?name) s2 = (Inr ok, s3)"
    and es: "apply_escalated_state en t rid ''escalate'' (manual_escalation (en_now en) ticket ?name) s3 = (Inr u, s')"
    by (auto simp: escalate_problem_def act_Inr Let_def)
  have c1: "confined t (\<lambda>q. \<not> creates_ticket q) s s1"
    using keepsD [OF quiet_reads(5) assms(1), of t en t ?name] wf by simp
  from confined_row [OF c1 r] obtain r1 where r1: "owned_row t rid (recs s1) = Some r1" by blast
  note t = create_ticket_log [OF ticket]
  from r1 t(3) have r2: "owned_row t rid (recs s2) = Some r1" by simp
  note e = do_evidence_row [OF ev r2]
  from es obtain reason where "do_escalate en t rid reason s3 = (Inr u, s')" by (auto simp: apply_escalated_state_def Let_def)
  note f = do_escalate_row [OF this e(1)]
  from confined_log [OF c1] obtain new where new: "ap_log s1 = ap_log s @ new" "\<forall>q \<in> set new. \<not> creates_ticket q" by blast
  from t(2) obtain q where q: "ap_log s2 = ap_log s1 @ [q]" "creates_ticket q" by blast
  have "ap_log s' = ap_log s @ (new @ [q]) \<and> length (filter creates_ticket (new @ [q])) = 1"
    using f(2) e(2) new q by (simp add: filter_False)
  moreover have "created_ticket (r1\<lparr>pr_evidence := pr_evidence r1 @ [manual_escalation (en_now en) ticket ?name],
      pr_state := ''escalated'', pr_resolved_at := Some (en_now en), pr_resolve_reason := Some reason\<rparr>) \<noteq> None"
    using manual_escalation_ticket [OF t(1)] by (simp add: created_ticket_def)
  ultimately show thesis using f(1) by (intro that) auto
qed

text \<open>C13. Escalating a record dispatches exactly one ticket and leaves the record escalated, and from then on, whatever requests
  the router has served in between, escalating the record again is refused without sending anything and no
  decision on its diagnosis sends a request for a ticket.\<close>

theorem one_ticket_per_record:
  assumes "api_inv s" and "escalate_problem en t rid name s = (Inr out, s1)"
  shows "(\<exists>r. owned_row t rid (recs s1) = Some r \<and> pr_state r = ''escalated'')
    \<and> (\<exists>new. ap_log s1 = ap_log s @ new \<and> length (filter creates_ticket new) = 1)
    \<and> (\<exists>m. escalate_problem en' t rid name' (serve_all reqs s1) = (Inl (AppException CONFLICT m), serve_all reqs s1))
    \<and> (\<exists>new. ap_log (snd (decide_problem_diagnosis en' t rid b (serve_all reqs s1))) = ap_log (serve_all reqs s1) @ new
         \<and> (\<forall>q \<in> set new. \<not> creates_ticket q))"
proof -
  from escalate_problem_row [OF assms] obtain r where r: "owned_row t rid (recs s1) = Some r" "pr_state r = ''escalated''"
    "created_ticket r \<noteq> None" "\<exists>new. ap_log s1 = ap_log s @ new \<and> length (filter creates_ticket new) = 1" .
  let ?s = "serve_all reqs s1"
  have t: "t \<noteq> []" using assms(2) by (auto simp: escalate_problem_def act_Inr)
  have inv1: "api_inv s1" using keepsD [OF obeys_handlers(3) assms(1), of t en rid name] assms by (auto intro: confined_inv)
  have inv: "api_inv ?s" by (rule serve_all_inv [OF inv1])
  from r(1) have "map_of (recs s1) rid = Some r" "pr_tenant_id r = t" by (simp_all add: owned_row_Some)
  with serve_all_evolves [OF inv1] obtain r2 where r2: "map_of (recs ?s) rid = Some r2" "evolves id r r2" by blast
  then have o: "owned_row t rid (recs ?s) = Some r2" using \<open>pr_tenant_id r = t\<close> by (simp add: owned_row_Some evolves_def)
  have c: "created_ticket r2 \<noteq> None" by (rule created_ticket_evolves [OF r(3) r2(2)])
  have "\<exists>m. escalate_problem en' t rid name' ?s = (Inl (AppException CONFLICT m), ?s)"
    using c by (simp add: escalate_problem_def andthen_record [OF t o] refuse_eq)
  moreover have "confined t (\<lambda>q. \<not> creates_ticket q) ?s (snd (decide_problem_diagnosis en' t rid b ?s))"
    unfolding decide_problem_diagnosis_def andthen_record [OF t o]
    by (rule keepsD [where I = api_inv]) (intro keeps_intros quiet_agentflow quiet_spike [OF c] inv)+
  ultimately show ?thesis using r confined_log by blast
qed

lemma conclusion_digest_Nil: "conclusion_digest [] = Inr []"
  by code_simp

lemma post_answer:
  assumes "validate_url (en_dns en) (en_allow_loopback en) url = Inr url" and "\<And>log q. en_remote en log q = Response st tx v"
  shows "post en url json tenant s = (Inr (Response st tx v), s\<lparr>ap_log := ap_log s @ [\<lparr>rq_method = ''POST'', rq_url = url, rq_json = json, rq_tenant = tenant\<rparr>]\<rparr>)"
  using assms by (simp add: post_def guarded_send_def andthen_def lift_res_def send_def)

text \<open>Escalation without a workflow succeeds when the service answers with a ticket id.\<close>

lemma escalate_succeeds:
  assumes "t \<noteq> []" and "owned_row t rid (recs s) = Some r" and "created_ticket r = None" and "\<not> is_terminal r"
    and url: "validate_url (en_dns en) (en_allow_loopback en) (rstrip_slash (en_bug_solve_base_url en) @ ''/tickets'')
      = Inr (rstrip_slash (en_bug_solve_base_url en) @ ''/tickets'')"
    and "\<And>log q. en_remote en log q = Response st tx (Some (PDict row))" and "st < 300" and "truthy (py_get row ''id'')"
    and "str_or (py_get row ''id'') \<noteq> []"
  shows "\<exists>out s'. escalate_problem en t rid None s = (Inr out, s')"
proof -
  have "row \<noteq> []" using assms(8) by (auto simp: py_get_def)
  obtain num sq where num: "next_ticket_number (en_now en) (seqs s) = (num, sq)" by (cases "next_ticket_number (en_now en) (seqs s)")
  let ?s1 = "s\<lparr>ap_world := (ap_world s)\<lparr>wd_sequences := sq\<rparr>\<rparr>"
  obtain s2 where ticket: "agentflow_create_ticket en t r [] [] s = (Inr (str_or (py_get row ''id''), str_or (py_get row ''number'')), s2)"
    and s2: "recs s2 = recs s"
    using post_answer [OF url assms(6)] assms(7,9) \<open>row \<noteq> []\<close> num
    by (simp add: agentflow_create_ticket_def conclusion_digest_Nil andthen_def lift_res_def ticket_number_def refuse_eq upstream_failed_def
        ok_status_def json_body_def body_or_empty_def ret_def Let_def)
  have "owned_row t rid (recs s2) = Some r" using assms(2) s2 by simp
  then show ?thesis
    using assms(1,3,4) ticket
    by (simp add: escalate_problem_def the_record_owned [OF assms(1,2)] refuse_eq resolve_workflow_id_def strip_def ret_def andthen_def
        do_evidence_def on_records_def append_evidence_def apply_escalated_state_def do_escalate_def mark_escalated_def
        set_terminal_state_def Let_def)
qed

theorem one_ticket_per_record_witness:
  "\<exists>s1. snd (escalate_problem demo_env ''t1'' ''PR-1-0001'' None demo_api) = s1 \<and> length (filter creates_ticket (ap_log s1)) = 1
     \<and> (\<exists>m. escalate_problem demo_env ''t1'' ''PR-1-0001'' None s1 = (Inl (AppException CONFLICT m), s1))"
proof -
  have row: "owned_row ''t1'' ''PR-1-0001'' (recs demo_api) = Some demo_row" "created_ticket demo_row = None" "\<not> is_terminal demo_row"
    by code_simp+
  have url: "validate_url (en_dns demo_env) (en_allow_loopback demo_env) (rstrip_slash (en_bug_solve_base_url demo_env) @ ''/tickets'')
      = Inr (rstrip_slash (en_bug_solve_base_url demo_env) @ ''/tickets'')" by code_simp
  have "\<exists>out s'. escalate_problem demo_env ''t1'' ''PR-1-0001'' None demo_api = (Inr out, s')"
    by (rule escalate_succeeds [OF _ row url, where st = 200 and tx = "[]"
          and row = "[(''id'', PStr ''T1''), (''number'', PStr ''INC-1''), (''run_id'', PStr ''R1'')]"])
      (simp_all add: demo_env_def py_get_def str_or_def py_str_def)
  then obtain out s1 where e: "escalate_problem demo_env ''t1'' ''PR-1-0001'' None demo_api = (Inr out, s1)" by blast
  from one_ticket_per_record [OF demo_inv e, where reqs = "[]" and en' = demo_env and name' = None
      and b = "\<lparr>db_decision = Escalate, db_feedback = [], db_option_index = None\<rparr>", unfolded serve_all.simps]
  obtain new m where "ap_log s1 = ap_log demo_api @ new" "length (filter creates_ticket new) = 1"
    "escalate_problem demo_env ''t1'' ''PR-1-0001'' None s1 = (Inl (AppException CONFLICT m), s1)" by blast
  with e show ?thesis by (intro exI [of _ s1]) (simp add: demo_api_def)
qed

section \<open>Ticket status\<close>

lemma find_update_row:
  assumes "find P rows = Some (k, r)" and "distinct (map fst rows)" and "P (k, f r)"
  shows "find P (update_row k f rows) = Some (k, f r)"
  using assms
proof (induction rows)
  case (Cons x rows)
  obtain k' r' where x: "x = (k', r')" by (cases x)
  show ?case
  proof (cases "P x")
    case True
    with Cons.prems x show ?thesis by (simp add: update_row_def map_vals_def)
  next
    case False
    then have f: "find P rows = Some (k, r)" using Cons.prems(1) by simp
    then have "(k, r) \<in> set rows" by (auto simp: find_Some_iff)
    with Cons.prems(2) x have "k' \<noteq> k" by (auto simp: image_iff)
    with Cons.IH [OF f _ Cons.prems(3)] Cons.prems(2) False x show ?thesis by (simp add: update_row_def map_vals_def)
  qed
qed simp

lemma find_by_ticket_Some:
  assumes "api_inv s" and "find_by_ticket t ticket (recs s) = Inr (Some r)"
  shows "t \<noteq> []" "find (\<lambda>(rid, row). pr_tenant_id row = t \<and> holds_ticket row ticket) (recs s) = Some (pr_record_id r, r)"
    "owned_row t (pr_record_id r) (recs s) = Some r"
proof -
  have t: "t \<noteq> []" and "\<exists>k. find (\<lambda>(rid, row). pr_tenant_id row = t \<and> holds_ticket row ticket) (recs s) = Some (k, r)"
    using assms(2) by (auto simp: find_by_ticket_def)
  then obtain k where f: "find (\<lambda>(rid, row). pr_tenant_id row = t \<and> holds_ticket row ticket) (recs s) = Some (k, r)" by blast
  then have "(k, r) \<in> set (recs s)" "pr_tenant_id r = t" by (auto simp: find_Some_iff) (metis nth_mem)
  with assms(1) have "map_of (recs s) k = Some r" by (simp add: api_inv_def rec_inv_def)
  with assms(1) have "pr_record_id r = k" by (simp add: api_inv_def rec_inv_def del: map_of_eq_Some_iff)
  with f t \<open>map_of (recs s) k = Some r\<close> \<open>pr_tenant_id r = t\<close>
  show "t \<noteq> []" "find (\<lambda>(rid, row). pr_tenant_id row = t \<and> holds_ticket row ticket) (recs s) = Some (pr_record_id r, r)"
    "owned_row t (pr_record_id r) (recs s) = Some r" by (simp_all add: owned_row_Some)
qed

definition report_row :: "env \<Rightarrow> ticket_status_body \<Rightarrow> problem_row \<Rightarrow> problem_row" where
  "report_row en b r = (let ticket = strip (ts_ticket_id b); r1 = r\<lparr>pr_evidence := pr_evidence r @ [ticket_entry (en_now en) ticket b]\<rparr> in
     if ts_status b = ''resolved'' \<and> pr_state r = ''escalated''
     then r1\<lparr>pr_state := ''resolved'', pr_resolved_at := Some (en_now en), pr_resolve_reason := Some (''agentflow:resolved:'' @ ticket)\<rparr>
     else r1)"

lemma update_row_twice: "update_row k g (update_row k f rows) = update_row k (g \<circ> f) rows"
  by (induction rows) (auto simp: update_row_def map_vals_def)

lemma update_row_cong:
  assumes "map_of rows k = Some r" "distinct (map fst rows)" "f r = g r"
  shows "update_row k f rows = update_row k g rows"
proof -
  have "x = r" if "(k, x) \<in> set rows" for x using map_of_is_SomeI [OF assms(2) that] assms(1) by simp
  with assms(3) show ?thesis unfolding update_row_def map_vals_def by (intro map_cong) auto
qed

lemma report_new:
  assumes "api_inv s" and "find_by_ticket t (strip (ts_ticket_id b)) (recs s) = Inr (Some r)" and "strip (ts_ticket_id b) \<noteq> []"
    and "\<not> (\<exists>e \<in> set (pr_evidence r). same_ticket_status e (ticket_entry (en_now en) (strip (ts_ticket_id b)) b))"
  shows "snd (report_ticket_status en t b s) = s\<lparr>ap_world := (ap_world s)\<lparr>wd_records := update_row (pr_record_id r) (report_row en b) (recs s)\<rparr>\<rparr>"
proof -
  note f = find_by_ticket_Some [OF assms(1,2)]
  let ?e = "ticket_entry (en_now en) (strip (ts_ticket_id b)) b" and ?rid = "pr_record_id r"
  let ?rows = "update_row ?rid (\<lambda>row. row\<lparr>pr_evidence := pr_evidence row @ [?e]\<rparr>) (recs s)"
  have d: "distinct (map fst (recs s))" using assms(1) by (simp add: api_inv_def rec_inv_def)
  have m: "map_of (recs s) ?rid = Some r" using f(3) by (simp add: owned_row_Some)
  have o: "owned_row t ?rid ?rows = Some (r\<lparr>pr_evidence := pr_evidence r @ [?e]\<rparr>)"
    using owned_update [OF f(3), of "\<lambda>row. row\<lparr>pr_evidence := pr_evidence row @ [?e]\<rparr>"] by simp
  show ?thesis
  proof (cases "ts_status b = ''resolved'' \<and> pr_state r = ''escalated''")
    case True
    then show ?thesis
      using assms(2-4) f(1,3) o
      by (simp add: report_ticket_status_def refuse_eq andthen_def ask_def do_evidence_def on_records_def append_evidence_def do_resolve_def
          rec_resolve_def set_terminal_state_def ret_def Let_def update_row_twice)
        (intro arg_cong2 [where f = "\<lambda>x y. s\<lparr>ap_world := x\<lparr>wd_records := y\<rparr>\<rparr>"] refl update_row_cong [OF m d], simp add: report_row_def Let_def)
  next
    case False
    then show ?thesis
      using assms(2-4) f(1,3) o
      by (cases "ts_status b = ''resolved''"; simp add: report_ticket_status_def refuse_eq andthen_def ask_def do_evidence_def
            on_records_def append_evidence_def ret_def Let_def)
        (intro arg_cong2 [where f = "\<lambda>x y. s\<lparr>ap_world := x\<lparr>wd_records := y\<rparr>\<rparr>"] refl update_row_cong [OF m d], simp add: report_row_def Let_def)+
  qed
qed

lemma same_ticket_status_self: "same_ticket_status (ticket_entry now ticket b) (ticket_entry now' ticket b)"
  by (simp add: same_ticket_status_def ticket_entry_def is_type_def py_get_def)

lemma same_ticket_status_now: "same_ticket_status e (ticket_entry now ticket b) = same_ticket_status e (ticket_entry now' ticket b)"
  by (simp add: same_ticket_status_def ticket_entry_def py_get_def)

definition duplicate_answer :: "problem_row \<Rightarrow> pydict" where
  "duplicate_answer r = [(''ok'', PBool True), (''duplicate'', PBool True), (''record_id'', PStr (pr_record_id r)),
     (''state'', PStr (pr_state r)), (''state_changed'', PBool False)]"

lemma report_duplicate:
  assumes "find_by_ticket t (strip (ts_ticket_id b)) (recs s) = Inr (Some r)" and "strip (ts_ticket_id b) \<noteq> []"
    and "e \<in> set (pr_evidence r)" and "same_ticket_status e (ticket_entry now (strip (ts_ticket_id b)) b)"
  shows "report_ticket_status en t b s = (Inr (duplicate_answer r), s)"
  using assms(1-3) assms(4) [unfolded same_ticket_status_now [of _ now _ _ "en_now en"]]
  by (auto simp: report_ticket_status_def refuse_eq andthen_def ask_def ret_def Let_def duplicate_answer_def)

text \<open>C15. Reporting a ticket's status is idempotent and moves a record at most once: after a report was accepted, the
  same report, at any later time, is answered as a duplicate for the same record and changes nothing; the
  first one leaves every other record as it is and changes the state only of an escalated record, to resolved, on status \<open>resolved\<close>.\<close>

theorem ticket_report_idempotent:
  assumes "api_inv s" and "report_ticket_status en t b s = (Inr out, s1)"
  shows "\<exists>rid r r1. owned_row t rid (recs s) = Some r \<and> owned_row t rid (recs s1) = Some r1
    \<and> report_ticket_status en' t b s1 = (Inr (duplicate_answer r1), s1) \<and> pr_record_id r1 = rid
    \<and> (pr_state r1 = pr_state r \<or> ts_status b = ''resolved'' \<and> pr_state r = ''escalated'' \<and> pr_state r1 = ''resolved'')
    \<and> (\<forall>k. k \<noteq> rid \<longrightarrow> map_of (recs s1) k = map_of (recs s) k) \<and> ap_log s1 = ap_log s"
proof -
  let ?ticket = "strip (ts_ticket_id b)"
  from assms(2) obtain r where ticket: "?ticket \<noteq> []" and r: "find_by_ticket t ?ticket (recs s) = Inr (Some r)"
    by (auto simp: report_ticket_status_def act_Inr ask_def Let_def split: option.splits)
  note f = find_by_ticket_Some [OF assms(1) r]
  show ?thesis
  proof (cases "\<exists>e \<in> set (pr_evidence r). same_ticket_status e (ticket_entry (en_now en) ?ticket b)")
    case True
    then obtain e where e: "e \<in> set (pr_evidence r)" "same_ticket_status e (ticket_entry (en_now en) ?ticket b)" by blast
    note dup = report_duplicate [OF r ticket e]
    have "s1 = s" using dup [of en] assms(2) by simp
    with dup [of en'] f(3) show ?thesis by (intro exI [of _ "pr_record_id r"] exI [of _ r]) simp
  next
    case False
    let ?f = "report_row en b" and ?rid = "pr_record_id r"
    have s1: "s1 = s\<lparr>ap_world := (ap_world s)\<lparr>wd_records := update_row ?rid ?f (recs s)\<rparr>\<rparr>"
      using report_new [OF assms(1) r ticket False] assms(2) by simp
    have sel: "pr_record_id (?f r) = ?rid" "pr_tenant_id (?f r) = pr_tenant_id r"
      "ticket_entry (en_now en) ?ticket b \<in> set (pr_evidence (?f r))"
      "pr_state (?f r) = pr_state r \<or> ts_status b = ''resolved'' \<and> pr_state r = ''escalated'' \<and> pr_state (?f r) = ''resolved''"
      by (simp_all add: report_row_def Let_def)
    have d: "distinct (map fst (recs s))" using assms(1) by (simp add: api_inv_def rec_inv_def)
    have "py_get (ticket_entry (en_now en) ?ticket b) ''ticket_id'' = PStr ?ticket" by (simp add: ticket_entry_def py_get_def)
    then have "holds_ticket (?f r) ?ticket" using ticket sel(3) unfolding holds_ticket_def by blast
    moreover have "pr_tenant_id r = t" using f(3) by (simp add: owned_row_Some)
    ultimately have "find_by_ticket t ?ticket (recs s1) = Inr (Some (?f r))"
      using find_update_row [OF f(2) d, of ?f] f(1) sel(2) s1 by (simp add: find_by_ticket_def)
    from report_duplicate [OF this ticket sel(3) same_ticket_status_self]
    have "report_ticket_status en' t b s1 = (Inr (duplicate_answer (?f r)), s1)" by simp
    moreover have "owned_row t ?rid (recs s1) = Some (?f r)" using owned_update [OF f(3), of ?f] sel(2) s1 by simp
    moreover have "map_of (recs s1) k = map_of (recs s) k" if "k \<noteq> ?rid" for k
      using that s1 by (cases "map_of (recs s) k") (simp_all add: map_of_update_row)
    ultimately show ?thesis using f(3) sel(1,4) s1 by (intro exI [of _ ?rid] exI [of _ r] exI [of _ "?f r"]) simp
  qed
qed

theorem ticket_report_idempotent_witness:
  "let b = \<lparr>ts_ticket_id = '' INC-1 '', ts_status = ''resolved'', ts_description = ''fixed''\<rparr>;
       row = demo_row\<lparr>pr_state := ''escalated'', pr_resolve_reason := Some ''escalated:INC-1''\<rparr>;
       s = demo_api\<lparr>ap_world := (ap_world demo_api)\<lparr>wd_records := [(''PR-1-0001'', row)]\<rparr>\<rparr>;
       s1 = snd (report_ticket_status demo_env ''t1'' b s)
   in \<exists>r1. report_ticket_status demo_env ''t1'' b s1 = (Inr (duplicate_answer r1), s1)"
proof -
  let ?b = "\<lparr>ts_ticket_id = '' INC-1 '', ts_status = ''resolved'', ts_description = ''fixed''\<rparr>"
  let ?row = "demo_row\<lparr>pr_state := ''escalated'', pr_resolve_reason := Some ''escalated:INC-1''\<rparr>"
  let ?s = "demo_api\<lparr>ap_world := (ap_world demo_api)\<lparr>wd_records := [(''PR-1-0001'', ?row)]\<rparr>\<rparr>"
  have inv: "api_inv ?s" using demo_inv by (auto simp: api_inv_def rec_inv_def demo_api_def split: if_splits)
  have "\<not> isl (fst (report_ticket_status demo_env ''t1'' ?b ?s))" by code_simp
  then obtain out s1 where r: "report_ticket_status demo_env ''t1'' ?b ?s = (Inr out, s1)"
    by (cases "report_ticket_status demo_env ''t1'' ?b ?s"; cases "fst (report_ticket_status demo_env ''t1'' ?b ?s)") auto
  from ticket_report_idempotent [OF inv r, of demo_env]
  obtain r1 where "report_ticket_status demo_env ''t1'' ?b s1 = (Inr (duplicate_answer r1), s1)" by blast
  then show ?thesis unfolding Let_def r by auto
qed

section \<open>The analysis window\<close>

text \<open>C18. The time window handed to the analysis never ends in the future, is between 30 minutes and 24 hours long, and reaches from
  ten minutes before the first to ten minutes after the last sighting (or to now) unless one of these limits prevents it.\<close>

theorem analysis_window_bounds:
  assumes "analysis_window now r = (start, stop)"
  shows "stop \<le> now \<and> WINDOW_MIN \<le> stop - start \<and> stop - start \<le> WINDOW_MAX
    \<and> (let first = (case pr_first_seen_at r of None \<Rightarrow> pr_detected_at r | Some t \<Rightarrow> t);
           last = (case pr_last_seen_at r of None \<Rightarrow> pr_detected_at r | Some t \<Rightarrow> t)
       in stop = min now (last + WINDOW_PAD) \<and> (first - WINDOW_PAD \<le> stop \<longrightarrow> start \<le> first - WINDOW_PAD \<or> stop - start = WINDOW_MAX))"
  using assms by (auto simp: analysis_window_def Let_def WINDOW_MIN_def WINDOW_MAX_def WINDOW_PAD_def split: if_splits)

theorem analysis_window_bounds_witness:
  "case analysis_window 90000000000 (demo_row\<lparr>pr_first_seen_at := Some 0, pr_last_seen_at := Some 89000000000\<rparr>) of
     (start, stop) \<Rightarrow> stop \<le> 90000000000 \<and> stop - start = WINDOW_MAX"
proof -
  let ?r = "demo_row\<lparr>pr_first_seen_at := Some 0, pr_last_seen_at := Some 89000000000\<rparr>"
  have "analysis_window 90000000000 ?r = (3200000000, 89600000000)"
    by (simp add: analysis_window_def WINDOW_MIN_def WINDOW_MAX_def WINDOW_PAD_def)
  from analysis_window_bounds [OF this] this show ?thesis by (simp add: WINDOW_MAX_def)
qed

section \<open>Waiting for the ticket of a run\<close>

definition run_query :: "env \<Rightarrow> string \<Rightarrow> string \<Rightarrow> http_request" where
  "run_query en t run_id = \<lparr>rq_method = ''GET'', rq_url = rstrip_slash (en_bug_solve_base_url en) @ ''/runs/'' @ run_id,
     rq_json = [], rq_tenant = Some (agentflow_tenant en t)\<rparr>"

definition run_seen :: "http_response \<Rightarrow> pydict option" where
  "run_seen resp = (if ok_status resp then body_object resp else None)"

definition undecided :: "http_response \<Rightarrow> bool" where
  "undecided resp \<longleftrightarrow> resp \<noteq> TooLarge \<and> (case run_seen resp of None \<Rightarrow> True | Some d \<Rightarrow> ticket_of_run d = Inr None)"

definition shows_ticket :: "http_response \<Rightarrow> pydict \<Rightarrow> bool" where
  "shows_ticket resp ticket \<longleftrightarrow> (\<exists>d. run_seen resp = Some d \<and> ticket_of_run d = Inr (Some ticket))"

lemma fetch_run_log:
  "\<exists>k \<le> 1. ap_log (snd (fetch_run en t run_id s)) = ap_log s @ replicate k (run_query en t run_id)"
proof (cases "validate_url (en_dns en) (en_allow_loopback en) (rstrip_slash (en_bug_solve_base_url en) @ ''/runs/'' @ run_id)")
  case (Inl e)
  then show ?thesis by (intro exI [of _ 0])
    (simp add: fetch_run_def af_get_def http_get_def guarded_send_def andthen_def lift_res_def)
next
  case (Inr u)
  then show ?thesis by (intro exI [of _ 1])
    (simp add: fetch_run_def af_get_def http_get_def guarded_send_def andthen_def lift_res_def send_def run_query_def ret_def split: http_response.split)
qed

lemma fetch_run_answer:
  assumes "validate_url (en_dns en) (en_allow_loopback en) (rq_url (run_query en t run_id)) = Inr u"
    and "en_remote en (ap_log s) (run_query en t run_id) = resp" and "resp \<noteq> TooLarge"
  shows "fetch_run en t run_id s = (Inr (run_seen resp), s\<lparr>ap_log := ap_log s @ [run_query en t run_id]\<rparr>)"
  using assms by (cases resp) (simp_all add: fetch_run_def af_get_def http_get_def guarded_send_def andthen_def lift_res_def send_def
      run_query_def ret_def run_seen_def ok_status_def body_object_def)

lemma lift_res_simps: "andthen (lift_res (Inr x)) f s = f x s" "andthen (lift_res (Inl e)) f s = (Inl e, s)"
  by (simp_all add: andthen_def lift_res_def)

lemma poll_step:
  assumes "validate_url (en_dns en) (en_allow_loopback en) (rq_url (run_query en t run_id)) = Inr u"
  shows "undecided (en_remote en (ap_log s) (run_query en t run_id)) \<Longrightarrow>
      poll_ticket en t run_id (Suc m) s = poll_ticket en t run_id m (s\<lparr>ap_log := ap_log s @ [run_query en t run_id]\<rparr>)"
    and "shows_ticket (en_remote en (ap_log s) (run_query en t run_id)) ticket \<Longrightarrow>
      poll_ticket en t run_id (Suc m) s = (Inr ticket, s\<lparr>ap_log := ap_log s @ [run_query en t run_id]\<rparr>)"
proof -
  let ?r = "en_remote en (ap_log s) (run_query en t run_id)" and ?s = "s\<lparr>ap_log := ap_log s @ [run_query en t run_id]\<rparr>"
  have f: "andthen (fetch_run en t run_id) g s = g (run_seen ?r) ?s" if "?r \<noteq> TooLarge" for g :: "pydict option \<Rightarrow> 'b act"
    using fetch_run_answer [OF assms refl that] by (simp add: andthen_def)
  show "poll_ticket en t run_id (Suc m) s = poll_ticket en t run_id m ?s" if "undecided ?r"
    using that by (auto simp: undecided_def f lift_res_simps split: option.splits)
  show "poll_ticket en t run_id (Suc m) s = (Inr ticket, ?s)" if "shows_ticket ?r ticket"
  proof -
    from that have "?r \<noteq> TooLarge" by (auto simp: shows_ticket_def run_seen_def ok_status_def)
    with that show ?thesis by (auto simp: shows_ticket_def f lift_res_simps ret_def)
  qed
qed

lemma poll_skips:
  assumes "validate_url (en_dns en) (en_allow_loopback en) (rq_url (run_query en t run_id)) = Inr u"
  shows "\<forall>i < n. undecided (en_remote en (ap_log s @ replicate i (run_query en t run_id)) (run_query en t run_id)) \<Longrightarrow>
    poll_ticket en t run_id (n + m) s = poll_ticket en t run_id m (s\<lparr>ap_log := ap_log s @ replicate n (run_query en t run_id)\<rparr>)"
proof (induction n arbitrary: s)
  case (Suc n)
  let ?q = "run_query en t run_id"
  have "undecided (en_remote en (ap_log s @ [?q] @ replicate i ?q) ?q)" if "i < n" for i
    using Suc.prems [rule_format, of "Suc i"] that by simp
  then have "poll_ticket en t run_id (n + m) (s\<lparr>ap_log := ap_log s @ [?q]\<rparr>)
      = poll_ticket en t run_id m (s\<lparr>ap_log := ap_log s @ replicate (Suc n) ?q\<rparr>)"
    using Suc.IH [of "s\<lparr>ap_log := ap_log s @ [?q]\<rparr>"] by simp
  with poll_step(1) [OF assms, of s "n + m"] Suc.prems [rule_format, of 0] show ?case by simp
qed simp

lemma poll_bounded: "\<exists>k \<le> m. ap_log (snd (poll_ticket en t run_id m s)) = ap_log s @ replicate k (run_query en t run_id)"
proof (induction m arbitrary: s)
  case (Suc m)
  let ?q = "run_query en t run_id"
  obtain r s1 where f: "fetch_run en t run_id s = (r, s1)" by (cases "fetch_run en t run_id s")
  with fetch_run_log [of en t run_id s] obtain k where k: "k \<le> 1" "ap_log s1 = ap_log s @ replicate k ?q" by auto
  from Suc.IH [of s1] obtain k2 where k2: "k2 \<le> m" "ap_log (snd (poll_ticket en t run_id m s1)) = ap_log s1 @ replicate k2 ?q" by blast
  have "ap_log (snd (poll_ticket en t run_id (Suc m) s)) \<in> {ap_log s1, ap_log (snd (poll_ticket en t run_id m s1))}"
    using f by (auto simp: andthen_def lift_res_def ret_def split: sum.split option.split)
  then show ?case using k k2 by (auto simp: replicate_add [symmetric] intro: exI [of _ k] exI [of _ "k + k2"])
qed (auto simp: app_error_def raise_def)

text \<open>C17. Reading the ticket of a run ends after at most fifteen queries, whatever the engine answers. When the engine's
  answers leave it open for \<open>n\<close> queries, fewer than fifteen, and the next one shows the finished ticket node, that ticket
  is returned after exactly \<open>n + 1\<close> queries; when fifteen answers leave it open the call fails with an upstream error.\<close>

theorem ticket_polling:
  "(\<exists>k \<le> 15. ap_log (snd (read_escalation_ticket en t run_id s)) = ap_log s @ replicate k (run_query en t run_id))
   \<and> (validate_url (en_dns en) (en_allow_loopback en) (rq_url (run_query en t run_id)) = Inr u \<longrightarrow>
       (n < 15 \<and> (\<forall>i < n. undecided (en_remote en (ap_log s @ replicate i (run_query en t run_id)) (run_query en t run_id)))
          \<and> shows_ticket (en_remote en (ap_log s @ replicate n (run_query en t run_id)) (run_query en t run_id)) ticket \<longrightarrow>
        read_escalation_ticket en t run_id s = (Inr ticket, s\<lparr>ap_log := ap_log s @ replicate (n + 1) (run_query en t run_id)\<rparr>))
     \<and> ((\<forall>i < 15. undecided (en_remote en (ap_log s @ replicate i (run_query en t run_id)) (run_query en t run_id))) \<longrightarrow>
        (\<exists>m. fst (read_escalation_ticket en t run_id s) = Inl (AppException UPSTREAM m))))"
proof (intro conjI impI)
  let ?q = "run_query en t run_id"
  show "\<exists>k \<le> 15. ap_log (snd (read_escalation_ticket en t run_id s)) = ap_log s @ replicate k ?q"
    using poll_bounded [of 15] by (simp add: read_escalation_ticket_def TICKET_POLL_ATTEMPTS_def)
  assume url: "validate_url (en_dns en) (en_allow_loopback en) (rq_url ?q) = Inr u"
  show "\<exists>m. fst (read_escalation_ticket en t run_id s) = Inl (AppException UPSTREAM m)"
    if "\<forall>i < 15. undecided (en_remote en (ap_log s @ replicate i ?q) ?q)"
    using poll_skips [OF url that, of 0] by (simp add: read_escalation_ticket_def TICKET_POLL_ATTEMPTS_def app_error_def raise_def)
  assume n: "n < 15 \<and> (\<forall>i < n. undecided (en_remote en (ap_log s @ replicate i ?q) ?q))
      \<and> shows_ticket (en_remote en (ap_log s @ replicate n ?q) ?q) ticket"
  then have "TICKET_POLL_ATTEMPTS = n + Suc (14 - n)" by (simp add: TICKET_POLL_ATTEMPTS_def)
  then show "read_escalation_ticket en t run_id s = (Inr ticket, s\<lparr>ap_log := ap_log s @ replicate (n + 1) ?q\<rparr>)"
    unfolding read_escalation_ticket_def
    using poll_skips [OF url, of n s "Suc (14 - n)"] poll_step(2) [OF url, of "s\<lparr>ap_log := ap_log s @ replicate n ?q\<rparr>"] n
    by (simp add: replicate_append_same [symmetric])
qed

definition demo_run :: pydict where
  "demo_run = [(''graph'', PDict [(''nodes'', PList [PDict [(''kind'', PStr ''ticket''), (''id'', PStr ''tk'')]])]),
     (''nodes'', PDict [(''tk'', PDict [(''status'', PStr ''done''), (''output'', PDict [(''ticket_id'', PStr ''T9'')])])])]"

theorem ticket_polling_witness:
  "fst (read_escalation_ticket (demo_env\<lparr>en_remote := (\<lambda>log q. if log = [] then HttpError ''x'' else Response 200 [] (Some (PDict demo_run)))\<rparr>)
     ''t1'' ''R1'' demo_api) = Inr [(''ticket_id'', PStr ''T9'')]"
proof -
  let ?en = "demo_env\<lparr>en_remote := (\<lambda>log q. if log = [] then HttpError ''x'' else Response 200 [] (Some (PDict demo_run)))\<rparr>"
  let ?q = "run_query ?en ''t1'' ''R1''"
  have url: "validate_url (en_dns ?en) (en_allow_loopback ?en) (rq_url ?q) = Inr (rq_url ?q)" by code_simp
  have log: "ap_log demo_api = []" by (simp add: demo_api_def)
  have und: "\<forall>i < 1. undecided (en_remote ?en (ap_log demo_api @ replicate i ?q) ?q)"
    by (simp add: undecided_def run_seen_def ok_status_def log)
  have "ticket_of_run demo_run = Inr (Some [(''ticket_id'', PStr ''T9'')])" by code_simp
  then have tk: "shows_ticket (en_remote ?en (ap_log demo_api @ replicate 1 ?q) ?q) [(''ticket_id'', PStr ''T9'')]"
    by (simp add: shows_ticket_def run_seen_def ok_status_def body_object_def log)
  have n: "(1 :: nat) < 15" by simp
  have "read_escalation_ticket ?en ''t1'' ''R1'' demo_api
      = (Inr [(''ticket_id'', PStr ''T9'')], demo_api\<lparr>ap_log := ap_log demo_api @ replicate (1 + 1) ?q\<rparr>)"
    by (rule ticket_polling [THEN conjunct2, THEN mp, OF url, THEN conjunct1, THEN mp, OF conjI [OF n conjI [OF und tk]]])
  then show ?thesis by simp
qed

section \<open>Rerunning a rejected diagnosis\<close>

lemma start_run_log:
  assumes "start_run en t wid inputs s = (Inr run_id, s')"
  shows "ap_log s' = ap_log s @ [\<lparr>rq_method = ''POST'', rq_url = rstrip_slash (en_bug_solve_base_url en) @ ''/run'',
      rq_json = [(''workflow_id'', PStr wid), (''ticket'', PDict inputs), (''tenant_id'', PStr (agentflow_tenant en t))],
      rq_tenant = Some (agentflow_tenant en t)\<rparr>]" "ap_world s' = ap_world s" "run_id \<noteq> []"
proof -
  from assms obtain resp where p: "run_request en t wid inputs s = (Inr resp, s')" and "run_id \<noteq> []"
    by (auto simp: start_run_def act_Inr split: option.splits)
  then show "run_id \<noteq> []" by simp
  from post_log [OF p [unfolded run_request_def]] show "ap_log s' = ap_log s @ [\<lparr>rq_method = ''POST'',
      rq_url = rstrip_slash (en_bug_solve_base_url en) @ ''/run'',
      rq_json = [(''workflow_id'', PStr wid), (''ticket'', PDict inputs), (''tenant_id'', PStr (agentflow_tenant en t))],
      rq_tenant = Some (agentflow_tenant en t)\<rparr>]" "ap_world s' = ap_world s" by simp_all
qed

lemma py_get_put: "py_get (put k v d) k' = (if k' = k then v else py_get d k')"
  by (simp add: put_def py_get_def map_of_update)

lemma latest_agent_run_snoc:
  "latest_agent_run (r\<lparr>pr_evidence := pr_evidence r @ [e]\<rparr>) = (if is_type ''agent_run'' e \<and> truthy (py_get e ''run_id'') then Some e else latest_agent_run r)"
  by (simp add: latest_agent_run_def agent_run_entries_def)

text \<open>Actions that only send requests.\<close>

definition same_world :: "api \<Rightarrow> api \<Rightarrow> bool" where
  "same_world s s' \<longleftrightarrow> ap_world s' = ap_world s \<and> (\<exists>new. ap_log s' = ap_log s @ new)"

interpretation hw: handler_logic "\<lambda>s. True" same_world
  by unfold_locales (auto simp: same_world_def)

lemmas [keeps_intros] = hw.basic

lemma guarded_send_same_world [keeps_intros]: "keeps (\<lambda>s. True) same_world (guarded_send en rq)"
  by (rule keepsI) (simp add: guarded_send_def andthen_def lift_res_def send_def same_world_def split: sum.split)

lemma gate_same_world:
  "keeps (\<lambda>s. True) same_world (fetch_run en t run_id)"
  "keeps (\<lambda>s. True) same_world (gate_outcome node_id (\<lambda>n. agentflow_reject_node en t run_id n who comment) recorded)"
  unfolding fetch_run_def af_get_def http_get_def gate_outcome_def agentflow_reject_node_def answer_gate_def post_def
  by (intro keeps_intros)+

lemma gate_outcome_Inr: "gate_outcome node_id answer recorded s = (Inr recorded', s') \<Longrightarrow> \<exists>v. recorded' = put ''remediation_status'' v recorded"
  by (auto simp: gate_outcome_def act_Inr split: option.splits)

lemma finish_reject_row:
  assumes "finish_decision en t r rid sid Reject recorded s = (Inr out, s')" and "owned_row t rid (recs s) = Some r1"
  shows "owned_row t rid (recs s') = Some (r1\<lparr>pr_evidence := pr_evidence r1 @ [recorded]\<rparr>)" "ap_log s' = ap_log s"
proof -
  from assms(1) obtain ok s1 where ev: "do_evidence t rid recorded s = (Inr ok, s1)" and "s' = s1"
    by (auto simp: finish_decision_def apply_escalated_state_def act_Inr ask_def)
  with do_evidence_row [OF ev assms(2)]
  show "owned_row t rid (recs s') = Some (r1\<lparr>pr_evidence := pr_evidence r1 @ [recorded]\<rparr>)" "ap_log s' = ap_log s" by simp_all
qed

lemma latest_reject_feedback_snoc:
  "latest_reject_feedback (r\<lparr>pr_evidence := ev @ [e]\<rparr>) = (if is_type ''diagnose_decision'' e \<and> py_get e ''decision'' = PStr ''reject''
     \<and> strip (text_of (py_get e ''feedback'')) \<noteq> [] then strip (text_of (py_get e ''feedback''))
     else latest_reject_feedback (r\<lparr>pr_evidence := ev\<rparr>))"
  by (simp add: latest_reject_feedback_def)

lemma new_decision_get:
  "py_get (new_decision now [(''engine'', PStr x)] sid oi b) ''type'' = PStr ''diagnose_decision''"
  "py_get (new_decision now [(''engine'', PStr x)] sid oi b) ''decision'' = PStr (decision_str (db_decision b))"
  "py_get (new_decision now [(''engine'', PStr x)] sid oi b) ''feedback'' = PStr (db_feedback b)"
  by (simp_all add: new_decision_def py_get_def)

text \<open>C14. Rejecting a plan with a comment starts the workflow again and hands it this very comment: when the decision succeeds
  the last request sent is the start of a run whose inputs carry the comment as \<open>review_feedback\<close>, the record
  is in the same state as before, the new run is its latest one, and a later rerun would pick the comment up from the record.\<close>

theorem rejection_reruns_with_feedback:
  assumes "owned_row t rid (recs s) = Some r" and "latest_agent_run r = Some entry" and "db_decision b = Reject"
    and "strip (db_feedback b) \<noteq> []" and "decide_problem_diagnosis en t rid b s = (Inr out, s')"
  shows "\<exists>pre q inputs run_id r'. ap_log s' = ap_log s @ pre @ [q]
    \<and> rq_url q = rstrip_slash (en_bug_solve_base_url en) @ ''/run'' \<and> map_of (rq_json q) ''ticket'' = Some (PDict inputs)
    \<and> py_get inputs ''review_feedback'' = PStr (strip (db_feedback b))
    \<and> owned_row t rid (recs s') = Some r' \<and> pr_state r' = pr_state r \<and> run_id \<noteq> []
    \<and> latest_agent_run r' = Some (agent_run_entry run_id (get_str entry ''workflow_id'') (en_now en))
    \<and> latest_reject_feedback r' = strip (db_feedback b)"
proof -
  let ?run = "py_str (py_get entry ''run_id'')" and ?wid = "get_str entry ''workflow_id''" and ?fb = "strip (db_feedback b)"
  let ?rec = "new_decision (en_now en) [(''engine'', PStr ''agentflow'')] ?run (opt_int (db_option_index b)) b"
  let ?inp = "put ''review_feedback'' (py_or (PStr ?fb) (py_get (build_analysis_inputs (en_now en) r) ''review_feedback'')) (build_analysis_inputs (en_now en) r)"
  have t: "t \<noteq> []" using assms(5) by (auto simp: decide_problem_diagnosis_def act_Inr)
  from assms(2-5) obtain run s1 node_id rec1 s2 new_id s3 ok s4 where
    f: "fetch_run en t ?run s = (Inr run, s1)"
    and g: "gate_outcome node_id (\<lambda>n. agentflow_reject_node en t ?run n ''problem-center'' ?fb) ?rec s1 = (Inr rec1, s2)"
    and st: "start_run en t ?wid ?inp s2 = (Inr new_id, s3)"
    and ev: "do_evidence t rid (agent_run_evidence (en_now en) new_id ?wid) s3 = (Inr ok, s4)"
    and fin: "finish_decision en t r rid ?run Reject (put ''session_status'' (PStr ''running'') rec1) s4 = (Inr out, s')"
    by (auto simp: decide_problem_diagnosis_def andthen_record [OF t assms(1)] decide_agentflow_def agentflow_rerun_def act_Inr
        lift_res_def Let_def)
  have w: "ap_world s2 = ap_world s" "\<exists>pre. ap_log s2 = ap_log s @ pre"
    using keepsD [OF gate_same_world(1), of s en t ?run] keepsD [OF gate_same_world(2), of s1 node_id en t ?run "''problem-center''" ?fb ?rec] f g
    by (auto simp: same_world_def)
  note st' = start_run_log [OF st]
  have "owned_row t rid (recs s3) = Some r" using assms(1) w(1) st'(2) by simp
  note ev' = do_evidence_row [OF ev this] and fin' = finish_reject_row [OF fin do_evidence_row(1) [OF ev this]]
  obtain v where rec1: "rec1 = put ''remediation_status'' v ?rec" using gate_outcome_Inr [OF g] by blast
  obtain pre where pre: "ap_log s2 = ap_log s @ pre" using w(2) by blast
  let ?d = "put ''session_status'' (PStr ''running'') rec1" and ?a = "agent_run_evidence (en_now en) new_id ?wid"
  have d: "\<not> is_type ''agent_run'' ?d" "is_type ''diagnose_decision'' ?d" "py_get ?d ''decision'' = PStr ''reject''"
    "py_get ?d ''feedback'' = PStr (db_feedback b)"
    using assms(3) by (simp_all add: rec1 is_type_def py_get_put new_decision_get)
  have a: "is_type ''agent_run'' ?a" "truthy (py_get ?a ''run_id'')"
    using st'(3) by (simp_all add: agent_run_evidence_def agent_run_entry_def is_type_def py_get_def)
  let ?r1 = "r\<lparr>pr_evidence := pr_evidence r @ [?a]\<rparr>"
  have "latest_agent_run (?r1\<lparr>pr_evidence := pr_evidence ?r1 @ [?d]\<rparr>) = Some ?a"
    using latest_agent_run_snoc [where r = ?r1 and e = ?d] latest_agent_run_snoc [where r = r and e = ?a] a d(1) by simp
  moreover have "latest_reject_feedback (?r1\<lparr>pr_evidence := pr_evidence ?r1 @ [?d]\<rparr>) = ?fb"
    using latest_reject_feedback_snoc [where r = ?r1 and ev = "pr_evidence ?r1" and e = ?d] d assms(4) by (simp add: text_of_def)
  moreover have "py_get ?inp ''review_feedback'' = PStr ?fb" using assms(4) by (simp add: py_get_put py_or_def)
  ultimately show ?thesis
    using fin' ev'(2) st'(1,3) pre
    by (intro exI [of _ pre] exI [of _ "last (ap_log s3)"] exI [of _ ?inp] exI [of _ new_id]
        exI [of _ "?r1\<lparr>pr_evidence := pr_evidence ?r1 @ [?d]\<rparr>"]) (simp add: agent_run_evidence_def)
qed

theorem rejection_reruns_with_feedback_witness:
  "let entry = agent_run_entry ''R0'' ''wf'' 0; row = demo_row\<lparr>pr_state := ''in_progress'', pr_evidence := [entry]\<rparr>;
       s = demo_api\<lparr>ap_world := (ap_world demo_api)\<lparr>wd_records := [(''PR-1-0001'', row)]\<rparr>\<rparr>;
       b = \<lparr>db_decision = Reject, db_feedback = '' check the pool '', db_option_index = None\<rparr>;
       s' = snd (decide_problem_diagnosis demo_env ''t1'' ''PR-1-0001'' b s)
   in \<exists>q inputs. q \<in> set (ap_log s') \<and> map_of (rq_json q) ''ticket'' = Some (PDict inputs)
        \<and> py_get inputs ''review_feedback'' = PStr ''check the pool''"
proof -
  let ?entry = "agent_run_entry ''R0'' ''wf'' 0"
  let ?row = "demo_row\<lparr>pr_state := ''in_progress'', pr_evidence := [?entry]\<rparr>"
  let ?s = "demo_api\<lparr>ap_world := (ap_world demo_api)\<lparr>wd_records := [(''PR-1-0001'', ?row)]\<rparr>\<rparr>"
  let ?b = "\<lparr>db_decision = Reject, db_feedback = '' check the pool '', db_option_index = None\<rparr>"
  have o: "owned_row ''t1'' ''PR-1-0001'' (recs ?s) = Some ?row" by code_simp
  have lr: "latest_agent_run ?row = Some ?entry" and nt: "\<not> is_terminal ?row" and t: "''t1'' \<noteq> []"
    and fb: "strip (db_feedback ?b) = ''check the pool''" by code_simp+
  have urls: "validate_url (en_dns demo_env) (en_allow_loopback demo_env) (rstrip_slash (en_bug_solve_base_url demo_env) @ ''/runs/R0'')
        = Inr (rstrip_slash (en_bug_solve_base_url demo_env) @ ''/runs/R0'')"
    "validate_url (en_dns demo_env) (en_allow_loopback demo_env) (rstrip_slash (en_bug_solve_base_url demo_env) @ ''/run'')
        = Inr (rstrip_slash (en_bug_solve_base_url demo_env) @ ''/run'')" by code_simp+
  have e: "py_str (py_get ?entry ''run_id'') = ''R0''" "get_str ?entry ''workflow_id'' = ''wf''" by code_simp+
  let ?d = "[(''id'', PStr ''T1''), (''number'', PStr ''INC-1''), (''run_id'', PStr ''R1'')]"
  have remote: "en_remote demo_env log q = Response 200 [] (Some (PDict ?d))" for log q by (simp add: demo_env_def)
  have gate: "agentflow_gate_node (Some ?d) = Inr None" by code_simp
  have f: "fetch_run demo_env ''t1'' ''R0'' x = (Inr (Some ?d), x\<lparr>ap_log := ap_log x @ [run_query demo_env ''t1'' ''R0'']\<rparr>)" for x
    using fetch_run_answer [of demo_env "''t1''" "''R0''" _ x, OF _ remote] urls(1)
    by (simp add: run_query_def run_seen_def ok_status_def body_object_def)
  have r: "start_run demo_env ''t1'' ''wf'' inputs x = (Inr ''R1'', x\<lparr>ap_log := ap_log x @ [\<lparr>rq_method = ''POST'',
      rq_url = rstrip_slash (en_bug_solve_base_url demo_env) @ ''/run'',
      rq_json = [(''workflow_id'', PStr ''wf''), (''ticket'', PDict inputs), (''tenant_id'', PStr (agentflow_tenant demo_env ''t1''))],
      rq_tenant = Some (agentflow_tenant demo_env ''t1'')\<rparr>]\<rparr>)" for inputs x
    using post_answer [OF urls(2) remote] by (simp add: start_run_def run_request_def andthen_def refuse_eq timed_out_def upstream_failed_def
        ok_status_def body_field_def ret_def str_or_def py_str_def py_get_def)
  have tr: "pr_tenant_id demo_row = ''t1''" by code_simp
  have "\<exists>out s'. decide_agentflow demo_env ''t1'' ?row ''PR-1-0001'' ?entry ?b ?s = (Inr out, s')"
    unfolding decide_agentflow_def Let_def e fb agentflow_rerun_def gate_outcome_def finish_decision_def do_evidence_def on_records_def
    by (simp add: andthen_def f gate lift_res_def ret_def refuse_eq py_get_def r append_evidence_def apply_escalated_state_def ask_def
        owned_row_def update_row_def map_vals_def tr rec_get_def)
  then have "\<exists>out s'. decide_problem_diagnosis demo_env ''t1'' ''PR-1-0001'' ?b ?s = (Inr out, s')"
    by (simp only: decide_problem_diagnosis_def andthen_record [OF t o] refuse_eq lr nt if_False option.case)
  then obtain out s' where dec: "decide_problem_diagnosis demo_env ''t1'' ''PR-1-0001'' ?b ?s = (Inr out, s')" by blast
  have "strip (db_feedback ?b) \<noteq> []" unfolding fb by simp
  from rejection_reruns_with_feedback [OF o lr _ this dec] obtain pre q inputs where
    "ap_log s' = ap_log ?s @ pre @ [q]" "map_of (rq_json q) ''ticket'' = Some (PDict inputs)"
    "py_get inputs ''review_feedback'' = PStr (strip (db_feedback ?b))" by auto
  then show ?thesis unfolding Let_def dec snd_conv fb by (intro exI [of _ q] exI [of _ inputs]) simp
qed

end
