(* ===== verification/Apm_Time.thy ===== *)
theory Apm_Time
  imports Apm_Diagnosis
begin

text \<open>
  The two directions of time in \<open>collectors/\<close>: \<open>_parse_ts\<close> of \<open>_field_mapping.py\<close> reads the time stamps a source sends,
  \<open>format_time_param\<close> of \<open>_window.py\<close> prints the bounds a request asks for, both in the time zone of the source.
  \<open>datetime.fromisoformat\<close> is the parser of the deployed interpreter (3.11), on the UTF-8 bytes of the string and with what it
  lets pass; ISO week dates are outside the model. The zone database is a parameter: a zone gives the offset of an instant
  and the offset of a wall-clock reading.
\<close>

section \<open>The calendar\<close>

definition leap :: "int \<Rightarrow> bool" where
  "leap y = (y mod 4 = 0 \<and> (y mod 100 \<noteq> 0 \<or> y mod 400 = 0))"

definition month_days :: "int \<Rightarrow> int \<Rightarrow> int" where
  "month_days y m = (if m = 2 then (if leap y then 29 else 28) else if m \<in> {4, 6, 9, 11} then 30 else 31)"

definition valid_date :: "int \<Rightarrow> int \<Rightarrow> int \<Rightarrow> bool" where
  "valid_date y m d = (1 \<le> y \<and> y \<le> 9999 \<and> 1 \<le> m \<and> m \<le> 12 \<and> 1 \<le> d \<and> d \<le> month_days y m)"

text \<open>The inverse of \<^const>\<open>civil\<close>: the day number of a date.\<close>

definition day_number :: "int \<Rightarrow> int \<Rightarrow> int \<Rightarrow> int" where
  "day_number y0 m d = (let y = (if m \<le> 2 then y0 - 1 else y0); era = y div 400; yoe = y mod 400;
     doy = (153 * (if 2 < m then m - 3 else m + 9) + 2) div 5 + d - 1;
     doe = 365 * yoe + yoe div 4 - yoe div 100 + doy
   in era * 146097 + doe - 719468)"

text \<open>\<open>datetime.min\<close> and \<open>datetime.max\<close>: results beyond them raise.\<close>

definition time_min :: time where "time_min = day_number 1 1 1 * usec_per_day"
definition time_max :: time where "time_max = (day_number 9999 12 31 + 1) * usec_per_day - 1"

definition in_range_time :: "time \<Rightarrow> bool" where
  "in_range_time t = (time_min \<le> t \<and> t \<le> time_max)"

definition checked_time :: "time \<Rightarrow> time res" where
  "checked_time t = (if in_range_time t then Inr t else Inl (OverflowError ''date value out of range''))"

section \<open>\<open>datetime.fromisoformat\<close>\<close>

definition utf8 :: "string \<Rightarrow> string" where
  "utf8 s = concat (map (\<lambda>c. let n = (of_char c :: nat) in
     if n < 128 then [c] else [char_of (192 + n div 64), char_of (128 + n mod 64)]) s)"

text \<open>Exactly \<open>n\<close> digits, the number they denote and the rest.\<close>

definition parse_digits :: "nat \<Rightarrow> string \<Rightarrow> (int \<times> string) option" where
  "parse_digits n s = (let ds = take n s in
     if length ds = n \<and> list_all is_digit ds then Some (int (read_digits 0 ds), drop n s) else None)"

text \<open>The character a pointer shows: strings end with NUL.\<close>

definition peek :: "string \<Rightarrow> char" where
  "peek s = (case s of [] \<Rightarrow> CHR 0x00 | c # _ \<Rightarrow> c)"

text \<open>The fraction of a second: up to six digits count, further ones are skipped. The flag tells that something follows.\<close>

definition parse_fraction :: "string \<Rightarrow> nat \<Rightarrow> (int \<times> bool) option" where
  "parse_fraction s n = (let k = min n 6 in
     Option.bind (parse_digits k s) (\<lambda>(us, r).
       Some (us * 10 ^ (6 - k), peek (dropWhile is_digit r) \<noteq> CHR 0x00)))"

text \<open>\<open>HH[:MM[:SS[.ffffff]]]\<close>, with or without colons, in the first \<open>n\<close> characters of \<open>s\<close>. \<open>k\<close> counts the components still
  to come; the result has the components, the microseconds and the flag.\<close>

fun parse_hms :: "nat \<Rightarrow> bool option \<Rightarrow> string \<Rightarrow> nat \<Rightarrow> (int list \<times> int \<times> bool) option" where
  "parse_hms 0 sep s n = map_option (\<lambda>(us, rest). ([], us, rest)) (parse_fraction s n)"
| "parse_hms (Suc k) sep s n =
     (case parse_digits 2 s of None \<Rightarrow> None
      | Some (v, r) \<Rightarrow>
          let c = peek r; has_sep = (case sep of None \<Rightarrow> c = CHR '':'' | Some b \<Rightarrow> b) in
          if n \<le> 3 then Some ([v], 0, c \<noteq> CHR 0x00)
          else map_option (\<lambda>(vs, us, rest). (v # vs, us, rest))
            (if has_sep \<and> c = CHR '':'' then parse_hms k (Some has_sep) (drop 1 r) (n - 3)
             else if c = CHR ''.'' \<or> c = CHR '','' then map_option (\<lambda>(us, rest). ([], us, rest)) (parse_fraction (drop 1 r) (n - 3))
             else if \<not> has_sep then parse_hms k (Some has_sep) r (n - 2)
             else None))"

definition component :: "int list \<Rightarrow> nat \<Rightarrow> int" where
  "component vs i = (if i < length vs then vs ! i else 0)"

definition usec_of :: "int list \<Rightarrow> int \<Rightarrow> int" where
  "usec_of vs us = (component vs 0 * 3600 + component vs 1 * 60 + component vs 2) * 1000000 + us"

text \<open>The offset \<open>Z\<close> or \<open>+HH:MM[:SS[.ffffff]]\<close>; an offset whose whole seconds are zero is UTC, one of a day or more is refused.\<close>

definition parse_offset :: "string \<Rightarrow> int option" where
  "parse_offset s = (if peek s = CHR ''Z'' then (if peek (drop 1 s) = CHR 0x00 then Some 0 else None)
     else case parse_hms 3 None (drop 1 s) (length s - 1) of
       Some (vs, us, False) \<Rightarrow>
         (let off = usec_of vs us in
          if usec_of vs 0 = 0 then Some 0 else if usec_per_day \<le> off then None
          else Some (if peek s = CHR ''-'' then - off else off))
     | _ \<Rightarrow> None)"

text \<open>The microseconds of the day and the offset, if one is given. With an offset, anything may stand between the time and it.\<close>

definition parse_iso_time :: "string \<Rightarrow> (int \<times> int option) option" where
  "parse_iso_time s =
     (let n = length (takeWhile (\<lambda>c. c \<notin> {CHR ''+'', CHR ''-'', CHR ''Z''}) s) in
      case parse_hms 3 None s n of None \<Rightarrow> None
      | Some (vs, us, rest) \<Rightarrow>
          if component vs 0 < 24 \<and> component vs 1 < 60 \<and> component vs 2 < 60 then
            (if n = length s then (if rest then None else Some (usec_of vs us, None))
             else map_option (\<lambda>off. (usec_of vs us, Some off)) (parse_offset (drop n s)))
          else None)"

definition week_date :: "string \<Rightarrow> bool" where
  "week_date s = (let r = drop 4 s in peek r = CHR ''W'' \<or> peek r = CHR ''-'' \<and> peek (drop 1 r) = CHR ''W'')"

text \<open>The day number and what follows the date.\<close>

definition parse_iso_date :: "string \<Rightarrow> (int \<times> string) option" where
  "parse_iso_date s =
     Option.bind (parse_digits 4 s) (\<lambda>(y, r).
     let dash = (peek r = CHR ''-'') in
     Option.bind (parse_digits 2 (if dash then drop 1 r else r)) (\<lambda>(m, r).
     if dash \<and> peek r \<noteq> CHR ''-'' then None else
     Option.bind (parse_digits 2 (if dash then drop 1 r else r)) (\<lambda>(d, r).
     if valid_date y m d then Some (day_number y m d, r) else None)))"

text \<open>The wall-clock reading and its offset; \<open>Inl\<close> marks a week date.\<close>

definition fromisoformat :: "string \<Rightarrow> (time \<times> int option) option res" where
  "fromisoformat s0 = (let s = utf8 s0 in
     if week_date s then Inl (OutsideModel ''week date'')
     else Inr (Option.bind (parse_iso_date s) (\<lambda>(day, r).
       if length r \<le> 1 then Some (day * usec_per_day, None)
       else Option.bind (parse_iso_time (drop (if of_char (peek r) < (128 :: nat) then 1 else 2) r)) (\<lambda>(us, off).
         Some (day * usec_per_day + us, off)))))"

section \<open>\<open>_parse_ts\<close>\<close>

record zone =
  zn_offset :: "time \<Rightarrow> int"
  zn_wall_offset :: "time \<Rightarrow> int"

type_synonym zones = "string \<Rightarrow> zone res"

text \<open>\<open>ZoneInfo(name)\<close>: a \<open>KeyError\<close> for an unknown name.\<close>

definition zone_info :: "zones \<Rightarrow> pyval \<Rightarrow> zone res" where
  "zone_info zs v = (case v of PStr s \<Rightarrow> zs s | _ \<Rightarrow> Inl (TypeError ''zone name''))"

definition rewrap_key_error :: "error \<Rightarrow> 'a res \<Rightarrow> 'a res" where
  "rewrap_key_error e r = (case r of Inl (KeyError k) \<Rightarrow> Inl e | _ \<Rightarrow> r)"

definition to_naive_utc :: "zones \<Rightarrow> pyval \<Rightarrow> time \<times> int option \<Rightarrow> time res" where
  "to_naive_utc zs timezone_name = (\<lambda>(wall, tzinfo). case tzinfo of
       Some off \<Rightarrow> checked_time (wall - off)
     | None \<Rightarrow>
         if truthy timezone_name
         then bind_res (rewrap_key_error (ValueError ''invalid source_config.timezone'') (zone_info zs timezone_name))
           (\<lambda>z. checked_time (wall - zn_wall_offset z wall))
         else Inr wall)"

text \<open>\<open>datetime.fromtimestamp(x, tz=utc)\<close>: seconds and fraction apart, the fraction to the nearest microsecond.\<close>

definition fromtimestamp :: "pyfloat \<Rightarrow> time res" where
  "fromtimestamp x = (case x of
       NaN \<Rightarrow> Inl (ValueError ''cannot convert float NaN to integer'')
     | PosInf \<Rightarrow> Inl (OverflowError ''cannot convert float infinity to integer'')
     | NegInf \<Rightarrow> Inl (OverflowError ''cannot convert float infinity to integer'')
     | Finite r \<Rightarrow>
         let i = (if r < 0 then \<lceil>r\<rceil> else \<lfloor>r\<rfloor>); t = i * 1000000 + round_even (fl ((r - of_int i) * 1000000)) in
         if in_range_time t then Inr t else Inl (ValueError ''year is out of range''))"

definition parse_ts :: "zones \<Rightarrow> pyval \<Rightarrow> pyval \<Rightarrow> time res" where
  "parse_ts zs timezone_name v =
     (case v of
        PTime t \<Rightarrow> Inr t
      | PNone \<Rightarrow> Inl (ValueError ''timestamp is required'')
      | PBool b \<Rightarrow> fromtimestamp (Finite (if b then 1 else 0))
      | PInt i \<Rightarrow> fromtimestamp (Finite (fl (of_int i)))
      | PFloat r \<Rightarrow> fromtimestamp (Finite r)
      | _ \<Rightarrow>
          let s0 = strip (py_str v);
              s = (if s0 \<noteq> [] \<and> last s0 = CHR ''Z'' then butlast s0 @ ''+00:00'' else s0) in
          bind_res (fromisoformat s) (\<lambda>parsed.
            case parsed of
              Some dt \<Rightarrow> to_naive_utc zs timezone_name dt
            | None \<Rightarrow>
                (case float_of_str s of
                   None \<Rightarrow> Inl (ValueError ''cannot parse timestamp'')
                 | Some x \<Rightarrow> (case fromtimestamp x of Inl (ValueError _) \<Rightarrow> Inl (ValueError ''cannot parse timestamp'') | r \<Rightarrow> r))))"

section \<open>\<open>format_time_param\<close>\<close>

text \<open>\<open>+HH:MM[:SS[.ffffff]]\<close>\<close>

definition show_offset :: "int \<Rightarrow> string" where
  "show_offset off = (let a = \<bar>off\<bar>; sec = a div 1000000; us = a mod 1000000 in
     (if off < 0 then ''-'' else ''+'') @ pad 2 (sec div 3600) @ '':'' @ pad 2 (sec mod 3600 div 60)
     @ (if sec mod 60 = 0 \<and> us = 0 then [] else '':'' @ pad 2 (sec mod 60)) @ (if us = 0 then [] else ''.'' @ pad 6 us))"

text \<open>\<open>isoformat(timespec="milliseconds")\<close> without the offset.\<close>

definition iso_millis :: "time \<Rightarrow> string" where
  "iso_millis wall = (let (y, m, d) = civil (wall div usec_per_day); r = wall mod usec_per_day; sec = r div 1000000
   in pad 4 y @ ''-'' @ pad 2 m @ ''-'' @ pad 2 d @ ''T'' @ pad 2 (sec div 3600) @ '':''
      @ pad 2 (sec mod 3600 div 60) @ '':'' @ pad 2 (sec mod 60) @ ''.'' @ pad 3 (r mod 1000000 div 1000))"

definition zulu :: "string \<Rightarrow> string" where
  "zulu base = (if drop (length base - 6) base = ''+00:00'' then take (length base - 6) base @ ''Z'' else base)"

definition format_time_param :: "zones \<Rightarrow> pyval \<Rightarrow> time \<Rightarrow> string res" where
  "format_time_param zs timezone_name t =
     (if truthy timezone_name
      then bind_res (rewrap_key_error (AppException CONFIG_ERROR ''invalid source_config.timezone'') (zone_info zs timezone_name))
        (\<lambda>z. bind_res (checked_time (t + zn_offset z t)) (\<lambda>wall. Inr (zulu (iso_millis wall @ show_offset (zn_offset z t)))))
      else Inr (zulu (iso_millis t @ show_offset 0)))"

section \<open>The calendar is a bijection\<close>

text \<open>A day of a 400-year era: century, four-year cycle, year and day of the year, which begins in March. A 366th day ends
  the years before a leap year only.\<close>

definition era_day :: "int \<Rightarrow> int \<Rightarrow> int \<Rightarrow> int \<Rightarrow> bool" where
  "era_day c q r doy \<longleftrightarrow> 0 \<le> c \<and> c \<le> 3 \<and> 0 \<le> q \<and> q \<le> 24 \<and> 0 \<le> r \<and> r \<le> 3 \<and> 0 \<le> doy \<and> doy \<le> 365
     \<and> (doy = 365 \<longrightarrow> r = 3 \<and> (q = 24 \<longrightarrow> c = 3))"

lemma div_mod_bounds:
  fixes x n :: int
  assumes "0 < n"
  shows "n * (x div n) \<le> x" "x < n * (x div n) + n"
  using assms pos_mod_bound [of n x] pos_mod_sign [of n x] minus_mod_eq_mult_div [of x n] by linarith+

lemma era_day_exists:
  assumes "0 \<le> doe" "doe < 146097"
  shows "\<exists>c q r doy. doe = 36524 * c + 1461 * q + 365 * r + doy \<and> era_day c q r doy"
proof -
  define c where "c = min (doe div 36524) 3"
  define x where "x = doe - 36524 * c"
  define q where "q = x div 1461"
  define y where "y = x - 1461 * q"
  define r where "r = min (y div 365) 3"
  define doy where "doy = y - 365 * r"
  have c: "0 \<le> c" "c \<le> 3" "0 \<le> x" "x \<le> 36524" "x = 36524 \<Longrightarrow> c = 3"
    using div_mod_bounds [of 36524 doe] assms unfolding c_def x_def min_def by (auto simp: pos_imp_zdiv_nonneg_iff)
  have q: "0 \<le> q" "q \<le> 24" "0 \<le> y" "y \<le> 1460"
    using div_mod_bounds [of 1461 x] c(3,4) unfolding q_def y_def by (auto simp: pos_imp_zdiv_nonneg_iff)
  have q24: "q = 24 \<Longrightarrow> y = 1460 \<Longrightarrow> c = 3" using c(4,5) unfolding y_def by linarith
  have r: "0 \<le> r" "r \<le> 3" "0 \<le> doy" "doy \<le> 365" "doy = 365 \<Longrightarrow> r = 3 \<and> y = 1460"
    using div_mod_bounds [of 365 y] q(3,4) unfolding r_def doy_def min_def by (auto simp: pos_imp_zdiv_nonneg_iff)
  have "doe = 36524 * c + 1461 * q + 365 * r + doy" unfolding doy_def y_def x_def by simp
  moreover have "era_day c q r doy" using c q q24 r unfolding era_day_def by blast
  ultimately show ?thesis by blast
qed

lemma era_div:
  assumes "era_day c q r doy" and doe: "doe = 36524 * c + 1461 * q + 365 * r + doy"
  shows "(doe - doe div 1460 + doe div 36524 - doe div 146096) div 365 = 100 * c + 4 * q + r"
proof -
  from assms(1) have b: "0 \<le> c" "c \<le> 3" "0 \<le> q" "q \<le> 24" "0 \<le> r" "r \<le> 3" "0 \<le> doy" "doy \<le> 365"
    and leap: "doy = 365 \<Longrightarrow> r = 3 \<and> (q = 24 \<longrightarrow> c = 3)" by (auto simp: era_day_def)
  define k where "k = 24 * c + q + 365 * r + doy"
  define e where "e = (if 1460 \<le> k then 1 else 0 :: int)"
  have k: "0 \<le> k" "k < 2920" using b unfolding k_def by linarith+
  have "doe = 1460 * (25 * c + q + e) + (k - 1460 * e)" unfolding doe k_def by (simp add: algebra_simps)
  moreover have "0 \<le> k - 1460 * e" "k - 1460 * e < 1460" using k unfolding e_def by auto
  ultimately have d1: "doe div 1460 = 25 * c + q + e" by (intro int_div_pos_eq) auto
  define last where "last = (doe = 146096)"
  have top: "doe \<le> 146096" and lc: "doe < 36524 * c + 36524 \<or> last"
  proof -
    show "doe \<le> 146096" using b unfolding doe by linarith
    show "doe < 36524 * c + 36524 \<or> last"
    proof (cases "doy = 365")
      case True
      with leap have "r = 3" "q = 24 \<longrightarrow> c = 3" by auto
      with True b show ?thesis unfolding doe last_def by (cases "q = 24") auto
    next
      case False
      with b show ?thesis unfolding doe by auto
    qed
  qed
  have ll: "last \<Longrightarrow> c = 3"
    using b unfolding last_def doe by linarith
  have nn: "36524 * c \<le> doe" "0 \<le> doe" using b unfolding doe by linarith+
  have d2: "doe div 36524 - doe div 146096 = c"
  proof (cases last)
    case True
    then show ?thesis using ll by (simp add: last_def)
  next
    case False
    then have "doe div 36524 = c" using lc nn by (intro int_div_pos_eq [where r = "doe - 36524 * c"]) auto
    moreover have "doe div 146096 = 0" using False top nn by (intro div_pos_pos_trivial) (auto simp: last_def)
    ultimately show ?thesis by simp
  qed
  have "doe - doe div 1460 + (doe div 36524 - doe div 146096) = 365 * (100 * c + 4 * q + r) + (doy - e)"
    unfolding d1 d2 using doe by (simp add: algebra_simps)
  moreover have "0 \<le> doy - e" "doy - e < 365"
    using b leap unfolding e_def k_def by (cases "doy = 365"; auto split: if_splits)+
  ultimately have "(doe - doe div 1460 + (doe div 36524 - doe div 146096)) div 365 = 100 * c + 4 * q + r"
    by (intro int_div_pos_eq) auto
  then show ?thesis by (simp add: algebra_simps)
qed

lemma era_year:
  assumes "era_day c q r doy"
  shows "365 * (100 * c + 4 * q + r) + (100 * c + 4 * q + r) div 4 - (100 * c + 4 * q + r) div 100 = 36524 * c + 1461 * q + 365 * r"
proof -
  from assms have b: "0 \<le> c" "0 \<le> q" "q \<le> 24" "0 \<le> r" "r \<le> 3" by (auto simp: era_day_def)
  have "(100 * c + 4 * q + r) div 4 = 25 * c + q" using b by (intro int_div_pos_eq [where r = r]) auto
  moreover have "(100 * c + 4 * q + r) div 100 = c" using b by (intro int_div_pos_eq [where r = "4 * q + r"]) auto
  ultimately show ?thesis by (simp add: algebra_simps)
qed

text \<open>What \<^const>\<open>civil\<close> computes, with the era's fields named.\<close>

lemma civil_fields:
  obtains era c q r doy mp where "era_day c q r doy" "z + 719468 = era * 146097 + (36524 * c + 1461 * q + 365 * r + doy)"
    "mp = (5 * doy + 2) div 153" "0 \<le> mp" "mp \<le> 11"
    "civil z = (100 * c + 4 * q + r + era * 400 + (if mp < 10 then 0 else 1), if mp < 10 then mp + 3 else mp - 9,
       doy - (153 * mp + 2) div 5 + 1)"
proof -
  define era where "era = (z + 719468) div 146097"
  define doe where "doe = (z + 719468) mod 146097"
  have "0 \<le> doe" "doe < 146097" unfolding doe_def by simp_all
  then obtain c q r doy where e: "doe = 36524 * c + 1461 * q + 365 * r + doy" "era_day c q r doy"
    using era_day_exists by blast
  define mp where "mp = (5 * doy + 2) div 153"
  from e(2) have "0 \<le> doy" "doy \<le> 365" by (auto simp: era_day_def)
  then have mp: "0 \<le> mp" "mp \<le> 11" using div_mod_bounds [of 153 "5 * doy + 2"] unfolding mp_def by (auto simp: pos_imp_zdiv_nonneg_iff)
  have doy: "doe - (365 * (100 * c + 4 * q + r) + (100 * c + 4 * q + r) div 4 - (100 * c + 4 * q + r) div 100) = doy"
    using era_year [OF e(2)] e(1) by simp
  have "civil z = (100 * c + 4 * q + r + era * 400 + (if mp < 10 then 0 else 1), if mp < 10 then mp + 3 else mp - 9,
       doy - (153 * mp + 2) div 5 + 1)"
    unfolding civil_def Let_def era_def [symmetric] doe_def [symmetric] era_div [OF e(2,1)] doy mp_def [symmetric]
    using mp by auto
  moreover have "z + 719468 = era * 146097 + (36524 * c + 1461 * q + 365 * r + doy)"
    unfolding e(1) [symmetric] era_def doe_def by simp
  ultimately show ?thesis using that [OF e(2)] mp mp_def by blast
qed

lemma day_number_civil: "(case civil z of (y, m, d) \<Rightarrow> day_number y m d) = z"
proof -
  obtain era c q r doy mp where f: "era_day c q r doy" "z + 719468 = era * 146097 + (36524 * c + 1461 * q + 365 * r + doy)"
    "mp = (5 * doy + 2) div 153" "0 \<le> mp" "mp \<le> 11"
    "civil z = (100 * c + 4 * q + r + era * 400 + (if mp < 10 then 0 else 1), if mp < 10 then mp + 3 else mp - 9,
       doy - (153 * mp + 2) div 5 + 1)" by (rule civil_fields)
  let ?yoe = "100 * c + 4 * q + r"
  from f(1) have "0 \<le> ?yoe" "?yoe < 400" by (auto simp: era_day_def)
  then have y: "(?yoe + era * 400) div 400 = era" "(?yoe + era * 400) mod 400 = ?yoe" by simp_all
  have "day_number (?yoe + era * 400 + (if mp < 10 then 0 else 1)) (if mp < 10 then mp + 3 else mp - 9) (doy - (153 * mp + 2) div 5 + 1)
    = era * 146097 + (365 * ?yoe + ?yoe div 4 - ?yoe div 100 + doy) - 719468"
    using f(4,5) y by (auto simp: day_number_def Let_def)
  also have "\<dots> = z" using era_year [OF f(1)] f(2) by simp
  finally show ?thesis by (simp add: f(6))
qed

lemma month_starts:
  fixes doy :: int
  assumes "0 \<le> doy" "doy \<le> 365" and mp: "mp = (5 * doy + 2) div 153"
  shows "0 \<le> doy - (153 * mp + 2) div 5 \<and> doy - (153 * mp + 2) div 5 < (if mp \<in> {1, 3, 6, 8} then 30 else if mp = 11 then 29 else 31)"
proof -
  have b: "153 * mp \<le> 5 * doy + 2" "5 * doy + 2 < 153 * mp + 153"
    unfolding mp using div_mod_bounds [of 153 "5 * doy + 2"] by simp_all
  then have "0 \<le> mp" "mp \<le> 11" using assms(1,2) by linarith+
  then have "mp = 0 \<or> mp = 1 \<or> mp = 2 \<or> mp = 3 \<or> mp = 4 \<or> mp = 5 \<or> mp = 6 \<or> mp = 7 \<or> mp = 8 \<or> mp = 9
    \<or> mp = 10 \<or> mp = 11" by presburger
  then show ?thesis using b assms(1,2) by (elim disjE) simp_all
qed

lemma civil_month_day:
  assumes "civil z = (y, m, d)"
  shows "1 \<le> m \<and> m \<le> 12 \<and> 1 \<le> d \<and> d \<le> month_days y m"
proof -
  obtain era c q r doy mp where f: "era_day c q r doy" "z + 719468 = era * 146097 + (36524 * c + 1461 * q + 365 * r + doy)"
    "mp = (5 * doy + 2) div 153" "0 \<le> mp" "mp \<le> 11"
    "civil z = (100 * c + 4 * q + r + era * 400 + (if mp < 10 then 0 else 1), if mp < 10 then mp + 3 else mp - 9,
       doy - (153 * mp + 2) div 5 + 1)" by (rule civil_fields)
  have m: "m = (if mp < 10 then mp + 3 else mp - 9)" and y: "y = 100 * c + 4 * q + r + era * 400 + (if mp < 10 then 0 else 1)"
    and d: "d = doy - (153 * mp + 2) div 5 + 1" using assms f(6) by auto
  from f(1) have doy: "0 \<le> doy" "doy \<le> 365" by (auto simp: era_day_def)
  note s = month_starts [OF doy f(3)]
  have feb: "leap y" if "mp = 11" "d = 29"
  proof -
    have "doy = 365" using that d by simp
    with f(1) have r: "r = 3" "q = 24 \<longrightarrow> c = 3" "0 \<le> q" "q \<le> 24" by (auto simp: era_day_def)
    have y4: "y = 4 * (25 * c + (q + 1) + 100 * era)" using y r(1) that(1) by simp
    show ?thesis
    proof (cases "q = 24")
      case True
      with r y that(1) have "y = 400 * (era + 1)" by simp
      then show ?thesis by (simp add: leap_def)
    next
      case False
      have "y mod 100 = 4 * (q + 1)"
        using False r y that(1) by (intro int_mod_pos_eq [where q = "c + 4 * era"]) auto
      with y4 r(3) show ?thesis by (simp add: leap_def)
    qed
  qed
  show ?thesis
  proof (cases "mp = 11")
    case True
    then have "m = 2" using m by simp
    moreover have "d \<le> 29" "1 \<le> d" using s d True by auto
    ultimately show ?thesis using feb [OF True] by (cases "d = 29") (auto simp: month_days_def)
  next
    case False
    have "d \<le> (if mp \<in> {1, 3, 6, 8} then 30 else 31)" "1 \<le> d" using s d False by (auto split: if_splits)
    moreover have "m \<noteq> 2" "mp \<in> {1, 3, 6, 8} \<longleftrightarrow> m \<in> {4, 6, 9, 11}" using m False f(4,5) by auto
    ultimately show ?thesis using m f(4,5) False by (auto simp: month_days_def)
  qed
qed

lemma civil_year:
  assumes "civil z = (y, m, d)" "day_number 1 1 1 \<le> z" "z \<le> day_number 9999 12 31"
  shows "1 \<le> y \<and> y \<le> 9999"
proof -
  obtain era c q r doy mp where f: "era_day c q r doy" "z + 719468 = era * 146097 + (36524 * c + 1461 * q + 365 * r + doy)"
    "mp = (5 * doy + 2) div 153" "0 \<le> mp" "mp \<le> 11"
    "civil z = (100 * c + 4 * q + r + era * 400 + (if mp < 10 then 0 else 1), if mp < 10 then mp + 3 else mp - 9,
       doy - (153 * mp + 2) div 5 + 1)" by (rule civil_fields)
  have y: "y = 100 * c + 4 * q + r + era * 400 + (if mp < 10 then 0 else 1)" using assms(1) f(6) by auto
  have z: "306 \<le> z + 719468" "z + 719468 \<le> 3652364" using assms(2,3) by (simp_all add: day_number_def)
  from f(1) have b: "0 \<le> c" "c \<le> 3" "0 \<le> q" "q \<le> 24" "0 \<le> r" "r \<le> 3" "0 \<le> doy" "doy \<le> 365"
    by (auto simp: era_day_def)
  have mpb: "153 * mp \<le> 5 * doy + 2" "5 * doy + 2 < 153 * mp + 153"
    unfolding f(3) using div_mod_bounds [of 153 "5 * doy + 2"] by simp_all
  have era: "0 \<le> era" "era \<le> 24" using z f(2) b by linarith+
  have "1 \<le> y"
  proof (cases "era = 0 \<and> c = 0 \<and> q = 0 \<and> r = 0")
    case True
    then have "306 \<le> doy" using z(1) f(2) by simp
    then have "10 \<le> mp" using mpb by linarith
    with True y show ?thesis by simp
  next
    case False
    with era b y show ?thesis by auto
  qed
  moreover have "y \<le> 9999"
  proof (cases "era = 24 \<and> c = 3 \<and> q = 24 \<and> r = 3")
    case True
    then have "doy \<le> 305" using z(2) f(2) by simp
    then have "mp < 10" using mpb by linarith
    with True y show ?thesis by simp
  next
    case False
    then consider "era \<le> 23" | "c \<le> 2" | "q \<le> 23" | "r \<le> 2" using era b by linarith
    then show ?thesis using era b y by cases auto
  qed
  ultimately show ?thesis by simp
qed

lemma civil_valid:
  assumes "in_range_time t" "civil (t div usec_per_day) = (y, m, d)"
  shows "valid_date y m d"
proof -
  have "day_number 1 1 1 \<le> t div usec_per_day" "t div usec_per_day \<le> day_number 9999 12 31"
    using assms(1) div_mod_bounds [of usec_per_day t]
    by (auto simp: in_range_time_def time_min_def time_max_def usec_per_day_def day_number_def)
  with civil_year [OF assms(2)] civil_month_day [OF assms(2)] show ?thesis by (simp add: valid_date_def)
qed

end
