(* ===== verification/Apm_Timestamps.thy ===== *)
theory Apm_Timestamps
  imports Apm_Time
begin

text \<open>
  Printing and reading a time agree: what \<open>format_time_param\<close> writes into a request, \<open>_parse_ts\<close> reads back to the
  millisecond, in every time zone. The fields are read one by one: each printed field has a fixed width, and its parser
  returns its value and the remaining string.
\<close>

section \<open>Fields\<close>

lemma length_show_nat: "length (show_nat n) = (if n < 10 then 1 else Suc (length (show_nat (n div 10))))"
  by (subst show_nat.simps) simp

lemma length_show_nat_le: "n < 10 ^ w \<Longrightarrow> 0 < w \<Longrightarrow> length (show_nat n) \<le> w"
proof (induction w arbitrary: n)
  case (Suc w)
  show ?case
  proof (cases "n < 10")
    case True
    then show ?thesis by (simp add: length_show_nat [of n])
  next
    case False
    with Suc.prems have "n div 10 < 10 ^ w" by (simp add: less_mult_imp_div_less mult.commute)
    moreover have "0 < w" using False Suc.prems by (cases w) auto
    ultimately show ?thesis using Suc.IH False by (simp add: length_show_nat [of n])
  qed
qed simp

lemma length_pad: "0 \<le> v \<Longrightarrow> v < 10 ^ w \<Longrightarrow> 0 < w \<Longrightarrow> length (pad w v) = w"
  using length_show_nat_le [of "nat v" w]
  by (simp add: pad_def length_zfill max_def nat_less_iff)

lemma length_pad_ge: "w \<le> length (pad w v)"
  by (simp add: pad_def length_zfill)

lemma is_digit_zero: "is_digit (CHR ''0'')"
  by (simp add: is_digit_def)

lemma pad_digits: "c \<in> set (pad w v) \<Longrightarrow> is_digit c"
  by (auto simp: pad_def zfill_def is_digit_zero show_nat_digits split: if_splits)

lemma parse_digits_pad:
  assumes "0 \<le> v" "v < 10 ^ w" "0 < w"
  shows "parse_digits w (pad w v @ r) = Some (v, r)"
proof -
  have "int (read_digits 0 (pad w v)) = v" using assms(1) by (simp add: pad_def read_zfill)
  then show ?thesis using length_pad [OF assms] by (simp add: parse_digits_def list_all_iff pad_digits)
qed

lemma parse_digits_pad2 [simp]: "0 \<le> v \<Longrightarrow> v < 100 \<Longrightarrow> parse_digits 2 (pad 2 v @ r) = Some (v, r)"
  by (rule parse_digits_pad) simp_all

lemma parse_digits_pad4 [simp]: "0 \<le> v \<Longrightarrow> v < 10000 \<Longrightarrow> parse_digits 4 (pad 4 v @ r) = Some (v, r)"
  by (rule parse_digits_pad) simp_all

lemma peek_Cons [simp]: "peek (c # s) = c" "peek [] = CHR 0x00"
  by (simp_all add: peek_def)

lemma peek_pad: "0 < w \<Longrightarrow> 0 \<le> v \<Longrightarrow> v < 10 ^ w \<Longrightarrow> is_digit (peek (pad w v @ r))"
  using pad_digits [of "peek (pad w v @ r)" w v] length_pad [of v w] by (cases "pad w v") auto

section \<open>Date, time and offset\<close>

lemma parse_iso_date_print:
  assumes "valid_date y m d"
  shows "parse_iso_date (pad 4 y @ ''-'' @ pad 2 m @ ''-'' @ pad 2 d @ r) = Some (day_number y m d, r)"
proof -
  have b: "0 \<le> y" "y < 10000" "0 \<le> m" "m < 100" "0 \<le> d" "d < 100"
    using assms by (auto simp: valid_date_def month_days_def split: if_splits)
  show ?thesis using assms b by (simp add: parse_iso_date_def Let_def)
qed

lemma numeral_3_Suc: "(3::nat) = Suc (Suc (Suc 0))"
  by simp

lemma parse_fraction_millis:
  assumes "0 \<le> ms" "ms < 1000" "s = [] \<or> \<not> is_digit (hd s)"
  shows "parse_fraction (pad 3 ms @ s) 3 = Some (ms * 1000, peek s \<noteq> CHR 0x00)"
proof -
  have "dropWhile is_digit s = s" using assms(3) by (cases s) auto
  then show ?thesis using parse_digits_pad [of ms 3 s] assms(1,2) by (simp add: parse_fraction_def)
qed

lemma parse_hms_print:
  assumes "0 \<le> h" "h < 100" "0 \<le> m" "m < 100" "0 \<le> s" "s < 100" "0 \<le> ms" "ms < 1000" "r = [] \<or> \<not> is_digit (hd r)"
  shows "parse_hms 3 None (pad 2 h @ '':'' @ pad 2 m @ '':'' @ pad 2 s @ ''.'' @ pad 3 ms @ r) 12
    = Some ([h, m, s], ms * 1000, peek r \<noteq> CHR 0x00)"
  using assms parse_fraction_millis [OF assms(7-9)] by (simp add: numeral_3_Suc Let_def)

lemma parse_hm_print:
  assumes "0 \<le> h" "h < 100" "0 \<le> m" "m < 100"
  shows "parse_hms 3 None (pad 2 h @ '':'' @ pad 2 m) 5 = Some ([h, m], 0, False)"
  using assms parse_digits_pad2 [of m "[]"] by (simp add: numeral_3_Suc Let_def)

lemma parse_hms_print':
  assumes "0 \<le> h" "h < 100" "0 \<le> m" "m < 100" "0 \<le> s" "s < 100"
  shows "parse_hms 3 None (pad 2 h @ '':'' @ pad 2 m @ '':'' @ pad 2 s) 8 = Some ([h, m, s], 0, False)"
  using assms parse_digits_pad2 [of s "[]"] by (simp add: numeral_3_Suc Let_def)

text \<open>Offsets of the zone database are whole seconds, less than a day.\<close>

definition zone_offset :: "int \<Rightarrow> bool" where
  "zone_offset off \<longleftrightarrow> off mod 1000000 = 0 \<and> \<bar>off\<bar> < usec_per_day"

lemma parse_offset_print:
  assumes "zone_offset off"
  shows "parse_offset (show_offset off) = Some off"
proof -
  define sec where "sec = \<bar>off\<bar> div 1000000"
  have us: "\<bar>off\<bar> mod 1000000 = 0" using assms by (simp add: zone_offset_def mod_eq_0_iff_dvd)
  have off: "\<bar>off\<bar> = sec * 1000000" using us unfolding sec_def by (simp add: minus_mod_eq_div_mult [symmetric])
  have sec: "0 \<le> sec" "sec < 86400" using assms off by (auto simp: zone_offset_def usec_per_day_def)
  define h where "h = sec div 3600"
  define m where "m = sec mod 3600 div 60"
  define s where "s = sec mod 60"
  have b: "0 \<le> h" "h < 100" "0 \<le> m" "m < 100" "0 \<le> s" "s < 100"
    unfolding h_def m_def s_def using sec div_mod_bounds [of 3600 sec] div_mod_bounds [of 60 "sec mod 3600"] pos_mod_bound [of 60 sec] pos_mod_bound [of 3600 sec]
    by (simp_all add: pos_imp_zdiv_nonneg_iff) linarith+
  have sum: "h * 3600 + m * 60 + s = sec"
  proof -
    have "sec mod 3600 mod 60 = s" by (simp add: s_def mod_mod_cancel)
    with div_mult_mod_eq [of "sec mod 3600" 60] div_mult_mod_eq [of sec 3600] show ?thesis unfolding h_def m_def by linarith
  qed
  have len: "length (pad 2 h) = 2" "length (pad 2 m) = 2" "length (pad 2 s) = 2"
    using b by (simp_all add: length_pad)
  have show_off: "show_offset off = (if off < 0 then CHR ''-'' else CHR ''+'') # pad 2 h @ '':'' @ pad 2 m @ (if s = 0 then [] else '':'' @ pad 2 s)"
    unfolding show_offset_def Let_def us sec_def [symmetric] h_def [symmetric] m_def [symmetric] s_def [symmetric] by simp
  have hms: "parse_hms 3 None (drop 1 (show_offset off)) (length (show_offset off) - 1)
      = Some (if s = 0 then [h, m] else [h, m, s], 0, False)"
  proof (cases "s = 0")
    case True
    with parse_hm_print [OF b(1-4)] len show ?thesis unfolding show_off by simp
  next
    case False
    with parse_hms_print' [OF b] len show ?thesis unfolding show_off by simp
  qed
  have val: "usec_of (if s = 0 then [h, m] else [h, m, s]) 0 = \<bar>off\<bar>"
    using sum off by (auto simp: usec_of_def component_def)
  have head: "peek (show_offset off) = (if off < 0 then CHR ''-'' else CHR ''+'')"
    by (simp add: show_off)
  show ?thesis
    using assms unfolding parse_offset_def hms head
    by (auto simp: val zone_offset_def Let_def abs_if)
qed

section \<open>Whole time stamps\<close>

definition offset_start :: "char \<Rightarrow> bool" where
  "offset_start c \<longleftrightarrow> c \<in> {CHR ''+'', CHR ''-'', CHR ''Z''}"

lemma digit_no_offset: "is_digit c \<Longrightarrow> \<not> offset_start c"
  by (auto simp: is_digit_def offset_start_def)

lemma show_offset_head: "show_offset off = (if off < 0 then CHR ''-'' else CHR ''+'') # tl (show_offset off)"
  by (simp add: show_offset_def Let_def)

lemma length_show_offset: "6 \<le> length (show_offset off)"
proof -
  have "show_offset off = (if off < 0 then CHR ''-'' else CHR ''+'') # pad 2 (\<bar>off\<bar> div 1000000 div 3600) @ '':''
      @ pad 2 (\<bar>off\<bar> div 1000000 mod 3600 div 60)
      @ (if \<bar>off\<bar> div 1000000 mod 60 = 0 \<and> \<bar>off\<bar> mod 1000000 = 0 then [] else '':'' @ pad 2 (\<bar>off\<bar> div 1000000 mod 60))
      @ (if \<bar>off\<bar> mod 1000000 = 0 then [] else ''.'' @ pad 6 (\<bar>off\<bar> mod 1000000))"
    by (simp add: show_offset_def Let_def)
  then obtain x a b c where "show_offset off = x # pad 2 a @ '':'' @ pad 2 b @ c" by blast
  then show ?thesis using length_pad_ge [of 2 a] length_pad_ge [of 2 b] by simp
qed

lemma takeWhile_free: "(\<And>c. c \<in> set a \<Longrightarrow> P c) \<Longrightarrow> \<not> P c \<Longrightarrow> takeWhile P (a @ c # r) = a"
  by (induction a) auto

lemma parse_iso_time_print:
  assumes b: "0 \<le> h" "h < 24" "0 \<le> m" "m < 60" "0 \<le> s" "s < 60" "0 \<le> ms" "ms < 1000" and off: "zone_offset off"
  shows "parse_iso_time (pad 2 h @ '':'' @ pad 2 m @ '':'' @ pad 2 s @ ''.'' @ pad 3 ms @ show_offset off)
    = Some (((h * 3600 + m * 60 + s) * 1000 + ms) * 1000, Some off)"
proof -
  define a where "a = pad 2 h @ '':'' @ pad 2 m @ '':'' @ pad 2 s @ ''.'' @ pad 3 ms"
  define o1 where "o1 = (if off < 0 then CHR ''-'' else CHR ''+'')"
  have o: "show_offset off = o1 # tl (show_offset off)" unfolding o1_def by (rule show_offset_head)
  have "c \<in> set a \<Longrightarrow> \<not> offset_start c" for c
    unfolding a_def using digit_no_offset pad_digits by (auto simp: offset_start_def)
  then have "takeWhile (\<lambda>c. c \<notin> {CHR ''+'', CHR ''-'', CHR ''Z''}) (a @ show_offset off) = a"
    by (subst o, intro takeWhile_free) (auto simp: offset_start_def o1_def)
  moreover have len: "length a = 12" unfolding a_def using b by (simp add: length_pad)
  ultimately have n: "length (takeWhile (\<lambda>c. c \<notin> {CHR ''+'', CHR ''-'', CHR ''Z''}) (a @ show_offset off)) = 12" by simp
  have hms: "parse_hms 3 None (a @ show_offset off) 12 = Some ([h, m, s], ms * 1000, True)"
  proof -
    have "show_offset off = [] \<or> \<not> is_digit (hd (show_offset off))" by (subst o) (auto simp: o1_def is_digit_def)
    moreover have "peek (show_offset off) \<noteq> CHR 0x00" by (subst o) (simp add: o1_def)
    ultimately show ?thesis using parse_hms_print [of h m s ms "show_offset off"] b by (simp add: a_def)
  qed
  have drop: "drop 12 (a @ show_offset off) = show_offset off" "length (a @ show_offset off) \<noteq> 12"
    using len by simp (subst o, simp add: len)
  have "parse_iso_time (a @ show_offset off) = Some (usec_of [h, m, s] (ms * 1000), Some off)"
    using b drop(2) unfolding parse_iso_time_def Let_def n hms drop(1) parse_offset_print [OF off] by (simp add: component_def)
  then show ?thesis by (simp add: a_def usec_of_def component_def algebra_simps)
qed

text \<open>A wall-clock reading by its fields.\<close>

lemma clock_fields:
  fixes r :: int
  assumes "0 \<le> r" "r < usec_per_day"
  defines "h \<equiv> r div 1000000 div 3600" and "m \<equiv> r div 1000000 mod 3600 div 60" and "s \<equiv> r div 1000000 mod 60"
    and "ms \<equiv> r mod 1000000 div 1000"
  shows "0 \<le> h" "h < 24" "0 \<le> m" "m < 60" "0 \<le> s" "s < 60" "0 \<le> ms" "ms < 1000"
    "((h * 3600 + m * 60 + s) * 1000 + ms) * 1000 = r div 1000 * 1000"
proof -
  define q where "q = r div 1000000"
  have q: "0 \<le> q" "q < 86400" using assms(1,2) div_mod_bounds [of 1000000 r]
    unfolding q_def usec_per_day_def by (simp_all add: pos_imp_zdiv_nonneg_iff)
  show "0 \<le> h" "h < 24" using q div_mod_bounds [of 3600 q] unfolding h_def q_def [symmetric]
    by (simp_all add: pos_imp_zdiv_nonneg_iff)
  show "0 \<le> m" "m < 60" using pos_mod_bound [of 3600 q] pos_mod_sign [of 3600 q] div_mod_bounds [of 60 "q mod 3600"]
    unfolding m_def q_def [symmetric] by (simp_all add: pos_imp_zdiv_nonneg_iff)
  show "0 \<le> s" "s < 60" unfolding s_def by simp_all
  show "0 \<le> ms" "ms < 1000" using pos_mod_bound [of 1000000 r] pos_mod_sign [of 1000000 r] div_mod_bounds [of 1000 "r mod 1000000"]
    unfolding ms_def by (simp_all add: pos_imp_zdiv_nonneg_iff)
  have "h * 3600 + m * 60 + s = q"
  proof -
    have "q mod 3600 mod 60 = s" unfolding s_def q_def by (simp add: mod_mod_cancel)
    with div_mult_mod_eq [of "q mod 3600" 60] div_mult_mod_eq [of q 3600] show ?thesis
      unfolding h_def m_def q_def [symmetric] by linarith
  qed
  moreover have "r div 1000 = q * 1000 + ms"
  proof -
    have "r div 1000 = (q * 1000 * 1000 + r mod 1000000) div 1000" using div_mult_mod_eq [of r 1000000] by (simp add: q_def)
    also have "\<dots> = q * 1000 + ms" unfolding ms_def by (subst div_mult_self3) simp_all
    finally show ?thesis .
  qed
  ultimately show "((h * 3600 + m * 60 + s) * 1000 + ms) * 1000 = r div 1000 * 1000" by simp
qed

lemma floor_millis: "t div usec_per_day * usec_per_day + t mod usec_per_day div 1000 * 1000 = t div 1000 * 1000"
proof -
  have "t div 1000 = (t div usec_per_day * 86400000 * 1000 + t mod usec_per_day) div 1000"
    using div_mult_mod_eq [of t usec_per_day] by (simp add: usec_per_day_def)
  also have "\<dots> = t div usec_per_day * 86400000 + t mod usec_per_day div 1000" by (subst div_mult_self3) simp_all
  finally show ?thesis by (simp add: usec_per_day_def)
qed

definition plain :: "char \<Rightarrow> bool" where
  "plain c \<longleftrightarrow> is_digit c \<or> c \<in> {CHR ''-'', CHR ''T'', CHR '':'', CHR ''.'', CHR ''+''}"

lemma plain_ascii: "plain c \<Longrightarrow> (of_char c :: nat) < 128"
  by (auto simp: plain_def is_digit_def Let_def)

lemma utf8_plain: "(\<And>c. c \<in> set s \<Longrightarrow> plain c) \<Longrightarrow> utf8 s = s"
proof (induction s)
  case (Cons c s)
  then have "(of_char c :: nat) < 128" using plain_ascii by simp
  with Cons show ?case by (simp add: utf8_def Let_def)
qed (simp add: utf8_def)

lemma plain_no_space: "plain c \<Longrightarrow> \<not> py_space c \<and> c \<noteq> CHR ''Z''"
  by (auto simp: plain_def is_digit_def py_space_def Let_def)

definition stamp :: "time \<Rightarrow> int \<Rightarrow> string" where
  "stamp wall off = iso_millis wall @ show_offset off"

lemma stamp_fields:
  obtains y m d h mi s ms where "civil (wall div usec_per_day) = (y, m, d)"
    "stamp wall off = pad 4 y @ ''-'' @ pad 2 m @ ''-'' @ pad 2 d @ CHR ''T'' # pad 2 h @ '':'' @ pad 2 mi @ '':'' @ pad 2 s
       @ ''.'' @ pad 3 ms @ show_offset off"
    "0 \<le> h" "h < 24" "0 \<le> mi" "mi < 60" "0 \<le> s" "s < 60" "0 \<le> ms" "ms < 1000"
    "wall div usec_per_day * usec_per_day + ((h * 3600 + mi * 60 + s) * 1000 + ms) * 1000 = wall div 1000 * 1000"
proof -
  obtain y m d where c: "civil (wall div usec_per_day) = (y, m, d)" by (rule prod_cases3)
  define r where "r = wall mod usec_per_day"
  have r: "0 \<le> r" "r < usec_per_day" unfolding r_def usec_per_day_def by simp_all
  show ?thesis
  proof (rule that [OF c _ clock_fields(1-8) [OF r]])
    show "wall div usec_per_day * usec_per_day + ((r div 1000000 div 3600 * 3600 + r div 1000000 mod 3600 div 60 * 60
        + r div 1000000 mod 60) * 1000 + r mod 1000000 div 1000) * 1000 = wall div 1000 * 1000"
      unfolding clock_fields(9) [OF r] unfolding r_def by (rule floor_millis)
  qed (simp add: stamp_def iso_millis_def c Let_def r_def)
qed

lemma plain_pad: "c \<in> set (pad w v) \<Longrightarrow> plain c"
  using pad_digits by (auto simp: plain_def)

lemma plain_chars [simp]:
  "plain (CHR ''-'')" "plain (CHR ''T'')" "plain (CHR '':'')" "plain (CHR ''.'')" "plain (CHR ''+'')"
  by (simp_all add: plain_def)

lemma plain_show_offset: "c \<in> set (show_offset off) \<Longrightarrow> plain c"
  by (auto simp: show_offset_def Let_def dest: plain_pad split: if_splits)

lemma plain_stamp: "c \<in> set (stamp wall off) \<Longrightarrow> plain c"
proof -
  assume "c \<in> set (stamp wall off)"
  then show "plain c"
    by (rule_tac stamp_fields [of wall off]) (auto dest: plain_pad plain_show_offset)
qed

lemma fromisoformat_stamp:
  assumes "in_range_time wall" "zone_offset off"
  shows "fromisoformat (stamp wall off) = Inr (Some (wall div 1000 * 1000, Some off))"
proof -
  obtain y m d h mi s ms where f: "civil (wall div usec_per_day) = (y, m, d)"
    "stamp wall off = pad 4 y @ ''-'' @ pad 2 m @ ''-'' @ pad 2 d @ CHR ''T'' # pad 2 h @ '':'' @ pad 2 mi @ '':'' @ pad 2 s
       @ ''.'' @ pad 3 ms @ show_offset off"
    and b: "0 \<le> h" "h < 24" "0 \<le> mi" "mi < 60" "0 \<le> s" "s < 60" "0 \<le> ms" "ms < 1000"
    and sum: "wall div usec_per_day * usec_per_day + ((h * 3600 + mi * 60 + s) * 1000 + ms) * 1000 = wall div 1000 * 1000"
    by (rule stamp_fields)
  have v: "valid_date y m d" by (rule civil_valid [OF assms(1) f(1)])
  have yb: "0 \<le> y" "y < 10000" "0 \<le> m" "m < 100" using v by (auto simp: valid_date_def)
  have day: "day_number y m d = wall div usec_per_day" using day_number_civil [of "wall div usec_per_day"] f(1) by simp
  define tail where "tail = pad 2 h @ '':'' @ pad 2 mi @ '':'' @ pad 2 s @ ''.'' @ pad 3 ms @ show_offset off"
  have st: "stamp wall off = pad 4 y @ ''-'' @ pad 2 m @ ''-'' @ pad 2 d @ CHR ''T'' # tail" using f(2) by (simp add: tail_def)
  have week: "\<not> week_date (stamp wall off)"
    using length_pad [of y 4] peek_pad [of 2 m "''-'' @ pad 2 d @ CHR ''T'' # tail"] yb
    unfolding week_date_def Let_def st by (auto simp: is_digit_def)
  have "tail \<noteq> []" by (simp add: tail_def)
  then have lt: "\<not> length (CHR ''T'' # tail) \<le> 1" by simp
  have u: "utf8 (stamp wall off) = stamp wall off" by (rule utf8_plain) (rule plain_stamp)
  have d: "parse_iso_date (stamp wall off) = Some (day_number y m d, CHR ''T'' # tail)"
    unfolding st by (rule parse_iso_date_print [OF v])
  have t: "parse_iso_time tail = Some (((h * 3600 + mi * 60 + s) * 1000 + ms) * 1000, Some off)"
    unfolding tail_def by (rule parse_iso_time_print [OF b assms(2)])
  show ?thesis unfolding fromisoformat_def Let_def u using week d lt t sum day by simp
qed

lemma strip_plain: "s \<noteq> [] \<Longrightarrow> \<not> py_space (hd s) \<Longrightarrow> \<not> py_space (last s) \<Longrightarrow> strip s = s"
proof -
  assume s: "s \<noteq> []" "\<not> py_space (hd s)" "\<not> py_space (last s)"
  have keep: "dropWhile py_space x = x" if "x \<noteq> []" "\<not> py_space (hd x)" for x using that by (cases x) auto
  have "dropWhile py_space s = s" by (rule keep [OF s(1,2)])
  moreover have "dropWhile py_space (rev s) = rev s" using s by (intro keep) (auto simp: hd_rev)
  ultimately show ?thesis by (simp add: strip_def)
qed

text \<open>Printing replaces the offset of UTC by \<open>Z\<close>, reading puts it back.\<close>

lemma unzulu:
  assumes "base \<noteq> []" "\<And>c. c \<in> set base \<Longrightarrow> plain c" "6 < length base"
  shows "(let s = strip (zulu base) in if s \<noteq> [] \<and> last s = CHR ''Z'' then butlast s @ ''+00:00'' else s) = base"
proof -
  have nosp: "\<not> py_space c" "c \<noteq> CHR ''Z''" if "c \<in> set base" for c using plain_no_space assms(2) that by blast+
  have hd: "\<not> py_space (hd (zulu base))" "zulu base \<noteq> []"
    using nosp [of "hd base"] assms(1,3) by (auto simp: zulu_def hd_append hd_take)
  show ?thesis
  proof (cases "drop (length base - 6) base = ''+00:00''")
    case True
    then have z: "zulu base = take (length base - 6) base @ ''Z''" by (simp add: zulu_def)
    have "strip (zulu base) = zulu base" using hd z by (intro strip_plain) (auto simp: py_space_def)
    with z True show ?thesis by (simp add: butlast_append) (metis append_take_drop_id)
  next
    case False
    then have z: "zulu base = base" by (simp add: zulu_def)
    have "strip base = base" using hd z nosp [of "last base"] assms(1) by (intro strip_plain) auto
    with z nosp [of "last base"] assms(1) show ?thesis by simp
  qed
qed

lemmas range_defs = in_range_time_def time_min_def time_max_def day_number_def usec_per_day_def

lemma in_range_floor: "in_range_time t \<Longrightarrow> in_range_time (t div 1000 * 1000)"
proof -
  assume t: "in_range_time t"
  have "time_min div 1000 * 1000 = time_min" by (simp add: time_min_def usec_per_day_def day_number_def)
  moreover have "time_min div 1000 \<le> t div 1000" using t by (simp add: in_range_time_def zdiv_mono1)
  moreover have "t div 1000 * 1000 \<le> t" using div_mod_bounds [of 1000 t] by (simp add: mult.commute)
  ultimately show ?thesis using t unfolding in_range_time_def by linarith
qed

lemma parse_stamp:
  assumes "in_range_time wall" "zone_offset off" "in_range_time (wall - off)"
  shows "parse_ts zs tz (PStr (zulu (stamp wall off))) = Inr ((wall - off) div 1000 * 1000)"
proof -
  have st: "stamp wall off \<noteq> []" "6 < length (stamp wall off)"
  proof -
    have "6 \<le> length (show_offset off)" by (rule length_show_offset)
    moreover have "iso_millis wall \<noteq> []" unfolding iso_millis_def Let_def by (simp split: prod.split)
    ultimately show "stamp wall off \<noteq> []" "6 < length (stamp wall off)" by (cases "iso_millis wall"; simp add: stamp_def)+
  qed
  obtain k where k: "off = 1000 * k"
  proof
    have "off mod 1000 = 0" using assms(2) by (auto simp: zone_offset_def)
    then show "off = 1000 * (off div 1000)" by (simp add: minus_mod_eq_mult_div [symmetric])
  qed
  have "(wall + 1000 * (- k)) div 1000 = - k + wall div 1000" by (rule div_mult_self2) simp
  then have "wall div 1000 * 1000 - off = (wall - off) div 1000 * 1000" by (simp add: k)
  moreover have "in_range_time ((wall - off) div 1000 * 1000)" by (rule in_range_floor [OF assms(3)])
  ultimately show ?thesis
    using unzulu [OF st(1) plain_stamp st(2)] fromisoformat_stamp [OF assms(1,2)]
    by (simp add: parse_ts_def py_str_def Let_def to_naive_utc_def checked_time_def)
qed

lemma parse_format:
  assumes "format_time_param zs tz t = Inr s" "in_range_time t"
    and "\<And>name z. zs name = Inr z \<Longrightarrow> zone_offset (zn_offset z t)"
  shows "parse_ts zs tz' (PStr s) = Inr (t div 1000 * 1000)"
proof (cases "truthy tz")
  case True
  with assms(1) obtain z where z: "zone_info zs tz = Inr z" and r: "in_range_time (t + zn_offset z t)"
    and s: "s = zulu (stamp (t + zn_offset z t) (zn_offset z t))"
    by (auto simp: format_time_param_def rewrap_key_error_def checked_time_def stamp_def split: sum.splits error.splits if_splits)
  have "zone_offset (zn_offset z t)" using z assms(3) by (auto simp: zone_info_def split: pyval.splits)
  then show ?thesis using parse_stamp [OF r] assms(2) by (simp add: s)
next
  case False
  with assms(1) have s: "s = zulu (stamp t 0)" by (simp add: format_time_param_def stamp_def)
  have "zone_offset 0" by (simp add: zone_offset_def usec_per_day_def)
  then show ?thesis using parse_stamp [OF assms(2), of 0] assms(2) by (simp add: s)
qed

text \<open>C25. What a collector writes into a request for a time, a source can send back: reading the printed time gives the time to
  the millisecond, in UTC and in every zone whose offsets are whole seconds below a day.\<close>

theorem time_param_roundtrip:
  assumes "format_time_param zs tz t = Inr s" "in_range_time t"
    and "\<And>name z. zs name = Inr z \<Longrightarrow> zone_offset (zn_offset z t)"
  shows "parse_ts zs tz' (PStr s) = Inr (t div 1000 * 1000)"
  using assms by (rule parse_format)

definition shanghai :: zones where
  "shanghai name = (if name = ''Asia/Shanghai'' then Inr \<lparr>zn_offset = \<lambda>_. 28800000000, zn_wall_offset = \<lambda>_. 28800000000\<rparr>
     else Inl (KeyError name))"

theorem time_param_roundtrip_witness:
  "parse_ts shanghai PNone (PStr ''2026-01-31T10:20:30.123+08:00'') = Inr 1769826030123000"
proof -
  have "iso_millis 1769854830123456 = ''2026-01-31T10:20:30.123''"
    by code_simp
  moreover have "show_offset 28800000000 = ''+08:00''"
    by code_simp
  ultimately have "format_time_param shanghai (PStr ''Asia/Shanghai'') 1769826030123456 = Inr ''2026-01-31T10:20:30.123+08:00''"
    by (simp add: format_time_param_def zone_info_def shanghai_def rewrap_key_error_def checked_time_def range_defs zulu_def)
  moreover have "in_range_time 1769826030123456" by (simp add: range_defs)
  moreover have "zone_offset (zn_offset z 1769826030123456)" if "shanghai name = Inr z" for name z
    using that by (auto simp: shanghai_def zone_offset_def usec_per_day_def split: if_splits)
  ultimately have "parse_ts shanghai PNone (PStr ''2026-01-31T10:20:30.123+08:00'') = Inr (1769826030123456 div 1000 * 1000)"
    by (rule time_param_roundtrip)
  then show ?thesis by simp
qed

end
