(* ===== verification/Apm_Collectors.thy ===== *)
theory Apm_Collectors
  imports Apm_Timestamps Apm_Signature Apm_Scheduler
begin

text \<open>
  The package \<open>collectors/\<close>: field mapping, time windows, the metric and the log collector and the choice between them. A
  collection sends at most one request; what the source answers is a parameter, as are the zone database, MD5, name
  resolution, the environment variables and the clock. Source configurations and answers are arbitrary JSON values, so every
  type error of the code is a branch. A metric value that is not finite has no counterpart here and ends in \<open>OutsideModel\<close>.
\<close>

section \<open>\<open>_field_mapping.py\<close>\<close>

text \<open>The tokens of a path: names, and indices in brackets; other characters are skipped.\<close>

datatype path_part = Name string | Index nat

definition name_char :: "char \<Rightarrow> bool" where
  "name_char c \<longleftrightarrow> c \<notin> {CHR ''.'', CHR ''['', CHR '']''}"

function path_tokens :: "string \<Rightarrow> path_part list" where
  "path_tokens s =
     (case s of [] \<Rightarrow> []
      | c # cs \<Rightarrow>
          if c = CHR ''['' then
            (let ds = takeWhile is_digit cs; r = dropWhile is_digit cs in
             if ds \<noteq> [] \<and> peek r = CHR '']'' then Index (read_digits 0 ds) # path_tokens (drop 1 r) else path_tokens cs)
          else if name_char c then Name (takeWhile name_char s) # path_tokens (dropWhile name_char s)
          else path_tokens cs)"
  by auto
termination
  by (relation "measure length") (auto simp: less_Suc_eq_le length_dropWhile_le intro: le_trans [OF diff_le_self length_dropWhile_le])

declare path_tokens.simps [simp del]

definition path_step :: "pyval \<Rightarrow> path_part \<Rightarrow> pyval" where
  "path_step v p =
     (case p of
        Index i \<Rightarrow> (case v of PList xs \<Rightarrow> if i < length xs then xs ! i else PNone
                     | PStr s \<Rightarrow> if i < length s then PStr [s ! i] else PNone | _ \<Rightarrow> PNone)
      | Name n \<Rightarrow> (case v of PDict d \<Rightarrow> py_get d n | _ \<Rightarrow> PNone))"

fun path_walk :: "pyval \<Rightarrow> path_part list \<Rightarrow> pyval" where
  "path_walk v [] = v"
| "path_walk v (p # ps) = (let w = path_step v p in if w = PNone then PNone else path_walk w ps)"

definition is_container :: "pyval \<Rightarrow> bool" where
  "is_container v = (case v of PDict _ \<Rightarrow> True | PList _ \<Rightarrow> True | _ \<Rightarrow> False)"

definition extract_path :: "pyval \<Rightarrow> pyval \<Rightarrow> pyval res" where
  "extract_path row spec = (if \<not> is_container row then Inr PNone
     else case spec of PStr s \<Rightarrow> Inr (path_walk row (path_tokens s)) | _ \<Rightarrow> Inl (TypeError ''expected string''))"

definition field :: "pyval \<Rightarrow> pyval \<Rightarrow> string \<Rightarrow> pyval \<Rightarrow> pyval res" where
  "field row mapping key fallback =
     (case mapping of
        PDict m \<Rightarrow>
          if py_get m key = PNone then Inr fallback
          else bind_res (extract_path row (py_get m key)) (\<lambda>v. Inr (if v = PNone then fallback else v))
      | _ \<Rightarrow> Inl (AttributeError ''get''))"

definition labels_of :: "pyval \<Rightarrow> pyval \<Rightarrow> pydict res" where
  "labels_of row mapping = bind_res (field row mapping ''labels'' PNone) (\<lambda>mapped.
     case mapped of
       PDict d \<Rightarrow> Inr (map (\<lambda>(k, v). (k, PStr (py_str v))) d)
     | _ \<Rightarrow> Inr (case row of PDict r \<Rightarrow> (case py_get r ''labels'' of PDict d \<Rightarrow> d | _ \<Rightarrow> []) | _ \<Rightarrow> []))"

text \<open>What the signal models accept: strings where they say \<open>str\<close>.\<close>

definition str_value :: "pyval \<Rightarrow> string res" where
  "str_value v = (case v of PStr s \<Rightarrow> Inr s | _ \<Rightarrow> Inl (ValidationError ''string_type''))"

definition opt_str_value :: "pyval \<Rightarrow> string option res" where
  "opt_str_value v = (case v of PNone \<Rightarrow> Inr None | PStr s \<Rightarrow> Inr (Some s) | _ \<Rightarrow> Inl (ValidationError ''string_type''))"

definition label_values :: "pydict \<Rightarrow> (string \<times> string) list res" where
  "label_values = mapM (\<lambda>(k, v). bind_res (str_value v) (\<lambda>s. Inr (k, s)))"

definition float_value :: "pyval \<Rightarrow> rat res" where
  "float_value v =
     (case py_float v of
        Some (Finite r) \<Rightarrow> Inr r
      | Some _ \<Rightarrow> Inl (OutsideModel ''float'')
      | None \<Rightarrow> Inl (case v of PStr _ \<Rightarrow> ValueError ''could not convert string to float'' | _ \<Rightarrow> TypeError ''float''))"

definition map_metric :: "zones \<Rightarrow> pyval \<Rightarrow> string \<Rightarrow> pyval \<Rightarrow> pyval \<Rightarrow> metric_signal res" where
  "map_metric zs mapping tenant_id timezone_name row =
     bind_res (field row mapping ''service'' (PStr ''unknown'')) (\<lambda>service.
     bind_res (field row mapping ''metric'' (PStr ''unknown'')) (\<lambda>metric.
     bind_res (bind_res (field row mapping ''value'' PNone) float_value) (\<lambda>value.
     bind_res (bind_res (field row mapping ''timestamp'' PNone) (parse_ts zs timezone_name)) (\<lambda>timestamp.
     bind_res (labels_of row mapping) (\<lambda>labels.
     bind_res (str_value service) (\<lambda>service.
     bind_res (str_value metric) (\<lambda>metric.
     bind_res (label_values labels) (\<lambda>labels.
       Inr \<lparr>ms_tenant_id = tenant_id, ms_service = service, ms_metric = metric, ms_value = value,
         ms_timestamp = timestamp, ms_labels = labels\<rparr>))))))))"

definition map_log :: "zones \<Rightarrow> pyval \<Rightarrow> string \<Rightarrow> pyval \<Rightarrow> pyval \<Rightarrow> log_signal res" where
  "map_log zs mapping tenant_id timezone_name row =
     bind_res (field row mapping ''service'' (PStr ''unknown'')) (\<lambda>service.
     bind_res (field row mapping ''level'' PNone) (\<lambda>level.
     bind_res (field row mapping ''message'' PNone) (\<lambda>message.
     bind_res (field row mapping ''stack_trace'' PNone) (\<lambda>stack_trace.
     bind_res (bind_res (field row mapping ''timestamp'' PNone) (parse_ts zs timezone_name)) (\<lambda>timestamp.
     bind_res (field row mapping ''trace_id'' PNone) (\<lambda>trace_id.
     bind_res (str_value service) (\<lambda>service.
     bind_res (str_value level) (\<lambda>level.
     bind_res (str_value message) (\<lambda>message.
     bind_res (opt_str_value stack_trace) (\<lambda>stack_trace.
     bind_res (opt_str_value trace_id) (\<lambda>trace_id.
       Inr \<lparr>ls_tenant_id = tenant_id, ls_service = service, ls_level = level, ls_message = message,
         ls_stack_trace = stack_trace, ls_timestamp = timestamp, ls_trace_id = trace_id, ls_signature = None\<rparr>)))))))))))"

section \<open>\<open>_window.py\<close>\<close>

text \<open>\<open>int(v)\<close>, \<open>dict(v)\<close> and \<open>d[k] = v\<close> for a key that may be no string.\<close>

definition int_value :: "pyval \<Rightarrow> int res" where
  "int_value v =
     (case v of
        PBool b \<Rightarrow> Inr (if b then 1 else 0)
      | PInt i \<Rightarrow> Inr i
      | PFloat r \<Rightarrow> Inr (if r < 0 then \<lceil>r\<rceil> else \<lfloor>r\<rfloor>)
      | PStr s \<Rightarrow> (case py_int s of Some i \<Rightarrow> Inr i | None \<Rightarrow> Inl (ValueError ''invalid literal for int()''))
      | _ \<Rightarrow> Inl (TypeError ''int()''))"

definition put_key :: "pyval \<Rightarrow> pyval \<Rightarrow> pydict \<Rightarrow> pydict res" where
  "put_key k v d =
     (case k of
        PStr s \<Rightarrow> Inr (AList.update s v d)
      | PList _ \<Rightarrow> Inl (TypeError ''unhashable type'')
      | PDict _ \<Rightarrow> Inl (TypeError ''unhashable type'')
      | _ \<Rightarrow> Inl (OutsideModel ''key''))"

definition dict_value :: "pyval \<Rightarrow> pydict res" where
  "dict_value v =
     (case v of
        PDict d \<Rightarrow> Inr d
      | PList xs \<Rightarrow> foldM (\<lambda>x d. bind_res (unpack2 x) (\<lambda>(k, w). put_key k w d)) xs []
      | PStr s \<Rightarrow> if s = [] then Inr [] else Inl (ValueError ''dictionary update sequence element'')
      | _ \<Rightarrow> Inl (TypeError ''object is not iterable''))"

definition window_sec :: "pydict \<Rightarrow> int res" where
  "window_sec sc = (let v = py_get_or sc ''window_sec'' (PInt 0) in if truthy v then int_value v else Inr 0)"

definition time_params :: "pydict \<Rightarrow> pydict res" where
  "time_params sc = (let v = py_get_or sc ''time_params'' (PDict []) in dict_value (if truthy v then v else PDict []))"

record collect_env =
  ce_dns :: dns
  ce_allow_loopback :: bool
  ce_environ :: environ
  ce_zones :: zones
  ce_md5 :: "string \<Rightarrow> string"
  ce_clock :: time

definition apply_time_window :: "collect_env \<Rightarrow> pydict \<Rightarrow> time option \<Rightarrow> pydict \<Rightarrow> pydict res" where
  "apply_time_window en sc ctx_now params =
     bind_res (window_sec sc) (\<lambda>window.
       if window \<le> 0 then Inr params
       else
         let now = (case ctx_now of Some t \<Rightarrow> t | None \<Rightarrow> ce_clock en); tz = py_get sc ''timezone'' in
         bind_res (time_params sc) (\<lambda>tp.
         bind_res (bind_res (checked_time (now - window * 1000000)) (format_time_param (ce_zones en) tz)) (\<lambda>start.
         bind_res (put_key (py_get_or tp ''start'' (PStr ''start'')) (PStr start) params) (\<lambda>params.
         bind_res (format_time_param (ce_zones en) tz now) (\<lambda>stop.
           put_key (py_get_or tp ''end'' (PStr ''end'')) (PStr stop) params)))))"

definition watermark_is_future :: "time \<Rightarrow> time \<Rightarrow> bool" where
  "watermark_is_future last_ts now = (now + 60000000 < last_ts)"

text \<open>The bounds of an incremental collection: from the watermark, and up to now if the source has a name for it.\<close>

definition push_watermark :: "collect_env \<Rightarrow> pydict \<Rightarrow> time \<Rightarrow> time \<Rightarrow> pydict \<Rightarrow> pydict res" where
  "push_watermark en sc last_ts now params =
     bind_res (time_params sc) (\<lambda>tp.
       let tz = py_get sc ''timezone'' in
       bind_res (format_time_param (ce_zones en) tz last_ts) (\<lambda>start.
       bind_res (put_key (py_get_or tp ''start'' (PStr ''start'')) (PStr start) params) (\<lambda>params.
         case map_of tp ''end'' of
           None \<Rightarrow> Inr params
         | Some key \<Rightarrow> bind_res (format_time_param (ce_zones en) tz now) (\<lambda>stop. put_key key (PStr stop) params))))"

section \<open>\<open>_context.py\<close> and the request\<close>

record outbound =
  ob_method :: pyval
  ob_url :: string
  ob_headers :: pydict
  ob_params :: pydict
  ob_body :: "pydict option"

record collect_context =
  cc_tenant_id :: string
  cc_watermark_store :: "watermarks option"
  cc_snapshot_store :: "snapshot_row list option"
  cc_now :: "time option"
  cc_request_params :: "(string \<times> pydict) list"
  cc_sent :: "outbound list"

text \<open>The start of both \<open>collect\<close> methods: the gate, and the headers with their secrets. \<open>urlparse\<close> of a value that is no
  string finds no scheme when the value is false.\<close>

definition gate_url :: "collect_env \<Rightarrow> pyval \<Rightarrow> string res" where
  "gate_url en v =
     (case v of
        PStr url \<Rightarrow> validate_url (ce_dns en) (ce_allow_loopback en) url
      | _ \<Rightarrow> Inl (if truthy v then AttributeError ''decode'' else AppException VALIDATION ''scheme not allowed''))"

definition gate_headers :: "collect_env \<Rightarrow> pyval \<Rightarrow> pydict res" where
  "gate_headers en v =
     (case v of
        PDict headers \<Rightarrow> bind_res (validate_headers headers)
          (\<lambda>_. Inr (map (\<lambda>(k, v). (k, resolve_secret (ce_environ en) v)) headers))
      | _ \<Rightarrow> Inl (AttributeError ''items''))"

definition gated :: "collect_env \<Rightarrow> pydict \<Rightarrow> (string \<times> pydict \<times> pydict) res" where
  "gated en sc =
     bind_res (bind_res (key_index sc ''url'') (gate_url en)) (\<lambda>url.
     bind_res (gate_headers en (py_get_or sc ''headers'' (PDict []))) (\<lambda>headers.
     bind_res (dict_value (py_get_or sc ''params'' (PDict []))) (\<lambda>params. Inr (url, headers, params))))"

definition watermark_of :: "collect_context \<Rightarrow> string \<Rightarrow> time option res" where
  "watermark_of ctx target_id =
     (case cc_watermark_store ctx of None \<Rightarrow> Inr None | Some wm \<Rightarrow> wm_get (cc_tenant_id ctx) target_id wm)"

text \<open>The request is recorded for the audit, then sent.\<close>

definition request_entry :: "outbound \<Rightarrow> pydict" where
  "request_entry rq = [(''method'', ob_method rq), (''url'', PStr (ob_url rq)), (''params'', PDict (ob_params rq))]
     @ (case ob_body rq of None \<Rightarrow> [] | Some b \<Rightarrow> [(''body'', PDict b)])"

definition sending :: "string \<Rightarrow> outbound \<Rightarrow> collect_context \<Rightarrow> collect_context" where
  "sending target_id rq ctx = ctx\<lparr>cc_request_params := AList.update target_id (request_entry rq) (cc_request_params ctx),
     cc_sent := cc_sent ctx @ [rq]\<rparr>"

definition response_rows :: "pydict \<Rightarrow> http_response \<Rightarrow> pyval list res" where
  "response_rows sc resp =
     (case resp of
        TimeoutError s \<Rightarrow> Inl (HttpxError s)
      | HttpError s \<Rightarrow> Inl (HttpxError s)
      | TooLarge \<Rightarrow> Inl (AppException VALIDATION ''response too large'')
      | Response status text json \<Rightarrow>
          if \<not> (200 \<le> status \<and> status < 300) then Inl (HttpxError ''status'')
          else (case json of
              None \<Rightarrow> Inl (ValueError ''JSON'')
            | Some body \<Rightarrow> bind_res (extract_path body (py_get_or sc ''rows_path'' (PStr ''data.result'')))
                (\<lambda>rows. Inr (case rows of PList xs \<Rightarrow> xs | _ \<Rightarrow> []))))"

text \<open>The loop over the rows: a signal whose hash was seen is skipped.\<close>

fun collect_rows :: "(pyval \<Rightarrow> 'a res) \<Rightarrow> ('a \<Rightarrow> string) \<Rightarrow> pyval list \<Rightarrow> string set \<Rightarrow> 'a list res" where
  "collect_rows f hash [] seen = Inr []"
| "collect_rows f hash (row # rows) seen =
     bind_res (f row) (\<lambda>x.
       if hash x \<in> seen then collect_rows f hash rows seen
       else bind_res (collect_rows f hash rows (insert (hash x) seen)) (\<lambda>xs. Inr (x # xs)))"

definition store_signals :: "collect_env \<Rightarrow> target \<Rightarrow> signal list \<Rightarrow> collect_context \<Rightarrow> signal list res \<times> collect_context" where
  "store_signals en t signals ctx =
     (case (if signals = [] then Inr (cc_watermark_store ctx)
            else case cc_watermark_store ctx of None \<Rightarrow> Inr None
              | Some wm \<Rightarrow> bind_res (wm_update (cc_tenant_id ctx) (mt_target_id t) (Max (sig_timestamp ` set signals)) wm) (\<lambda>wm. Inr (Some wm))) of
        Inl e \<Rightarrow> (Inl e, ctx)
      | Inr wm \<Rightarrow>
          let ctx1 = ctx\<lparr>cc_watermark_store := wm\<rparr> in
          (case cc_snapshot_store ctx of
             None \<Rightarrow> (Inr signals, ctx1)
           | Some rows \<Rightarrow>
               (case snapshot_write (cc_tenant_id ctx) (mt_target_id t) signals (mt_domain t) (ce_clock en) rows of
                  Inl e \<Rightarrow> (Inl e, ctx1)
                | Inr (_, rows') \<Rightarrow> (Inr signals, ctx1\<lparr>cc_snapshot_store := Some rows'\<rparr>))))"

text \<open>\<open>str(timestamp)\<close> of a naive time.\<close>

definition str_naive :: "time \<Rightarrow> string" where
  "str_naive t = (let s = iso_time (CHR '' '') t in take (length s - 6) s)"

section \<open>\<open>http_metrics.py\<close>\<close>

definition metric_params :: "collect_env \<Rightarrow> pydict \<Rightarrow> string \<Rightarrow> collect_context \<Rightarrow> pydict \<Rightarrow> pydict res" where
  "metric_params en sc target_id ctx params =
     bind_res (window_sec sc) (\<lambda>window.
       if 0 < window then apply_time_window en sc (cc_now ctx) params
       else bind_res (watermark_of ctx target_id) (\<lambda>watermark.
         case watermark of
           None \<Rightarrow> Inr params
         | Some last_ts \<Rightarrow>
             let now = (case cc_now ctx of Some t \<Rightarrow> t | None \<Rightarrow> ce_clock en) in
             if watermark_is_future last_ts now then Inr params else push_watermark en sc last_ts now params))"

definition metric_request :: "collect_env \<Rightarrow> target \<Rightarrow> collect_context \<Rightarrow> outbound res" where
  "metric_request en t ctx = (let sc = mt_source_config t in
     bind_res (gated en sc) (\<lambda>(url, headers, params).
     bind_res (metric_params en sc (mt_target_id t) ctx params) (\<lambda>params.
       Inr \<lparr>ob_method = py_get_or sc ''method'' (PStr ''GET''), ob_url = url, ob_headers = headers, ob_params = params,
         ob_body = None\<rparr>)))"

definition metric_hash :: "(string \<Rightarrow> string) \<Rightarrow> metric_signal \<Rightarrow> string" where
  "metric_hash md5 m = md5 (join ''|'' [ms_metric m, float_repr (ms_value m), str_naive (ms_timestamp m)])"

definition metric_signals :: "collect_env \<Rightarrow> pydict \<Rightarrow> string \<Rightarrow> pyval list \<Rightarrow> metric_signal list res" where
  "metric_signals en sc tenant_id rows =
     bind_res (key_index sc ''field_mapping'') (\<lambda>mapping.
       collect_rows (map_metric (ce_zones en) mapping tenant_id (py_get sc ''timezone'')) (metric_hash (ce_md5 en)) rows {})"

definition http_metrics_collect ::
  "collect_env \<Rightarrow> (outbound \<Rightarrow> http_response) \<Rightarrow> target \<Rightarrow> collect_context \<Rightarrow> signal list res \<times> collect_context" where
  "http_metrics_collect en answer t ctx =
     (case metric_request en t ctx of
        Inl e \<Rightarrow> (Inl e, ctx)
      | Inr rq \<Rightarrow>
          let ctx1 = sending (mt_target_id t) rq ctx; sc = mt_source_config t in
          (case bind_res (response_rows sc (answer rq)) (metric_signals en sc (cc_tenant_id ctx)) of
             Inl e \<Rightarrow> (Inl e, ctx1)
           | Inr signals \<Rightarrow> store_signals en t (map MetricSignal signals) ctx1))"

section \<open>\<open>http_logs.py\<close>\<close>

definition list_value :: "pyval \<Rightarrow> pyval list res" where
  "list_value v = (case v of PList xs \<Rightarrow> Inr xs | PDict d \<Rightarrow> Inr (map (\<lambda>(k, _). PStr k) d)
     | PStr s \<Rightarrow> Inr (map (\<lambda>c. PStr [c]) s) | _ \<Rightarrow> Inl (TypeError ''object is not iterable''))"

definition es_mode :: "pydict \<Rightarrow> bool" where
  "es_mode sc \<longleftrightarrow> truthy (py_get sc ''time_field'') \<or> truthy (py_get sc ''service_field'') \<or> truthy (py_get sc ''level_field'')"

text \<open>The three filters of the Elasticsearch query, each if it is configured.\<close>

definition service_filter :: "pydict \<Rightarrow> string \<Rightarrow> pyval list res" where
  "service_filter sc service = (let f = py_get sc ''service_field'' in
     if truthy f then bind_res (put_key f (PStr service) []) (\<lambda>d. Inr [PDict [(''term'', PDict d)]]) else Inr [])"

definition range_filter :: "collect_env \<Rightarrow> pydict \<Rightarrow> (time \<times> time) option \<Rightarrow> pyval list res" where
  "range_filter en sc period = (let f = py_get sc ''time_field''; tz = py_get sc ''timezone'' in
     case period of
       Some (start_dt, end_dt) \<Rightarrow>
         if truthy f then
           bind_res (format_time_param (ce_zones en) tz start_dt) (\<lambda>gte.
           bind_res (format_time_param (ce_zones en) tz end_dt) (\<lambda>lte.
           bind_res (put_key f (PDict [(''gte'', PStr gte), (''lte'', PStr lte)]) []) (\<lambda>d. Inr [PDict [(''range'', PDict d)]])))
         else Inr []
     | None \<Rightarrow> Inr [])"

definition level_filter :: "pydict \<Rightarrow> pyval list res" where
  "level_filter sc =
     (let f = py_get sc ''level_field''; levels0 = py_get sc ''levels'';
          levels = (if \<not> truthy levels0 then PList [] else case levels0 of PStr s \<Rightarrow> PList [PStr s] | v \<Rightarrow> v) in
      if truthy f \<and> truthy levels then
        bind_res (list_value levels) (\<lambda>xs. bind_res (put_key f (PList xs) []) (\<lambda>d. Inr [PDict [(''terms'', PDict d)]]))
      else Inr [])"

definition build_body :: "collect_env \<Rightarrow> pydict \<Rightarrow> string \<Rightarrow> (time \<times> time) option \<Rightarrow> pydict option res" where
  "build_body en sc service period =
     (if \<not> es_mode sc then Inr None
      else
        bind_res (service_filter sc service) (\<lambda>f1.
        bind_res (range_filter en sc period) (\<lambda>f2.
        bind_res (level_filter sc) (\<lambda>f3.
        bind_res (int_value (py_get_or sc ''size'' (PInt 500))) (\<lambda>size.
        let body = [(''query'', PDict [(''bool'', PDict [(''filter'', PList (f1 @ f2 @ f3))])]), (''size'', PInt size)];
            f = py_get sc ''time_field'' in
        if truthy f then bind_res (put_key f (PStr ''asc'') []) (\<lambda>d. Inr (Some (body @ [(''sort'', PList [PDict d])])))
        else Inr (Some body))))))"

text \<open>The window of a collection and the query parameters: an Elasticsearch source takes the window in the body.\<close>

definition log_window ::
  "collect_env \<Rightarrow> pydict \<Rightarrow> string \<Rightarrow> collect_context \<Rightarrow> pydict \<Rightarrow> (pydict \<times> (time \<times> time) option) res" where
  "log_window en sc target_id ctx params =
     (let now = (case cc_now ctx of Some t \<Rightarrow> t | None \<Rightarrow> ce_clock en) in
      bind_res (window_sec sc) (\<lambda>window.
        if 0 < window then
          bind_res (checked_time (now - window * 1000000)) (\<lambda>start_dt.
          bind_res (if es_mode sc then Inr params else apply_time_window en sc (cc_now ctx) params) (\<lambda>params.
            Inr (params, Some (start_dt, now))))
        else bind_res (watermark_of ctx target_id) (\<lambda>watermark.
          case watermark of
            None \<Rightarrow> Inr (params, None)
          | Some last_ts \<Rightarrow>
              if watermark_is_future last_ts now then Inr (params, None)
              else bind_res (if es_mode sc then Inr params else push_watermark en sc last_ts now params) (\<lambda>params.
                Inr (params, Some (last_ts, now))))))"

definition log_request :: "collect_env \<Rightarrow> target \<Rightarrow> collect_context \<Rightarrow> outbound res" where
  "log_request en t ctx = (let sc = mt_source_config t in
     bind_res (gated en sc) (\<lambda>(url, headers, params).
     bind_res (log_window en sc (mt_target_id t) ctx params) (\<lambda>(params, period).
     bind_res (build_body en sc (mt_service t) period) (\<lambda>body.
       Inr \<lparr>ob_method = py_get_or sc ''method'' (PStr ''GET''), ob_url = url, ob_headers = headers, ob_params = params,
         ob_body = body\<rparr>))))"

definition log_hash :: "(string \<Rightarrow> string) \<Rightarrow> log_signal \<Rightarrow> string" where
  "log_hash md5 l = md5 (join ''|'' [ls_service l, (case ls_signature l of None \<Rightarrow> ''None'' | Some s \<Rightarrow> s), str_naive (ls_timestamp l)])"

definition log_signals :: "collect_env \<Rightarrow> pydict \<Rightarrow> string \<Rightarrow> pyval list \<Rightarrow> log_signal list res" where
  "log_signals en sc tenant_id rows =
     bind_res (key_index sc ''field_mapping'') (\<lambda>mapping.
     bind_res (int_value (py_get_or sc ''signature_frames'' (PInt 3))) (\<lambda>n_frames.
       collect_rows
         (\<lambda>row. bind_res (map_log (ce_zones en) mapping tenant_id (py_get sc ''timezone'') row)
            (\<lambda>l. Inr (l\<lparr>ls_signature := Some (signature l n_frames)\<rparr>)))
         (log_hash (ce_md5 en)) rows {}))"

definition http_logs_collect ::
  "collect_env \<Rightarrow> (outbound \<Rightarrow> http_response) \<Rightarrow> target \<Rightarrow> collect_context \<Rightarrow> signal list res \<times> collect_context" where
  "http_logs_collect en answer t ctx =
     (case log_request en t ctx of
        Inl e \<Rightarrow> (Inl e, ctx)
      | Inr rq \<Rightarrow>
          let ctx1 = sending (mt_target_id t) rq ctx; sc = mt_source_config t in
          (case bind_res (response_rows sc (answer rq)) (log_signals en sc (cc_tenant_id ctx)) of
             Inl e \<Rightarrow> (Inl e, ctx1)
           | Inr signals \<Rightarrow> store_signals en t (map LogSignal signals) ctx1))"

section \<open>\<open>collector_for\<close>\<close>

datatype collector = MockCollector | HttpLogsCollector | HttpMetricsCollector

definition collector_for :: "target \<Rightarrow> collector res" where
  "collector_for t =
     (if mt_source_type t = ''mock'' then Inr MockCollector
      else if mt_signal_type t = ''log'' \<and> mt_source_type t \<in> {''http'', ''elk''} then Inr HttpLogsCollector
      else if mt_signal_type t = ''metric'' \<and> mt_source_type t \<in> {''http'', ''prometheus''} then Inr HttpMetricsCollector
      else Inl (AppException CONFIG_ERROR ''unsupported collector source''))"

text \<open>The mock collector returns \<open>_mock_signals\<close>, a key the stores never give an endpoint.\<close>

definition mock_collect :: "collect_context \<Rightarrow> signal list res \<times> collect_context" where
  "mock_collect ctx = (Inr [], ctx)"

definition collect_target ::
  "collect_env \<Rightarrow> (outbound \<Rightarrow> http_response) \<Rightarrow> target \<Rightarrow> collect_context \<Rightarrow> signal list res \<times> collect_context" where
  "collect_target en answer t ctx =
     (case collector_for t of
        Inl e \<Rightarrow> (Inl e, ctx)
      | Inr MockCollector \<Rightarrow> mock_collect ctx
      | Inr HttpLogsCollector \<Rightarrow> http_logs_collect en answer t ctx
      | Inr HttpMetricsCollector \<Rightarrow> http_metrics_collect en answer t ctx)"

text \<open>The collection of one endpoint in a round, as \<open>poller.py\<close> calls it.\<close>

fun error_text :: "error \<Rightarrow> string" where
  "error_text (ValueError s) = ''ValueError: '' @ s"
| "error_text (KeyError s) = ''KeyError: '' @ s"
| "error_text (TypeError s) = ''TypeError: '' @ s"
| "error_text (AttributeError s) = ''AttributeError: '' @ s"
| "error_text (ValidationError s) = ''ValidationError: '' @ s"
| "error_text (OverflowError s) = ''OverflowError: '' @ s"
| "error_text (HttpxError s) = ''HTTPError: '' @ s"
| "error_text (AppException c s) = ''AppException: '' @ s"
| "error_text e = ''Exception: ''"

definition round_context :: "string \<Rightarrow> time \<Rightarrow> watermarks \<Rightarrow> collect_context" where
  "round_context tenant_id now wm = \<lparr>cc_tenant_id = tenant_id, cc_watermark_store = Some wm, cc_snapshot_store = Some [],
     cc_now = Some now, cc_request_params = [], cc_sent = []\<rparr>"

definition collecting :: "(string \<Rightarrow> target \<Rightarrow> time \<Rightarrow> collect_env \<times> (outbound \<Rightarrow> http_response)) \<Rightarrow> collect_fn" where
  "collecting source tenant t now wm =
     (let (en, answer) = source tenant t now;
          (r, ctx) = collect_target en answer t (round_context tenant now wm) in
      ((case cc_watermark_store ctx of None \<Rightarrow> wm | Some wm' \<Rightarrow> wm'),
       map_of (cc_request_params ctx) (mt_target_id t),
       (case r of Inl e \<Rightarrow> Inl (error_text e) | Inr signals \<Rightarrow> Inr signals)))"

end
