(* ===== verification/Apm_Collection.thy ===== *)
theory Apm_Collection
  imports Apm_Collectors
begin

text \<open>
  What a collection guarantees: what is sent has passed the gate, the watermark follows the newest signal and a failure
  leaves the stores as they were, a watermark from the future is not pushed down; and what this means for the watermarks
  after a whole round of \<open>poller.py\<close>.
\<close>

section \<open>Rows and signals\<close>

lemma collect_rows_mapped:
  "collect_rows f hash rows seen = Inr xs \<Longrightarrow> x \<in> set xs \<Longrightarrow> \<exists>row \<in> set rows. f row = Inr x"
proof (induction f hash rows seen arbitrary: xs rule: collect_rows.induct)
  case (2 f hash row rows seen)
  from "2.prems"(1) obtain y where y: "f row = Inr y" by auto
  show ?case
  proof (cases "hash y \<in> seen")
    case True
    with 2 y show ?thesis by auto
  next
    case False
    with "2.prems" y obtain ys where "collect_rows f hash rows (insert (hash y) seen) = Inr ys" "xs = y # ys" by auto
    with 2 y False show ?thesis by auto
  qed
qed simp

lemma collect_rows_distinct:
  "collect_rows f hash rows seen = Inr xs \<Longrightarrow> distinct (map hash xs) \<and> hash ` set xs \<inter> seen = {}"
proof (induction f hash rows seen arbitrary: xs rule: collect_rows.induct)
  case (2 f hash row rows seen)
  from "2.prems" obtain y where y: "f row = Inr y" by auto
  show ?case
  proof (cases "hash y \<in> seen")
    case True
    with 2 y show ?thesis by auto
  next
    case False
    with "2.prems" y obtain ys where ys: "collect_rows f hash rows (insert (hash y) seen) = Inr ys" "xs = y # ys" by auto
    with "2.IH"(2) [OF y False ys(1)] False show ?thesis by auto
  qed
qed simp

lemma map_metric_tenant: "map_metric zs mapping tenant_id tz row = Inr m \<Longrightarrow> ms_tenant_id m = tenant_id"
  by (auto simp: map_metric_def)

lemma map_log_tenant: "map_log zs mapping tenant_id tz row = Inr l \<Longrightarrow> ls_tenant_id l = tenant_id"
  by (auto simp: map_log_def)

lemma metric_signals_tenant:
  "metric_signals en sc tenant_id rows = Inr ms \<Longrightarrow> m \<in> set ms \<Longrightarrow> ms_tenant_id m = tenant_id"
  by (auto simp: metric_signals_def dest!: collect_rows_mapped map_metric_tenant)

lemma log_signals_tenant:
  "log_signals en sc tenant_id rows = Inr ls \<Longrightarrow> l \<in> set ls \<Longrightarrow> ls_tenant_id l = tenant_id"
  by (auto simp: log_signals_def dest!: collect_rows_mapped map_log_tenant)

section \<open>The stores after a collection\<close>

text \<open>The watermark moves to the newest signal, if there is one.\<close>

definition advanced :: "string \<Rightarrow> string \<Rightarrow> signal list \<Rightarrow> watermarks \<Rightarrow> watermarks" where
  "advanced tenant_id target_id signals wm =
     (if signals = [] then wm else AList.update (tenant_id, target_id) (Max (sig_timestamp ` set signals)) wm)"

definition snapshots_of :: "collect_env \<Rightarrow> string \<Rightarrow> target \<Rightarrow> signal list \<Rightarrow> snapshot_row list" where
  "snapshots_of en tenant_id t signals = map (\<lambda>s. signal_row s tenant_id (mt_target_id t) (mt_domain t) (ce_clock en)) signals"

definition same_stores :: "collect_context \<Rightarrow> collect_context \<Rightarrow> bool" where
  "same_stores ctx ctx' \<longleftrightarrow> cc_watermark_store ctx' = cc_watermark_store ctx \<and> cc_snapshot_store ctx' = cc_snapshot_store ctx"

definition stored :: "collect_env \<Rightarrow> target \<Rightarrow> signal list \<Rightarrow> collect_context \<Rightarrow> collect_context \<Rightarrow> bool" where
  "stored en t signals ctx ctx' \<longleftrightarrow>
     cc_watermark_store ctx' = map_option (advanced (cc_tenant_id ctx) (mt_target_id t) signals) (cc_watermark_store ctx)
     \<and> cc_snapshot_store ctx' = map_option (\<lambda>rows. rows @ snapshots_of en (cc_tenant_id ctx) t signals) (cc_snapshot_store ctx)"

lemma store_signals_stored:
  assumes "cc_tenant_id ctx \<noteq> []"
  shows "\<exists>ctx'. store_signals en t signals ctx = (Inr signals, ctx') \<and> stored en t signals ctx ctx' \<and> cc_sent ctx' = cc_sent ctx"
  using assms
  by (cases "cc_watermark_store ctx"; cases "cc_snapshot_store ctx"; cases "signals = []")
    (simp_all add: store_signals_def stored_def advanced_def wm_update_def snapshot_write_def snapshots_of_def Let_def)

lemma sending_fields [simp]:
  "cc_tenant_id (sending x rq ctx) = cc_tenant_id ctx" "cc_watermark_store (sending x rq ctx) = cc_watermark_store ctx"
  "cc_snapshot_store (sending x rq ctx) = cc_snapshot_store ctx" "cc_sent (sending x rq ctx) = cc_sent ctx @ [rq]"
  by (simp_all add: sending_def)

text \<open>Every collection either ends without a request, or sends one and then fails or stores its signals.\<close>

definition request_of :: "collect_env \<Rightarrow> target \<Rightarrow> collect_context \<Rightarrow> outbound res" where
  "request_of en t ctx = (if collector_for t = Inr HttpLogsCollector then log_request en t ctx else metric_request en t ctx)"

lemma response_cases:
  assumes "(case x of Inl e \<Rightarrow> (Inl e, sending (mt_target_id t) rq ctx)
      | Inr ss \<Rightarrow> store_signals en t (g ss) (sending (mt_target_id t) rq ctx)) = (r, ctx')"
    and "cc_tenant_id ctx \<noteq> []" "\<And>ss s. x = Inr ss \<Longrightarrow> s \<in> set (g ss) \<Longrightarrow> sig_tenant s = cc_tenant_id ctx"
  shows "(\<exists>e. r = Inl e \<and> ctx' = sending (mt_target_id t) rq ctx) \<or> (\<exists>signals. r = Inr signals \<and> stored en t signals ctx ctx'
    \<and> cc_sent ctx' = cc_sent ctx @ [rq] \<and> (\<forall>s \<in> set signals. sig_tenant s = cc_tenant_id ctx))"
proof (cases x)
  case (Inl e)
  with assms(1) show ?thesis by auto
next
  case (Inr ss)
  obtain c where "store_signals en t (g ss) (sending (mt_target_id t) rq ctx) = (Inr (g ss), c)"
    "stored en t (g ss) (sending (mt_target_id t) rq ctx) c" "cc_sent c = cc_sent ctx @ [rq]"
    using store_signals_stored [of "sending (mt_target_id t) rq ctx" en t "g ss"] assms(2) by auto
  with assms(1,3) Inr show ?thesis by (auto simp: stored_def)
qed

lemma collect_cases:
  assumes "collect_target en answer t ctx = (r, ctx')" "cc_tenant_id ctx \<noteq> []"
  obtains (silent) "ctx' = ctx" "case r of Inl e \<Rightarrow> True | Inr signals \<Rightarrow> signals = []"
  | (failed) rq e where "request_of en t ctx = Inr rq" "r = Inl e" "ctx' = sending (mt_target_id t) rq ctx"
  | (finished) rq signals where "request_of en t ctx = Inr rq" "r = Inr signals" "stored en t signals ctx ctx'"
      "cc_sent ctx' = cc_sent ctx @ [rq]" "\<forall>s \<in> set signals. sig_tenant s = cc_tenant_id ctx"
proof (cases "collector_for t")
  case (Inl e)
  with assms(1) show thesis by (intro silent) (auto simp: collect_target_def)
next
  case (Inr c)
  note col = Inr
  show thesis
  proof (cases c)
    case MockCollector
    with col assms(1) show thesis by (intro silent) (auto simp: collect_target_def mock_collect_def)
  next
    case HttpLogsCollector
    with col assms(1) have run: "http_logs_collect en answer t ctx = (r, ctx')" by (simp add: collect_target_def)
    show thesis
    proof (cases "log_request en t ctx")
      case (Inl e)
      with run show thesis by (intro silent) (auto simp: http_logs_collect_def)
    next
      case (Inr rq)
      have rq: "request_of en t ctx = Inr rq" using Inr col HttpLogsCollector by (simp add: request_of_def)
      from run Inr have "(case bind_res (response_rows (mt_source_config t) (answer rq)) (log_signals en (mt_source_config t) (cc_tenant_id ctx)) of
          Inl e \<Rightarrow> (Inl e, sending (mt_target_id t) rq ctx)
        | Inr ss \<Rightarrow> store_signals en t (map LogSignal ss) (sending (mt_target_id t) rq ctx)) = (r, ctx')"
        by (simp add: http_logs_collect_def Let_def)
      from response_cases [OF this assms(2)] show thesis using failed [OF rq] finished [OF rq] log_signals_tenant by fastforce
    qed
  next
    case HttpMetricsCollector
    with col assms(1) have run: "http_metrics_collect en answer t ctx = (r, ctx')" by (simp add: collect_target_def)
    show thesis
    proof (cases "metric_request en t ctx")
      case (Inl e)
      with run show thesis by (intro silent) (auto simp: http_metrics_collect_def)
    next
      case (Inr rq)
      have rq: "request_of en t ctx = Inr rq" using Inr col HttpMetricsCollector by (simp add: request_of_def)
      from run Inr have "(case bind_res (response_rows (mt_source_config t) (answer rq)) (metric_signals en (mt_source_config t) (cc_tenant_id ctx)) of
          Inl e \<Rightarrow> (Inl e, sending (mt_target_id t) rq ctx)
        | Inr ss \<Rightarrow> store_signals en t (map MetricSignal ss) (sending (mt_target_id t) rq ctx)) = (r, ctx')"
        by (simp add: http_metrics_collect_def Let_def)
      from response_cases [OF this assms(2)] show thesis using failed [OF rq] finished [OF rq] metric_signals_tenant by fastforce
    qed
  qed
qed

section \<open>Outcome of a collection\<close>

definition new_stores :: "collect_env \<Rightarrow> target \<Rightarrow> signal list res \<Rightarrow> collect_context \<Rightarrow> collect_context \<Rightarrow> bool" where
  "new_stores en t r ctx ctx' \<longleftrightarrow>
     (case r of Inl e \<Rightarrow> same_stores ctx ctx' | Inr signals \<Rightarrow> stored en t signals ctx ctx')"

lemma stored_nothing: "stored en t [] ctx ctx"
  by (cases "cc_watermark_store ctx"; cases "cc_snapshot_store ctx") (simp_all add: stored_def advanced_def snapshots_of_def)

lemma collect_stores:
  assumes "collect_target en answer t ctx = (r, ctx')" "cc_tenant_id ctx \<noteq> []"
  shows "new_stores en t r ctx ctx'"
  using assms
proof (cases rule: collect_cases)
  case silent
  then show ?thesis by (cases r) (auto simp: new_stores_def same_stores_def stored_nothing)
next
  case (failed rq e)
  then show ?thesis by (simp add: new_stores_def same_stores_def)
next
  case (finished rq signals)
  then show ?thesis by (simp add: new_stores_def)
qed

text \<open>A collection that succeeds moves the endpoint's watermark to the newest timestamp among its signals, or leaves it if
  there are none, writes exactly these signals as snapshots, and all of them carry the tenant; one that fails, at whatever
  step, leaves watermark and snapshots untouched, so the next round asks for the same window again.\<close>

theorem collect_outcome:
  assumes "collect_target en answer t ctx = (r, ctx')" "cc_tenant_id ctx \<noteq> []"
  shows "new_stores en t r ctx ctx' \<and> (\<forall>signals. r = Inr signals \<longrightarrow> (\<forall>s \<in> set signals. sig_tenant s = cc_tenant_id ctx))"
proof
  show "new_stores en t r ctx ctx'" using assms by (rule collect_stores)
  show "\<forall>signals. r = Inr signals \<longrightarrow> (\<forall>s \<in> set signals. sig_tenant s = cc_tenant_id ctx)"
    using assms by (cases rule: collect_cases) auto
qed

section \<open>What is sent\<close>

lemma gated_gate:
  assumes "gated en sc = Inr (url, headers, params)"
  shows "validate_url (ce_dns en) (ce_allow_loopback en) url = Inr url"
    "\<exists>hs. validate_headers hs = Inr () \<and> headers = map (\<lambda>(k, v). (k, resolve_secret (ce_environ en) v)) hs"
proof -
  have id: "validate_url d a u = Inr v \<Longrightarrow> v = u" for d a u v
    by (auto simp: validate_url_def split: if_splits option.splits)
  from assms obtain v h where u: "gate_url en v = Inr url" and h: "gate_headers en h = Inr headers" by (auto simp: gated_def)
  from u show "validate_url (ce_dns en) (ce_allow_loopback en) url = Inr url"
    by (auto simp: gate_url_def split: pyval.splits if_splits dest: id)
  from h show "\<exists>hs. validate_headers hs = Inr () \<and> headers = map (\<lambda>(k, v). (k, resolve_secret (ce_environ en) v)) hs"
    by (auto simp: gate_headers_def split: pyval.splits)
qed

lemma request_gated:
  assumes "request_of en t ctx = Inr rq"
  shows "\<exists>params. gated en (mt_source_config t) = Inr (ob_url rq, ob_headers rq, params)"
proof (cases "collector_for t = Inr HttpLogsCollector")
  case True
  with assms show ?thesis by (fastforce simp: request_of_def log_request_def Let_def)
next
  case False
  with assms show ?thesis by (fastforce simp: request_of_def metric_request_def Let_def)
qed

definition gate_passed :: "collect_env \<Rightarrow> outbound \<Rightarrow> bool" where
  "gate_passed en rq \<longleftrightarrow> validate_url (ce_dns en) (ce_allow_loopback en) (ob_url rq) = Inr (ob_url rq)
     \<and> (\<exists>hs. validate_headers hs = Inr () \<and> ob_headers rq = map (\<lambda>(k, v). (k, resolve_secret (ce_environ en) v)) hs)"

text \<open>C23. A collection sends at most one request, and only one whose URL has passed the outbound gate and whose headers held no
  plaintext credential before their references were resolved.\<close>

theorem collect_gated:
  assumes "collect_target en answer t ctx = (r, ctx')" "cc_tenant_id ctx \<noteq> []"
  shows "cc_sent ctx' = cc_sent ctx \<or> (\<exists>rq. cc_sent ctx' = cc_sent ctx @ [rq] \<and> gate_passed en rq)"
proof -
  have ok: "gate_passed en rq" if r: "request_of en t ctx = Inr rq" for rq
  proof -
    from request_gated [OF r] obtain params where "gated en (mt_source_config t) = Inr (ob_url rq, ob_headers rq, params)" ..
    from gated_gate [OF this] show ?thesis by (simp add: gate_passed_def)
  qed
  from assms show ?thesis by (cases rule: collect_cases) (use ok in auto)
qed

section \<open>The watermark in the request\<close>

definition offsets_ok :: "zones \<Rightarrow> time \<Rightarrow> bool" where
  "offsets_ok zs t \<longleftrightarrow> (\<forall>name z. zs name = Inr z \<longrightarrow> zone_offset (zn_offset z t))"

text \<open>The period a collection asks for: a rolling window if one is configured, else from the watermark on, unless that lies more
  than a minute in the future.\<close>

definition asked_period :: "int \<Rightarrow> time option \<Rightarrow> time \<Rightarrow> (time \<times> time) option" where
  "asked_period w wm now =
     (if 0 < w then Some (now - w * 1000000, now)
      else case wm of None \<Rightarrow> None | Some last_ts \<Rightarrow> if last_ts \<le> now + 60000000 then Some (last_ts, now) else None)"

text \<open>A text the source's own reader takes for the time, to the millisecond.\<close>

definition reads_as :: "collect_env \<Rightarrow> pydict \<Rightarrow> string \<Rightarrow> time \<Rightarrow> bool" where
  "reads_as en sc s x \<longleftrightarrow> parse_ts (ce_zones en) (py_get sc ''timezone'') (PStr s) = Inr (x div 1000 * 1000)"

definition readable :: "collect_env \<Rightarrow> time \<Rightarrow> bool" where
  "readable en x \<longleftrightarrow> in_range_time x \<and> offsets_ok (ce_zones en) x"

lemma format_reads:
  assumes "format_time_param (ce_zones en) (py_get sc ''timezone'') x = Inr s" "readable en x"
  shows "reads_as en sc s x"
proof -
  have "zone_offset (zn_offset z x)" if "ce_zones en name = Inr z" for name z
    using assms(2) that by (auto simp: readable_def offsets_ok_def)
  from parse_format [OF assms(1) _ this] assms(2) show ?thesis by (simp add: reads_as_def readable_def)
qed

text \<open>The query parameters of a request for a period: the start under its configured name, and the end if the period is a
  window or the source has a name for it; everything else as configured.\<close>

definition bounds_sent :: "collect_env \<Rightarrow> pydict \<Rightarrow> bool \<Rightarrow> pydict \<Rightarrow> (time \<times> time) option \<Rightarrow> pydict \<Rightarrow> pydict \<Rightarrow> bool" where
  "bounds_sent en sc windowed tp period params sent \<longleftrightarrow>
     (case period of
        None \<Rightarrow> sent = params
      | Some (a, b) \<Rightarrow> \<exists>name s. py_get_or tp ''start'' (PStr ''start'') = PStr name \<and> reads_as en sc s a
          \<and> (if windowed \<or> map_of tp ''end'' \<noteq> None
             then \<exists>name' e. py_get_or tp ''end'' (PStr ''end'') = PStr name' \<and> reads_as en sc e b
               \<and> sent = AList.update name' (PStr e) (AList.update name (PStr s) params)
             else sent = AList.update name (PStr s) params))"

lemma put_key_Inr: "put_key k v d = Inr d' \<longleftrightarrow> (\<exists>s. k = PStr s \<and> d' = AList.update s v d)"
  by (auto simp: put_key_def split: pyval.splits)

lemma window_sent:
  assumes "apply_time_window en sc (cc_now ctx) params = Inr sent" "window_sec sc = Inr w" "0 < w" "time_params sc = Inr tp"
    and "now = (case cc_now ctx of Some t \<Rightarrow> t | None \<Rightarrow> ce_clock en)"
    and "readable en (now - w * 1000000)" "readable en now"
  shows "bounds_sent en sc True tp (Some (now - w * 1000000, now)) params sent"
proof -
  from assms(1-5) obtain s name e name' where f:
    "format_time_param (ce_zones en) (py_get sc ''timezone'') (now - w * 1000000) = Inr s"
    "format_time_param (ce_zones en) (py_get sc ''timezone'') now = Inr e"
    "py_get_or tp ''start'' (PStr ''start'') = PStr name" "py_get_or tp ''end'' (PStr ''end'') = PStr name'"
    "sent = AList.update name' (PStr e) (AList.update name (PStr s) params)"
    by (auto simp: apply_time_window_def Let_def put_key_Inr checked_time_def split: if_splits)
  from format_reads [OF f(1) assms(6)] format_reads [OF f(2) assms(7)] f(3-5) show ?thesis
    by (simp add: bounds_sent_def) blast
qed

lemma pushed_sent:
  assumes "push_watermark en sc last_ts now params = Inr sent" "time_params sc = Inr tp" "readable en last_ts" "readable en now"
  shows "bounds_sent en sc False tp (Some (last_ts, now)) params sent"
proof (cases "map_of tp ''end''")
  case None
  with assms(1,2) obtain s name where "format_time_param (ce_zones en) (py_get sc ''timezone'') last_ts = Inr s"
    "py_get_or tp ''start'' (PStr ''start'') = PStr name" "sent = AList.update name (PStr s) params"
    by (auto simp: push_watermark_def Let_def put_key_Inr)
  with None format_reads [OF _ assms(3)] show ?thesis by (auto simp: bounds_sent_def)
next
  case (Some key)
  with assms(1,2) obtain s name e name' where f: "format_time_param (ce_zones en) (py_get sc ''timezone'') last_ts = Inr s"
    "format_time_param (ce_zones en) (py_get sc ''timezone'') now = Inr e"
    "py_get_or tp ''start'' (PStr ''start'') = PStr name" "key = PStr name'"
    "sent = AList.update name' (PStr e) (AList.update name (PStr s) params)"
    by (auto simp: push_watermark_def Let_def put_key_Inr)
  from f(4) Some have "py_get_or tp ''end'' (PStr ''end'') = PStr name'" by (simp add: py_get_or_def)
  with Some format_reads [OF f(1) assms(3)] format_reads [OF f(2) assms(4)] f(3,5) show ?thesis
    by (simp add: bounds_sent_def) blast
qed

text \<open>The range clauses of an Elasticsearch query.\<close>

definition inner :: "string \<Rightarrow> pydict \<Rightarrow> pydict" where
  "inner k d = (case py_get d k of PDict e \<Rightarrow> e | _ \<Rightarrow> [])"

definition range_clauses :: "outbound \<Rightarrow> pyval list" where
  "range_clauses rq = filter (\<lambda>f. case f of PDict d \<Rightarrow> map_of d ''range'' \<noteq> None | _ \<Rightarrow> False)
     (case py_get (inner ''bool'' (inner ''query'' (case ob_body rq of None \<Rightarrow> [] | Some b \<Rightarrow> b))) ''filter'' of PList fs \<Rightarrow> fs | _ \<Rightarrow> [])"

definition range_sent :: "collect_env \<Rightarrow> pydict \<Rightarrow> (time \<times> time) option \<Rightarrow> pyval list \<Rightarrow> bool" where
  "range_sent en sc period clauses \<longleftrightarrow>
     (case period of
        Some (a, b) \<Rightarrow> if truthy (py_get sc ''time_field'')
          then \<exists>f s e. py_get sc ''time_field'' = PStr f \<and> reads_as en sc s a \<and> reads_as en sc e b
            \<and> clauses = [PDict [(''range'', PDict [(f, PDict [(''gte'', PStr s), (''lte'', PStr e)])])]]
          else clauses = []
      | None \<Rightarrow> clauses = [])"

lemma body_range:
  assumes "build_body en sc service period = Inr body" "es_mode sc" "ob_body rq = body"
    and "\<And>a b. period = Some (a, b) \<Longrightarrow> readable en a \<and> readable en b"
  shows "range_sent en sc period (range_clauses rq)"
proof -
  from assms(1,2) obtain f1 f2 f3 b where parts: "service_filter sc service = Inr f1" "range_filter en sc period = Inr f2"
    "level_filter sc = Inr f3" "body = Some b" "inner ''bool'' (inner ''query'' b) = [(''filter'', PList (f1 @ f2 @ f3))]"
    by (auto simp: build_body_def Let_def inner_def py_get_def split: if_splits)
  let ?range = "filter (\<lambda>f. case f of PDict d \<Rightarrow> map_of d ''range'' \<noteq> None | _ \<Rightarrow> False)"
  have "?range f1 = []" using parts(1) by (auto simp: service_filter_def Let_def split: if_splits)
  moreover have "?range f3 = []" using parts(3) by (auto simp: level_filter_def Let_def split: if_splits)
  ultimately have clauses: "range_clauses rq = ?range f2"
    using parts(4,5) assms(3) by (simp add: range_clauses_def py_get_def)
  show ?thesis
  proof (cases period)
    case None
    with parts(2) clauses show ?thesis by (simp add: range_sent_def range_filter_def Let_def)
  next
    case (Some p)
    obtain a c where p: "p = (a, c)" by (cases p)
    have ok: "readable en a" "readable en c" using assms(4) Some p by auto
    show ?thesis
    proof (cases "truthy (py_get sc ''time_field'')")
      case True
      with parts(2) Some p obtain s e f where "format_time_param (ce_zones en) (py_get sc ''timezone'') a = Inr s"
        "format_time_param (ce_zones en) (py_get sc ''timezone'') c = Inr e" "py_get sc ''time_field'' = PStr f"
        "f2 = [PDict [(''range'', PDict [(f, PDict [(''gte'', PStr s), (''lte'', PStr e)])])]]"
        by (auto simp: range_filter_def Let_def put_key_Inr)
      with True Some p clauses format_reads [OF _ ok(1)] format_reads [OF _ ok(2)] show ?thesis by (auto simp: range_sent_def)
    next
      case False
      with parts(2) Some p clauses show ?thesis by (simp add: range_sent_def range_filter_def Let_def)
    qed
  qed
qed

text \<open>C24. What a collection asks for, whatever collector serves the endpoint. A source that is no Elasticsearch query gets the
  configured parameters plus the bounds of the period under their configured names: with a rolling window both bounds, else the
  watermark, and the present if the source names the end; the query text, read back by the source's own parser, is the
  bound to the millisecond. An Elasticsearch source gets no bound as a parameter but one range clause in its body if a time field
  is configured. Without window and watermark, or with a watermark more than a minute in the future, nothing is bounded.\<close>

theorem period_asked_for:
  assumes "request_of en t ctx = Inr rq" "gated en (mt_source_config t) = Inr (url, headers, params)"
    and "window_sec (mt_source_config t) = Inr w" "time_params (mt_source_config t) = Inr tp"
    and "watermark_of ctx (mt_target_id t) = Inr wm" "now = (case cc_now ctx of Some x \<Rightarrow> x | None \<Rightarrow> ce_clock en)"
    and "\<forall>a b. asked_period w wm now = Some (a, b) \<longrightarrow> readable en a \<and> readable en b"
  shows "if collector_for t = Inr HttpLogsCollector \<and> es_mode (mt_source_config t)
    then ob_params rq = params \<and> range_sent en (mt_source_config t) (asked_period w wm now) (range_clauses rq)
    else bounds_sent en (mt_source_config t) (0 < w) tp (asked_period w wm now) params (ob_params rq)"
proof -
  let ?sc = "mt_source_config t" let ?p = "asked_period w wm now"
  have none: "bounds_sent en ?sc b tp None params params" for b by (simp add: bounds_sent_def)
  have win: "bounds_sent en ?sc (0 < w) tp ?p params ps" if "apply_time_window en ?sc (cc_now ctx) params = Inr ps" "0 < w" for ps
    using window_sent [OF that(1) assms(3) that(2) assms(4,6)] assms(7) that(2) by (simp add: asked_period_def)
  have push: "bounds_sent en ?sc (0 < w) tp ?p params ps"
    if "push_watermark en ?sc l now params = Inr ps" "\<not> 0 < w" "wm = Some l" "\<not> watermark_is_future l now" for ps l
    using pushed_sent [OF that(1) assms(4)] assms(7) that(2-) by (simp add: asked_period_def watermark_is_future_def not_less)
  show ?thesis
  proof (cases "collector_for t = Inr HttpLogsCollector")
    case False
    with assms(1,2) have "metric_params en ?sc (mt_target_id t) ctx params = Inr (ob_params rq)"
      by (auto simp: request_of_def metric_request_def Let_def)
    then have "bounds_sent en ?sc (0 < w) tp ?p params (ob_params rq)"
      using win push none assms(3,5,6) by (auto simp: metric_params_def asked_period_def watermark_is_future_def Let_def
          split: option.splits if_splits)
    with False show ?thesis by simp
  next
    case logs: True
    with assms(1,2) obtain period body where log: "log_window en ?sc (mt_target_id t) ctx params = Inr (ob_params rq, period)"
      "build_body en ?sc (mt_service t) period = Inr body" "ob_body rq = body"
      by (auto simp: request_of_def log_request_def Let_def)
    have period: "period = ?p" using log(1) assms(3,5,6)
      by (auto simp: log_window_def asked_period_def watermark_is_future_def checked_time_def Let_def split: option.splits if_splits)
    show ?thesis
    proof (cases "es_mode ?sc")
      case True
      have "ob_params rq = params" using log(1) True
        by (auto simp: log_window_def Let_def split: option.splits if_splits)
      with True logs body_range [OF log(2) True log(3)] assms(7) period show ?thesis by simp
    next
      case False
      then have "bounds_sent en ?sc (0 < w) tp ?p params (ob_params rq)"
        using win push none log(1) assms(3,5,6) by (auto simp: log_window_def asked_period_def watermark_is_future_def Let_def
            split: option.splits if_splits)
      with False show ?thesis by simp
    qed
  qed
qed

section \<open>Duplicates\<close>

text \<open>The hash of a metric row leaves out service and labels, so of two pods that report the same value at the same
  time only the first is kept, whatever the hash function.\<close>

lemma metric_hash_ignores:
  "metric_hash md5 (m\<lparr>ms_service := service, ms_labels := labels\<rparr>) = metric_hash md5 m"
  by (simp add: metric_hash_def)

theorem metric_dedup_conflates_services:
  assumes "f row1 = Inr m" "f row2 = Inr (m\<lparr>ms_service := service, ms_labels := labels\<rparr>)"
  shows "collect_rows f (metric_hash md5) [row1, row2] {} = Inr [m]"
  using assms by (simp add: metric_hash_ignores)

text \<open>No two collected signals have the same hash, and every one is the mapping of a row of the answer.\<close>

theorem collected_rows_unique:
  assumes "collect_rows f hash rows {} = Inr xs"
  shows "distinct (map hash xs) \<and> set xs \<subseteq> {x. \<exists>row \<in> set rows. f row = Inr x}"
  using collect_rows_distinct [OF assms] collect_rows_mapped [OF assms] by auto

section \<open>A round\<close>

lemma collecting_watermarks:
  assumes "collecting source tenant t now wm = (wm', rp, out)" "tenant \<noteq> []"
  shows "wm' = advanced tenant (mt_target_id t) (case out of Inl e \<Rightarrow> [] | Inr signals \<Rightarrow> signals) wm"
proof -
  obtain en answer where src: "source tenant t now = (en, answer)" by fastforce
  obtain r ctx where c: "collect_target en answer t (round_context tenant now wm) = (r, ctx)" by fastforce
  have "new_stores en t r (round_context tenant now wm) ctx"
    by (rule collect_stores [OF c]) (simp add: round_context_def assms(2))
  then have "cc_watermark_store ctx = Some (advanced tenant (mt_target_id t) (case r of Inl e \<Rightarrow> [] | Inr signals \<Rightarrow> signals) wm)"
    by (cases r) (simp_all add: new_stores_def same_stores_def stored_def round_context_def advanced_def)
  with assms(1) src c show ?thesis by (cases r) (auto simp: collecting_def Let_def)
qed

definition newest :: "signal list \<Rightarrow> time option" where
  "newest signals = (if signals = [] then None else Some (Max (sig_timestamp ` set signals)))"

lemma map_of_advanced:
  "map_of (advanced tenant x signals wm) k = (if k = (tenant, x) \<and> signals \<noteq> [] then newest signals else map_of wm k)"
  by (auto simp: advanced_def newest_def map_of_update)

lemma collect_all_watermarks:
  assumes "tenant \<noteq> []" "distinct (map mt_target_id ts)" "collect_all (collecting source) tenant now ts wm = (cs, wm')"
  shows "map_of wm' (u, x) = (if u = tenant then (case List.find (\<lambda>c. co_target_id c = x \<and> batch_of c \<noteq> []) cs of
      Some c \<Rightarrow> newest (batch_of c) | None \<Rightarrow> map_of wm (u, x)) else map_of wm (u, x))"
  using assms(2,3)
proof (induction ts arbitrary: wm cs)
  case (Cons t ts)
  obtain wm1 rp out where c: "collecting source tenant t now wm = (wm1, rp, out)" by (rule prod_cases3)
  obtain cs1 wm2 where r: "collect_all (collecting source) tenant now ts wm1 = (cs1, wm2)" by fastforce
  let ?c = "\<lparr>co_target_id = mt_target_id t, co_request_params = rp, co_outcome = out\<rparr>"
  from Cons.prems(2) c r have cs: "cs = ?c # cs1" "wm' = wm2" by (simp_all add: Let_def)
  have w: "wm1 = advanced tenant (mt_target_id t) (batch_of ?c) wm"
    using collecting_watermarks [OF c assms(1)] by (simp add: batch_of_def)
  have ids: "map co_target_id cs1 = map mt_target_id ts" using collect_all_ids [of "collecting source" tenant now ts wm1] r by simp
  have none: "List.find (\<lambda>c. co_target_id c = mt_target_id t \<and> batch_of c \<noteq> []) cs1 = None"
    using Cons.prems(1) ids unfolding find_None_iff by (metis distinct.simps(2) image_eqI list.set_map list.simps(9))
  from Cons.IH [OF _ r [folded cs(2)]] Cons.prems(1)
  show ?case using none by (auto simp: cs(1) w map_of_advanced split: option.split)
qed simp

text \<open>C22. After a round of the poller over the collectors, the watermark of every endpoint that returned signals is their newest
  timestamp; all other watermarks, those of failed endpoints, of other endpoints and of other tenants, are as before.\<close>

theorem round_watermarks:
  assumes "run_round sha (collecting source) registry rows trace tenant domain targets now collect_ended ended (w, wm) = (r, w', wm')"
    and "tenant \<noteq> []" "distinct (map mt_target_id targets)"
  shows "map_of wm' (u, x) = (if u = tenant then (case List.find (\<lambda>c. co_target_id c = x \<and> batch_of c \<noteq> [])
        (fst (collect_all (collecting source) tenant now targets wm)) of
      Some c \<Rightarrow> newest (batch_of c) | None \<Rightarrow> map_of wm (u, x)) else map_of wm (u, x))"
proof -
  obtain cs wm1 where c: "collect_all (collecting source) tenant now targets wm = (cs, wm1)" by fastforce
  obtain rs where "open_round tenant trace domain now targets (wd_rounds w) = Inr rs"
    using open_round_spec [OF assms(2)] by blast
  with assms(1) c have "wm' = wm1" by (auto simp: run_round_def Let_def split: sum.splits)
  with collect_all_watermarks [OF assms(2,3) c] c show ?thesis by simp
qed

section \<open>Instances\<close>

text \<open>A Prometheus endpoint, and a source that answers with one sample.\<close>

definition sample_config :: pydict where
  "sample_config = [(''url'', PStr ''http://8.8.8.8/q''), (''field_mapping'', PDict [(''service'', PStr ''metric.pod''),
     (''metric'', PStr ''metric.__name__''), (''value'', PStr ''value[1]''), (''timestamp'', PStr ''value[0]'')])]"

definition sample_target :: target where
  "sample_target = \<lparr>mt_id = 1, mt_tenant_id = ''t'', mt_target_id = ''MT-0001'', mt_service = ''api'', mt_signal_type = ''metric'',
     mt_source_type = ''prometheus'', mt_domain = ''application'', mt_source_config = sample_config, mt_schedule = [],
     mt_enabled = True, mt_created_at = 0, mt_deleted = False\<rparr>"

definition sample_env :: collect_env where
  "sample_env = \<lparr>ce_dns = \<lambda>_. None, ce_allow_loopback = False, ce_environ = [], ce_zones = \<lambda>name. Inl (KeyError name),
     ce_md5 = id, ce_clock = 200000000\<rparr>"

definition sample_row :: pyval where
  "sample_row = PDict [(''metric'', PDict [(''__name__'', PStr ''cpu''), (''pod'', PStr ''a'')]),
     (''value'', PList [PInt 100, PStr ''0.5''])]"

definition sample_answer :: "outbound \<Rightarrow> http_response" where
  "sample_answer rq = Response 200 [] (Some (PDict [(''data'', PDict [(''result'', PList [sample_row])])]))"

definition sample_signal :: metric_signal where
  "sample_signal = \<lparr>ms_tenant_id = ''t'', ms_service = ''a'', ms_metric = ''cpu'', ms_value = 1 / 2, ms_timestamp = 100000000,
     ms_labels = []\<rparr>"

abbreviation sample_context :: "watermarks \<Rightarrow> collect_context" where
  "sample_context wm \<equiv> round_context ''t'' 150000000 wm"

lemma sample_gated: "gated sample_env sample_config = Inr (''http://8.8.8.8/q'', [], [])"
  by code_simp

lemma sample_rows: "response_rows sample_config (sample_answer rq) = Inr [sample_row]"
  unfolding sample_answer_def by code_simp

lemma sample_mapped:
  "map_metric (ce_zones sample_env) (py_get sample_config ''field_mapping'') ''t'' PNone sample_row = Inr sample_signal"
  by code_simp

lemma sample_signals: "metric_signals sample_env sample_config ''t'' [sample_row] = Inr [sample_signal]"
proof -
  have m: "key_index sample_config ''field_mapping'' = Inr (py_get sample_config ''field_mapping'')" "py_get sample_config ''timezone'' = PNone"
    by (simp_all add: sample_config_def key_index_def py_get_def)
  show ?thesis by (simp add: metric_signals_def m sample_mapped)
qed

lemma sample_window: "window_sec sample_config = Inr 0" "time_params sample_config = Inr []" "py_get sample_config ''timezone'' = PNone"
  "py_get_or sample_config ''method'' (PStr ''GET'') = PStr ''GET''"
  by (simp_all add: sample_config_def window_sec_def time_params_def py_get_or_def py_get_def dict_value_def)

lemma sample_fields [simp]: "mt_source_config sample_target = sample_config" "mt_target_id sample_target = ''MT-0001''"
  "collector_for sample_target = Inr HttpMetricsCollector"
  by (simp_all add: sample_target_def collector_for_def)

definition sample_outbound :: "pydict \<Rightarrow> outbound" where
  "sample_outbound params = \<lparr>ob_method = PStr ''GET'', ob_url = ''http://8.8.8.8/q'', ob_headers = [], ob_params = params, ob_body = None\<rparr>"

lemma sample_first_request: "metric_request sample_env sample_target (sample_context []) = Inr (sample_outbound [])"
  by (simp add: metric_request_def sample_gated metric_params_def sample_window watermark_of_def round_context_def wm_get_def
    sample_outbound_def)

lemma sample_collect:
  "\<exists>ctx'. collect_target sample_env sample_answer sample_target (sample_context []) = (Inr [MetricSignal sample_signal], ctx')"
proof -
  have t: "cc_tenant_id (sample_context []) = ''t''" by (simp add: round_context_def)
  obtain ctx' where "store_signals sample_env sample_target [MetricSignal sample_signal]
      (sending ''MT-0001'' (sample_outbound []) (sample_context [])) = (Inr [MetricSignal sample_signal], ctx')"
    using store_signals_stored [of "sending ''MT-0001'' (sample_outbound []) (sample_context [])" sample_env sample_target
        "[MetricSignal sample_signal]"] t by auto
  then show ?thesis
    by (simp add: collect_target_def http_metrics_collect_def sample_first_request sample_rows sample_signals t)
qed

theorem collect_outcome_witness:
  "\<exists>ctx'. collect_target sample_env sample_answer sample_target (sample_context []) = (Inr [MetricSignal sample_signal], ctx')
     \<and> cc_watermark_store ctx' = Some [((''t'', ''MT-0001''), 100000000)]"
proof -
  obtain ctx' where c: "collect_target sample_env sample_answer sample_target (sample_context []) = (Inr [MetricSignal sample_signal], ctx')"
    using sample_collect by blast
  have "new_stores sample_env sample_target (Inr [MetricSignal sample_signal]) (sample_context []) ctx'"
    using collect_outcome [OF c] by (simp add: round_context_def)
  then show ?thesis using c
    by (auto simp: new_stores_def stored_def advanced_def round_context_def sample_signal_def)
qed

theorem collect_gated_witness:
  "\<exists>r ctx' rq. collect_target sample_env sample_answer sample_target (sample_context []) = (r, ctx') \<and> cc_sent ctx' = [rq]
     \<and> gate_passed sample_env rq"
proof -
  obtain r ctx' where c: "collect_target sample_env sample_answer sample_target (sample_context []) = (r, ctx')" by fastforce
  have t: "cc_tenant_id (sample_context []) \<noteq> []" by (simp add: round_context_def)
  obtain ctx1 where c1: "collect_target sample_env sample_answer sample_target (sample_context []) = (Inr [MetricSignal sample_signal], ctx1)"
    using sample_collect by blast
  have "cc_sent ctx' \<noteq> []" using collect_cases [OF c t] c1 c by (cases rule: collect_cases [OF c t]) auto
  then show ?thesis using collect_gated [OF c t] c by (auto simp: round_context_def)
qed

theorem period_asked_for_witness:
  "\<exists>rq start. request_of sample_env sample_target (sample_context [((''t'', ''MT-0001''), 100000000)]) = Inr rq
     \<and> ob_params rq = [(''start'', PStr start)] \<and> parse_ts (ce_zones sample_env) PNone (PStr start) = Inr 100000000"
proof -
  let ?c = "sample_context [((''t'', ''MT-0001''), 100000000)]"
  let ?rq = "sample_outbound [(''start'', PStr (zulu (iso_millis 100000000 @ show_offset 0)))]"
  have r: "request_of sample_env sample_target ?c = Inr ?rq"
    by (simp add: request_of_def metric_request_def sample_gated metric_params_def sample_window watermark_of_def round_context_def
      wm_get_def sample_outbound_def watermark_is_future_def push_watermark_def format_time_param_def py_get_or_def put_key_def)
      (simp add: sample_config_def)
  have p: "asked_period 0 (Some 100000000) 150000000 = Some (100000000, 150000000)" by (simp add: asked_period_def)
  have "readable sample_env 100000000" "readable sample_env 150000000"
    by (simp_all add: readable_def range_defs offsets_ok_def sample_env_def)
  with period_asked_for [OF r, of "''http://8.8.8.8/q''" "[]" "[]" 0 "[]" "Some 100000000" 150000000]
  have "bounds_sent sample_env sample_config False [] (Some (100000000, 150000000)) [] (ob_params ?rq)"
    by (simp add: sample_gated sample_window watermark_of_def round_context_def wm_get_def p)
  then obtain s where "reads_as sample_env sample_config s 100000000" "ob_params ?rq = [(''start'', PStr s)]"
    by (auto simp: bounds_sent_def py_get_or_def)
  with r show ?thesis by (auto simp: reads_as_def sample_window)
qed

theorem round_watermarks_witness:
  "map_of (snd (snd (run_round id (collecting (\<lambda>_ _ _. (sample_env, sample_answer))) [] (Inr []) ''r1'' ''t'' ''application'' [sample_target]
     150000000 160000000 170000000 (demo_world, [])))) (''t'', ''MT-0001'') = Some 100000000"
proof -
  let ?f = "collecting (\<lambda>_ _ _. (sample_env, sample_answer))"
  obtain r w' wm' where run: "run_round id ?f [] (Inr []) ''r1'' ''t'' ''application'' [sample_target] 150000000 160000000 170000000
      (demo_world, []) = (r, w', wm')" by (metis prod.exhaust)
  obtain ctx' where c: "collect_target sample_env sample_answer sample_target (sample_context []) = (Inr [MetricSignal sample_signal], ctx')"
    using sample_collect by blast
  obtain wm1 rp where f: "?f ''t'' sample_target 150000000 [] = (wm1, rp, Inr [MetricSignal sample_signal])"
    using c by (auto simp: collecting_def)
  have all: "collect_all ?f ''t'' 150000000 [sample_target] [] = ([\<lparr>co_target_id = ''MT-0001'', co_request_params = rp,
      co_outcome = Inr [MetricSignal sample_signal]\<rparr>], wm1)" using f by simp
  from round_watermarks [OF run, of "''t''" "''MT-0001''"] run all
  show ?thesis by (simp add: batch_of_def newest_def sample_signal_def)
qed

end
