(* ===== verification/Apm_Migrations.thy ===== *)
theory Apm_Migrations
  imports Apm_Targets
begin

text \<open>
  \<open>migrations/runner.py\<close>: splitting a script into statements, choosing the scripts that are newer than the database, and
  applying them in one transaction. The database is the list of statements it has executed and the table of applied
  versions; whether it accepts a statement, given those before it, is a parameter.
\<close>

section \<open>\<open>_split_statements\<close>\<close>

text \<open>The two flags of the loop exclude each other, and \<open>in_dollar\<close> is only set when both are off.\<close>

datatype sql_mode = Outside | InSingle | InDouble | InDollar string

definition ident_start :: "char \<Rightarrow> bool" where
  "ident_start c = (let n = (of_char c :: nat) in 65 \<le> n \<and> n \<le> 90 \<or> 97 \<le> n \<and> n \<le> 122 \<or> n = 95)"

definition ident_char :: "char \<Rightarrow> bool" where
  "ident_char c = (ident_start c \<or> is_digit c)"

text \<open>\<open>_DOLLAR_TAG\<close> at the head of a string.\<close>

definition dollar_tag :: "string \<Rightarrow> string option" where
  "dollar_tag s =
     (case s of
        c # r \<Rightarrow>
          if c \<noteq> CHR ''$'' then None
          else let name = (if r \<noteq> [] \<and> ident_start (hd r) then takeWhile ident_char r else []) in
            (case drop (length name) r of d # _ \<Rightarrow> if d = CHR ''$'' then Some (c # name @ [d]) else None | [] \<Rightarrow> None)
      | [] \<Rightarrow> None)"

definition starts_with :: "string \<Rightarrow> string \<Rightarrow> bool" where
  "starts_with p s = (take (length p) s = p)"

definition flush :: "string \<Rightarrow> string list" where
  "flush buf = (let stmt = strip buf in if stmt = [] then [] else [stmt])"

lemma dollar_tag_length: "dollar_tag s = Some tag \<Longrightarrow> 0 < length tag"
  by (auto simp: dollar_tag_def Let_def split: list.splits if_splits)

function scan_sql :: "sql_mode \<Rightarrow> string \<Rightarrow> string \<Rightarrow> string list" where
  "scan_sql m buf [] = flush buf"
| "scan_sql (InDollar tag) buf (c # cs) =
     (if tag \<noteq> [] \<and> starts_with tag (c # cs) then scan_sql Outside (buf @ tag) (drop (length tag) (c # cs))
      else scan_sql (InDollar tag) (buf @ [c]) cs)"
| "scan_sql Outside buf (c # cs) =
     (if starts_with ''--'' (c # cs) then scan_sql Outside buf (dropWhile (\<lambda>x. x \<noteq> CHR 0x0A) (c # cs))
      else if c = CHR 0x27 then scan_sql InSingle (buf @ [c]) cs
      else if c = CHR 0x22 then scan_sql InDouble (buf @ [c]) cs
      else if c = CHR ''$'' then
        (case dollar_tag (c # cs) of
           Some tag \<Rightarrow> scan_sql (InDollar tag) (buf @ tag) (drop (length tag) (c # cs))
         | None \<Rightarrow> scan_sql Outside (buf @ [c]) cs)
      else if c = CHR '';'' then flush buf @ scan_sql Outside [] cs
      else scan_sql Outside (buf @ [c]) cs)"
| "scan_sql InSingle buf (c # cs) = scan_sql (if c = CHR 0x27 then Outside else InSingle) (buf @ [c]) cs"
| "scan_sql InDouble buf (c # cs) = scan_sql (if c = CHR 0x22 then Outside else InDouble) (buf @ [c]) cs"
  by pat_completeness auto
termination
proof (relation "measure (\<lambda>(m, buf, s). length s)", goal_cases)
  case (4 buf c cs)
  then have "c \<noteq> CHR 0x0A" by (auto simp: starts_with_def)
  then show ?case by (simp add: le_imp_less_Suc length_dropWhile_le)
qed (auto dest: dollar_tag_length)

definition split_statements :: "string \<Rightarrow> string list" where
  "split_statements sql = scan_sql Outside [] sql"

section \<open>\<open>migrate\<close>\<close>

record migration_script =
  sc_version :: int
  sc_sql :: string

text \<open>The files the pattern \<open>V*__*.sql\<close> matches, as pairs of stem and content in directory order.\<close>

fun before_underscores :: "string \<Rightarrow> string" where
  "before_underscores (c # d # cs) = (if c = CHR ''_'' \<and> d = CHR ''_'' then [] else c # before_underscores (d # cs))"
| "before_underscores s = s"

definition script_of :: "string \<times> string \<Rightarrow> migration_script res" where
  "script_of = (\<lambda>(stem, sql). case py_int (drop 1 (before_underscores stem)) of
       Some v \<Rightarrow> Inr \<lparr>sc_version = v, sc_sql = sql\<rparr>
     | None \<Rightarrow> Inl (ValueError ''invalid literal for int()''))"

definition load_scripts :: "(string \<times> string) list \<Rightarrow> migration_script list res" where
  "load_scripts files = bind_res (mapM script_of files) (\<lambda>scripts. Inr (sort_key sc_version scripts))"

type_synonym sql = "string \<times> string list"

record migration_db =
  mg_executed :: "sql list"
  mg_versions :: "int list"

type_synonym verdict = "sql list \<Rightarrow> sql \<Rightarrow> error option"

definition execute :: "verdict \<Rightarrow> sql \<Rightarrow> migration_db \<Rightarrow> migration_db res" where
  "execute verdict stmt db =
     (case verdict (mg_executed db) stmt of Some e \<Rightarrow> Inl e | None \<Rightarrow> Inr (db\<lparr>mg_executed := mg_executed db @ [stmt]\<rparr>))"

fun execute_all :: "verdict \<Rightarrow> sql list \<Rightarrow> migration_db \<Rightarrow> migration_db res" where
  "execute_all verdict [] db = Inr db"
| "execute_all verdict (s # ss) db = bind_res (execute verdict s db) (execute_all verdict ss)"

definition setup_statements :: "string \<Rightarrow> string \<Rightarrow> string \<Rightarrow> sql list" where
  "setup_statements schema es_url prom_url =
     [(''CREATE SCHEMA IF NOT EXISTS '' @ schema, []), (''SET search_path TO '' @ schema, []),
      (''SELECT set_config(aiops.testbed_es_url, %s, false)'', [es_url]),
      (''SELECT set_config(aiops.testbed_prom_url, %s, false)'', [prom_url]),
      (''CREATE TABLE IF NOT EXISTS schema_versions'', [])]"

definition current_version :: "migration_db \<Rightarrow> int" where
  "current_version db = (if mg_versions db = [] then 0 else Max (set (mg_versions db)))"

text \<open>\<open>version\<close> is the primary key of the table.\<close>

definition record_version :: "int \<Rightarrow> migration_db \<Rightarrow> migration_db res" where
  "record_version v db = (if v \<in> set (mg_versions db) then Inl (UniqueViolation ''schema_versions'')
     else Inr (db\<lparr>mg_versions := mg_versions db @ [v]\<rparr>))"

definition apply_script :: "verdict \<Rightarrow> migration_script \<Rightarrow> migration_db \<Rightarrow> migration_db res" where
  "apply_script verdict s db =
     bind_res (execute_all verdict (map (\<lambda>stmt. (stmt, [])) (split_statements (sc_sql s))) db) (record_version (sc_version s))"

fun apply_scripts :: "verdict \<Rightarrow> int \<Rightarrow> migration_script list \<Rightarrow> nat \<times> migration_db \<Rightarrow> (nat \<times> migration_db) res" where
  "apply_scripts verdict current [] (applied, db) = Inr (applied, db)"
| "apply_scripts verdict current (s # ss) (applied, db) =
     (if sc_version s \<le> current then apply_scripts verdict current ss (applied, db)
      else bind_res (apply_script verdict s db) (\<lambda>db. apply_scripts verdict current ss (applied + 1, db)))"

text \<open>One transaction: an exception rolls everything back.\<close>

definition migrate ::
  "verdict \<Rightarrow> string \<Rightarrow> string \<Rightarrow> string \<Rightarrow> (string \<times> string) list \<Rightarrow> migration_db \<Rightarrow> nat res \<times> migration_db" where
  "migrate verdict schema es_url prom_url files db0 =
     (case bind_res (execute_all verdict (setup_statements schema es_url prom_url) db0) (\<lambda>db.
             bind_res (load_scripts files) (\<lambda>scripts. apply_scripts verdict (current_version db) scripts (0, db))) of
        Inl e \<Rightarrow> (Inl e, db0)
      | Inr (applied, db) \<Rightarrow> (Inr applied, db))"

section \<open>Splitting\<close>

text \<open>A statement is a sequence of lexical elements; \<open>Comment\<close> includes the line break that ends it.\<close>

datatype sql_token = Char char | Minus char | Param char | Quoted string | Identifier string | Body string string | Comment string

definition plain_char :: "char \<Rightarrow> bool" where
  "plain_char c \<longleftrightarrow> c \<notin> {CHR 0x27, CHR 0x22, CHR ''$'', CHR '';'', CHR ''-''}"

fun token_ok :: "sql_token \<Rightarrow> bool" where
  "token_ok (Char c) \<longleftrightarrow> plain_char c"
| "token_ok (Minus c) \<longleftrightarrow> plain_char c"
| "token_ok (Param c) \<longleftrightarrow> is_digit c"
| "token_ok (Quoted s) \<longleftrightarrow> CHR 0x27 \<notin> set s"
| "token_ok (Identifier s) \<longleftrightarrow> CHR 0x22 \<notin> set s"
| "token_ok (Body name s) \<longleftrightarrow> (name = [] \<or> ident_start (hd name)) \<and> (\<forall>c \<in> set name. ident_char c)
     \<and> (\<forall>i < length s. \<not> starts_with (''$'' @ name @ ''$'') (drop i s @ ''$'' @ name @ ''$''))"
| "token_ok (Comment s) \<longleftrightarrow> CHR 0x0A \<notin> set s"

fun render :: "sql_token \<Rightarrow> string" where
  "render (Char c) = [c]"
| "render (Minus c) = [CHR ''-'', c]"
| "render (Param c) = [CHR ''$'', c]"
| "render (Quoted s) = CHR 0x27 # s @ [CHR 0x27]"
| "render (Identifier s) = CHR 0x22 # s @ [CHR 0x22]"
| "render (Body name s) = ''$'' @ name @ ''$'' @ s @ ''$'' @ name @ ''$''"
| "render (Comment s) = ''--'' @ s @ [CHR 0x0A]"

text \<open>What the database receives: comments are gone, everything else is unchanged.\<close>

fun kept :: "sql_token \<Rightarrow> string" where
  "kept (Comment s) = [CHR 0x0A]"
| "kept t = render t"

lemma scan_single: "CHR 0x27 \<notin> set s \<Longrightarrow> scan_sql InSingle buf (s @ CHR 0x27 # r) = scan_sql Outside (buf @ s @ [CHR 0x27]) r"
  by (induction s arbitrary: buf) auto

lemma scan_double: "CHR 0x22 \<notin> set s \<Longrightarrow> scan_sql InDouble buf (s @ CHR 0x22 # r) = scan_sql Outside (buf @ s @ [CHR 0x22]) r"
  by (induction s arbitrary: buf) auto

lemma starts_with_append: "length p \<le> length s \<Longrightarrow> starts_with p (s @ r) = starts_with p s"
  by (simp add: starts_with_def)

lemma scan_dollar:
  assumes "tag \<noteq> []"
  shows "\<forall>i < length s. \<not> starts_with tag (drop i s @ tag) \<Longrightarrow>
    scan_sql (InDollar tag) buf (s @ tag @ r) = scan_sql Outside (buf @ s @ tag) r"
proof (induction s arbitrary: buf)
  case Nil
  from assms obtain c cs where "tag = c # cs" by (cases tag) auto
  then show ?case by (simp add: starts_with_def)
next
  case (Cons c s)
  have "\<not> starts_with tag ((c # s) @ tag)" using Cons.prems by force
  then have "\<not> starts_with tag (((c # s) @ tag) @ r)" by (subst starts_with_append) auto
  moreover have "\<forall>i < length s. \<not> starts_with tag (drop i s @ tag)" using Cons.prems by auto
  ultimately show ?case using Cons.IH [of "buf @ [c]"] by simp
qed

lemma dollar_tag_name:
  assumes "name = [] \<or> ident_start (hd name)" "\<forall>c \<in> set name. ident_char c"
  shows "dollar_tag (''$'' @ name @ ''$'' @ r) = Some (''$'' @ name @ ''$'')"
proof -
  have d: "\<not> ident_char (CHR ''$'')" "\<not> ident_start (CHR ''$'')" by (simp_all add: ident_char_def ident_start_def is_digit_def)
  have "takeWhile ident_char (name @ CHR ''$'' # r) = name"
    using assms(2) d(1) by (simp add: takeWhile_append2)
  with assms(1) d(2) show ?thesis by (cases name) (auto simp: dollar_tag_def Let_def)
qed

lemma scan_token:
  assumes "token_ok t"
  shows "scan_sql Outside buf (render t @ r) = scan_sql Outside (buf @ kept t) r"
proof (cases t)
  case (Char c)
  with assms show ?thesis by (simp add: plain_char_def starts_with_def)
next
  case (Minus c)
  with assms show ?thesis by (cases r) (simp_all add: plain_char_def starts_with_def)
next
  case (Param c)
  with assms have "dollar_tag (CHR ''$'' # c # r) = None" "plain_char c"
    by (auto simp: dollar_tag_def is_digit_def ident_start_def plain_char_def Let_def)
  with Param show ?thesis by (simp add: plain_char_def starts_with_def)
next
  case (Quoted s)
  with assms show ?thesis by (simp add: scan_single starts_with_def)
next
  case (Identifier s)
  with assms show ?thesis by (simp add: scan_double starts_with_def)
next
  case (Body name s)
  let ?tag = "''$'' @ name @ ''$''"
  from assms Body have n: "name = [] \<or> ident_start (hd name)" "\<forall>c \<in> set name. ident_char c"
    and free: "\<forall>i < length s. \<not> starts_with ?tag (drop i s @ ?tag)" by auto
  have "scan_sql Outside buf (?tag @ s @ ?tag @ r) = scan_sql (InDollar ?tag) (buf @ ?tag) (s @ ?tag @ r)"
    using dollar_tag_name [OF n, of "s @ ?tag @ r"] by (simp add: starts_with_def)
  also have "\<dots> = scan_sql Outside ((buf @ ?tag) @ s @ ?tag) r" by (rule scan_dollar [OF _ free]) simp
  finally show ?thesis by (simp add: Body)
next
  case (Comment s)
  with assms have "CHR 0x0A \<notin> set s" by simp
  then have "dropWhile (\<lambda>x. x \<noteq> CHR 0x0A) (s @ CHR 0x0A # r) = CHR 0x0A # r" by (induction s) auto
  then show ?thesis by (simp add: Comment starts_with_def)
qed

lemma scan_tokens:
  "list_all token_ok ts \<Longrightarrow> scan_sql Outside buf (concat (map render ts) @ r) = scan_sql Outside (buf @ concat (map kept ts)) r"
  by (induction ts arbitrary: buf) (simp_all add: scan_token)

text \<open>C38. A script made of statements that end with a semicolon is split into exactly these statements, comments removed: no
  semicolon inside a string, a quoted identifier, a function body or a comment splits one, and none swallows the next.\<close>

theorem split_statements_exact:
  assumes "list_all (list_all token_ok) stmts"
  shows "split_statements (concat (map (\<lambda>ts. concat (map render ts) @ '';'') stmts))
    = filter (\<lambda>s. s \<noteq> []) (map (\<lambda>ts. strip (concat (map kept ts))) stmts)"
  using assms
proof (induction stmts)
  case (Cons ts stmts)
  then show ?case by (simp add: split_statements_def scan_tokens starts_with_def flush_def Let_def)
qed (simp add: split_statements_def flush_def strip_def)

theorem split_statements_exact_witness:
  "split_statements ''a;--b;'' = [''a''] \<and> split_statements (concat (map (\<lambda>ts. concat (map render ts) @ '';'')
     [[Char (CHR ''a''), Quoted ''x;y''], [Comment '';z'', Body ''f'' ''b;c'']])) = [''a'' @ render (Quoted ''x;y''), render (Body ''f'' ''b;c'')]"
proof
  show "split_statements ''a;--b;'' = [''a'']" by code_simp
  let ?s = "[[Char (CHR ''a''), Quoted ''x;y''], [Comment '';z'', Body ''f'' ''b;c'']]"
  have ok: "token_ok (Char (CHR ''a''))" "token_ok (Quoted ''x;y'')" "token_ok (Comment '';z'')"
    by (simp_all add: plain_char_def)
  have body: "token_ok (Body ''f'' ''b;c'')"
    by code_simp
  have "list_all (list_all token_ok) ?s" using ok body by simp
  from split_statements_exact [OF this]
  show "split_statements (concat (map (\<lambda>ts. concat (map render ts) @ '';'') ?s)) = [''a'' @ render (Quoted ''x;y''), render (Body ''f'' ''b;c'')]"
    by (simp add: strip_def py_space_def)
qed

section \<open>Applying\<close>

definition newer :: "int \<Rightarrow> migration_script list \<Rightarrow> migration_script list" where
  "newer current scripts = filter (\<lambda>s. current < sc_version s) scripts"

definition statements_of :: "migration_script \<Rightarrow> sql list" where
  "statements_of s = map (\<lambda>stmt. (stmt, [])) (split_statements (sc_sql s))"

lemma execute_all_effect:
  "execute_all v ss db = Inr db' \<Longrightarrow> mg_executed db' = mg_executed db @ ss \<and> mg_versions db' = mg_versions db"
proof (induction ss arbitrary: db)
  case (Cons s ss)
  then obtain db1 where "execute v s db = Inr db1" "execute_all v ss db1 = Inr db'" by auto
  with Cons.IH [of db1] show ?case by (auto simp: execute_def split: option.splits)
qed simp

lemma apply_script_effect:
  "apply_script v s db = Inr db' \<Longrightarrow> mg_executed db' = mg_executed db @ statements_of s \<and> mg_versions db' = mg_versions db @ [sc_version s]"
  by (auto simp: apply_script_def record_version_def statements_of_def dest!: execute_all_effect split: if_splits)

lemma apply_scripts_effect:
  "apply_scripts v current ss (n, db) = Inr (n', db') \<Longrightarrow>
     n' = n + length (newer current ss) \<and> mg_versions db' = mg_versions db @ map sc_version (newer current ss)
     \<and> mg_executed db' = mg_executed db @ concat (map statements_of (newer current ss))"
proof (induction ss arbitrary: n db)
  case (Cons s ss)
  show ?case
  proof (cases "sc_version s \<le> current")
    case True
    with Cons show ?thesis by (simp add: newer_def)
  next
    case False
    with Cons.prems obtain db1 where a: "apply_script v s db = Inr db1" "apply_scripts v current ss (n + 1, db1) = Inr (n', db')"
      by auto
    from Cons.IH [OF a(2)] apply_script_effect [OF a(1)] False show ?thesis by (simp add: newer_def)
  qed
qed (simp add: newer_def)

lemma apply_nothing: "newer current ss = [] \<Longrightarrow> apply_scripts v current ss (n, db) = Inr (n, db)"
  by (induction ss) (auto simp: newer_def split: if_splits)

lemma newer_after:
  assumes "mg_versions db' = mg_versions db @ map sc_version (newer (current_version db) ss)"
  shows "newer (current_version db') ss = []"
proof -
  have "sc_version s \<le> current_version db'" if s: "s \<in> set ss" for s
  proof (cases "current_version db < sc_version s")
    case True
    then have "sc_version s \<in> set (mg_versions db')" using s assms by (simp add: newer_def)
    then show ?thesis by (auto simp: current_version_def)
  next
    case False
    have "current_version db \<le> current_version db'" if "mg_versions db \<noteq> []"
      using assms that by (auto simp: current_version_def intro!: Max_mono)
    moreover have "newer (current_version db) ss \<noteq> [] \<Longrightarrow> mg_versions db = [] \<Longrightarrow> 0 \<le> current_version db'"
    proof -
      assume n: "newer (current_version db) ss \<noteq> []" "mg_versions db = []"
      then obtain x where "x \<in> set (newer (current_version db) ss)" by (meson list.set_sel(1))
      then have x: "0 < sc_version x" "sc_version x \<in> set (mg_versions db')"
        using assms n(2) by (auto simp: newer_def current_version_def)
      then have "sc_version x \<le> current_version db'" by (auto simp: current_version_def)
      with x show ?thesis by simp
    qed
    moreover have "current_version db \<le> current_version db'" if "mg_versions db = []" "newer (current_version db) ss = []"
      using assms that by (simp add: current_version_def)
    moreover have "current_version db = 0" if "mg_versions db = []" using that by (simp add: current_version_def)
    ultimately have "current_version db \<le> current_version db'" by fastforce
    with False show ?thesis by simp
  qed
  then show ?thesis by (auto simp: newer_def filter_empty_conv not_less)
qed

text \<open>C39. A successful migration executes exactly the scripts newer than the database, whole and in ascending order of version, and
  records their versions; running it again applies nothing and changes no version.\<close>

theorem migrate_once:
  assumes "migrate v schema es prom files db = (Inr n, db')"
    and "execute_all v (setup_statements schema es prom) db' = Inr db2"
  shows "\<exists>scripts. load_scripts files = Inr scripts \<and> sorted (map sc_version scripts)
    \<and> n = length (newer (current_version db) scripts)
    \<and> mg_versions db' = mg_versions db @ map sc_version (newer (current_version db) scripts)
    \<and> mg_executed db' = mg_executed db @ setup_statements schema es prom @ concat (map statements_of (newer (current_version db) scripts))
    \<and> migrate v schema es prom files db' = (Inr 0, db2) \<and> mg_versions db2 = mg_versions db'"
proof -
  from assms(1) obtain db1 scripts where s: "execute_all v (setup_statements schema es prom) db = Inr db1"
    and l: "load_scripts files = Inr scripts" and a: "apply_scripts v (current_version db1) scripts (0, db1) = Inr (n, db')"
    by (auto simp: migrate_def split: sum.splits)
  have cur: "current_version db1 = current_version db" using execute_all_effect [OF s] by (simp add: current_version_def)
  note e = apply_scripts_effect [OF a] execute_all_effect [OF s]
  have v: "mg_versions db' = mg_versions db @ map sc_version (newer (current_version db) scripts)" using e cur by simp
  have v2: "mg_versions db2 = mg_versions db'" using execute_all_effect [OF assms(2)] by simp
  have "current_version db2 = current_version db'" by (simp add: current_version_def v2)
  then have "newer (current_version db2) scripts = []" using newer_after [OF v] by simp
  then have again: "migrate v schema es prom files db' = (Inr 0, db2)"
    by (simp add: migrate_def assms(2) l apply_nothing)
  have "sorted (map sc_version scripts)" using l by (auto simp: load_scripts_def)
  then show ?thesis using l e cur v v2 again by (intro exI [of _ scripts]) auto
qed

theorem migrate_once_witness:
  "\<exists>db' db2. migrate (\<lambda>_ _. None) ''s'' ''e'' ''p'' [(''V10__b'', ''b''), (''V2__a'', ''a; c'')] \<lparr>mg_executed = [], mg_versions = []\<rparr> = (Inr 2, db')
     \<and> mg_versions db' = [2, 10] \<and> drop 5 (mg_executed db') = [(''a'', []), (''c'', []), (''b'', [])]
     \<and> migrate (\<lambda>_ _. None) ''s'' ''e'' ''p'' [(''V10__b'', ''b''), (''V2__a'', ''a; c'')] db' = (Inr 0, db2)"
proof -
  let ?v = "\<lambda>_ _. None :: error option" and ?f = "[(''V10__b'', ''b''), (''V2__a'', ''a; c'')]" and ?db = "\<lparr>mg_executed = [], mg_versions = []\<rparr>"
  have load: "load_scripts ?f = Inr [\<lparr>sc_version = 2, sc_sql = ''a; c''\<rparr>, \<lparr>sc_version = 10, sc_sql = ''b''\<rparr>]" by code_simp
  have split: "split_statements ''a; c'' = [''a'', ''c'']" "split_statements ''b'' = [''b'']" by code_simp+
  obtain db' where m: "migrate ?v ''s'' ''e'' ''p'' ?f ?db = (Inr 2, db')"
    by (simp add: migrate_def load setup_statements_def execute_def apply_script_def split record_version_def current_version_def)
  obtain db2 where "execute_all ?v (setup_statements ''s'' ''e'' ''p'') db' = Inr db2"
    by (simp add: setup_statements_def execute_def)
  from migrate_once [OF m this] m show ?thesis
    by (auto simp: load newer_def current_version_def statements_of_def split setup_statements_def)
qed

end
