(* ===== verification/Apm_PgRecords.thy ===== *)
theory Apm_PgRecords
  imports Apm_Records
begin

text \<open>
  The rest of \<open>PGRecordStore\<close> (\<open>storage/records.py\<close>): its queries and the named transitions, and how the life cycle of a
  record in the table relates to the one in memory. Rows with equal detection times come back in the order of the table.
\<close>

section \<open>Queries and transitions\<close>

text \<open>\<open>string_to_array(service, ',')\<close>: the empty text has no members.\<close>

definition string_to_array :: "string \<Rightarrow> string list" where
  "string_to_array s = (if s = [] then [] else split_on (CHR '','') s)"

text \<open>A negative \<open>LIMIT\<close> is an error of the database.\<close>

definition pg_rec_list :: "string \<Rightarrow> string option \<Rightarrow> string option \<Rightarrow> string option \<Rightarrow> int \<Rightarrow> records
    \<Rightarrow> problem_row list res" where
  "pg_rec_list tenant_id state service severity limit tbl =
     require_tenant tenant_id
       (if limit < 0 then Inl (OutsideModel ''LIMIT must not be negative'')
        else Inr (take (nat limit) (sort_desc pr_detected_at (filter (\<lambda>r. pr_tenant_id r = tenant_id
          \<and> (case state of None \<Rightarrow> True | Some x \<Rightarrow> pr_state r = x)
          \<and> (case service of None \<Rightarrow> True | Some x \<Rightarrow> x \<in> set (string_to_array (pr_service r)))
          \<and> (case severity of None \<Rightarrow> True | Some x \<Rightarrow> pr_severity r = x)) (map snd tbl)))))"

definition pg_rec_get :: "string \<Rightarrow> string \<Rightarrow> records \<Rightarrow> problem_row option res" where
  "pg_rec_get tenant_id rid tbl = require_tenant tenant_id
     (Inr (map_option snd (find (\<lambda>(k, row). pr_tenant_id row = tenant_id \<and> k = rid) tbl)))"

definition pg_rec_resolve :: "string \<Rightarrow> string \<Rightarrow> string \<Rightarrow> time \<Rightarrow> records \<Rightarrow> records res" where
  "pg_rec_resolve tenant_id rid reason now tbl = pg_set_terminal_state tenant_id rid ''resolved'' reason now tbl"

definition pg_rec_close :: "string \<Rightarrow> string \<Rightarrow> string \<Rightarrow> time \<Rightarrow> records \<Rightarrow> records res" where
  "pg_rec_close tenant_id rid reason now tbl = pg_set_terminal_state tenant_id rid ''closed'' reason now tbl"

definition pg_rec_escalate :: "string \<Rightarrow> string \<Rightarrow> string \<Rightarrow> time \<Rightarrow> records \<Rightarrow> records res" where
  "pg_rec_escalate tenant_id rid reason now tbl = pg_set_terminal_state tenant_id rid ''escalated'' reason now tbl"

definition pg_rec_tenants :: "records \<Rightarrow> string list" where
  "pg_rec_tenants tbl = sort (remdups (map (\<lambda>(rid, row). pr_tenant_id row) tbl))"

section \<open>The queries of the two stores\<close>

lemma owned_find:
  assumes "distinct (map fst rows)"
  shows "map_option snd (find (\<lambda>(k, row). pr_tenant_id row = t \<and> k = rid) rows) = owned_row t rid rows"
  using assms by (induction rows) (auto simp: owned_row_def find_None_iff image_iff split: option.splits)

lemma pg_record_queries:
  assumes "distinct (map fst rows)" "0 \<le> limit" "\<forall>(k, r) \<in> set rows. pr_service r \<noteq> []"
  shows "pg_rec_get t rid rows = rec_get t rid rows" "pg_rec_tenants rows = list_tenants rows"
    "pg_rec_list t state service severity limit rows = rec_list t state service severity limit rows"
proof -
  show "pg_rec_get t rid rows = rec_get t rid rows" by (simp add: pg_rec_get_def rec_get_def owned_find [OF assms(1)])
  show "pg_rec_tenants rows = list_tenants rows"
    by (simp add: pg_rec_tenants_def list_tenants_def sorted_set_def case_prod_unfold comp_def)
  from assms(3) have svc: "pr_service r \<noteq> []" if "r \<in> snd ` set rows" for r using that by auto
  have "filter (\<lambda>r. pr_tenant_id r = t \<and> (case state of None \<Rightarrow> True | Some x \<Rightarrow> pr_state r = x)
          \<and> (case service of None \<Rightarrow> True | Some x \<Rightarrow> x \<in> set (string_to_array (pr_service r)))
          \<and> (case severity of None \<Rightarrow> True | Some x \<Rightarrow> pr_severity r = x)) (map snd rows)
      = (let rs = filter (\<lambda>r. pr_tenant_id r = t) (map snd rows);
            rs = (case state of None \<Rightarrow> rs | Some x \<Rightarrow> filter (\<lambda>r. pr_state r = x) rs);
            rs = (case service of None \<Rightarrow> rs | Some x \<Rightarrow> filter (\<lambda>r. x \<in> set (split_on (CHR '','') (pr_service r))) rs)
        in (case severity of None \<Rightarrow> rs | Some x \<Rightarrow> filter (\<lambda>r. pr_severity r = x) rs))"
    by (cases state; cases service; cases severity) (auto simp: string_to_array_def svc image_iff intro!: filter_cong dest: svc [OF image_eqI [OF refl]])
  then show "pg_rec_list t state service severity limit rows = rec_list t state service severity limit rows"
    using assms(2) by (simp add: pg_rec_list_def rec_list_def slice_to_def Let_def)
qed

section \<open>The life cycle of a record\<close>

text \<open>Everything of a row but the time and the reason of its last transition.\<close>

definition unstamped :: "problem_row \<Rightarrow> problem_row" where
  "unstamped row = row\<lparr>pr_resolved_at := None, pr_resolve_reason := None\<rparr>"

definition unstamp :: "records \<Rightarrow> records" where
  "unstamp rows = map_vals (\<lambda>_. unstamped) rows"

fun is_write :: "rec_op \<Rightarrow> bool" where
  "is_write (RWrite r now) = True"
| "is_write p = False"

lemma map_vals_comp2: "map_vals f (map_vals g d) = map_vals (\<lambda>k v. f k (g k v)) d"
  by (simp add: map_vals_def case_prod_beta comp_def)

lemma map_vals_eq: "(\<And>k v. (k, v) \<in> set d \<Longrightarrow> f k v = g k v) \<Longrightarrow> map_vals f d = map_vals g d"
  by (auto simp: map_vals_def)

lemma unstamped_sels [simp]:
  "pr_tenant_id (unstamped r) = pr_tenant_id r" "pr_state (unstamped r) = pr_state r" "pr_evidence (unstamped r) = pr_evidence r"
  by (simp_all add: unstamped_def)

lemma owned_as_map:
  assumes "distinct (map fst rows)"
  shows "(case owned_row t rid rows of None \<Rightarrow> rows | Some row \<Rightarrow> update_row rid f rows)
     = map_vals (\<lambda>k row. if pr_tenant_id row = t \<and> k = rid then f row else row) rows"
proof (cases "map_of rows rid")
  case None
  then have "map_vals (\<lambda>k row. if pr_tenant_id row = t \<and> k = rid then f row else row) rows = map_vals (\<lambda>k row. row) rows"
    by (intro map_vals_eq) (auto simp: map_of_eq_None_iff image_iff)
  with None show ?thesis by (simp add: owned_row_def map_vals_def)
next
  case (Some row)
  have same: "row' = row" if "(rid, row') \<in> set rows" for row'
    using that Some assms by simp
  show ?thesis
  proof (cases "pr_tenant_id row = t")
    case True
    then show ?thesis using Some same by (auto simp: owned_row_def update_row_def intro!: map_vals_eq)
  next
    case False
    then have "map_vals (\<lambda>k row. if pr_tenant_id row = t \<and> k = rid then f row else row) rows = map_vals (\<lambda>k row. row) rows"
      using same by (intro map_vals_eq) auto
    with False Some show ?thesis by (simp add: owned_row_def map_vals_def)
  qed
qed

text \<open>The effect of an operation on a row, without stamps.\<close>

fun moves :: "rec_op \<Rightarrow> string \<Rightarrow> string \<Rightarrow> problem_row \<Rightarrow> problem_row" where
  "moves (RResolve rid reason now) t k row = (if pr_tenant_id row = t \<and> k = rid then row\<lparr>pr_state := ''resolved''\<rparr> else row)"
| "moves (RClose rid reason now) t k row = (if pr_tenant_id row = t \<and> k = rid then row\<lparr>pr_state := ''closed''\<rparr> else row)"
| "moves (REscalate rid reason now) t k row = (if pr_tenant_id row = t \<and> k = rid then row\<lparr>pr_state := ''escalated''\<rparr> else row)"
| "moves (RInProgress rid run_id wid now) t k row =
     (if pr_tenant_id row = t \<and> k = rid \<and> pr_state row = ''pending''
      then row\<lparr>pr_state := ''in_progress'', pr_evidence := pr_evidence row @ [agent_run_entry run_id wid now]\<rparr> else row)"
| "moves (REvidence rid entry) t k row =
     (if pr_tenant_id row = t \<and> k = rid then row\<lparr>pr_evidence := pr_evidence row @ [entry]\<rparr> else row)"
| "moves (RWrite r now) t k row = row"

lemma moves_fun:
  "moves (RResolve rid reason now) t = (\<lambda>k row. if pr_tenant_id row = t \<and> k = rid then row\<lparr>pr_state := ''resolved''\<rparr> else row)"
  "moves (RClose rid reason now) t = (\<lambda>k row. if pr_tenant_id row = t \<and> k = rid then row\<lparr>pr_state := ''closed''\<rparr> else row)"
  "moves (REscalate rid reason now) t = (\<lambda>k row. if pr_tenant_id row = t \<and> k = rid then row\<lparr>pr_state := ''escalated''\<rparr> else row)"
  by (simp_all add: fun_eq_iff)

lemma terminal_moves:
  assumes "distinct (map fst rows)" "set_terminal_state t rid st reason now rows = Inr rows'"
  shows "unstamp rows' = map_vals (\<lambda>k row. if pr_tenant_id row = t \<and> k = rid then row\<lparr>pr_state := st\<rparr> else row) (unstamp rows)"
proof -
  from assms(2) owned_as_map [OF assms(1), where t = t and rid = rid and f = "\<lambda>row. row\<lparr>pr_state := st, pr_resolved_at := Some now, pr_resolve_reason := Some reason\<rparr>"]
  have "rows' = map_vals (\<lambda>k row. if pr_tenant_id row = t \<and> k = rid
      then row\<lparr>pr_state := st, pr_resolved_at := Some now, pr_resolve_reason := Some reason\<rparr> else row) rows"
    by (simp add: set_terminal_state_def)
  then show ?thesis by (auto simp: unstamp_def map_vals_comp2 unstamped_def intro!: map_vals_eq)
qed

lemma pg_terminal_moves:
  assumes "pg_set_terminal_state t rid st reason now rows = Inr rows'"
  shows "unstamp rows' = map_vals (\<lambda>k row. if pr_tenant_id row = t \<and> k = rid then row\<lparr>pr_state := st\<rparr> else row) (unstamp rows)"
  using assms by (auto simp: pg_set_terminal_state_def unstamp_def map_vals_comp2 unstamped_def intro!: map_vals_eq)

lemma progress_moves:
  assumes "distinct (map fst rows)" "mark_in_progress t rid run_id wid now rows = Inr (b, rows')"
  shows "rows' = map_vals (moves (RInProgress rid run_id wid now) t) rows"
proof -
  let ?f = "\<lambda>row. row\<lparr>pr_state := ''in_progress'', pr_evidence := pr_evidence row @ [agent_run_entry run_id wid now]\<rparr>"
  have "rows' = (case owned_row t rid rows of None \<Rightarrow> rows
      | Some row \<Rightarrow> update_row rid (\<lambda>row. if pr_state row = ''pending'' then ?f row else row) rows)"
  proof (cases "owned_row t rid rows")
    case (Some row)
    then have row: "map_of rows rid = Some row" by (auto simp: owned_row_def split: option.splits if_splits)
    have "update_row rid (\<lambda>row. if pr_state row = ''pending'' then ?f row else row) rows = (if pr_state row = ''pending'' then update_row rid ?f rows else map_vals (\<lambda>k row. row) rows)"
    proof -
      have "v = row" if "(rid, v) \<in> set rows" for v using that row assms(1) by simp
      then show ?thesis by (auto simp: update_row_def intro!: map_vals_eq)
    qed
    with Some assms(2) show ?thesis by (auto simp: mark_in_progress_def map_vals_def split: if_splits)
  qed (use assms(2) in \<open>auto simp: mark_in_progress_def\<close>)
  then show ?thesis unfolding owned_as_map [OF assms(1)] by (auto intro!: map_vals_eq)
qed

lemma evidence_moves:
  assumes "distinct (map fst rows)" "append_evidence t rid entry rows = Inr (b, rows')"
  shows "rows' = map_vals (moves (REvidence rid entry) t) rows"
proof -
  have "rows' = (case owned_row t rid rows of None \<Rightarrow> rows
      | Some row \<Rightarrow> update_row rid (\<lambda>row. row\<lparr>pr_evidence := pr_evidence row @ [entry]\<rparr>) rows)"
    using assms(2) by (auto simp: append_evidence_def split: option.splits)
  then show ?thesis unfolding owned_as_map [OF assms(1)] by (auto intro!: map_vals_eq)
qed

lemma unstamped_moves: "\<not> is_write p \<Longrightarrow> unstamped (moves p t k row) = moves p t k (unstamped row)"
  by (cases p) (simp_all add: unstamped_def)

lemma unstamp_moves:
  "\<not> is_write p \<Longrightarrow> unstamp (map_vals (moves p t) rows) = map_vals (moves p t) (unstamp rows)"
  by (simp add: unstamp_def map_vals_comp2 unstamped_moves)

lemma mem_step_moves:
  assumes "distinct (map fst rows)" "\<not> is_write p" "rec_step sha p t (nxt, rows) = Inr (nxt', rows')"
  shows "unstamp rows' = map_vals (moves p t) (unstamp rows)"
proof (cases p)
  case (RInProgress rid run_id wid now)
  with assms(3) obtain b where "mark_in_progress t rid run_id wid now rows = Inr (b, rows')" by auto
  from progress_moves [OF assms(1) this] RInProgress have "rows' = map_vals (moves p t) rows" by simp
  with assms(2) show ?thesis by (simp add: unstamp_moves)
next
  case (REvidence rid entry)
  with assms(3) obtain b where "append_evidence t rid entry rows = Inr (b, rows')" by auto
  from evidence_moves [OF assms(1) this] REvidence have "rows' = map_vals (moves p t) rows" by simp
  with assms(2) show ?thesis by (simp add: unstamp_moves)
qed (use assms terminal_moves [OF assms(1)] in \<open>auto simp: rec_resolve_def rec_close_def mark_escalated_def moves_fun\<close>)

lemma pg_step_moves:
  assumes "\<not> is_write p" "pg_rec_step sha p t rows = Inr rows'"
  shows "unstamp rows' = map_vals (moves p t) (unstamp rows)"
proof (cases p)
  case (RInProgress rid run_id wid now)
  have "rows' = map_vals (moves p t) rows" using assms(2)
    by (auto simp: RInProgress pg_mark_in_progress_def Let_def intro!: map_vals_eq)
  with assms(1) show ?thesis by (simp add: unstamp_moves)
next
  case (REvidence rid entry)
  have "rows' = map_vals (moves p t) rows" using assms(2)
    by (auto simp: REvidence pg_append_evidence_def Let_def intro!: map_vals_eq)
  with assms(1) show ?thesis by (simp add: unstamp_moves)
qed (use assms pg_terminal_moves in \<open>auto simp: moves_fun\<close>)

lemma no_tenant_fails:
  assumes "\<not> is_write p"
  shows "rec_step sha p [] (nxt, rows) = Inl (ValueError ''tenant_id is required'')"
    and "pg_rec_step sha p [] rows = Inl (ValueError ''tenant_id is required'')"
  using assms by (cases p; simp add: pg_set_terminal_state_def pg_mark_in_progress_def pg_append_evidence_def
      rec_resolve_def rec_close_def mark_escalated_def set_terminal_state_def mark_in_progress_def append_evidence_def)+

lemma pg_step_returns:
  assumes "\<not> is_write p" "t \<noteq> []"
  obtains rows' where "pg_rec_step sha p t rows = Inr rows'"
proof -
  have "\<exists>rows'. pg_rec_step sha p t rows = Inr rows'"
    using assms by (cases p; simp add: pg_set_terminal_state_def pg_mark_in_progress_def pg_append_evidence_def Let_def)
  with that show ?thesis by blast
qed

lemma mem_step_returns:
  assumes "\<not> is_write p" "t \<noteq> []"
  obtains rows' where "rec_step sha p t (nxt, rows) = Inr (nxt, rows')"
proof -
  have "\<exists>rows'. rec_step sha p t (nxt, rows) = Inr (nxt, rows')"
  proof (cases p)
    case (RInProgress rid run_id wid now)
    then show ?thesis using assms by (cases "owned_row t rid rows") (simp_all add: mark_in_progress_def)
  next
    case (REvidence rid entry)
    then show ?thesis using assms by (cases "owned_row t rid rows") (simp_all add: append_evidence_def)
  qed (use assms in \<open>simp_all add: rec_resolve_def rec_close_def mark_escalated_def set_terminal_state_def\<close>)
  with that show ?thesis by blast
qed

lemma unstamp_keys: "map fst (unstamp rows) = map fst rows"
  by (simp add: unstamp_def keys_map_vals)

text \<open>Resolving, closing, escalating, starting and adding evidence have the same effect in the database as in memory: after
  any sequence of them, by any tenants, both stores hold the same rows, up to the time and the reason of a
  transition, which differ where a record enters the state it is already in.\<close>

lemma pg_lifecycle_refines:
  assumes "distinct (map fst rows)" "\<forall>(p, t) \<in> set ops. \<not> is_write p"
  shows "unstamp (run_ops (pg_rec_step sha) ops rows) = unstamp (snd (run_ops (rec_step sha) ops (nxt, rows)))"
proof -
  have "unstamp A = unstamp B \<Longrightarrow> distinct (map fst B) \<Longrightarrow>
      unstamp (run_ops (pg_rec_step sha) ops A) = unstamp (snd (run_ops (rec_step sha) ops (nxt, B)))" for A B
    using assms(2)
  proof (induction ops arbitrary: A B)
    case (Cons x ops)
    obtain p t where x: "x = (p, t)" by (cases x)
    with Cons.prems have p: "\<not> is_write p" by simp
    show ?case
    proof (cases "t = []")
      case True
      with Cons x no_tenant_fails [OF p] show ?thesis by simp
    next
      case False
      obtain A' where "pg_rec_step sha p t A = Inr A'" by (rule pg_step_returns [OF p False])
      moreover obtain B' where "rec_step sha p t (nxt, B) = Inr (nxt, B')" by (rule mem_step_returns [OF p False])
      ultimately have s: "pg_rec_step sha p t A = Inr A'" "rec_step sha p t (nxt, B) = Inr (nxt, B')" .
      from pg_step_moves [OF p s(1)] mem_step_moves [OF Cons.prems(2) p s(2)] Cons.prems(1)
      have e: "unstamp A' = unstamp B'" "unstamp B' = map_vals (moves p t) (unstamp B)" by simp_all
      from arg_cong [OF e(2), of "map fst"] have "map fst B' = map fst B" by (simp add: unstamp_keys keys_map_vals)
      with Cons.IH [OF e(1)] Cons.prems x s show ?thesis by simp
    qed
  qed simp
  from this [OF refl assms(1)] show ?thesis .
qed

text \<open>The stamps do differ: resolving a resolved record keeps time and reason in the database and replaces them in memory.\<close>

lemma repeated_transition_differs:
  assumes "t \<noteq> []" "pr_tenant_id row = t" "pr_state row = ''resolved''"
  shows "pg_rec_resolve t rid reason now [(rid, row)] = Inr [(rid, row)]"
    and "rec_resolve t rid reason now [(rid, row)] = Inr [(rid, row\<lparr>pr_resolved_at := Some now, pr_resolve_reason := Some reason\<rparr>)]"
  using assms by (simp_all add: pg_rec_resolve_def pg_set_terminal_state_def rec_resolve_def set_terminal_state_def
      owned_row_def update_row_def map_vals_def)

end
