(* ===== verification/Apm_PgStores.thy ===== *)
theory Apm_PgStores
  imports Apm_DynConfig
begin

text \<open>
  The PostgreSQL classes of \<open>storage/dynamic_config.py\<close>, \<open>storage/detection_state.py\<close> and
  \<open>storage/watermarks.py\<close>, as the effect of their statements on tables. A table of the dynamic
  configuration is the list of its rows in the order the database returns them, each row a dictionary of its columns,
  with the next value of its identity column. What the database makes of a value bound to a column (a
  time cut to milliseconds, a text too long refused, a null where none is allowed refused) is the parameter \<open>bind\<close>;
  a comparison with null selects nothing.

  The properties relate the tables to the in-memory classes: the same rounds are loaded from both, and the one
  operation where they part, the update with its parameters in the wrong order, is shown to be without effect.
\<close>

section \<open>Statements\<close>

record pg_rows =
  pt_next :: int
  pt_rows :: "pydict list"

type_synonym column_binding = "string \<Rightarrow> pyval \<Rightarrow> pyval res"

definition pg_coerce :: "column_binding \<Rightarrow> (string \<times> pyval) list \<Rightarrow> pydict res" where
  "pg_coerce bind cols = mapM (\<lambda>(c, v). bind_res (bind c v) (\<lambda>w. Inr (c, w))) cols"

definition pg_insert :: "column_binding \<Rightarrow> (string \<times> pyval) list \<Rightarrow> pg_rows \<Rightarrow> (int \<times> pg_rows) res" where
  "pg_insert bind cols tbl = bind_res (pg_coerce bind cols) (\<lambda>row.
     Inr (pt_next tbl, \<lparr>pt_next = pt_next tbl + 1, pt_rows = pt_rows tbl @ [(''id'', PInt (pt_next tbl)) # row]\<rparr>))"

definition pg_matches :: "(string \<times> pyval) list \<Rightarrow> pydict \<Rightarrow> bool" where
  "pg_matches conds row = list_all (\<lambda>(c, v). v \<noteq> PNone \<and> py_get row c = v) conds"

definition pg_select :: "column_binding \<Rightarrow> (string \<times> pyval) list \<Rightarrow> pg_rows \<Rightarrow> pydict list res" where
  "pg_select bind conds tbl = bind_res (pg_coerce bind conds) (\<lambda>cs. Inr (filter (pg_matches cs) (pt_rows tbl)))"

definition pg_delete :: "column_binding \<Rightarrow> (string \<times> pyval) list \<Rightarrow> pg_rows \<Rightarrow> pg_rows res" where
  "pg_delete bind conds tbl = bind_res (pg_coerce bind conds) (\<lambda>cs.
     Inr (tbl\<lparr>pt_rows := filter (\<lambda>r. \<not> pg_matches cs r) (pt_rows tbl)\<rparr>))"

definition pg_update ::
  "column_binding \<Rightarrow> (string \<times> pyval) list \<Rightarrow> (string \<times> pyval) list \<Rightarrow> pg_rows \<Rightarrow> pg_rows res" where
  "pg_update bind assigns conds tbl = bind_res (pg_coerce bind assigns) (\<lambda>as. bind_res (pg_coerce bind conds) (\<lambda>cs.
     Inr (tbl\<lparr>pt_rows := map (\<lambda>r. if pg_matches cs r then fold (\<lambda>(c, v). AList.update c v) as r else r) (pt_rows tbl)\<rparr>)))"

definition project :: "string list \<Rightarrow> pydict \<Rightarrow> pydict" where
  "project cols row = map (\<lambda>c. (c, py_get row c)) cols"

section \<open>\<open>PGDynamicConfigStore\<close>\<close>

definition pg_load_maintenance_windows :: "column_binding \<Rightarrow> string \<Rightarrow> pg_rows \<Rightarrow> pydict list res" where
  "pg_load_maintenance_windows bind tenant_id tbl = require_tenant tenant_id
     (bind_res (pg_select bind [(''tenant_id'', PStr tenant_id)] tbl) (\<lambda>rows.
        Inr (map (project [''service'', ''start_at'', ''end_at'', ''reason'']) rows)))"

definition pg_load_blacklist :: "column_binding \<Rightarrow> string \<Rightarrow> pg_rows \<Rightarrow> pydict list res" where
  "pg_load_blacklist bind tenant_id tbl = require_tenant tenant_id
     (bind_res (pg_select bind [(''tenant_id'', PStr tenant_id)] tbl) (\<lambda>rows.
        Inr (map (project [''domain'', ''service'', ''signal'', ''reason''])
          (filter (\<lambda>r. py_get r ''enabled'' = PInt 1) rows))))"

definition pg_load_fpr :: "string \<Rightarrow> pg_fpr_table \<Rightarrow> (string \<times> fpr_row) list res" where
  "pg_load_fpr tenant_id tbl = require_tenant tenant_id
     (Inr (map (\<lambda>((t, gk), r). (gk, \<lparr>fp_fpr = fl (pf_fpr r), fp_total = pf_total_cnt r\<rparr>))
       (filter (\<lambda>((t, gk), r). t = tenant_id) tbl)))"

definition pg_load_changes :: "column_binding \<Rightarrow> string \<Rightarrow> pg_rows \<Rightarrow> pydict list res" where
  "pg_load_changes bind tenant_id tbl = require_tenant tenant_id
     (bind_res (pg_select bind [(''tenant_id'', PStr tenant_id)] tbl) (\<lambda>rows.
        Inr (map (project [''change_id'', ''service'', ''type'', ''summary'', ''changed_at'']) rows)))"

definition pg_create_maintenance_window ::
  "column_binding \<Rightarrow> string \<Rightarrow> pydict \<Rightarrow> pg_rows \<Rightarrow> (pydict \<times> pg_rows) res" where
  "pg_create_maintenance_window bind tenant_id window tbl = require_tenant tenant_id
     (bind_res (key_index window ''service'') (\<lambda>service.
      bind_res (key_index window ''start_at'') (\<lambda>start_at.
      bind_res (key_index window ''end_at'') (\<lambda>end_at.
      bind_res (pg_insert bind [(''tenant_id'', PStr tenant_id), (''service'', service), (''start_at'', start_at),
          (''end_at'', end_at), (''reason'', py_get window ''reason'')] tbl) (\<lambda>(window_id, tbl').
        Inr ([(''id'', PInt window_id), (''tenant_id'', PStr tenant_id), (''service'', service), (''start_at'', start_at),
              (''end_at'', end_at), (''reason'', py_get window ''reason'')], tbl'))))))"

definition pg_list_maintenance_windows ::
  "column_binding \<Rightarrow> string \<Rightarrow> string option \<Rightarrow> pg_rows \<Rightarrow> pydict list res" where
  "pg_list_maintenance_windows bind tenant_id service tbl = require_tenant tenant_id
     (bind_res (pg_select bind ((''tenant_id'', PStr tenant_id) #
         (case service of None \<Rightarrow> [] | Some s \<Rightarrow> [(''service'', PStr s)])) tbl) (\<lambda>rows.
        Inr (map (project [''id'', ''service'', ''start_at'', ''end_at'', ''reason'']) rows)))"

text \<open>The parameters of the update are bound by position: the text of the statement names the assigned
  columns first, the argument list starts with the tenant and the id.\<close>

definition pg_update_bound ::
  "column_binding \<Rightarrow> string list \<Rightarrow> (string \<times> pyval) list \<Rightarrow> pg_rows \<Rightarrow> pg_rows res" where
  "pg_update_bound bind sets binding tbl =
     (if sets = [] then Inr tbl
      else pg_update bind (take (length sets) binding) (drop (length sets) binding) tbl)"

definition first_row :: "pydict list \<Rightarrow> pydict option" where
  "first_row rows = (case rows of [] \<Rightarrow> None | r # rs \<Rightarrow> Some r)"

definition pg_update_maintenance_window ::
  "column_binding \<Rightarrow> string \<Rightarrow> int \<Rightarrow> pydict \<Rightarrow> pg_rows \<Rightarrow> (pydict option \<times> pg_rows) res" where
  "pg_update_maintenance_window bind tenant_id window_id patch tbl = require_tenant tenant_id
     (bind_res (pg_update_bound bind (patch_columns [''service'', ''start_at'', ''end_at'', ''reason''] patch)
        (pg_update_binding [''service'', ''start_at'', ''end_at'', ''reason''] tenant_id window_id patch) tbl) (\<lambda>tbl'.
      bind_res (pg_select bind [(''tenant_id'', PStr tenant_id), (''id'', PInt window_id)] tbl') (\<lambda>rows.
        Inr (map_option (project [''id'', ''service'', ''start_at'', ''end_at'', ''reason'']) (first_row rows), tbl'))))"

definition pg_delete_maintenance_window :: "column_binding \<Rightarrow> string \<Rightarrow> int \<Rightarrow> pg_rows \<Rightarrow> pg_rows res" where
  "pg_delete_maintenance_window bind tenant_id window_id tbl = require_tenant tenant_id
     (pg_delete bind [(''tenant_id'', PStr tenant_id), (''id'', PInt window_id)] tbl)"

definition enabled_flag :: "pydict \<Rightarrow> pyval" where
  "enabled_flag entry = PInt (if truthy (py_get_or entry ''enabled'' (PBool True)) then 1 else 0)"

definition pg_create_blacklist ::
  "column_binding \<Rightarrow> string \<Rightarrow> pydict \<Rightarrow> pg_rows \<Rightarrow> (pydict \<times> pg_rows) res" where
  "pg_create_blacklist bind tenant_id entry tbl = require_tenant tenant_id
     (bind_res (key_index entry ''service'') (\<lambda>service.
      bind_res (key_index entry ''signal'') (\<lambda>sg.
      bind_res (pg_insert bind [(''tenant_id'', PStr tenant_id),
          (''domain'', py_get_or entry ''domain'' (PStr ''application'')), (''service'', service), (''signal'', sg),
          (''reason'', py_get entry ''reason''), (''enabled'', enabled_flag entry)] tbl) (\<lambda>(entry_id, tbl').
        Inr ([(''id'', PInt entry_id), (''tenant_id'', PStr tenant_id),
              (''domain'', py_get_or entry ''domain'' (PStr ''application'')), (''service'', service), (''signal'', sg),
              (''reason'', py_get entry ''reason''),
              (''enabled'', PBool (truthy (py_get_or entry ''enabled'' (PBool True))))], tbl')))))"

definition blacklist_answer :: "pydict \<Rightarrow> pydict" where
  "blacklist_answer r = project [''id'', ''domain'', ''service'', ''signal'', ''reason''] r
     @ [(''enabled'', PBool (truthy (py_get r ''enabled'')))]"

definition pg_list_blacklist :: "column_binding \<Rightarrow> string \<Rightarrow> pg_rows \<Rightarrow> pydict list res" where
  "pg_list_blacklist bind tenant_id tbl = require_tenant tenant_id
     (bind_res (pg_select bind [(''tenant_id'', PStr tenant_id)] tbl) (\<lambda>rows. Inr (map blacklist_answer rows)))"

definition blacklist_sets :: "pydict \<Rightarrow> string list" where
  "blacklist_sets patch = patch_columns [''domain'', ''service'', ''signal'', ''reason''] patch
     @ (if map_of patch ''enabled'' \<noteq> None then [''enabled''] else [])"

definition blacklist_binding :: "string \<Rightarrow> int \<Rightarrow> pydict \<Rightarrow> (string \<times> pyval) list" where
  "blacklist_binding tenant_id entry_id patch =
     zip (blacklist_sets patch @ [''tenant_id'', ''id''])
       (pg_update_args [''domain'', ''service'', ''signal'', ''reason''] tenant_id entry_id patch
        @ (if map_of patch ''enabled'' \<noteq> None then [PInt (if truthy (py_get patch ''enabled'') then 1 else 0)] else []))"

definition pg_update_blacklist ::
  "column_binding \<Rightarrow> string \<Rightarrow> int \<Rightarrow> pydict \<Rightarrow> pg_rows \<Rightarrow> (pydict option \<times> pg_rows) res" where
  "pg_update_blacklist bind tenant_id entry_id patch tbl = require_tenant tenant_id
     (bind_res (pg_update_bound bind (blacklist_sets patch) (blacklist_binding tenant_id entry_id patch) tbl) (\<lambda>tbl'.
      bind_res (pg_select bind [(''tenant_id'', PStr tenant_id), (''id'', PInt entry_id)] tbl') (\<lambda>rows.
        Inr (map_option blacklist_answer (first_row rows), tbl'))))"

definition pg_delete_blacklist :: "column_binding \<Rightarrow> string \<Rightarrow> int \<Rightarrow> pg_rows \<Rightarrow> pg_rows res" where
  "pg_delete_blacklist bind tenant_id entry_id tbl = require_tenant tenant_id
     (pg_delete bind [(''tenant_id'', PStr tenant_id), (''id'', PInt entry_id)] tbl)"

section \<open>\<open>PGDetectionStateStore\<close> and \<open>PGWatermarkStore\<close>\<close>

text \<open>\<open>state_value\<close> is the record its JSON text encodes; its times travel as ISO texts of full precision.\<close>

definition pg_ds_get :: "string \<Rightarrow> string \<Rightarrow> string \<Rightarrow> det_store \<Rightarrow> det_state option res" where
  "pg_ds_get tenant_id domain key rows = require_tenant tenant_id
     (Inr (map_option snd (find (\<lambda>(pk, row). pk = (tenant_id, domain, key)) rows)))"

definition pg_ds_upsert ::
  "string \<Rightarrow> string \<Rightarrow> string \<Rightarrow> int \<Rightarrow> int \<Rightarrow> time \<Rightarrow> time \<Rightarrow> det_store \<Rightarrow> det_store res" where
  "pg_ds_upsert tenant_id domain key consecutive_rounds miss_rounds first_seen last_seen rows = require_tenant tenant_id
     (let v = \<lparr>st_consecutive_rounds = consecutive_rounds, st_miss_rounds = miss_rounds,
               st_first_seen = first_seen, st_last_seen = last_seen\<rparr> in
      Inr (if (tenant_id, domain, key) \<in> fst ` set rows
           then map_vals (\<lambda>pk row. if pk = (tenant_id, domain, key) then v else row) rows
           else rows @ [((tenant_id, domain, key), v)]))"

definition pg_ds_list_by_domain :: "string \<Rightarrow> string \<Rightarrow> det_store \<Rightarrow> (string \<times> det_state) list res" where
  "pg_ds_list_by_domain tenant_id domain rows = require_tenant tenant_id
     (Inr (fold (\<lambda>((t, d, k), row) out. AList.update k row out)
       (filter (\<lambda>((t, d, k), row). t = tenant_id \<and> d = domain) rows) []))"

text \<open>\<open>ms\<close> is what a \<open>TIMESTAMP(3)\<close> column keeps of a time.\<close>

definition pg_wm_get :: "string \<Rightarrow> string \<Rightarrow> watermarks \<Rightarrow> time option res" where
  "pg_wm_get tenant_id target_id rows = require_tenant tenant_id
     (Inr (map_option snd (find (\<lambda>(pk, ts). pk = (tenant_id, target_id)) rows)))"

definition pg_wm_update :: "(time \<Rightarrow> time) \<Rightarrow> string \<Rightarrow> string \<Rightarrow> time \<Rightarrow> watermarks \<Rightarrow> watermarks res" where
  "pg_wm_update ms tenant_id target_id last_ts rows = require_tenant tenant_id
     (Inr (if (tenant_id, target_id) \<in> fst ` set rows
           then map_vals (\<lambda>pk ts. if pk = (tenant_id, target_id) then ms last_ts else ts) rows
           else rows @ [((tenant_id, target_id), ms last_ts)]))"

section \<open>The detection state is the in-memory one\<close>

lemma upsert_update:
  "distinct (map fst rows) \<Longrightarrow>
   (if k \<in> fst ` set rows then map_vals (\<lambda>pk row. if pk = k then v else row) rows else rows @ [(k, v)]) = AList.update k v rows"
proof (induction rows)
  case (Cons x rows)
  obtain k' v' where x: "x = (k', v')" by (cases x)
  have same: "k \<notin> fst ` set rows \<Longrightarrow> map_vals (\<lambda>pk row. if pk = k then v else row) rows = rows"
    by (induction rows) (auto simp: map_vals_def)
  with Cons x show ?case by (cases "k' = k") (auto simp: map_vals_def split: if_splits)
qed (simp add: map_vals_def)

lemma find_map_of: "map_option snd (find (\<lambda>(pk, row). pk = k) rows) = map_of rows k"
  by (induction rows) auto

lemma fold_update_append:
  "distinct (map fst (out @ xs)) \<Longrightarrow> fold (\<lambda>(k, v). AList.update k v) xs out = out @ xs"
proof (induction xs arbitrary: out)
  case (Cons x xs)
  obtain k v where x: "x = (k, v)" by (cases x)
  have "AList.update k v out = out @ [(k, v)]"
    using Cons.prems x by (induction out) (auto simp: image_iff)
  with Cons x show ?case by auto
qed simp

fun pg_ds_step :: "ds_op \<Rightarrow> string \<Rightarrow> det_store \<Rightarrow> det_store res" where
  "pg_ds_step (DsUpsert d k c m f l) t rows = pg_ds_upsert t d k c m f l rows"
| "pg_ds_step (DsSweep d seen) t rows = pg_ds_sweep t d seen rows"

lemma pg_ds_step_same: "distinct (map fst rows) \<Longrightarrow> pg_ds_step p t rows = ds_step p t rows"
  by (cases p) (simp_all add: pg_sweep_refines pg_ds_upsert_def ds_upsert_def Let_def upsert_update)

lemma map_vals_keys [simp]: "map fst (map_vals f d) = map fst d"
  by (induction d) (auto simp: map_vals_def)

lemma ds_step_distinct: "distinct (map fst rows) \<Longrightarrow> ds_step p t rows = Inr rows' \<Longrightarrow> distinct (map fst rows')"
  by (cases p) (auto simp: ds_upsert_def ds_sweep_def distinct_update)

lemma pg_ds_runs: "distinct (map fst rows) \<Longrightarrow>
    run_ops pg_ds_step ops rows = run_ops ds_step ops rows \<and> distinct (map fst (run_ops ds_step ops rows))"
  by (induction ops arbitrary: rows) (auto simp: pg_ds_step_same ds_step_distinct split: sum.split)

lemma pg_ds_reads:
  assumes "distinct (map fst rows)"
  shows "pg_ds_get t d k rows = ds_get t d k rows" "pg_ds_list_by_domain t d rows = ds_list_by_domain t d rows"
proof -
  show "pg_ds_get t d k rows = ds_get t d k rows" by (simp add: pg_ds_get_def ds_get_def find_map_of)
  let ?xs = "filter (\<lambda>((t', d', k), row). t' = t \<and> d' = d) rows"
  have "fold (\<lambda>((t', d', k), row) out. AList.update k row out) xs out
      = fold (\<lambda>(k, v). AList.update k v) (map (\<lambda>((t', d', k), row). (k, row)) xs) out" for xs :: det_store and out
    by (induction xs arbitrary: out) auto
  moreover have "distinct (map fst (map (\<lambda>((t', d', k), row). (k, row)) ?xs))"
    using assms by (induction rows) (auto simp: image_iff)
  ultimately show "pg_ds_list_by_domain t d rows = ds_list_by_domain t d rows"
    by (simp add: pg_ds_list_by_domain_def ds_list_by_domain_def fold_update_append [of "[]", simplified])
qed

text \<open>The detection state in the database is the detection state in memory: after any interleaving of
  tenants' updates and sweeps, failing calls included, both hold the same counters, and reading a key or listing a domain
  gives the same answer from both.\<close>

theorem pg_detection_state_refines:
  "run_ops pg_ds_step ops [] = run_ops ds_step ops []
   \<and> pg_ds_get t d k (run_ops pg_ds_step ops []) = ds_get t d k (run_ops ds_step ops [])
   \<and> pg_ds_list_by_domain t d (run_ops pg_ds_step ops []) = ds_list_by_domain t d (run_ops ds_step ops [])"
  using pg_ds_runs [of "[]" ops] pg_ds_reads [of "run_ops ds_step ops []" t d] by simp

section \<open>Watermarks\<close>

lemma map_vals_update: "map_vals (\<lambda>_. f) (AList.update k v d) = AList.update k (f v) (map_vals (\<lambda>_. f) d)"
  by (induction d) (auto simp: map_vals_def)

lemma pg_wm_runs:
  "distinct (map fst rows) \<Longrightarrow>
   run_ops (\<lambda>(x, ts) t rows. pg_wm_update ms t x ts rows) ops (map_vals (\<lambda>_. ms) rows)
     = map_vals (\<lambda>_. ms) (run_ops (\<lambda>(x, ts) t rows. wm_update t x ts rows) ops rows)"
proof (induction ops arbitrary: rows)
  case (Cons op ops)
  obtain x ts t where o: "op = ((x, ts), t)" by (metis prod.exhaust)
  show ?case
  proof (cases "t = []")
    case True
    with Cons o show ?thesis by (simp add: pg_wm_update_def wm_update_def)
  next
    case False
    with Cons.prems have "pg_wm_update ms t x ts (map_vals (\<lambda>_. ms) rows) = Inr (map_vals (\<lambda>_. ms) (AList.update (t, x) ts rows))"
      by (simp add: pg_wm_update_def upsert_update map_vals_update)
    with Cons o False show ?thesis by (simp add: wm_update_def distinct_update)
  qed
qed (simp add: map_vals_def)

text \<open>A watermark read from the database is the watermark the in-memory store would give, cut to what its
  column keeps.\<close>

lemma pg_watermarks_refine:
  "pg_wm_get t x (run_ops (\<lambda>(x, ts) t rows. pg_wm_update ms t x ts rows) ops [])
   = bind_res (wm_get t x (run_ops (\<lambda>(x, ts) t rows. wm_update t x ts rows) ops [])) (\<lambda>w. Inr (map_option ms w))"
proof -
  have "run_ops (\<lambda>(x, ts) t rows. pg_wm_update ms t x ts rows) ops []
     = map_vals (\<lambda>_. ms) (run_ops (\<lambda>(x, ts) t rows. wm_update t x ts rows) ops [])"
    using pg_wm_runs [of "[]" ms ops] by (simp add: map_vals_def)
  then show ?thesis
    by (cases "t = []") (simp_all add: pg_wm_get_def wm_get_def find_map_of map_of_map_vals)
qed

section \<open>What administrators enter is what a round loads\<close>

datatype cfg_entry = NewWindow pydict | NewBlack pydict

record pg_config =
  pc_windows :: pg_rows
  pc_blacklist :: pg_rows

fun enter :: "string \<times> cfg_entry \<Rightarrow> dyn_config \<Rightarrow> dyn_config res" where
  "enter (t, NewWindow w) dc = bind_res (create_maintenance_window t w dc) (\<lambda>(_, dc'). Inr dc')"
| "enter (t, NewBlack e) dc = bind_res (create_blacklist t e dc) (\<lambda>(_, dc'). Inr dc')"

fun pg_enter :: "column_binding \<Rightarrow> string \<times> cfg_entry \<Rightarrow> pg_config \<Rightarrow> pg_config res" where
  "pg_enter bind (t, NewWindow w) db =
     bind_res (pg_create_maintenance_window bind t w (pc_windows db)) (\<lambda>(_, tbl). Inr (db\<lparr>pc_windows := tbl\<rparr>))"
| "pg_enter bind (t, NewBlack e) db =
     bind_res (pg_create_blacklist bind t e (pc_blacklist db)) (\<lambda>(_, tbl). Inr (db\<lparr>pc_blacklist := tbl\<rparr>))"

fun enter_all :: "('a \<Rightarrow> 's \<Rightarrow> 's res) \<Rightarrow> 'a list \<Rightarrow> 's \<Rightarrow> 's res" where
  "enter_all step [] s = Inr s"
| "enter_all step (x # xs) s = bind_res (step x s) (enter_all step xs)"

definition empty_dyn :: dyn_config where
  "empty_dyn = \<lparr>dy_maintenance_windows = [], dy_blacklist = [], dy_fpr = [], dy_changes = []\<rparr>"

definition empty_pg :: pg_config where
  "empty_pg = \<lparr>pc_windows = \<lparr>pt_next = 1, pt_rows = []\<rparr>, pc_blacklist = \<lparr>pt_next = 1, pt_rows = []\<rparr>\<rparr>"

text \<open>A row of the table holds what the database makes of the row in memory; the ids differ, those of a
  table run on over all tenants.\<close>

definition mirrored :: "column_binding \<Rightarrow> string list \<Rightarrow> pydict \<Rightarrow> pydict \<Rightarrow> bool" where
  "mirrored bind cols m p \<longleftrightarrow> (\<exists>i. row_id m = Inr i) \<and> pg_coerce bind (project cols m) = Inr (project cols p)"

definition of_tenant :: "string \<Rightarrow> pg_rows \<Rightarrow> pydict list" where
  "of_tenant t tbl = filter (\<lambda>r. py_get r ''tenant_id'' = PStr t) (pt_rows tbl)"

definition window_sim :: "column_binding \<Rightarrow> dyn_config \<Rightarrow> pg_rows \<Rightarrow> bool" where
  "window_sim bind dc tbl \<longleftrightarrow> (\<forall>t. list_all2 (mirrored bind [''service'', ''start_at'', ''end_at'', ''reason''])
     (tenant_rows (dy_maintenance_windows dc) t) (of_tenant t tbl))"

definition black_sim :: "column_binding \<Rightarrow> dyn_config \<Rightarrow> pg_rows \<Rightarrow> bool" where
  "black_sim bind dc tbl \<longleftrightarrow> (\<forall>t. list_all2 (\<lambda>m p. mirrored bind [''domain'', ''service'', ''signal'', ''reason''] m p
       \<and> (py_get p ''enabled'' = PInt 1 \<longleftrightarrow> truthy (py_get_or m ''enabled'' (PBool True))))
     (tenant_rows (dy_blacklist dc) t) (of_tenant t tbl))"

lemma next_row_id_ok:
  assumes "list_all2 R ms ps" and "\<And>m p. R m p \<Longrightarrow> \<exists>i. row_id m = Inr i"
  shows "\<exists>i. next_row_id ms = Inr i"
proof -
  from assms(1) have "\<exists>ids. mapM row_id ms = Inr ids"
    by (induction ms ps rule: list_all2_induct) (use assms(2) in force)+
  then show ?thesis by (auto simp: next_row_id_def)
qed

lemma of_tenant_append: "of_tenant t \<lparr>pt_next = n, pt_rows = rs @ [r]\<rparr>
    = of_tenant t \<lparr>pt_next = m, pt_rows = rs\<rparr> @ (if py_get r ''tenant_id'' = PStr t then [r] else [])"
  by (simp add: of_tenant_def)

lemma of_tenant_rows: "of_tenant t \<lparr>pt_next = n, pt_rows = pt_rows tbl\<rparr> = of_tenant t tbl"
  by (simp add: of_tenant_def)

text \<open>What the columns of the tenant and of the switch keep: a text or a number they accept is stored as it is.\<close>

definition faithful_columns :: "column_binding \<Rightarrow> bool" where
  "faithful_columns bind \<longleftrightarrow> (\<forall>t v. bind ''tenant_id'' (PStr t) = Inr v \<longrightarrow> v = PStr t)
     \<and> (\<forall>b v. bind ''enabled'' (PInt b) = Inr v \<longrightarrow> v = PInt b)"

lemma window_step:
  assumes "faithful_columns bind" and "window_sim bind dc tbl" and "pg_create_maintenance_window bind t w tbl = Inr (ans, tbl')"
  shows "\<exists>row dc'. create_maintenance_window t w dc = Inr (row, dc') \<and> window_sim bind dc' tbl'
    \<and> dy_blacklist dc' = dy_blacklist dc"
proof -
  let ?cols = "[''service'', ''start_at'', ''end_at'', ''reason'']"
  from assms(3) obtain service start_at end_at t' a b c r where t: "t \<noteq> []"
    and w: "key_index w ''service'' = Inr service" "key_index w ''start_at'' = Inr start_at" "key_index w ''end_at'' = Inr end_at"
    and b: "bind ''tenant_id'' (PStr t) = Inr t'" "bind ''service'' service = Inr a" "bind ''start_at'' start_at = Inr b"
      "bind ''end_at'' end_at = Inr c" "bind ''reason'' (py_get w ''reason'') = Inr r"
    and tbl': "tbl' = \<lparr>pt_next = pt_next tbl + 1, pt_rows = pt_rows tbl @
      [[(''id'', PInt (pt_next tbl)), (''tenant_id'', t'), (''service'', a), (''start_at'', b), (''end_at'', c), (''reason'', r)]]\<rparr>"
    by (auto simp: pg_create_maintenance_window_def pg_insert_def pg_coerce_def)
  from assms(1) b(1) have t': "t' = PStr t" by (simp add: faithful_columns_def)
  have "list_all2 (mirrored bind ?cols) (tenant_rows (dy_maintenance_windows dc) t) (of_tenant t tbl)"
    using assms(2) by (simp add: window_sim_def)
  then obtain i where i: "next_row_id (tenant_rows (dy_maintenance_windows dc) t) = Inr i"
    using next_row_id_ok [of "mirrored bind ?cols"] by (fastforce simp: mirrored_def)
  let ?row = "[(''id'', PInt i), (''tenant_id'', PStr t), (''service'', service), (''start_at'', start_at),
      (''end_at'', end_at), (''reason'', py_get w ''reason'')]"
  let ?p = "[(''id'', PInt (pt_next tbl)), (''tenant_id'', PStr t), (''service'', a), (''start_at'', b), (''end_at'', c), (''reason'', r)]"
  let ?dc = "dc\<lparr>dy_maintenance_windows := AList.update t (tenant_rows (dy_maintenance_windows dc) t @ [?row]) (dy_maintenance_windows dc)\<rparr>"
  have "create_maintenance_window t w dc = Inr (?row, ?dc)"
    using t w i by (simp add: create_maintenance_window_def Let_def)
  moreover have "mirrored bind ?cols ?row ?p"
    using b by (simp add: mirrored_def project_def pg_coerce_def py_get_def [of "_ # _"] row_id_def key_index_def)
  then have "window_sim bind ?dc tbl'"
    using assms(2) unfolding window_sim_def tbl' t' of_tenant_append [where m = "pt_next tbl"]
    by (auto simp: of_tenant_rows py_get_def [of "_ # _"] intro!: list_all2_appendI)
  ultimately show ?thesis by fastforce
qed

lemma black_step:
  assumes "faithful_columns bind" and "black_sim bind dc tbl" and "pg_create_blacklist bind t e tbl = Inr (ans, tbl')"
  shows "\<exists>row dc'. create_blacklist t e dc = Inr (row, dc') \<and> black_sim bind dc' tbl'
    \<and> dy_maintenance_windows dc' = dy_maintenance_windows dc"
proof -
  let ?cols = "[''domain'', ''service'', ''signal'', ''reason'']"
  let ?en = "truthy (py_get_or e ''enabled'' (PBool True))"
  let ?dom = "py_get_or e ''domain'' (PStr ''application'')"
  from assms(3) obtain service sg t' d a g r f where t: "t \<noteq> []"
    and e: "key_index e ''service'' = Inr service" "key_index e ''signal'' = Inr sg"
    and b: "bind ''tenant_id'' (PStr t) = Inr t'" "bind ''domain'' ?dom = Inr d" "bind ''service'' service = Inr a"
      "bind ''signal'' sg = Inr g" "bind ''reason'' (py_get e ''reason'') = Inr r"
      "bind ''enabled'' (PInt (if ?en then 1 else 0)) = Inr f"
    and tbl': "tbl' = \<lparr>pt_next = pt_next tbl + 1, pt_rows = pt_rows tbl @
      [[(''id'', PInt (pt_next tbl)), (''tenant_id'', t'), (''domain'', d), (''service'', a), (''signal'', g), (''reason'', r), (''enabled'', f)]]\<rparr>"
    by (auto simp: pg_create_blacklist_def pg_insert_def pg_coerce_def enabled_flag_def)
  from assms(1) b(1) have t': "t' = PStr t" by (simp add: faithful_columns_def)
  from assms(1) b(6) have f: "f = PInt (if ?en then 1 else 0)" unfolding faithful_columns_def by blast
  let ?R = "\<lambda>m p. mirrored bind ?cols m p \<and> (py_get p ''enabled'' = PInt 1 \<longleftrightarrow> truthy (py_get_or m ''enabled'' (PBool True)))"
  have "list_all2 ?R
      (tenant_rows (dy_blacklist dc) t) (of_tenant t tbl)"
    using assms(2) by (simp add: black_sim_def)
  then obtain i where i: "next_row_id (tenant_rows (dy_blacklist dc) t) = Inr i"
    using next_row_id_ok [of ?R] unfolding mirrored_def by meson
  let ?row = "[(''id'', PInt i), (''tenant_id'', PStr t), (''domain'', ?dom), (''service'', service), (''signal'', sg),
      (''reason'', py_get e ''reason''), (''enabled'', PBool ?en)]"
  let ?p = "[(''id'', PInt (pt_next tbl)), (''tenant_id'', PStr t), (''domain'', d), (''service'', a), (''signal'', g), (''reason'', r), (''enabled'', f)]"
  let ?dc = "dc\<lparr>dy_blacklist := AList.update t (tenant_rows (dy_blacklist dc) t @ [?row]) (dy_blacklist dc)\<rparr>"
  have "create_blacklist t e dc = Inr (?row, ?dc)"
    using t e i by (simp add: create_blacklist_def Let_def)
  moreover have "mirrored bind ?cols ?row ?p"
    using b by (simp add: mirrored_def project_def pg_coerce_def py_get_def [of "_ # _"] row_id_def key_index_def)
  moreover have "py_get ?p ''enabled'' = PInt 1 \<longleftrightarrow> truthy (py_get_or ?row ''enabled'' (PBool True))"
    by (simp add: f py_get_def py_get_or_def)
  ultimately have "black_sim bind ?dc tbl'" "create_blacklist t e dc = Inr (?row, ?dc)"
    using assms(2) unfolding black_sim_def tbl' t' of_tenant_append [where m = "pt_next tbl"]
    by (auto simp: of_tenant_rows py_get_def [of "_ # _"] simp del: truthy.simps intro!: list_all2_appendI)
  then show ?thesis by fastforce
qed

lemma entered:
  "faithful_columns bind \<Longrightarrow> window_sim bind dc (pc_windows db) \<Longrightarrow> black_sim bind dc (pc_blacklist db) \<Longrightarrow>
   enter_all (pg_enter bind) xs db = Inr db' \<Longrightarrow>
   \<exists>dc'. enter_all enter xs dc = Inr dc' \<and> window_sim bind dc' (pc_windows db') \<and> black_sim bind dc' (pc_blacklist db')"
proof (induction xs arbitrary: dc db)
  case (Cons x xs)
  obtain t y where x: "x = (t, y)" by (cases x)
  show ?case
  proof (cases y)
    case (NewWindow w)
    with Cons.prems x obtain ans tbl where p: "pg_create_maintenance_window bind t w (pc_windows db) = Inr (ans, tbl)"
      and r: "enter_all (pg_enter bind) xs (db\<lparr>pc_windows := tbl\<rparr>) = Inr db'" by auto
    from window_step [OF Cons.prems(1,2) p] obtain row dc' where c: "create_maintenance_window t w dc = Inr (row, dc')"
      "window_sim bind dc' tbl" "dy_blacklist dc' = dy_blacklist dc" by blast
    then have "black_sim bind dc' (pc_blacklist db)" using Cons.prems(3) by (simp add: black_sim_def)
    with Cons.IH [OF Cons.prems(1) _ _ r, of dc'] c x NewWindow show ?thesis by simp
  next
    case (NewBlack e)
    with Cons.prems x obtain ans tbl where p: "pg_create_blacklist bind t e (pc_blacklist db) = Inr (ans, tbl)"
      and r: "enter_all (pg_enter bind) xs (db\<lparr>pc_blacklist := tbl\<rparr>) = Inr db'" by auto
    from black_step [OF Cons.prems(1,3) p] obtain row dc' where c: "create_blacklist t e dc = Inr (row, dc')"
      "black_sim bind dc' tbl" "dy_maintenance_windows dc' = dy_maintenance_windows dc" by blast
    then have "window_sim bind dc' (pc_windows db)" using Cons.prems(2) by (simp add: window_sim_def)
    with Cons.IH [OF Cons.prems(1) _ _ r, of dc'] c x NewBlack show ?thesis by simp
  qed
qed auto

lemma tenant_filter:
  assumes "bind ''tenant_id'' (PStr t) = Inr (PStr t)"
  shows "pg_select bind [(''tenant_id'', PStr t)] tbl = Inr (of_tenant t tbl)"
  using assms by (auto simp: pg_select_def pg_coerce_def pg_matches_def of_tenant_def intro!: filter_cong)

lemma mapM_mirrored:
  "list_all2 (mirrored bind cols) ms ps \<Longrightarrow> mapM (\<lambda>m. pg_coerce bind (project cols m)) ms = Inr (map (project cols) ps)"
  by (induction ms ps rule: list_all2_induct) (simp_all add: mirrored_def)

lemma mirrored_filter:
  "list_all2 (\<lambda>m p. mirrored bind cols m p \<and> (P p \<longleftrightarrow> Q m)) ms ps \<Longrightarrow> list_all2 (mirrored bind cols) (filter Q ms) (filter P ps)"
  by (induction ms ps rule: list_all2_induct) auto

text \<open>C30. What administrators enter is what a round loads, from either store: after any sequence of new maintenance
  windows and blacklist entries of any tenants that the database accepts, the in-memory store accepts it too, and a
  round of a tenant loads from the database exactly the rows it would load from memory, column by column what
  the database keeps of them, and with the same entries switched off.\<close>

theorem pg_config_refines:
  assumes "faithful_columns bind" and "enter_all (pg_enter bind) xs empty_pg = Inr db"
    and "t \<noteq> []" and "bind ''tenant_id'' (PStr t) = Inr (PStr t)"
  shows "\<exists>dc ws bs. enter_all enter xs empty_dyn = Inr dc
    \<and> load_maintenance_windows t dc = Inr ws \<and> load_blacklist t dc = Inr bs
    \<and> pg_load_maintenance_windows bind t (pc_windows db)
        = mapM (\<lambda>m. pg_coerce bind (project [''service'', ''start_at'', ''end_at'', ''reason''] m)) ws
    \<and> pg_load_blacklist bind t (pc_blacklist db)
        = mapM (\<lambda>m. pg_coerce bind (project [''domain'', ''service'', ''signal'', ''reason''] m)) bs"
proof -
  have "window_sim bind empty_dyn (pc_windows empty_pg)" "black_sim bind empty_dyn (pc_blacklist empty_pg)"
    by (simp_all add: window_sim_def black_sim_def empty_dyn_def empty_pg_def tenant_rows_def of_tenant_def)
  from entered [OF assms(1) this assms(2)] obtain dc where dc: "enter_all enter xs empty_dyn = Inr dc"
    and w: "window_sim bind dc (pc_windows db)" and b: "black_sim bind dc (pc_blacklist db)" by blast
  let ?Q = "\<lambda>r. truthy (py_get_or r ''enabled'' (PBool True))"
  let ?P = "\<lambda>r. py_get r ''enabled'' = PInt 1"
  from w have "mapM (\<lambda>m. pg_coerce bind (project [''service'', ''start_at'', ''end_at'', ''reason''] m)) (tenant_rows (dy_maintenance_windows dc) t)
      = Inr (map (project [''service'', ''start_at'', ''end_at'', ''reason'']) (of_tenant t (pc_windows db)))"
    unfolding window_sim_def by (blast intro: mapM_mirrored)
  moreover from b have "mapM (\<lambda>m. pg_coerce bind (project [''domain'', ''service'', ''signal'', ''reason''] m)) (filter ?Q (tenant_rows (dy_blacklist dc) t))
      = Inr (map (project [''domain'', ''service'', ''signal'', ''reason'']) (filter ?P (of_tenant t (pc_blacklist db))))"
    unfolding black_sim_def by (blast intro: mapM_mirrored mirrored_filter)
  ultimately show ?thesis using dc assms(3,4)
    by (simp add: load_maintenance_windows_def load_blacklist_def pg_load_maintenance_windows_def
        pg_load_blacklist_def tenant_filter)
qed

text \<open>Two tenants, a window and two entries one of which is switched off, in a database that keeps milliseconds.\<close>

definition keep_ms :: column_binding where
  "keep_ms c v = (case v of PTime x \<Rightarrow> Inr (PTime (x div 1000 * 1000)) | _ \<Rightarrow> Inr v)"

definition sample_entries :: "(string \<times> cfg_entry) list" where
  "sample_entries =
     [(''u'', NewBlack [(''service'', PStr ''api''), (''signal'', PStr ''WARN'')]),
      (''t'', NewWindow [(''service'', PStr ''api''), (''start_at'', PTime 1234), (''end_at'', PTime 9000)]),
      (''t'', NewBlack [(''service'', PStr ''api''), (''signal'', PStr ''INFO''), (''enabled'', PBool False)]),
      (''t'', NewBlack [(''service'', PStr ''api''), (''signal'', PStr ''ERROR'')])]"

lemma sample_entered: "case enter_all (pg_enter keep_ms) sample_entries empty_pg of Inl e \<Rightarrow> False
  | Inr db \<Rightarrow> pg_load_maintenance_windows keep_ms ''t'' (pc_windows db)
      = Inr [[(''service'', PStr ''api''), (''start_at'', PTime 1000), (''end_at'', PTime 9000), (''reason'', PNone)]]"
  by code_simp

theorem pg_config_refines_witness:
  "\<exists>db dc ws. enter_all (pg_enter keep_ms) sample_entries empty_pg = Inr db \<and> enter_all enter sample_entries empty_dyn = Inr dc
    \<and> load_maintenance_windows ''t'' dc = Inr ws
    \<and> mapM (\<lambda>m. pg_coerce keep_ms (project [''service'', ''start_at'', ''end_at'', ''reason''] m)) ws
      = Inr [[(''service'', PStr ''api''), (''start_at'', PTime 1000), (''end_at'', PTime 9000), (''reason'', PNone)]]"
proof -
  obtain db where db: "enter_all (pg_enter keep_ms) sample_entries empty_pg = Inr db"
    "pg_load_maintenance_windows keep_ms ''t'' (pc_windows db)
      = Inr [[(''service'', PStr ''api''), (''start_at'', PTime 1000), (''end_at'', PTime 9000), (''reason'', PNone)]]"
    using sample_entered by (auto split: sum.splits)
  have "faithful_columns keep_ms" by (simp add: faithful_columns_def keep_ms_def)
  from pg_config_refines [OF this db(1), of "''t''"] db show ?thesis by (force simp: keep_ms_def)
qed

section \<open>An update that changes nothing\<close>

lemma pg_update_single:
  assumes "k \<in> {''service'', ''start_at'', ''end_at'', ''reason''}"
  shows "patch_columns [''service'', ''start_at'', ''end_at'', ''reason''] [(k, v)] = [k]"
    and "pg_update_binding [''service'', ''start_at'', ''end_at'', ''reason''] tenant_id rid [(k, v)]
      = [(k, PStr tenant_id), (''tenant_id'', PInt rid), (''id'', v)]"
  using assms by (auto simp: patch_columns_def pg_update_binding_def pg_update_placeholders_def pg_update_args_def py_get_def)

lemma filter_map_id: "(\<And>r. P r \<Longrightarrow> f r = r) \<Longrightarrow> (\<And>r. \<not> P r \<Longrightarrow> \<not> P (f r)) \<Longrightarrow> filter P (map f rs) = filter P rs"
  by (induction rs) auto

text \<open>A change of one field of a maintenance window never reaches the database: its parameters are bound in
  the wrong order, so the statement looks for a tenant whose name is the number of the window. Unless the database refuses
  the comparison, no row of the tenant changes and the answer is the old row.\<close>

theorem pg_window_update_lost:
  assumes "k \<in> {''service'', ''start_at'', ''end_at'', ''reason''}"
    and "bind ''tenant_id'' (PInt window_id) \<noteq> Inr (PStr tenant_id)"
    and "pg_update_maintenance_window bind tenant_id window_id [(k, v)] tbl = Inr (ans, tbl')"
  shows "of_tenant tenant_id tbl' = of_tenant tenant_id tbl
    \<and> pg_update_maintenance_window bind tenant_id window_id [] tbl' = Inr (ans, tbl')"
proof -
  let ?cols = "[''id'', ''service'', ''start_at'', ''end_at'', ''reason'']"
  let ?sel = "pg_select bind [(''tenant_id'', PStr tenant_id), (''id'', PInt window_id)]"
  from assms(1,3) obtain rows where t: "tenant_id \<noteq> []"
    and u: "pg_update bind [(k, PStr tenant_id)] [(''tenant_id'', PInt window_id), (''id'', v)] tbl = Inr tbl'"
    and s: "?sel tbl' = Inr rows" "ans = map_option (project ?cols) (first_row rows)"
    by (auto simp: pg_update_maintenance_window_def pg_update_single pg_update_bound_def)
  from u obtain a tn i where tn: "bind ''tenant_id'' (PInt window_id) = Inr tn"
    and tbl': "tbl' = tbl\<lparr>pt_rows := map (\<lambda>r. if pg_matches [(''tenant_id'', tn), (''id'', i)] r then fold (\<lambda>(c, v). AList.update c v) [(k, a)] r else r) (pt_rows tbl)\<rparr>"
    by (auto simp: pg_update_def pg_coerce_def)
  have "of_tenant tenant_id tbl' = of_tenant tenant_id tbl"
  proof -
    let ?f = "\<lambda>r. if pg_matches [(''tenant_id'', tn), (''id'', i)] r then fold (\<lambda>(c, v). AList.update c v) [(k, a)] r else r"
    have "filter (\<lambda>r. py_get r ''tenant_id'' = PStr tenant_id) (map ?f (pt_rows tbl))
        = filter (\<lambda>r. py_get r ''tenant_id'' = PStr tenant_id) (pt_rows tbl)"
    proof (rule filter_map_id)
      show "py_get r ''tenant_id'' = PStr tenant_id \<Longrightarrow>
          (if pg_matches [(''tenant_id'', tn), (''id'', i)] r then fold (\<lambda>(c, v). AList.update c v) [(k, a)] r else r) = r" for r
        using assms(2) tn by (auto simp: pg_matches_def)
      show "py_get r ''tenant_id'' \<noteq> PStr tenant_id \<Longrightarrow>
          py_get (if pg_matches [(''tenant_id'', tn), (''id'', i)] r then fold (\<lambda>(c, v). AList.update c v) [(k, a)] r else r) ''tenant_id'' \<noteq> PStr tenant_id" for r
        using assms(1) by (auto simp: py_get_def map_of_update)
    qed
    then show ?thesis by (simp add: of_tenant_def tbl')
  qed
  moreover have "pg_update_maintenance_window bind tenant_id window_id [] tbl' = Inr (ans, tbl')"
    using t s by (simp add: pg_update_maintenance_window_def pg_update_bound_def patch_columns_def)
  ultimately show ?thesis by blast
qed

theorem pg_window_update_lost_witness:
  "\<exists>tbl'. pg_update_maintenance_window keep_ms ''t'' 7 [(''reason'', PStr ''x'')]
      \<lparr>pt_next = 8, pt_rows = [[(''id'', PInt 7), (''tenant_id'', PStr ''t''), (''service'', PStr ''api''), (''reason'', PNone)]]\<rparr>
      = Inr (Some [(''id'', PInt 7), (''service'', PStr ''api''), (''start_at'', PNone), (''end_at'', PNone), (''reason'', PNone)], tbl')
    \<and> of_tenant ''t'' tbl' = [[(''id'', PInt 7), (''tenant_id'', PStr ''t''), (''service'', PStr ''api''), (''reason'', PNone)]]"
proof -
  let ?row = "[(''id'', PInt 7), (''tenant_id'', PStr ''t''), (''service'', PStr ''api''), (''reason'', PNone)]"
  have u: "pg_update_maintenance_window keep_ms ''t'' 7 [(''reason'', PStr ''x'')] \<lparr>pt_next = 8, pt_rows = [?row]\<rparr>
      = Inr (Some [(''id'', PInt 7), (''service'', PStr ''api''), (''start_at'', PNone), (''end_at'', PNone), (''reason'', PNone)],
          \<lparr>pt_next = 8, pt_rows = [?row]\<rparr>)" by code_simp
  from pg_window_update_lost [OF _ _ u] show ?thesis
    using u by (simp add: keep_ms_def of_tenant_def py_get_def)
qed

section \<open>Two formulas for a rate\<close>

text \<open>Four confirmed and three false alarms: memory, which starts each step from the rounded rate, has lost a digit;
  the database, which keeps the counters, has not.\<close>

definition verdicts :: "bool list" where
  "verdicts = [False, False, False, False, True, True, True]"

lemma fpr_backends_differ:
  "enter_all (write_fpr ''t'' ''g'') verdicts empty_dyn
     = Inr (empty_dyn\<lparr>dy_fpr := [(''t'', [(''g'', \<lparr>fp_fpr = fl (4285 / 10000), fp_total = 7\<rparr>)])]\<rparr>)
   \<and> bind_res (enter_all (pg_write_fpr ''t'' ''g'') verdicts []) (pg_load_fpr ''t'')
     = Inr [(''g'', \<lparr>fp_fpr = fl (4286 / 10000), fp_total = 7\<rparr>)]
   \<and> fl (4285 / 10000) \<noteq> fl (4286 / 10000)"
  by code_simp

end
