(* ===== verification/Apm_Api.thy ===== *)
theory Apm_Api
  imports Apm_Collection Apm_Config Apm_Lifecycle
begin

text \<open>
  The application around its stores: who may call (\<open>auth/\<close>, \<open>router/deps.py\<close>), the handlers of the routers other than the
  problem router (\<open>router/monitors.py\<close>, \<open>config.py\<close>, \<open>maintenance.py\<close>, \<open>blacklist.py\<close>, \<open>audit.py\<close>, \<open>alerts.py\<close>,
  \<open>plugins.py\<close>), the status an exception is answered with and the path of a request through the middleware to its
  handler (\<open>_app.py\<close>). The state is everything a request can change; the stores are the in-memory ones. An answer is
  the value its JSON body is made of. The start-up loads the registry before the first request, so the handlers' test for
  a missing one is not modelled. \<open>DomainConfig.model_validate\<close> and \<open>model_dump\<close> are parameters, as are the clock, the
  packaged rules, the entry points and the remote services.
\<close>

section \<open>Who may call\<close>

record http_headers =
  hh_authorization :: "string option"
  hh_tenant :: "string option"

record principal =
  pn_api_key :: string
  pn_tenants :: "string list"
  pn_is_admin :: bool

definition get_tenant_id :: "http_headers \<Rightarrow> string" where
  "get_tenant_id hs = lower (strip (case hh_tenant hs of None \<Rightarrow> ''default'' | Some x \<Rightarrow> x))"

definition get_principal :: "principal option \<Rightarrow> principal" where
  "get_principal p = (case p of Some x \<Rightarrow> x
     | None \<Rightarrow> \<lparr>pn_api_key = ''anonymous'', pn_tenants = [''*''], pn_is_admin = True\<rparr>)"

definition require_admin :: "principal \<Rightarrow> unit res" where
  "require_admin p = (if \<not> pn_is_admin p then Inl (AppException PERMISSION ''admin privileges required'') else Inr ())"

text \<open>\<open>AuthMiddleware\<close>: the scope of a key, and the request's principal or the status it is turned away with.\<close>

definition key_scope :: "string \<Rightarrow> string list" where
  "key_scope raw =
     (if strip raw = ''*'' then [''*'']
      else map (\<lambda>t. lower (strip t)) (filter (\<lambda>t. strip t \<noteq> []) (split_on (CHR '','') raw)))"

definition bearer_key :: "http_headers \<Rightarrow> string" where
  "bearer_key hs =
     (let auth = (case hh_authorization hs of None \<Rightarrow> [] | Some a \<Rightarrow> a)
      in if take 7 auth = ''Bearer '' then strip (drop 7 auth) else [])"

definition auth_dispatch :: "(string \<times> string) list \<Rightarrow> http_headers \<Rightarrow> int + principal" where
  "auth_dispatch api_keys hs =
     (let key = bearer_key hs; requested = get_tenant_id hs in
      case (if key = [] then None else map_of api_keys key) of
        None \<Rightarrow> Inl 401
      | Some raw \<Rightarrow>
          let tenants = key_scope raw in
          if ''*'' \<notin> set tenants \<and> requested \<notin> set tenants then Inl 403
          else Inr \<lparr>pn_api_key = key, pn_tenants = tenants, pn_is_admin = (''*'' \<in> set tenants)\<rparr>)"

fun status_for_code :: "error_code \<Rightarrow> int" where
  "status_for_code NOT_FOUND = 404"
| "status_for_code PLUGIN_NOT_FOUND = 404"
| "status_for_code VALIDATION = 400"
| "status_for_code CONFIG_ERROR = 400"
| "status_for_code PERMISSION = 403"
| "status_for_code CONFLICT = 409"
| "status_for_code UPSTREAM = 502"
| "status_for_code c = 500"

fun status_of :: "error \<Rightarrow> int" where
  "status_of (AppException c reason) = status_for_code c"
| "status_of e = 500"

section \<open>State and environment\<close>

record app =
  ax_api :: api
  ax_targets :: target_store
  ax_domains :: "domain_row list"
  ax_watermarks :: watermarks
  ax_registry :: registry

record app_env =
  ae_env :: env
  ae_collect :: collect_env
  ae_answer :: "outbound \<Rightarrow> http_response"
  ae_source :: "string \<Rightarrow> target \<Rightarrow> time \<Rightarrow> collect_env \<times> (outbound \<Rightarrow> http_response)"
  ae_sha :: "string \<Rightarrow> string"
  ae_yaml :: "pydict list"
  ae_model_validate :: "pydict \<Rightarrow> domain_config res"
  ae_model_dump :: "domain_config \<Rightarrow> pydict"
  ae_entry_points :: "string \<Rightarrow> (string \<times> build_outcome) list"
  ae_max_rounds :: nat
  ae_now :: time
  ae_trace :: "string \<Rightarrow> string"
  ae_collect_ended :: "string \<Rightarrow> time"
  ae_ended :: "string \<Rightarrow> time"

type_synonym 'a handler = "app \<Rightarrow> 'a res \<times> app"

definition reply :: "'a \<Rightarrow> 'a handler" where
  "reply x = (\<lambda>s. (Inr x, s))"

definition fail :: "error \<Rightarrow> 'a handler" where
  "fail e = (\<lambda>s. (Inl e, s))"

definition lift_h :: "'a res \<Rightarrow> 'a handler" where
  "lift_h r = (\<lambda>s. (r, s))"

definition look :: "(app \<Rightarrow> 'a res) \<Rightarrow> 'a handler" where
  "look f = (\<lambda>s. (f s, s))"

definition and_do :: "'a handler \<Rightarrow> ('a \<Rightarrow> 'b handler) \<Rightarrow> 'b handler" where
  "and_do m f = (\<lambda>s. case m s of (Inl e, s') \<Rightarrow> (Inl e, s') | (Inr x, s') \<Rightarrow> f x s')"

definition found_or_404 :: "string \<Rightarrow> 'a option \<Rightarrow> 'a handler" where
  "found_or_404 reason r = (case r of None \<Rightarrow> fail (AppException NOT_FOUND reason) | Some x \<Rightarrow> reply x)"

definition on_targets :: "(target_store \<Rightarrow> ('a \<times> target_store) res) \<Rightarrow> 'a handler" where
  "on_targets f = (\<lambda>s. case f (ax_targets s) of Inl e \<Rightarrow> (Inl e, s) | Inr (x, ts) \<Rightarrow> (Inr x, s\<lparr>ax_targets := ts\<rparr>))"

definition on_domains :: "(domain_row list \<Rightarrow> ('a \<times> domain_row list) res) \<Rightarrow> 'a handler" where
  "on_domains f = (\<lambda>s. case f (ax_domains s) of Inl e \<Rightarrow> (Inl e, s) | Inr (x, rows) \<Rightarrow> (Inr x, s\<lparr>ax_domains := rows\<rparr>))"

definition config_of :: "app \<Rightarrow> dyn_config" where
  "config_of s = wd_dynamic (ap_world (ax_api s))"

definition set_config :: "dyn_config \<Rightarrow> app \<Rightarrow> app" where
  "set_config dc s = s\<lparr>ax_api := (ax_api s)\<lparr>ap_world := (ap_world (ax_api s))\<lparr>wd_dynamic := dc\<rparr>\<rparr>\<rparr>"

definition on_config :: "(dyn_config \<Rightarrow> ('a \<times> dyn_config) res) \<Rightarrow> 'a handler" where
  "on_config f = (\<lambda>s. case f (config_of s) of Inl e \<Rightarrow> (Inl e, s) | Inr (x, dc) \<Rightarrow> (Inr x, set_config dc s))"

definition nothing :: "'s res \<Rightarrow> (unit \<times> 's) res" where
  "nothing r = bind_res r (\<lambda>s. Inr ((), s))"

section \<open>Monitored endpoints (\<open>monitors.py\<close>)\<close>

definition SAMPLE_LIMIT :: nat where "SAMPLE_LIMIT = 20"

definition gate_config :: "collect_env \<Rightarrow> pydict \<Rightarrow> unit res" where
  "gate_config en sc =
     bind_res (gate_url en (py_get_or sc ''url'' (PStr []))) (\<lambda>_.
       case py_get_or sc ''headers'' (PDict []) of
         PDict headers \<Rightarrow> validate_headers headers
       | _ \<Rightarrow> Inl (AttributeError ''items''))"

definition create_monitor :: "app_env \<Rightarrow> string \<Rightarrow> target_spec \<Rightarrow> string handler" where
  "create_monitor ae tenant body =
     and_do (lift_h (gate_config (ae_collect ae) (ts_source_config body))) (\<lambda>_.
     and_do (on_targets (mt_create tenant body (ae_now ae))) (\<lambda>created. reply (mt_target_id created)))"

definition list_monitors :: "string \<Rightarrow> string option \<Rightarrow> string option \<Rightarrow> target list handler" where
  "list_monitors tenant service signal_type = look (\<lambda>s. mt_list tenant service signal_type (tg_rows (ax_targets s)))"

definition get_monitor :: "string \<Rightarrow> string \<Rightarrow> target handler" where
  "get_monitor tenant target_id =
     and_do (look (\<lambda>s. mt_get tenant target_id (tg_rows (ax_targets s)))) (found_or_404 ''monitor target not found'')"

definition update_monitor :: "app_env \<Rightarrow> string \<Rightarrow> string \<Rightarrow> target_change \<Rightarrow> target handler" where
  "update_monitor ae tenant target_id body =
     and_do (lift_h (case tc_source_config body of Some (kv # sc) \<Rightarrow> gate_config (ae_collect ae) (kv # sc) | _ \<Rightarrow> Inr ())) (\<lambda>_.
     and_do (on_targets (mt_update tenant target_id body)) (found_or_404 ''monitor target not found''))"

definition delete_monitor :: "string \<Rightarrow> string \<Rightarrow> unit handler" where
  "delete_monitor tenant target_id = on_targets (\<lambda>ts. nothing (mt_delete tenant target_id ts))"

text \<open>A trial collection writes neither watermark nor snapshots; what is no \<open>AppException\<close> is reported as an answer.\<close>

datatype trial = TrialError error | TrialOk nat "signal list"

definition trial_context :: "string \<Rightarrow> collect_context" where
  "trial_context tenant = \<lparr>cc_tenant_id = tenant, cc_watermark_store = None, cc_snapshot_store = None, cc_now = None,
     cc_request_params = [], cc_sent = []\<rparr>"

definition test_monitor :: "app_env \<Rightarrow> string \<Rightarrow> string \<Rightarrow> trial handler" where
  "test_monitor ae tenant target_id =
     and_do (get_monitor tenant target_id) (\<lambda>target.
     and_do (lift_h (collector_for target)) (\<lambda>_.
       case fst (collect_target (ae_collect ae) (ae_answer ae) target (trial_context tenant)) of
         Inl (AppException c reason) \<Rightarrow> fail (AppException c reason)
       | Inl e \<Rightarrow> reply (TrialError e)
       | Inr signals \<Rightarrow> reply (TrialOk (length signals) (take SAMPLE_LIMIT signals))))"

section \<open>Rules (\<open>config.py\<close>)\<close>

text \<open>A loader without a cache: \<open>DomainConfigLoader(store).load(tenant)\<close>.\<close>

definition load_domains :: "app_env \<Rightarrow> string \<Rightarrow> domain_row list handler" where
  "load_domains ae tenant = (\<lambda>s.
     let (r, _, tbl) = loader_load do_seed (ae_yaml ae) None tenant (\<lparr>lo_cache = None\<rparr>, ax_domains s)
     in (r, s\<lparr>ax_domains := tbl\<rparr>))"

definition list_domain_configs :: "app_env \<Rightarrow> string \<Rightarrow> (string \<times> bool \<times> int) list handler" where
  "list_domain_configs ae tenant =
     and_do (load_domains ae tenant) (\<lambda>rows. reply (map (\<lambda>r. (do_domain r, do_enabled r, do_version r)) rows))"

definition get_domain_config :: "app_env \<Rightarrow> string \<Rightarrow> string \<Rightarrow> (string \<times> pydict \<times> int) handler" where
  "get_domain_config ae tenant domain =
     and_do (load_domains ae tenant) (\<lambda>rows.
     and_do (found_or_404 ''no domain config'' (List.find (\<lambda>r. do_domain r = domain) rows)) (\<lambda>r.
       reply (domain, do_config r, do_version r)))"

definition put_domain_config ::
  "app_env \<Rightarrow> principal option \<Rightarrow> string \<Rightarrow> string \<Rightarrow> pydict \<Rightarrow> (string \<times> int) handler" where
  "put_domain_config ae p tenant domain body =
     and_do (lift_h (require_admin (get_principal p))) (\<lambda>_.
     and_do (lift_h (ae_model_validate ae body)) (\<lambda>cfg.
     and_do (look (\<lambda>s. validate_domain_config cfg (ax_registry s))) (\<lambda>_.
     and_do (on_domains (do_upsert tenant domain (ae_model_dump ae cfg))) (\<lambda>version. reply (domain, version)))))"

definition delete_domain_config :: "app_env \<Rightarrow> principal option \<Rightarrow> string \<Rightarrow> string \<Rightarrow> unit handler" where
  "delete_domain_config ae p tenant domain =
     and_do (lift_h (require_admin (get_principal p))) (\<lambda>_.
     and_do (load_domains ae tenant) (\<lambda>rows.
       if \<not> (\<exists>r \<in> set rows. do_domain r = domain) then fail (AppException NOT_FOUND ''no domain config'')
       else and_do (look (\<lambda>s. load_all_targets tenant (tg_rows (ax_targets s)))) (\<lambda>targets.
         if \<exists>t \<in> set targets. mt_domain t = domain
         then fail (AppException CONFIG_ERROR ''still referenced by enabled targets'')
         else on_domains (\<lambda>rows. nothing (do_delete tenant domain rows)))))"

definition reload_plugins :: "app_env \<Rightarrow> principal option \<Rightarrow> (string \<times> string list) list handler" where
  "reload_plugins ae p =
     and_do (lift_h (require_admin (get_principal p))) (\<lambda>_ s.
       let reg = registry_load (ae_entry_points ae) in (Inr (registry_list reg None), s\<lparr>ax_registry := reg\<rparr>))"

definition reload_config :: "app_env \<Rightarrow> principal option \<Rightarrow> (string \<times> string list) list handler" where
  "reload_config ae p =
     and_do (lift_h (require_admin (get_principal p))) (\<lambda>_ s.
       let reg = registry_load (ae_entry_points ae) in (Inr (registry_list reg None), s\<lparr>ax_registry := reg\<rparr>))"

definition list_plugins :: "(string \<times> string list) list handler" where
  "list_plugins = look (\<lambda>s. Inr (registry_list (ax_registry s) None))"

section \<open>Maintenance windows and blacklist\<close>

definition create_window :: "string \<Rightarrow> pydict \<Rightarrow> pydict handler" where
  "create_window tenant body = on_config (create_maintenance_window tenant body)"

definition list_windows :: "string \<Rightarrow> string option \<Rightarrow> pydict list handler" where
  "list_windows tenant service = look (\<lambda>s. list_maintenance_windows tenant service (config_of s))"

definition update_window :: "string \<Rightarrow> int \<Rightarrow> pydict \<Rightarrow> pydict handler" where
  "update_window tenant window_id body =
     and_do (on_config (update_maintenance_window tenant window_id body)) (found_or_404 ''maintenance window not found'')"

definition delete_window :: "string \<Rightarrow> int \<Rightarrow> unit handler" where
  "delete_window tenant window_id = on_config (\<lambda>dc. nothing (delete_maintenance_window tenant window_id dc))"

definition create_entry :: "string \<Rightarrow> pydict \<Rightarrow> pydict handler" where
  "create_entry tenant body = on_config (create_blacklist tenant body)"

definition list_entries :: "string \<Rightarrow> pydict list handler" where
  "list_entries tenant = look (\<lambda>s. list_blacklist tenant (config_of s))"

definition update_entry :: "string \<Rightarrow> int \<Rightarrow> pydict \<Rightarrow> pydict handler" where
  "update_entry tenant entry_id body =
     and_do (on_config (update_blacklist tenant entry_id body)) (found_or_404 ''blacklist entry not found'')"

definition delete_entry :: "string \<Rightarrow> int \<Rightarrow> unit handler" where
  "delete_entry tenant entry_id = on_config (\<lambda>dc. nothing (delete_blacklist tenant entry_id dc))"

section \<open>Rounds on demand (\<open>monitors.py\<close>, \<open>alerts.py\<close>)\<close>

text \<open>\<open>run_round\<close> with the application's own stores: the rules it finds are those a fresh loader returns, which may seed
  the tenant's rules.\<close>

definition config_rows :: "app_env \<Rightarrow> domain_row list res \<Rightarrow> (string \<times> domain_config res) list res" where
  "config_rows ae r = bind_res r (\<lambda>rows. Inr (map (\<lambda>r. (do_domain r, ae_model_validate ae (do_config r))) rows))"

definition round_now :: "app_env \<Rightarrow> string \<Rightarrow> string \<Rightarrow> target list \<Rightarrow> domain_result handler" where
  "round_now ae tenant domain targets = (\<lambda>s.
     let (rows, s1) = load_domains ae tenant s;
         (r, w, wm) = run_round (ae_sha ae) (collecting (ae_source ae)) (ax_registry s) (config_rows ae rows) (ae_trace ae domain)
           tenant domain targets (ae_now ae) (ae_collect_ended ae domain) (ae_ended ae domain)
           (ap_world (ax_api s1), ax_watermarks s1)
     in (r, s1\<lparr>ax_api := (ax_api s1)\<lparr>ap_world := w\<rparr>, ax_watermarks := wm\<rparr>))"

definition run_monitor :: "app_env \<Rightarrow> string \<Rightarrow> string \<Rightarrow> domain_result handler" where
  "run_monitor ae tenant target_id =
     and_do (get_monitor tenant target_id) (\<lambda>target. round_now ae tenant (mt_domain target) [target])"

definition by_domain :: "target list \<Rightarrow> (string \<times> target list) list" where
  "by_domain targets = fold (\<lambda>t groups. AList.update (mt_domain t)
     ((case map_of groups (mt_domain t) of None \<Rightarrow> [] | Some ts \<Rightarrow> ts) @ [t]) groups) targets []"

type_synonym round_summary = "string \<times> nat \<times> nat \<times> string list"

fun run_groups :: "app_env \<Rightarrow> string \<Rightarrow> (string \<times> target list) list \<Rightarrow> round_summary list \<Rightarrow> nat \<Rightarrow> (round_summary list \<times> nat) handler" where
  "run_groups ae tenant [] rounds created = reply (rounds, created)"
| "run_groups ae tenant ((d, ts) # gs) rounds created =
     and_do (round_now ae tenant d ts) (\<lambda>res.
       run_groups ae tenant gs (rounds @ [(d, length ts, length (dr_records res), dr_degraded_sources res)])
         (created + length (dr_records res)))"

definition run_alerts :: "app_env \<Rightarrow> principal option \<Rightarrow> string \<Rightarrow> string option \<Rightarrow> (round_summary list \<times> nat) handler" where
  "run_alerts ae p tenant domain =
     and_do (lift_h (require_admin (get_principal p))) (\<lambda>_.
     and_do (look (\<lambda>s. load_all_targets tenant (tg_rows (ax_targets s)))) (\<lambda>targets.
       let targets = (case domain of None \<Rightarrow> targets | Some d \<Rightarrow> filter (\<lambda>t. mt_domain t = d) targets)
       in run_groups ae tenant (by_domain targets) [] 0))"

section \<open>Audit (\<open>audit.py\<close>)\<close>

definition rounds_of :: "app \<Rightarrow> round_store" where
  "rounds_of s = wd_rounds (ap_world (ax_api s))"

definition audit_rounds :: "string \<Rightarrow> string option \<Rightarrow> string option \<Rightarrow> nat \<Rightarrow> nat \<Rightarrow> (round_row list \<times> nat) handler" where
  "audit_rounds tenant domain status limit offset =
     and_do (look (\<lambda>s. list_rounds tenant domain status limit offset (rounds_of s))) (\<lambda>items. reply (items, length items))"

definition list_round_targets :: "string \<Rightarrow> string \<Rightarrow> (target_row list \<times> nat) handler" where
  "list_round_targets tenant round_id =
     and_do (look (\<lambda>s. get_round tenant round_id (rounds_of s))) (\<lambda>r.
     and_do (found_or_404 ''detection round not found'' r) (\<lambda>_.
     and_do (look (\<lambda>s. list_targets tenant round_id (rounds_of s))) (\<lambda>items. reply (items, length items))))"

text \<open>The \<open>suppressed\<close> steps of the timelines, one row per suppressed signal.\<close>

definition as_dict :: "pyval \<Rightarrow> pydict res" where
  "as_dict v = (case v of PDict d \<Rightarrow> Inr d | _ \<Rightarrow> Inl (AttributeError ''get''))"

definition suppressed_row :: "round_row \<Rightarrow> string option \<Rightarrow> pyval \<Rightarrow> pydict list res" where
  "suppressed_row r service v = bind_res (as_dict v) (\<lambda>d.
     Inr (case service of
       Some x \<Rightarrow> if py_get d ''service'' \<noteq> PStr x then [] else
         [[(''round_id'', PStr (rd_round_id r)), (''time'', PTime (rd_started_at r)), (''signal'', py_get d ''signal''),
           (''service'', py_get d ''service''), (''suppressor'', py_get d ''suppressor''), (''reason'', py_get d ''reason'')]]
     | None \<Rightarrow>
         [[(''round_id'', PStr (rd_round_id r)), (''time'', PTime (rd_started_at r)), (''signal'', py_get d ''signal''),
           (''service'', py_get d ''service''), (''suppressor'', py_get d ''suppressor''), (''reason'', py_get d ''reason'')]]))"

definition suppressed_step :: "round_row \<Rightarrow> string option \<Rightarrow> pyval \<Rightarrow> pydict list res" where
  "suppressed_step r service v = bind_res (as_dict v) (\<lambda>step.
     if py_get step ''step'' \<noteq> PStr ''suppressed'' then Inr []
     else bind_res (list_value (py_get_or step ''details'' (PList []))) (\<lambda>ds.
          bind_res (mapM (suppressed_row r service) ds) (\<lambda>rows. Inr (concat rows))))"

definition list_suppressed :: "app_env \<Rightarrow> string \<Rightarrow> string option \<Rightarrow> (pydict list \<times> nat) handler" where
  "list_suppressed ae tenant service =
     and_do (look (\<lambda>s. list_rounds tenant None None (ae_max_rounds ae) 0 (rounds_of s))) (\<lambda>rounds.
     and_do (lift_h (mapM (\<lambda>r. bind_res (mapM (suppressed_step r service) (rd_timeline r)) (\<lambda>rows. Inr (concat rows))) rounds))
       (\<lambda>rows. reply (concat rows, length (concat rows))))"

section \<open>A request\<close>

datatype api_call =
    Problems call
  | CreateMonitor target_spec | ListMonitors "string option" "string option" | GetMonitor string
  | UpdateMonitor string target_change | DeleteMonitor string | TestMonitor string | RunMonitor string
  | ListDomainConfigs | GetDomainConfig string | PutDomainConfig string pydict | DeleteDomainConfig string
  | ReloadConfig | ListPlugins | ReloadPlugins
  | CreateWindow pydict | ListWindows "string option" | UpdateWindow int pydict | DeleteWindow int
  | CreateEntry pydict | ListEntries | UpdateEntry int pydict | DeleteEntry int
  | RunAlerts "string option"
  | AuditRounds "string option" "string option" nat nat | RoundTargets string | ListSuppressed "string option"

text \<open>The state after the handler of a route; \<open>p\<close> is the principal the middleware has put into the request.\<close>

fun handle :: "app_env \<Rightarrow> principal option \<Rightarrow> string \<Rightarrow> api_call \<Rightarrow> app \<Rightarrow> app" where
  "handle ae p t (Problems c) s = s\<lparr>ax_api := serve (ae_env ae) t c (ax_api s)\<rparr>"
| "handle ae p t (CreateMonitor b) s = snd (create_monitor ae t b s)"
| "handle ae p t (ListMonitors svc st) s = snd (list_monitors t svc st s)"
| "handle ae p t (GetMonitor x) s = snd (get_monitor t x s)"
| "handle ae p t (UpdateMonitor x b) s = snd (update_monitor ae t x b s)"
| "handle ae p t (DeleteMonitor x) s = snd (delete_monitor t x s)"
| "handle ae p t (TestMonitor x) s = snd (test_monitor ae t x s)"
| "handle ae p t (RunMonitor x) s = snd (run_monitor ae t x s)"
| "handle ae p t ListDomainConfigs s = snd (list_domain_configs ae t s)"
| "handle ae p t (GetDomainConfig d) s = snd (get_domain_config ae t d s)"
| "handle ae p t (PutDomainConfig d b) s = snd (put_domain_config ae p t d b s)"
| "handle ae p t (DeleteDomainConfig d) s = snd (delete_domain_config ae p t d s)"
| "handle ae p t ReloadConfig s = snd (reload_config ae p s)"
| "handle ae p t ListPlugins s = snd (list_plugins s)"
| "handle ae p t ReloadPlugins s = snd (reload_plugins ae p s)"
| "handle ae p t (CreateWindow b) s = snd (create_window t b s)"
| "handle ae p t (ListWindows svc) s = snd (list_windows t svc s)"
| "handle ae p t (UpdateWindow i b) s = snd (update_window t i b s)"
| "handle ae p t (DeleteWindow i) s = snd (delete_window t i s)"
| "handle ae p t (CreateEntry b) s = snd (create_entry t b s)"
| "handle ae p t ListEntries s = snd (list_entries t s)"
| "handle ae p t (UpdateEntry i b) s = snd (update_entry t i b s)"
| "handle ae p t (DeleteEntry i) s = snd (delete_entry t i s)"
| "handle ae p t (RunAlerts d) s = snd (run_alerts ae p t d s)"
| "handle ae p t (AuditRounds d st l off) s = snd (audit_rounds t d st l off s)"
| "handle ae p t (RoundTargets r) s = snd (list_round_targets t r s)"
| "handle ae p t (ListSuppressed svc) s = snd (list_suppressed ae t svc s)"

text \<open>\<open>create_app\<close> installs the middleware only when there are keys.\<close>

definition answer_http :: "(string \<times> string) list \<Rightarrow> app_env \<Rightarrow> http_headers \<Rightarrow> api_call \<Rightarrow> app \<Rightarrow> app" where
  "answer_http api_keys ae hs c s =
     (if api_keys = [] then handle ae None (get_tenant_id hs) c s
      else case auth_dispatch api_keys hs of
        Inl status \<Rightarrow> s
      | Inr p \<Rightarrow> handle ae (Some p) (get_tenant_id hs) c s)"

fun http_all :: "(string \<times> string) list \<Rightarrow> (app_env \<times> http_headers \<times> api_call) list \<Rightarrow> app \<Rightarrow> app" where
  "http_all api_keys [] s = s"
| "http_all api_keys ((ae, hs, c) # reqs) s = http_all api_keys reqs (answer_http api_keys ae hs c s)"

end
