(* ===== verification/Apm_Access.thy ===== *)
theory Apm_Access
  imports Apm_Api
begin

text \<open>
  What a request can reach. The locale \<open>app_logic\<close> composes handlers, in the style of the problem router's logic: from a
  relation between the state before and after that is kept along, it gives one rule per combinator. It is interpreted
  twice, with what other tenants see and with what is stored as the configuration of an endpoint.
\<close>

section \<open>A round, seen by other tenants\<close>

definition world_view ::
  "string \<Rightarrow> world \<Rightarrow> (string \<rightharpoonup> problem_row) \<times> (string \<times> string \<rightharpoonup> det_state)
     \<times> ((string \<rightharpoonup> round_row) \<times> (string \<times> string \<rightharpoonup> target_row))
     \<times> (pydict list res \<times> pydict list res \<times> (string \<times> fpr_row) list res \<times> pydict list res)" where
  "world_view u w = (rec_view u (wd_sequences w, wd_records w), ds_view u (wd_states w), round_view u (wd_rounds w),
     dyn_view u (wd_dynamic w))"

lemma round_frame_refl: "round_frame t r s s"
  by (simp add: round_frame_def)

lemma round_frame_view: "round_frame t r s s' \<Longrightarrow> u \<noteq> t \<Longrightarrow> round_view u s' = round_view u s"
  by (auto simp: round_frame_def round_view_def fun_eq_iff)

lemma foldM_frame:
  "(\<And>x s s'. f x s = Inr s' \<Longrightarrow> round_frame t r s s') \<Longrightarrow> foldM f xs s = Inr s' \<Longrightarrow> round_frame t r s s'"
proof (induction xs arbitrary: s)
  case (Cons x xs)
  from Cons.prems(2) obtain s1 where s1: "f x s = Inr s1" "foldM f xs s1 = Inr s'" by auto
  from Cons.prems(1) [OF s1(1)] Cons.IH [OF Cons.prems(1) s1(2)] show ?case by (rule round_frame_trans)
qed (simp add: round_frame_refl)

lemma round_ops_frame:
  "update_status t r st ended p s = Inr s' \<Longrightarrow> round_frame t r s s'"
  "update_target_status t r x tp s = Inr s' \<Longrightarrow> round_frame t r s s'"
  by (auto simp: update_status_def update_target_status_def round_frame_def map_of_update split: option.splits)

lemma close_collection_frame: "close_collection t r ended cs s = Inr s' \<Longrightarrow> round_frame t r s s'"
  unfolding close_collection_def by (rule foldM_frame) (rule round_ops_frame(2))

lemma attribute_frame: "attribute t r res failed ts s = Inr s' \<Longrightarrow> round_frame t r s s'"
  unfolding attribute_def by (rule foldM_frame) (auto intro: round_ops_frame(2) round_frame_refl split: if_splits)

lemma collect_all_view:
  assumes "tenant \<noteq> []" "u \<noteq> tenant"
  shows "wm_view u (snd (collect_all (collecting source) tenant now ts wm)) = wm_view u wm"
proof (induction ts arbitrary: wm)
  case (Cons t ts)
  obtain wm1 rp out where c: "collecting source tenant t now wm = (wm1, rp, out)" by (rule prod_cases3)
  from collecting_watermarks [OF c assms(1)] assms(2) have "wm_view u wm1 = wm_view u wm"
    by (auto simp: advanced_def wm_view_def map_of_update fun_eq_iff)
  with Cons.IH [of wm1] c show ?case by (simp add: Let_def case_prod_unfold)
qed simp

lemma world_view_rounds:
  "round_view u rs = round_view u (wd_rounds w) \<Longrightarrow> world_view u (w\<lparr>wd_rounds := rs\<rparr>) = world_view u w"
  by (simp add: world_view_def)

abbreviation world_inv :: "world \<Rightarrow> bool" where
  "world_inv w \<equiv> rec_inv (wd_sequences w, wd_records w)"

lemma funnel_view:
  assumes "funnel sha registry tenant domain now trace rows signals degraded w = Inr (res, w')" "u \<noteq> tenant" "world_inv w"
  shows "world_view u w' = world_view u w \<and> world_inv w'"
proof -
  from assms(1) obtain cx cx' where
    cx: "build_context tenant domain registry now (Some trace) trace (enumerate 0 signals) None degraded None rows None w = Inr cx"
    and run: "run_domain sha (cx, w) = Inr (res, cx', w')" by (auto simp: funnel_def)
  have "cx_tenant_id cx = tenant" "cx_seen_keys cx = {}" using cx by (auto simp: build_context_def Let_def)
  with run_domain_views [OF _ run _ assms(3), of u] assms(2) show ?thesis by (simp add: world_view_def)
qed

lemma run_round_views:
  assumes "run_round sha (collecting source) registry rows trace tenant domain targets now cended ended (w, wm) = (r, w', wm')"
    and "u \<noteq> tenant" "world_inv w"
  shows "world_view u w' = world_view u w \<and> world_inv w' \<and> wm_view u wm' = wm_view u wm"
proof (cases "tenant = []")
  case True
  then have "open_round tenant trace domain now targets (wd_rounds w) = Inl (ValueError ''tenant_id is required'')"
    by (simp add: open_round_def create_round_def)
  with assms(1) show ?thesis using assms(3) by (simp add: run_round_def)
next
  case False
  from open_round_spec [OF False] obtain rs where rs: "open_round tenant trace domain now targets (wd_rounds w) = Inr rs"
    "round_frame tenant trace (wd_rounds w) rs" by blast
  obtain cs wm1 where c: "collect_all (collecting source) tenant now targets wm = (cs, wm1)" by fastforce
  have wm1: "wm_view u wm1 = wm_view u wm" using collect_all_view [OF False assms(2), of source now targets wm] c by simp
  have v0: "world_view u (w\<lparr>wd_rounds := rs\<rparr>) = world_view u w"
    by (rule world_view_rounds [OF round_frame_view [OF rs(2) assms(2)]])
  show ?thesis
  proof (cases "close_collection tenant trace cended cs rs")
    case (Inl e)
    with assms(1,3) rs c wm1 v0 show ?thesis by (auto simp: run_round_def Let_def)
  next
    case (Inr rs1)
    let ?w1 = "w\<lparr>wd_rounds := rs1\<rparr>"
    have f1: "round_frame tenant trace (wd_rounds w) rs1"
      using round_frame_trans [OF rs(2) close_collection_frame [OF Inr]] .
    have v1: "world_view u ?w1 = world_view u w" by (rule world_view_rounds [OF round_frame_view [OF f1 assms(2)]])
    let ?fn = "funnel sha registry tenant domain now trace rows (concat (map batch_of cs)) (failed_ids cs) ?w1"
    show ?thesis
    proof (cases ?fn)
      case (Inl e)
      have "world_view u (w\<lparr>wd_rounds := rs2\<rparr>) = world_view u w"
        if "update_status tenant trace st ended p rs1 = Inr rs2" for st p rs2
        using world_view_rounds [OF round_frame_view [OF round_frame_trans [OF f1 round_ops_frame(1) [OF that]] assms(2)]] .
      with Inl Inr assms(1,3) rs c wm1 v1 show ?thesis by (auto simp: run_round_def Let_def split: sum.splits)
    next
      fix y assume "?fn = Inr y"
      then obtain res w2 where fn: "?fn = Inr (res, w2)" by (cases y) simp
      from funnel_view [OF fn assms(2)] assms(3) v1 have v2: "world_view u w2 = world_view u w" "world_inv w2" by simp_all
      have "world_view u (w2\<lparr>wd_rounds := rs2\<rparr>) = world_view u w"
        if "bind_res (attribute tenant trace res (failed_ids cs) targets (wd_rounds w2)) (update_status tenant trace st ended p) = Inr rs2"
        for st p rs2
      proof -
        from that obtain rs' where "attribute tenant trace res (failed_ids cs) targets (wd_rounds w2) = Inr rs'"
          "update_status tenant trace st ended p rs' = Inr rs2" by auto
        then have "round_frame tenant trace (wd_rounds w2) rs2"
          using round_frame_trans [OF attribute_frame round_ops_frame(1)] by blast
        from world_view_rounds [OF round_frame_view [OF this assms(2)]] v2 show ?thesis by simp
      qed
      with fn Inr assms(1) rs c wm1 v2 show ?thesis by (auto simp: run_round_def Let_def simp del: bind_res_Inr_iff split: sum.splits)
    qed
  qed
qed

section \<open>Composition of handlers\<close>

definition preserves :: "(app \<Rightarrow> bool) \<Rightarrow> (app \<Rightarrow> app \<Rightarrow> bool) \<Rightarrow> 'a handler \<Rightarrow> bool" where
  "preserves I R m \<longleftrightarrow> (\<forall>s. I s \<longrightarrow> R s (snd (m s)))"

lemma preservesI: "(\<And>s. I s \<Longrightarrow> R s (snd (m s))) \<Longrightarrow> preserves I R m"
  by (simp add: preserves_def)

lemma preservesD: "preserves I R m \<Longrightarrow> I s \<Longrightarrow> R s (snd (m s))"
  by (simp add: preserves_def)

named_theorems app_intros "rules of the application logic"

lemma preserves_if [app_intros]: "(c \<Longrightarrow> preserves I R m) \<Longrightarrow> (\<not> c \<Longrightarrow> preserves I R n) \<Longrightarrow> preserves I R (if c then m else n)"
  by simp

lemma preserves_Let [app_intros]: "preserves I R (f x) \<Longrightarrow> preserves I R (Let x f)"
  by simp

locale app_logic =
  fixes I :: "app \<Rightarrow> bool" and R :: "app \<Rightarrow> app \<Rightarrow> bool"
  assumes rel_refl: "R s s"
    and rel_trans: "R a b \<Longrightarrow> R b c \<Longrightarrow> R a c"
    and rel_inv: "I s \<Longrightarrow> R s s' \<Longrightarrow> I s'"
begin

lemma preserves_reply: "preserves I R (reply x)" "preserves I R (fail e)" "preserves I R (lift_h r)" "preserves I R (look f)"
  by (simp_all add: preserves_def reply_def fail_def lift_h_def look_def rel_refl)

lemma preserves_found: "preserves I R (found_or_404 reason r)"
  by (cases r) (simp_all add: found_or_404_def preserves_reply)

lemma preserves_and_do:
  assumes m: "preserves I R m" and f: "\<And>x. preserves I R (f x)"
  shows "preserves I R (and_do m f)"
proof (rule preservesI)
  fix s assume s: "I s"
  obtain r s' where ms: "m s = (r, s')" by (cases "m s")
  with preservesD [OF m s] have ok: "R s s'" "I s'" using rel_inv [OF s] by auto
  show "R s (snd (and_do m f s))"
    using ms ok rel_trans [OF ok(1) preservesD [OF f ok(2)]] by (cases r) (simp_all add: and_do_def)
qed

lemma preserves_trial:
  "preserves I R (case r of Inl (AppException c reason) \<Rightarrow> fail (AppException c reason) | Inl e \<Rightarrow> reply (TrialError e)
     | Inr signals \<Rightarrow> reply (f signals))"
  by (cases r) (auto simp: preserves_reply split: error.split)

lemma preserves_groups:
  "(\<And>d ts. preserves I R (round_now ae t d ts)) \<Longrightarrow> preserves I R (run_groups ae t gs rounds n)"
  by (induction gs arbitrary: rounds n) (auto intro!: preserves_and_do simp: preserves_reply)

text \<open>Handlers that change nothing of their own.\<close>

lemma preserves_readers:
  "preserves I R (list_monitors t svc st)" "preserves I R (get_monitor t x)" "preserves I R (test_monitor ae t x)"
  "preserves I R list_plugins" "preserves I R (list_windows t svc)" "preserves I R (list_entries t)"
  "preserves I R (audit_rounds t d st l off)" "preserves I R (list_round_targets t r)" "preserves I R (list_suppressed ae t svc)"
  by (auto simp: list_monitors_def get_monitor_def test_monitor_def list_plugins_def list_windows_def list_entries_def
      audit_rounds_def list_round_targets_def list_suppressed_def Let_def
      intro!: preserves_reply preserves_found preserves_and_do preserves_trial)

lemma preserves_domain_readers:
  assumes "preserves I R (load_domains ae t)"
  shows "preserves I R (list_domain_configs ae t)" "preserves I R (get_domain_config ae t d)"
  by (auto simp: list_domain_configs_def get_domain_config_def intro!: assms preserves_reply preserves_found preserves_and_do)

end

text \<open>Without the administrator's rights the guarded handlers do nothing.\<close>

lemma denied: "\<not> pn_is_admin (get_principal p) \<Longrightarrow> and_do (lift_h (require_admin (get_principal p))) f s
    = (Inl (AppException PERMISSION ''admin privileges required''), s)"
  by (simp add: and_do_def lift_h_def require_admin_def)

lemmas guarded_defs = put_domain_config_def delete_domain_config_def reload_config_def reload_plugins_def run_alerts_def

section \<open>What another tenant sees\<close>

definition app_inv :: "app \<Rightarrow> bool" where
  "app_inv s \<longleftrightarrow> api_inv (ax_api s) \<and> mt_inv (ax_targets s)"

definition app_view where
  "app_view u s = (world_view u (ap_world (ax_api s)), mt_view u (ax_targets s),
     filter (\<lambda>r. do_tenant_id r = u) (ax_domains s), wm_view u (ax_watermarks s), ax_registry s)"

definition unseen :: "string \<Rightarrow> app \<Rightarrow> app \<Rightarrow> bool" where
  "unseen u s s' \<longleftrightarrow> (app_inv s \<longrightarrow> app_inv s') \<and> app_view u s' = app_view u s"

interpretation unseen: app_logic app_inv "unseen u" for u
  by unfold_locales (auto simp: unseen_def)

lemma on_targets_unseen:
  assumes "\<And>ts x ts'. mt_inv ts \<Longrightarrow> f ts = Inr (x, ts') \<Longrightarrow> mt_inv ts' \<and> mt_view u ts' = mt_view u ts"
  shows "preserves app_inv (unseen u) (on_targets f)"
proof (rule preservesI)
  fix s assume "app_inv s"
  with assms [of "ax_targets s"] show "unseen u s (snd (on_targets f s))"
    by (cases "f (ax_targets s)") (auto simp: on_targets_def unseen_def app_inv_def app_view_def)
qed

lemma target_step_unseen:
  assumes "mt_inv ts" "mt_step p t ts = Inr ts'" "u \<noteq> t"
  shows "mt_inv ts' \<and> mt_view u ts' = mt_view u ts"
  using targets.inv_step [OF assms(1,2)] targets.frame [OF assms] by simp

lemma targets_unseen:
  assumes "u \<noteq> t"
  shows "preserves app_inv (unseen u) (create_monitor ae t b)" "preserves app_inv (unseen u) (update_monitor ae t x c)"
    "preserves app_inv (unseen u) (delete_monitor t x)"
proof -
  have "preserves app_inv (unseen u) (on_targets (mt_create t b now))" for now
    by (rule on_targets_unseen, rule target_step_unseen [where p = "MtCreate b now", OF _ _ assms]) simp_all
  then show "preserves app_inv (unseen u) (create_monitor ae t b)"
    by (auto simp: create_monitor_def intro!: unseen.preserves_and_do unseen.preserves_reply)
  have "preserves app_inv (unseen u) (on_targets (mt_update t x c))"
    by (rule on_targets_unseen, rule target_step_unseen [where p = "MtUpdate x c", OF _ _ assms]) simp_all
  then show "preserves app_inv (unseen u) (update_monitor ae t x c)"
    by (auto simp: update_monitor_def intro!: unseen.preserves_and_do unseen.preserves_reply unseen.preserves_found)
  show "preserves app_inv (unseen u) (delete_monitor t x)"
    unfolding delete_monitor_def
    by (rule on_targets_unseen, rule target_step_unseen [where p = "MtDelete x", OF _ _ assms]) (auto simp: nothing_def)
qed

lemma set_config_unseen:
  "dyn_view u dc = dyn_view u (config_of s) \<Longrightarrow> unseen u s (set_config dc s)"
  by (simp add: unseen_def app_inv_def api_inv_def app_view_def world_view_def set_config_def config_of_def)

lemma on_config_unseen:
  assumes "\<And>dc x dc'. f dc = Inr (x, dc') \<Longrightarrow> dyn_step p t dc = Inr dc'" "u \<noteq> t"
  shows "preserves app_inv (unseen u) (on_config f)"
proof (rule preservesI)
  fix s
  have "dyn_view u dc' = dyn_view u (config_of s)" if "f (config_of s) = Inr (x, dc')" for x dc'
    using dyn.frame [OF TrueI assms(1) [OF that] assms(2)] .
  then show "unseen u s (snd (on_config f s))"
    by (cases "f (config_of s)") (auto simp: on_config_def unseen.rel_refl intro: set_config_unseen)
qed

lemma config_unseen:
  assumes "u \<noteq> t"
  shows "preserves app_inv (unseen u) (create_window t b)" "preserves app_inv (unseen u) (update_window t i b)"
    "preserves app_inv (unseen u) (delete_window t i)" "preserves app_inv (unseen u) (create_entry t b)"
    "preserves app_inv (unseen u) (update_entry t i b)" "preserves app_inv (unseen u) (delete_entry t i)"
proof -
  note rule = on_config_unseen [OF _ assms]
  show "preserves app_inv (unseen u) (create_window t b)" unfolding create_window_def
    by (rule rule [where p = "DyCreateWindow b"]) simp
  show "preserves app_inv (unseen u) (create_entry t b)" unfolding create_entry_def
    by (rule rule [where p = "DyCreateBlack b"]) simp
  show "preserves app_inv (unseen u) (delete_window t i)" unfolding delete_window_def
    by (rule rule [where p = "DyDeleteWindow i"]) (simp add: nothing_def)
  show "preserves app_inv (unseen u) (delete_entry t i)" unfolding delete_entry_def
    by (rule rule [where p = "DyDeleteBlack i"]) (simp add: nothing_def)
  have "preserves app_inv (unseen u) (on_config (update_maintenance_window t i b))"
    by (rule rule [where p = "DyUpdateWindow i b"]) simp
  then show "preserves app_inv (unseen u) (update_window t i b)"
    unfolding update_window_def by (intro unseen.preserves_and_do unseen.preserves_found)
  have "preserves app_inv (unseen u) (on_config (update_blacklist t i b))"
    by (rule rule [where p = "DyUpdateBlack i b"]) simp
  then show "preserves app_inv (unseen u) (update_entry t i b)"
    unfolding update_entry_def by (intro unseen.preserves_and_do unseen.preserves_found)
qed

lemma do_seed_unseen:
  "u \<noteq> t \<Longrightarrow> do_seed t items rows = Inr rows' \<Longrightarrow> filter (\<lambda>r. do_tenant_id r = u) rows' = filter (\<lambda>r. do_tenant_id r = u) rows"
proof -
  assume u: "u \<noteq> t" and d: "do_seed t items rows = Inr rows'"
  have "filter (\<lambda>r. do_tenant_id r = u) (fold (\<lambda>x rows.
       if \<exists>r \<in> set rows. do_key t (se_id x) r then rows else rows @ [seed_row t x]) items rows)
    = filter (\<lambda>r. do_tenant_id r = u) rows" for rows
    using u by (induction items arbitrary: rows) (auto simp: seed_row_def)
  with d show ?thesis by (auto simp: do_seed_def)
qed

lemma loader_unseen:
  assumes "u \<noteq> t" "loader_load do_seed yaml outage t (lo, tbl) = (r, lo', tbl')"
  shows "filter (\<lambda>r. do_tenant_id r = u) tbl' = filter (\<lambda>r. do_tenant_id r = u) tbl"
proof (cases "loader_fetch do_seed yaml outage t tbl")
  case (Inl e)
  with assms(2) show ?thesis by (auto simp: loader_load_def split: option.splits)
next
  case (Inr y)
  then obtain rows where "loader_fetch do_seed yaml outage t tbl = Inr (rows, tbl')"
    using assms(2) by (cases y) (auto simp: loader_load_def)
  then show ?thesis using do_seed_unseen [OF assms(1)]
    by (auto simp: loader_fetch_def up_def split: if_splits option.splits)
qed

lemma load_domains_unseen: "u \<noteq> t \<Longrightarrow> preserves app_inv (unseen u) (load_domains ae t)"
  by (rule preservesI)
    (auto simp: load_domains_def unseen_def app_inv_def app_view_def loader_unseen split: prod.split)

lemma round_now_unseen:
  assumes "u \<noteq> t" shows "preserves app_inv (unseen u) (round_now ae t d ts)"
proof (rule preservesI)
  fix s assume s: "app_inv s"
  obtain rows s1 where l: "load_domains ae t s = (rows, s1)" by fastforce
  with preservesD [OF load_domains_unseen [OF assms] s, of ae] have u1: "unseen u s s1" by simp
  obtain r w wm where rr: "run_round (ae_sha ae) (collecting (ae_source ae)) (ax_registry s) (config_rows ae rows) (ae_trace ae d)
       t d ts (ae_now ae) (ae_collect_ended ae d) (ae_ended ae d) (ap_world (ax_api s1), ax_watermarks s1) = (r, w, wm)"
    by (rule prod_cases3)
  have "app_inv s1" using u1 s by (simp add: unseen_def)
  with run_round_views [OF rr assms] have "world_view u w = world_view u (ap_world (ax_api s1))" "world_inv w"
    "wm_view u wm = wm_view u (ax_watermarks s1)" by (simp_all add: app_inv_def api_inv_def)
  with \<open>app_inv s1\<close> have "unseen u s1 (s1\<lparr>ax_api := (ax_api s1)\<lparr>ap_world := w\<rparr>, ax_watermarks := wm\<rparr>)"
    by (simp add: unseen_def app_inv_def api_inv_def app_view_def)
  from unseen.rel_trans [OF u1 this] show "unseen u s (snd (round_now ae t d ts s))"
    using l rr by (simp add: round_now_def)
qed

lemma serve_unseen:
  assumes "u \<noteq> t" "app_inv s"
  shows "unseen u s (s\<lparr>ax_api := serve en t c (ax_api s)\<rparr>)"
proof -
  let ?a = "ax_api s" let ?b = "serve en t c (ax_api s)"
  have inv: "api_inv ?a" using assms(2) by (simp add: app_inv_def)
  from serve_confined [OF inv] have c: "confined t (passed_gate en t) ?a ?b" .
  from c have pw: "pointwise id t (recs ?a) (recs ?b)" by (simp add: confined_def)
  have "rec_view u (seqs ?b, recs ?b) = rec_view u (seqs ?a, recs ?a)"
    by (simp add: rec_view_def fun_eq_iff pointwise_owned [OF pw assms(1)])
  moreover have "dyn_view u (dyn ?b) = dyn_view u (dyn ?a)"
  proof -
    from c assms(1) have "tenant_rows (dy_fpr (dyn ?b)) u = tenant_rows (dy_fpr (dyn ?a)) u" by (simp add: confined_def)
    moreover from c have "other_tables (dyn ?b) = other_tables (dyn ?a)" by (simp add: confined_def)
    then have "dy_maintenance_windows (dyn ?b) = dy_maintenance_windows (dyn ?a)" "dy_blacklist (dyn ?b) = dy_blacklist (dyn ?a)"
      "dy_changes (dyn ?b) = dy_changes (dyn ?a)"
      by (cases "dyn ?a"; cases "dyn ?b"; simp add: other_tables_def)+
    ultimately show ?thesis by (simp add: dyn_view_def dyn_load_defs)
  qed
  ultimately have "world_view u (ap_world ?b) = world_view u (ap_world ?a)"
    using c by (simp add: world_view_def confined_def)
  then show ?thesis using confined_inv [OF inv c] assms(2) by (simp add: unseen_def app_inv_def app_view_def)
qed

lemma handle_unseen:
  assumes "u \<noteq> t" "\<not> pn_is_admin (get_principal p)" "app_inv s"
  shows "unseen u s (handle ae p t c s)"
proof (cases c)
  case (Problems x)
  with serve_unseen [OF assms(1,3)] show ?thesis by simp
next
  case (RunMonitor x)
  have "preserves app_inv (unseen u) (run_monitor ae t x)"
    unfolding run_monitor_def by (intro unseen.preserves_and_do unseen.preserves_readers round_now_unseen assms)
  with RunMonitor assms(3) show ?thesis by (simp add: preservesD [where I = app_inv])
qed (use assms in \<open>simp_all add: guarded_defs denied unseen.rel_refl preservesD [where R = "unseen u" and I = app_inv] targets_unseen
    config_unseen unseen.preserves_readers unseen.preserves_domain_readers load_domains_unseen\<close>)

definition covers :: "(string \<times> string) list \<Rightarrow> http_headers \<Rightarrow> string \<Rightarrow> bool" where
  "covers api_keys hs u \<longleftrightarrow> (\<exists>raw. bearer_key hs \<noteq> [] \<and> map_of api_keys (bearer_key hs) = Some raw
     \<and> (''*'' \<in> set (key_scope raw) \<or> u \<in> set (key_scope raw)))"

lemma auth_covers:
  assumes "auth_dispatch api_keys hs = Inr p"
  shows "covers api_keys hs (get_tenant_id hs)" "pn_is_admin p \<longleftrightarrow> ''*'' \<in> set (pn_tenants p)"
    "map_of api_keys (bearer_key hs) = Some raw \<Longrightarrow> pn_tenants p = key_scope raw"
  using assms by (auto simp: auth_dispatch_def covers_def Let_def split: if_splits option.splits)

lemma auth_refuses: "\<not> covers api_keys hs (get_tenant_id hs) \<Longrightarrow> \<exists>st. auth_dispatch api_keys hs = Inl st \<and> st \<in> {401, 403}"
  by (auto simp: auth_dispatch_def covers_def Let_def split: if_splits option.splits)

lemma answer_unseen:
  assumes "api_keys \<noteq> []" "app_inv s" "\<not> covers api_keys hs u"
  shows "unseen u s (answer_http api_keys ae hs c s)"
proof (cases "auth_dispatch api_keys hs")
  case (Inl st)
  with assms(1) show ?thesis by (simp add: answer_http_def unseen.rel_refl)
next
  case (Inr p)
  from auth_covers [OF Inr] obtain raw where raw: "bearer_key hs \<noteq> []" "map_of api_keys (bearer_key hs) = Some raw"
    "''*'' \<in> set (key_scope raw) \<or> get_tenant_id hs \<in> set (key_scope raw)" by (auto simp: covers_def)
  with assms(3) have "''*'' \<notin> set (key_scope raw)" "get_tenant_id hs \<noteq> u" by (auto simp: covers_def)
  moreover from this(1) auth_covers [OF Inr] raw(2) have "\<not> pn_is_admin (get_principal (Some p))" by (simp add: get_principal_def)
  ultimately show ?thesis using handle_unseen assms(1,2) Inr by (simp add: answer_http_def)
qed

text \<open>C7. A key reaches only the tenants of its scope. When keys are configured, then over every sequence of requests
  whose keys do not cover a tenant (unknown keys and missing ones included), whatever the tenant header says and
  whatever routes are called, rounds on demand included, nothing this tenant sees changes: its problem records and
  rates, detection state, rounds, endpoints, watermarks, rules, maintenance windows and blacklist are as before, and the
  plugins all tenants share have not been reloaded.\<close>

theorem keys_confine:
  assumes "api_keys \<noteq> []" "app_inv s" "\<forall>(ae, hs, c) \<in> set reqs. \<not> covers api_keys hs u"
  shows "app_view u (http_all api_keys reqs s) = app_view u s \<and> app_inv (http_all api_keys reqs s)"
  using assms(2,3)
proof (induction reqs arbitrary: s)
  case (Cons req reqs)
  obtain ae hs c where req: "req = (ae, hs, c)" by (rule prod_cases3)
  with Cons.prems answer_unseen [OF assms(1) Cons.prems(1), of hs u ae c] Cons.IH [of "answer_http api_keys ae hs c s"]
  show ?case by (simp add: unseen_def)
qed simp

definition demo_app_env :: app_env where
  "demo_app_env = \<lparr>ae_env = demo_env, ae_collect = sample_env, ae_answer = sample_answer,
     ae_source = (\<lambda>_ _ _. (sample_env, sample_answer)), ae_sha = id, ae_yaml = app_yaml,
     ae_model_validate = (\<lambda>_. Inr (rule_with [])), ae_model_dump = (\<lambda>_. []), ae_entry_points = builtin_entry_points,
     ae_max_rounds = 1000, ae_now = 0, ae_trace = (\<lambda>d. ''trace-'' @ d), ae_collect_ended = (\<lambda>_. 1), ae_ended = (\<lambda>_. 2)\<rparr>"

definition demo_app :: app where
  "demo_app = \<lparr>ax_api = demo_api, ax_targets = no_targets, ax_domains = [], ax_watermarks = [], ax_registry = registry_init\<rparr>"

lemma demo_app_inv: "app_inv demo_app"
  by (simp add: app_inv_def demo_app_def demo_inv no_targets_inv)

text \<open>The key of tenant \<open>acme\<close> calls for \<open>Acme\<close>, then for \<open>beta\<close>, and someone calls without a key.\<close>

definition acme_key :: "(string \<times> string) list" where
  "acme_key = [(''k1'', '' Acme '')]"

definition headers :: "string option \<Rightarrow> string \<Rightarrow> http_headers" where
  "headers auth tenant = \<lparr>hh_authorization = auth, hh_tenant = Some tenant\<rparr>"

definition new_window :: pydict where
  "new_window = [(''service'', PStr ''api''), (''start_at'', PTime 0), (''end_at'', PTime 9)]"

definition acme_requests :: "(app_env \<times> http_headers \<times> api_call) list" where
  "acme_requests = [(demo_app_env, headers (Some ''Bearer k1'') '' ACME'', CreateWindow new_window),
     (demo_app_env, headers (Some ''Bearer k1'') ''beta'', CreateWindow new_window),
     (demo_app_env, headers None ''beta'', ReloadPlugins)]"

lemma acme_scope: "bearer_key (headers (Some ''Bearer k1'') x) = ''k1''" "bearer_key (headers None x) = []" "key_scope '' Acme '' = [''acme'']"
  by (simp_all add: bearer_key_def headers_def) code_simp+

theorem keys_confine_witness:
  "app_view ''beta'' (http_all acme_key acme_requests demo_app) = app_view ''beta'' demo_app
   \<and> map_sum id length (load_maintenance_windows ''acme'' (config_of (http_all acme_key acme_requests demo_app))) = Inr 1"
proof
  have "\<forall>(ae, hs, c) \<in> set acme_requests. \<not> covers acme_key hs ''beta''"
    by (simp add: acme_requests_def covers_def acme_scope acme_key_def)
  from keys_confine [OF _ demo_app_inv this] show "app_view ''beta'' (http_all acme_key acme_requests demo_app) = app_view ''beta'' demo_app"
    by (simp add: acme_key_def)
  show "map_sum id length (load_maintenance_windows ''acme'' (config_of (http_all acme_key acme_requests demo_app))) = Inr 1"
    by code_simp
qed

section \<open>What is stored of an endpoint\<close>






















end
