(* ===== verification/Spec2Isabelle.thy ===== *)
theory Spec2Isabelle
  imports Apm_Incidents Apm_Signature Apm_DynConfig Apm_Records Apm_Rounds Apm_Funnel Apm_Config Apm_Scheduler Apm_Ticketing Apm_Collection Apm_Migrations
    Apm_PgRecords Apm_PgStores Apm_Access
begin

text \<open>
  Verification of the APM anomaly detector (\<open>src/src/aiops_apm\<close>, Python).

  \<^bold>\<open>The program.\<close> A scheduler (\<open>scheduler.py\<close>) holds a lease in the database and, every tick, groups the monitored
  endpoints that are due and starts one detection round per tenant and domain (\<open>poller.py\<close>). A round collects signals from
  the endpoints (\<open>collectors/\<close>), builds the context from the tenant's rules (\<open>config/\<close>) and dynamic configuration, and sends
  the signals through a funnel (\<open>pipeline/\<close>): suppression, detection by plugins, grouping into incidents, correlation with
  changes, verification by persistence and false-positive rate, emission of problem records. A reconciler
  (\<open>reconcile.py\<close>) closes records whose anomalies have disappeared. The HTTP API (\<open>router/problems.py\<close>) lists the
  records, moves them through their life cycle, sends tickets and starts runs of a diagnosis engine, whose answers
  \<open>diagnosis/\<close> turns into a view; its other routers administer endpoints, rules and dynamic configuration, and a
  middleware (\<open>auth/\<close>) admits requests by API key. Every store (\<open>storage/\<close>) has an in-memory and a PostgreSQL implementation.

  \<^bold>\<open>Theories and sources.\<close>
  \<^item> \<open>Apm_Prelude\<close>: errors (\<open>exceptions.py\<close>), Python values, dictionaries, strings, the printing of times.
  \<^item> \<open>Apm_Models\<close>: \<open>models/\<close>. Raw keys identify separator-free anomalies; the group key depends on the multiset of
    identities only.
  \<^item> \<open>Apm_Signature\<close>: \<open>signature.py\<close>. Normalisation is idempotent and the signature bounded.
  \<^item> \<open>Apm_Grouping\<close>, \<open>Apm_Incidents\<close>: \<open>pipeline/grouping.py\<close>. The union-find forest with path compression terminates,
    no assertion fires, the groups are a partition and are exactly the classes of the documented linking rules.
  \<^item> \<open>Apm_Plugins\<close>: \<open>plugins/\<close>, \<open>detectors/\<close>, \<open>suppressors/\<close>, \<open>pipeline/filter_signals.py\<close>. Exact
    behaviour of the detectors; the locales \<open>detector_laws\<close> and \<open>suppressor_laws\<close> are what the funnel relies on.
  \<^item> \<open>Apm_Stores\<close>: detection state, watermarks, sequence and lease. The locale \<open>tenant_store\<close> is the contract of every
    tenant-scoped store, \<open>lease_store\<close> that of leader election. The SQL sweep and the SQL sequence refine the in-memory ones.
  \<^item> \<open>Apm_Records\<close>: \<open>storage/records.py\<close>. Isolation of tenants, monotone evolution of a record, deduplication, merging
    into the largest contained incident, what a write does in the database in every case, and the incident that breaks the
    uniqueness of open group keys.
  \<^item> \<open>Apm_PgRecords\<close>: queries and named transitions of the database class of records. Its queries answer as in memory, and the
    life cycle of records has the same effect in both, up to the time and the reason of a repeated transition.
  \<^item> \<open>Apm_Rounds\<close>, \<open>Apm_Targets\<close>, \<open>Apm_DynConfig\<close>: the remaining tables. The SQL implementations of rounds and
    endpoints refine the in-memory ones over every history of operations, for rounds with times as the columns keep them and
    without repeated creations; false-positive counts are exact.
  \<^item> \<open>Apm_PgStores\<close>: the database classes of dynamic configuration, detection state and watermarks. A round loads from them
    what it would load from memory; an update with misordered parameters is shown to be lost.
  \<^item> \<open>Apm_Pipeline\<close>, \<open>Apm_Funnel\<close>: \<open>pipeline/\<close>, its model and its correctness. What suppression removes, where anomalies
    come from, when an incident is opened and with which severity, that a round completes and touches one tenant.
  \<^item> \<open>Apm_Config\<close>: loader and validator of rules. A validated rule set runs.
  \<^item> \<open>Apm_Scheduler\<close>: poller, scheduler, reconciler. A round always ends closed, a tick reschedules every enabled
    endpoint, the reconciler closes exactly the stale records among the 10000 newest of each tenant.
  \<^item> \<open>Apm_Gateway\<close>, \<open>Apm_Http\<close>: \<open>collectors/_gateway.py\<close> with IP networks as machine words, \<open>collectors/_http_client.py\<close> and
    the actions a handler is made of. The gate passes a URL exactly when its addresses lie outside the block list.
  \<^item> \<open>Apm_Time\<close>, \<open>Apm_Timestamps\<close>: the time stamps of \<open>collectors/\<close>, the calendar as a bijection, and that a time printed
    into a request is read back to the millisecond in every zone.
  \<^item> \<open>Apm_Collectors\<close>, \<open>Apm_Collection\<close>: \<open>collectors/\<close>. The watermark follows the newest signal, a failure changes nothing,
    only gated requests are sent, and which period a request asks for and how; the watermarks after a whole round.
  \<^item> \<open>Apm_Migrations\<close>: \<open>migrations/runner.py\<close>. A script is split into exactly its statements, and a migration applies
    exactly the newer scripts, once.
  \<^item> \<open>Apm_Diagnosis\<close>: \<open>diagnosis/\<close>. Every view built from any answer of the engine is well formed.
  \<^item> \<open>Apm_Problems\<close>, \<open>Apm_Lifecycle\<close>, \<open>Apm_Ticketing\<close>: \<open>router/problems.py\<close>, its model, the logic of handlers (locale
    \<open>handler_logic\<close>) and the properties of its flows: confinement to the tenant and to gated requests, what
    each action does on a closed record, one ticket per record, idempotent reports, bounded windows, bounded polling, reruns with feedback.
  \<^item> \<open>Apm_Api\<close>, \<open>Apm_Access\<close>: \<open>auth/\<close>, \<open>router/deps.py\<close>, the other routers and the path of a request (\<open>_app.py\<close>).
    With the locale \<open>app_logic\<close>: a key reaches only the tenants of its scope, over all routes and stores, and no endpoint
    configuration is stored unchecked.

  \<^bold>\<open>Conventions.\<close> A string is a list of 8-bit characters; literals of the source that are not ASCII are rendered in English.
  A time is the number of microseconds since the epoch in UTC. A dictionary is an association list in insertion order.
  Python integers are \<^typ>\<open>int\<close>, floats are rationals and \<open>fl\<close> rounds the result of an operation to the nearest double;
  NaN and infinities do not occur (a collected value that is one ends in \<open>OutsideModel\<close>, as do ISO week dates). An exception is \<open>Inl\<close>; the text of a reason is abbreviated where nothing reads it. The
  clock is an argument, read once per handler, collection or round. An \<open>await\<close> returns before the next one starts: collections of a round
  and groups of a tick run in sequence, each on its own target or group.

  \<^bold>\<open>Parameters.\<close> Hash functions, name resolution, environment variables, the remote services behind the HTTP client,
  the time zone database, generated identifiers, the summary provider and third-party plugins are arguments. The remote services answer a request in
  the light of all requests before it, so nothing is assumed about repeated answers.

  \<^bold>\<open>Loops.\<close> The loops of the union-find are \<^theory_text>\<open>partial_function (option)\<close>s, proved to return on every forest the
  program builds; every other loop is a recursion with a termination proof and without fuel. The number of queries for a
  ticket (15) is the source's own bound.

  \<^bold>\<open>Simplifications.\<close> Rows that tie in an \<open>ORDER BY\<close> come in insertion order, which PostgreSQL does not promise; an
  \<open>UPDATE\<close> leaves a row in its place. A clock a column default reads is the clock of the call. The constraints of the tables are
  part of the statements' model: a statement that would break one is an error and changes nothing. Naive and aware times are
  one type, so the \<open>TypeError\<close> of comparing them is absent; integers are never too large for a float. Degraded sources
  are listed in the order of the endpoints, not of completion. A signal is identified by its place in the list.

  \<^bold>\<open>Not modelled.\<close> The rest of \<open>_app.py\<close>, \<open>settings.py\<close> and \<open>main.py\<close> (start-up, shut-down, supervision
  of tasks), \<open>metrics.py\<close> and \<open>audit.py\<close> (written, never read), \<open>storage/connection.py\<close> (input and output), the probes
  \<open>/health\<close> and \<open>/ready\<close>, the endless timer loops, and the scripts under \<open>docker/\<close>.
\<close>

end
